(* ===== verification/Box_Prelude.thy ===== *)
theory Box_Prelude
  imports Main "HOL-Library.Word"
begin

text \<open>
  Shared vocabulary of the A3S Box verification library: results as sums, checked machine
  arithmetic, the operations of Rust strings and paths the sources use, and the generic facts on
  list search and in-place update that the component theories share.

  A Rust \<open>Result<T, E>\<close> is the sum \<open>'e + 'a\<close> (\<open>Inl\<close> is \<open>Err\<close>, \<open>Inr\<close> is \<open>Ok\<close>). Unsigned
  integers are words of their width. A Rust \<open>String\<close> is its UTF-8 byte sequence, a \<open>string\<close> of
  8-bit characters.
\<close>

section \<open>Collections of facts\<close>

named_theorems result_simps \<open>how results are built and taken apart\<close>
named_theorems lookup_simps \<open>lookups after an update\<close>

section \<open>Machine integers\<close>

type_synonym u8 = "8 word"
type_synonym u16 = "16 word"
type_synonym u32 = "32 word"
type_synonym u64 = "64 word"
type_synonym i32 = "32 word"
type_synonym i64 = "64 word"

text \<open>A floating-point value that the modelled code only stores: its IEEE-754 bit pattern.\<close>

type_synonym f64 = "64 word"

text \<open>A timestamp (\<open>DateTime<Utc>\<close>) is an integer count; the sources only store and copy it.\<close>

type_synonym datetime = int

definition checked_add :: "'a::len word \<Rightarrow> 'a word \<Rightarrow> 'a word option" where
  "checked_add a b = (if unat a + unat b < 2 ^ LENGTH('a) then Some (a + b) else None)"

definition checked_mul :: "'a::len word \<Rightarrow> 'a word \<Rightarrow> 'a word option" where
  "checked_mul a b = (if unat a * unat b < 2 ^ LENGTH('a) then Some (a * b) else None)"

lemma checked_add_SomeD:
  "checked_add a b = Some c \<Longrightarrow> c = a + b \<and> unat c = unat a + unat b"
  by (auto simp: checked_add_def unat_word_ariths split: if_splits)

lemma checked_add_unat: "checked_add a b = Some c \<Longrightarrow> unat c = unat a + unat b"
  by (simp add: checked_add_SomeD)

lemma checked_add_None_iff:
  "checked_add (a :: 'a::len word) b = None \<longleftrightarrow> 2 ^ LENGTH('a) \<le> unat a + unat b"
  by (auto simp: checked_add_def)

lemma checked_mul_None_iff:
  "checked_mul (a :: 'a::len word) b = None \<longleftrightarrow> 2 ^ LENGTH('a) \<le> unat a * unat b"
  by (auto simp: checked_mul_def)

lemma unat_bound: "unat (w :: 'a::len word) < 2 ^ LENGTH('a)"
  by (rule unsigned_less)

lemma word_succ_nonzero:
  assumes "unat (w :: 'a::len word) + 1 < 2 ^ LENGTH('a)"
  shows "w + 1 \<noteq> 0"
proof
  assume "w + 1 = 0"
  then have "unat (w + 1) = 0" by simp
  with assms show False by (simp add: unat_word_ariths)
qed

section \<open>Results\<close>

definition rbind :: "'e + 'a \<Rightarrow> ('a \<Rightarrow> 'e + 'b) \<Rightarrow> 'e + 'b" where
  "rbind m k = (case m of Inl e \<Rightarrow> Inl e | Inr x \<Rightarrow> k x)"

definition map_err :: "('e \<Rightarrow> 'f) \<Rightarrow> 'e + 'a \<Rightarrow> 'f + 'a" where
  "map_err g m = (case m of Inl e \<Rightarrow> Inl (g e) | Inr x \<Rightarrow> Inr x)"

definition ok_or :: "'e \<Rightarrow> 'a option \<Rightarrow> 'e + 'a" where
  "ok_or e o' = (case o' of None \<Rightarrow> Inl e | Some x \<Rightarrow> Inr x)"

lemma rbind_Inl [simp]: "rbind (Inl e) k = Inl e"
  by (simp add: rbind_def)

lemma rbind_Inr [simp]: "rbind (Inr x) k = k x"
  by (simp add: rbind_def)

lemma rbind_eq_Inr [result_simps]:
  "rbind m k = Inr y \<longleftrightarrow> (\<exists>x. m = Inr x \<and> k x = Inr y)"
  by (cases m) auto

lemma rbind_eq_Inl [result_simps]:
  "rbind m k = Inl e \<longleftrightarrow> m = Inl e \<or> (\<exists>x. m = Inr x \<and> k x = Inl e)"
  by (cases m) auto

lemma map_err_Inl [simp]: "map_err g (Inl e) = Inl (g e)"
  by (simp add: map_err_def)

lemma map_err_Inr [simp]: "map_err g (Inr x) = Inr x"
  by (simp add: map_err_def)

lemma map_err_eq_Inr [result_simps]: "map_err g m = Inr x \<longleftrightarrow> m = Inr x"
  by (cases m) auto

lemma map_err_eq_Inl [result_simps]: "map_err g m = Inl f \<longleftrightarrow> (\<exists>e. m = Inl e \<and> f = g e)"
  by (cases m) auto

lemma ok_or_None [simp]: "ok_or e None = Inl e"
  by (simp add: ok_or_def)

lemma ok_or_Some [simp]: "ok_or e (Some x) = Inr x"
  by (simp add: ok_or_def)

lemma ok_or_eq_Inr [result_simps]: "ok_or e m = Inr x \<longleftrightarrow> m = Some x"
  by (cases m) auto

lemma ok_or_eq_Inl [result_simps]: "ok_or e m = Inl f \<longleftrightarrow> m = None \<and> f = e"
  by (cases m) auto

section \<open>Strings\<close>

text \<open>
  \<open>ws_len\<close> is the byte length of the Unicode white-space character a string starts with (0 when it
  starts with none): the characters of Rust's \<open>char::is_whitespace\<close> in their UTF-8 encoding.
  \<open>ws_len_rev\<close> is the same for the reversed bytes of a string, that is for its last character.
\<close>

definition ws1 :: "nat \<Rightarrow> bool" where
  "ws1 b \<longleftrightarrow> (9 \<le> b \<and> b \<le> 13) \<or> b = 32"

definition ws2 :: "nat \<Rightarrow> nat \<Rightarrow> bool" where
  "ws2 b c \<longleftrightarrow> b = 194 \<and> (c = 133 \<or> c = 160)"

definition ws3 :: "nat \<Rightarrow> nat \<Rightarrow> nat \<Rightarrow> bool" where
  "ws3 b c d \<longleftrightarrow>
     (b = 225 \<and> c = 154 \<and> d = 128) \<or>
     (b = 226 \<and> c = 128 \<and> ((128 \<le> d \<and> d \<le> 138) \<or> d = 168 \<or> d = 169 \<or> d = 175)) \<or>
     (b = 226 \<and> c = 129 \<and> d = 159) \<or>
     (b = 227 \<and> c = 128 \<and> d = 128)"

fun ws_len :: "string \<Rightarrow> nat" where
  "ws_len [] = 0"
| "ws_len [b] = (if ws1 (of_char b) then 1 else 0)"
| "ws_len [b, c] =
     (if ws1 (of_char b) then 1 else if ws2 (of_char b) (of_char c) then 2 else 0)"
| "ws_len (b # c # d # s) =
     (if ws1 (of_char b) then 1
      else if ws2 (of_char b) (of_char c) then 2
      else if ws3 (of_char b) (of_char c) (of_char d) then 3 else 0)"

fun ws_len_rev :: "string \<Rightarrow> nat" where
  "ws_len_rev [] = 0"
| "ws_len_rev [b] = (if ws1 (of_char b) then 1 else 0)"
| "ws_len_rev [c, b] =
     (if ws1 (of_char c) then 1 else if ws2 (of_char b) (of_char c) then 2 else 0)"
| "ws_len_rev (d # c # b # s) =
     (if ws1 (of_char d) then 1
      else if ws2 (of_char c) (of_char d) then 2
      else if ws3 (of_char b) (of_char c) (of_char d) then 3 else 0)"

function trim_start :: "string \<Rightarrow> string" where
  "trim_start s =
     (if ws_len s = 0 \<or> s = [] then s else trim_start (drop (ws_len s) s))"
  by pat_completeness auto
termination
  by (relation "measure length") auto

function trim_start_rev :: "string \<Rightarrow> string" where
  "trim_start_rev s =
     (if ws_len_rev s = 0 \<or> s = [] then s else trim_start_rev (drop (ws_len_rev s) s))"
  by pat_completeness auto
termination
  by (relation "measure length") auto

declare trim_start.simps [simp del] trim_start_rev.simps [simp del]

definition trim_end :: "string \<Rightarrow> string" where
  "trim_end s = rev (trim_start_rev (rev s))"

definition trim :: "string \<Rightarrow> string" where
  "trim s = trim_end (trim_start s)"

lemma trim_start_Nil [simp]: "trim_start [] = []"
  by (simp add: trim_start.simps)

lemma trim_start_rev_Nil [simp]: "trim_start_rev [] = []"
  by (simp add: trim_start_rev.simps)

lemma trim_Nil [simp]: "trim [] = []"
  by (simp add: trim_def trim_end_def)

lemma ws_len_prefix: "ws_len (p @ q) = 0 \<Longrightarrow> ws_len p = 0"
  by (cases p rule: ws_len.cases; cases q rule: ws_len.cases) (auto split: if_splits)

lemma ws_len_trim_start [simp]: "ws_len (trim_start s) = 0"
  by (induction s rule: trim_start.induct) (subst trim_start.simps, auto)

lemma ws_len_rev_trim [simp]: "ws_len_rev (trim_start_rev s) = 0"
  by (induction s rule: trim_start_rev.induct) (subst trim_start_rev.simps, auto)

lemma trim_start_rev_suffix: "\<exists>q. s = q @ trim_start_rev s"
proof (induction s rule: trim_start_rev.induct)
  case (1 s)
  show ?case
  proof (cases "ws_len_rev s = 0 \<or> s = []")
    case True
    then show ?thesis by (simp add: trim_start_rev.simps)
  next
    case False
    with 1 obtain q where "drop (ws_len_rev s) s = q @ trim_start_rev (drop (ws_len_rev s) s)" by blast
    then have "s = (take (ws_len_rev s) s @ q) @ trim_start_rev (drop (ws_len_rev s) s)"
      by (metis append.assoc append_take_drop_id)
    then show ?thesis using False by (metis trim_start_rev.simps)
  qed
qed

lemma trim_edges: "ws_len (trim s) = 0" "ws_len_rev (rev (trim s)) = 0"
proof -
  obtain q where "rev (trim_start s) = q @ trim_start_rev (rev (trim_start s))"
    using trim_start_rev_suffix by blast
  then have "trim_start s = trim s @ rev q"
    by (metis rev_append rev_rev_ident trim_def trim_end_def)
  then show "ws_len (trim s) = 0" using ws_len_prefix ws_len_trim_start by metis
  show "ws_len_rev (rev (trim s)) = 0" by (simp add: trim_def trim_end_def)
qed

lemma trim_unchanged: "ws_len s = 0 \<Longrightarrow> ws_len_rev (rev s) = 0 \<Longrightarrow> trim s = s"
  by (simp add: trim_def trim_end_def trim_start.simps [of s] trim_start_rev.simps [of "rev s"])

definition lower_char :: "char \<Rightarrow> char" where
  "lower_char c =
     (let n = of_char c :: nat in if 65 \<le> n \<and> n \<le> 90 then char_of (n + 32) else c)"

definition upper_char :: "char \<Rightarrow> char" where
  "upper_char c =
     (let n = of_char c :: nat in if 97 \<le> n \<and> n \<le> 122 then char_of (n - 32) else c)"

definition to_ascii_uppercase :: "string \<Rightarrow> string" where
  "to_ascii_uppercase s = map upper_char s"

definition eq_ignore_ascii_case :: "string \<Rightarrow> string \<Rightarrow> bool" where
  "eq_ignore_ascii_case s t \<longleftrightarrow> map lower_char s = map lower_char t"

lemma eq_ignore_ascii_case_refl [simp]: "eq_ignore_ascii_case s s"
  by (simp add: eq_ignore_ascii_case_def)

definition is_ascii_alphanumeric :: "char \<Rightarrow> bool" where
  "is_ascii_alphanumeric c \<longleftrightarrow>
     (let n = of_char c :: nat in (48 \<le> n \<and> n \<le> 57) \<or> (65 \<le> n \<and> n \<le> 90) \<or> (97 \<le> n \<and> n \<le> 122))"

fun strip_prefix :: "string \<Rightarrow> string \<Rightarrow> string option" where
  "strip_prefix [] s = Some s"
| "strip_prefix (p # ps) [] = None"
| "strip_prefix (p # ps) (c # s) = (if p = c then strip_prefix ps s else None)"

lemma strip_prefix_Some: "strip_prefix p s = Some t \<longleftrightarrow> s = p @ t"
  by (induction p s rule: strip_prefix.induct) auto

fun split_once :: "char \<Rightarrow> string \<Rightarrow> (string \<times> string) option" where
  "split_once d [] = None"
| "split_once d (c # s) =
     (if c = d then Some ([], s) else map_option (\<lambda>(a, b). (c # a, b)) (split_once d s))"

lemma split_once_None_iff: "split_once d s = None \<longleftrightarrow> d \<notin> set s"
  by (induction s) auto

lemma split_once_SomeD:
  "split_once d s = Some (a, b) \<Longrightarrow> s = a @ d # b \<and> d \<notin> set a"
  by (induction s arbitrary: a b) (auto split: if_splits)

text \<open>\<open>str::split(c)\<close> yields the pieces between the separators, in order.\<close>

fun split_on :: "char \<Rightarrow> string \<Rightarrow> string list" where
  "split_on d [] = [[]]"
| "split_on d (c # s) =
     (if c = d then [] # split_on d s
      else (case split_on d s of [] \<Rightarrow> [[c]] | p # ps \<Rightarrow> (c # p) # ps))"

fun join_with :: "string \<Rightarrow> string list \<Rightarrow> string" where
  "join_with sep [] = []"
| "join_with sep [s] = s"
| "join_with sep (s # t # ts) = s @ sep @ join_with sep (t # ts)"

lemma split_on_not_Nil [simp]: "split_on d s \<noteq> []"
  by (induction s) (auto split: list.splits)

lemma split_on_no_sep: "d \<notin> set s \<Longrightarrow> split_on d s = [s]"
  by (induction s) auto

lemma split_on_append_sep:
  "d \<notin> set a \<Longrightarrow> split_on d (a @ d # b) = a # split_on d b"
  by (induction a) auto

text \<open>A text between single quotes, as the message formats write it.\<close>

definition sq :: "string \<Rightarrow> string" where
  "sq s = CHR 0x27 # s @ [CHR 0x27]"

fun show_nat :: "nat \<Rightarrow> string" where
  "show_nat n =
     (if n < 10 then [char_of (48 + n)] else show_nat (n div 10) @ [char_of (48 + n mod 10)])"

declare show_nat.simps [simp del]

definition show_word :: "'a::len word \<Rightarrow> string" where
  "show_word w = show_nat (unat w)"

definition show_i32 :: "i32 \<Rightarrow> string" where
  "show_i32 w =
     (if sint w < 0 then CHR ''-'' # show_nat (nat (- sint w)) else show_nat (nat (sint w)))"

text \<open>\<open>Path::join\<close>: an absolute argument replaces the base.\<close>

definition path_join :: "string \<Rightarrow> string \<Rightarrow> string" where
  "path_join base p =
     (if p \<noteq> [] \<and> hd p = CHR ''/'' then p
      else if base = [] then p
      else if last base = CHR ''/'' then base @ p
      else base @ ''/'' @ p)"

section \<open>Search and in-place update on lists\<close>

text \<open>\<open>iter_mut().find(p)\<close> followed by an assignment: the first match is replaced.\<close>

fun update_first :: "('a \<Rightarrow> bool) \<Rightarrow> ('a \<Rightarrow> 'a) \<Rightarrow> 'a list \<Rightarrow> 'a list" where
  "update_first p f [] = []"
| "update_first p f (x # xs) = (if p x then f x # xs else x # update_first p f xs)"

lemma length_update_first [simp]: "length (update_first p f xs) = length xs"
  by (induction xs) auto

lemma map_update_first:
  assumes "\<And>x. p x \<Longrightarrow> g (f x) = g x"
  shows "map g (update_first p f xs) = map g xs"
  using assms by (induction xs) auto

lemma find_update_first [lookup_simps]:
  assumes "\<And>x. p x \<Longrightarrow> p (f x)"
  shows "find p (update_first p f xs) = map_option f (find p xs)"
  using assms by (induction xs) auto

lemma find_update_first_other [lookup_simps]:
  assumes "\<And>x. p x \<Longrightarrow> \<not> q x \<and> \<not> q (f x)"
  shows "find q (update_first p f xs) = find q xs"
  using assms by (induction xs) auto

lemma update_first_no_match: "find p xs = None \<Longrightarrow> update_first p f xs = xs"
  by (induction xs) (auto split: if_splits)

lemma set_update_first:
  "x \<in> set (update_first p f xs) \<Longrightarrow> x \<in> set xs \<or> (\<exists>y. find p xs = Some y \<and> x = f y)"
  by (induction xs) (auto split: if_splits)

lemma update_first_split:
  "find p xs = Some x \<Longrightarrow>
     \<exists>pre post. xs = pre @ x # post \<and> (\<forall>y \<in> set pre. \<not> p y) \<and>
       (\<forall>f. update_first p f xs = pre @ f x # post)"
proof (induction xs)
  case Nil
  then show ?case by simp
next
  case (Cons y ys)
  show ?case
  proof (cases "p y")
    case True
    with Cons.prems have "x = y" by simp
    with True show ?thesis by (intro exI [of _ "[]"] exI [of _ ys]) simp
  next
    case False
    with Cons.prems have "find p ys = Some x" by simp
    from Cons.IH [OF this] obtain pre post where
      "ys = pre @ x # post" "\<forall>z \<in> set pre. \<not> p z" "\<forall>f. update_first p f ys = pre @ f x # post"
      by blast
    with False show ?thesis by (intro exI [of _ "y # pre"] exI [of _ post]) simp
  qed
qed

lemma find_SomeD: "find p xs = Some x \<Longrightarrow> x \<in> set xs \<and> p x"
  by (auto simp: find_Some_iff)

lemma find_None_iff_all: "find p xs = None \<longleftrightarrow> (\<forall>x \<in> set xs. \<not> p x)"
  by (auto simp: find_None_iff)

lemma find_append_None: "find p xs = None \<Longrightarrow> find p (xs @ ys) = find p ys"
  by (induction xs) (auto split: if_splits)

lemma find_append_Some: "find p xs = Some x \<Longrightarrow> find p (xs @ ys) = Some x"
  by (induction xs) (auto split: if_splits)

lemma find_filter_other:
  assumes "\<And>x. p x \<Longrightarrow> q x"
  shows "find p (filter q xs) = find p xs"
  using assms by (induction xs) auto

lemma distinct_map_unique:
  "distinct (map g xs) \<Longrightarrow> x \<in> set xs \<Longrightarrow> y \<in> set xs \<Longrightarrow> g x = g y \<Longrightarrow> x = y"
  by (induction xs) (auto simp: image_iff)

lemma find_key_unique:
  assumes "distinct (map g xs)" and "x \<in> set xs"
  shows "find (\<lambda>y. g y = g x) xs = Some x"
  using assms by (induction xs) (auto simp: image_iff split: if_splits)

end
