(* ===== verification/Box_Config.thy ===== *)
theory Box_Config
  imports Box_Prelude
begin

text \<open>
  The configuration types of \<open>core/src/config.rs\<close>, \<open>core/src/log.rs\<close> and the network mode of
  \<open>core/src/network.rs\<close>, field by field, with their \<open>Default\<close> values. Field names carry a prefix
  for the struct (\<open>cfg_\<close> for \<open>BoxConfig\<close>, \<open>res_\<close> for \<open>ResourceConfig\<close>, and so on). Host paths are
  strings; the platform is Linux or macOS (\<open>DEFAULT_VCPUS\<close> is 2).
\<close>

datatype execution_isolation = Microvm | Sandbox

definition is_sandbox :: "execution_isolation \<Rightarrow> bool" where
  "is_sandbox i = (case i of Sandbox \<Rightarrow> True | Microvm \<Rightarrow> False)"

datatype sev_snp_generation = Milan | Genoa

definition sev_snp_generation_as_str :: "sev_snp_generation \<Rightarrow> string" where
  "sev_snp_generation_as_str g = (case g of Milan \<Rightarrow> ''milan'' | Genoa \<Rightarrow> ''genoa'')"

datatype tee_config =
    TeeNone
  | SevSnp (tee_workload_id: string) (tee_generation: sev_snp_generation) (tee_simulate: bool)
  | Tdx (tee_workload_id: string) (tee_simulate: bool)

record cache_config =
  cache_enabled :: bool
  cache_dir :: "string option"
  cache_max_rootfs_entries :: u64
  cache_max_cache_bytes :: u64

definition default_cache_config :: cache_config where
  "default_cache_config =
     \<lparr>cache_enabled = True, cache_dir = None, cache_max_rootfs_entries = 10,
      cache_max_cache_bytes = 10 * 1024 * 1024 * 1024\<rparr>"

record scaling_policy =
  sp_enabled :: bool
  sp_scale_up_threshold :: f64
  sp_scale_down_threshold :: f64
  sp_max_min_idle :: u64
  sp_cooldown_secs :: u64
  sp_window_secs :: u64

text \<open>The thresholds 0.3 and 0.05 as their IEEE-754 double bit patterns.\<close>

definition default_scaling_policy :: scaling_policy where
  "default_scaling_policy =
     \<lparr>sp_enabled = False, sp_scale_up_threshold = 0x3FD3333333333333,
      sp_scale_down_threshold = 0x3FA999999999999A, sp_max_min_idle = 0,
      sp_cooldown_secs = 60, sp_window_secs = 120\<rparr>"

record pool_config =
  pool_enabled :: bool
  pool_min_idle :: u64
  pool_max_size :: u64
  pool_idle_ttl_secs :: u64
  pool_scaling :: scaling_policy
  pool_snapshot_fork :: bool

definition default_pool_config :: pool_config where
  "default_pool_config =
     \<lparr>pool_enabled = False, pool_min_idle = 1, pool_max_size = 5, pool_idle_ttl_secs = 300,
      pool_scaling = default_scaling_policy, pool_snapshot_fork = False\<rparr>"

record resource_limits =
  lim_pids_limit :: "u64 option"
  lim_cpuset_cpus :: "string option"
  lim_ulimits :: "string list"
  lim_cpu_shares :: "u64 option"
  lim_cpu_quota :: "i64 option"
  lim_cpu_period :: "u64 option"
  lim_memory_reservation :: "u64 option"
  lim_memory_swap :: "i64 option"
  lim_sandbox_memory_limit_bytes :: "u64 option"

definition default_resource_limits :: resource_limits where
  "default_resource_limits =
     \<lparr>lim_pids_limit = None, lim_cpuset_cpus = None, lim_ulimits = [], lim_cpu_shares = None,
      lim_cpu_quota = None, lim_cpu_period = None, lim_memory_reservation = None,
      lim_memory_swap = None, lim_sandbox_memory_limit_bytes = None\<rparr>"

record resource_config =
  res_vcpus :: u32
  res_memory_mb :: u32
  res_disk_mb :: u32
  res_timeout :: u64

definition DEFAULT_VCPUS :: u32 where
  "DEFAULT_VCPUS = 2"

definition MAX_VCPUS :: u32 where
  "MAX_VCPUS = 255"

definition default_resource_config :: resource_config where
  "default_resource_config =
     \<lparr>res_vcpus = DEFAULT_VCPUS, res_memory_mb = 1024, res_disk_mb = 4096, res_timeout = 3600\<rparr>"

definition validate_vcpu_count :: "u32 \<Rightarrow> string + unit" where
  "validate_vcpu_count vcpus =
     (if vcpus = 0 then Inl ''virtual CPU count must be at least 1''
      else if vcpus > MAX_VCPUS then
        Inl (''virtual CPU count '' @ show_word vcpus @ '' exceeds the maximum of '' @
             show_word MAX_VCPUS)
      else Inr ())"

datatype log_level = Debug | Info | Warn | Error

record sidecar_config =
  sc_image :: string
  sc_vsock_port :: u32
  sc_env :: "(string \<times> string) list"

datatype network_mode = Tsi | Bridge (bridge_network: string) | NetworkNone

definition network_mode_display :: "network_mode \<Rightarrow> string" where
  "network_mode_display m =
     (case m of Tsi \<Rightarrow> ''tsi'' | Bridge network \<Rightarrow> ''bridge:'' @ network | NetworkNone \<Rightarrow> ''none'')"

record box_config =
  cfg_isolation :: execution_isolation
  cfg_image :: string
  cfg_workspace :: string
  cfg_resources :: resource_config
  cfg_log_level :: log_level
  cfg_debug_grpc :: bool
  cfg_tee :: tee_config
  cfg_cmd :: "string list"
  cfg_stdin_open :: bool
  cfg_entrypoint_override :: "string list option"
  cfg_user :: "string option"
  cfg_workdir :: "string option"
  cfg_hostname :: "string option"
  cfg_volumes :: "string list"
  cfg_virtiofs_cache :: "string option"
  cfg_extra_env :: "(string \<times> string) list"
  cfg_cache :: cache_config
  cfg_pool :: pool_config
  cfg_deferred_main :: bool
  cfg_ksm :: bool
  cfg_snapshot_mem_file :: "string option"
  cfg_snapshot_sock :: "string option"
  cfg_restore_from :: "string option"
  cfg_port_map :: "string list"
  cfg_dns :: "string list"
  cfg_add_hosts :: "string list"
  cfg_network :: network_mode
  cfg_tmpfs :: "string list"
  cfg_resource_limits :: resource_limits
  cfg_cap_add :: "string list"
  cfg_cap_drop :: "string list"
  cfg_security_opt :: "string list"
  cfg_sysctls :: "(string \<times> string) list"
  cfg_privileged :: bool
  cfg_read_only :: bool
  cfg_sidecar :: "sidecar_config option"
  cfg_persistent :: bool

definition default_box_config :: box_config where
  "default_box_config =
     \<lparr>cfg_isolation = Microvm, cfg_image = [], cfg_workspace = [],
      cfg_resources = default_resource_config, cfg_log_level = Info, cfg_debug_grpc = False,
      cfg_tee = TeeNone, cfg_cmd = [], cfg_stdin_open = False, cfg_entrypoint_override = None,
      cfg_user = None, cfg_workdir = None, cfg_hostname = None, cfg_volumes = [],
      cfg_virtiofs_cache = None, cfg_extra_env = [], cfg_cache = default_cache_config,
      cfg_pool = default_pool_config, cfg_deferred_main = False, cfg_ksm = False,
      cfg_snapshot_mem_file = None, cfg_snapshot_sock = None, cfg_restore_from = None,
      cfg_port_map = [], cfg_dns = [], cfg_add_hosts = [], cfg_network = Tsi, cfg_tmpfs = [],
      cfg_resource_limits = default_resource_limits, cfg_cap_add = [], cfg_cap_drop = [],
      cfg_security_opt = [], cfg_sysctls = [], cfg_privileged = False, cfg_read_only = False,
      cfg_sidecar = None, cfg_persistent = False\<rparr>"

section \<open>Logging configuration and errors\<close>

datatype log_driver = JsonFile | Syslog | LogNone

record log_config =
  log_driver :: log_driver
  log_options :: "string \<rightharpoonup> string"

definition default_log_config :: log_config where
  "default_log_config = \<lparr>log_driver = JsonFile, log_options = Map.empty\<rparr>"

text \<open>
  \<open>core/src/error.rs\<close>: the error type and its display. The I/O variant carries the text of the
  operating system's error.
\<close>

datatype box_error =
    BoxBootError string "string option"
  | TimeoutError string
  | BoxIoError string
  | SerializationError string
  | ConfigError string
  | TeeConfig string
  | TeeNotSupported string
  | AttestationError string
  | OciImageError string
  | RegistryError string string
  | CacheError string
  | PoolError string
  | ExecError string
  | BuildError string
  | NetworkError string
  | StateError string
  | AuditError string
  | ResizeError string
  | OtherError string

definition box_error_to_string :: "box_error \<Rightarrow> string" where
  "box_error_to_string e =
     (case e of
        BoxBootError m hint \<Rightarrow> ''VM boot failed: '' @ m @
          (case hint of None \<Rightarrow> [] | Some h \<Rightarrow> '' (hint: '' @ h @ '')'')
      | TimeoutError m \<Rightarrow> ''Timeout: '' @ m
      | BoxIoError m \<Rightarrow> ''I/O error: '' @ m
      | SerializationError m \<Rightarrow> ''Serialization error: '' @ m
      | ConfigError m \<Rightarrow> ''Configuration error: '' @ m
      | TeeConfig m \<Rightarrow> ''TEE configuration error: '' @ m
      | TeeNotSupported m \<Rightarrow> ''TEE hardware not available: '' @ m
      | AttestationError m \<Rightarrow> ''Attestation error: '' @ m
      | OciImageError m \<Rightarrow> ''OCI image error: '' @ m
      | RegistryError registry m \<Rightarrow> ''Registry error: '' @ registry @ '' - '' @ m
      | CacheError m \<Rightarrow> ''Cache error: '' @ m
      | PoolError m \<Rightarrow> ''Pool error: '' @ m
      | ExecError m \<Rightarrow> ''Exec error: '' @ m
      | BuildError m \<Rightarrow> ''Build error: '' @ m
      | NetworkError m \<Rightarrow> ''Network error: '' @ m
      | StateError m \<Rightarrow> ''VM state error: '' @ m
      | AuditError m \<Rightarrow> ''Audit error: '' @ m
      | ResizeError m \<Rightarrow> ''Resize error: '' @ m
      | OtherError m \<Rightarrow> m)"

section \<open>Facts\<close>

lemma is_sandbox_iff [simp]: "is_sandbox i \<longleftrightarrow> i = Sandbox"
  by (cases i) (simp_all add: is_sandbox_def)

lemma validate_vcpu_count_iff:
  "validate_vcpu_count v = Inr () \<longleftrightarrow> 1 \<le> unat v \<and> unat v \<le> 255"
  by (auto simp: validate_vcpu_count_def MAX_VCPUS_def word_less_nat_alt unat_eq_0
        dest: unat_gt_0 [THEN iffD2])

lemma default_vcpus_valid: "validate_vcpu_count (res_vcpus default_resource_config) = Inr ()"
  by (simp add: validate_vcpu_count_iff default_resource_config_def DEFAULT_VCPUS_def)

end
