(* ===== verification/Execution_Plan.thy ===== *)
theory Execution_Plan
  imports Box_Config
begin

text \<open>
  Backend resolution, \<open>core/src/execution.rs\<close>: which backend and isolation class a box
  configuration selects, and which configurations each backend refuses. The functions are pure in
  the source as well; error texts are the source's.
\<close>

section \<open>Data\<close>

datatype execution_backend = Krun | Crun

datatype isolation_class = HardwareVm | SharedKernel

record resolved_execution_plan =
  plan_requested_isolation :: execution_isolation
  plan_backend :: execution_backend
  plan_isolation_class :: isolation_class
  plan_required_controls :: "string list"

definition SANDBOX_REQUIRED_CONTROLS :: "string list" where
  "SANDBOX_REQUIRED_CONTROLS =
     [''user-namespace'', ''mount-namespace'', ''pid-namespace'', ''ipc-namespace'',
      ''uts-namespace'', ''network-namespace'', ''seccomp'', ''capability-bounding-set'',
      ''no-new-privileges'', ''cgroup-v2'']"

definition SANDBOX_ALLOWED_ADDED_CAPABILITIES :: "string list" where
  "SANDBOX_ALLOWED_ADDED_CAPABILITIES =
     [''AUDIT_WRITE'', ''CHOWN'', ''DAC_OVERRIDE'', ''FOWNER'', ''FSETID'', ''KILL'', ''MKNOD'',
      ''NET_BIND_SERVICE'', ''SETFCAP'', ''SETGID'', ''SETPCAP'', ''SETUID'', ''SYS_CHROOT'']"

datatype security_backend = SecMicrovm | SecSandbox

definition security_backend_label :: "security_backend \<Rightarrow> string" where
  "security_backend_label b = (case b of SecMicrovm \<Rightarrow> ''microVM'' | SecSandbox \<Rightarrow> ''sandbox'')"

section \<open>Operations\<close>

definition unsupported_security_option :: "security_backend \<Rightarrow> string \<Rightarrow> box_error" where
  "unsupported_security_option backend option =
     ConfigError (security_backend_label backend @ '' isolation does not support security option '' @ sq option)"

definition normalize_capability :: "string \<Rightarrow> string" where
  "normalize_capability capability =
     (let normalized = to_ascii_uppercase (trim capability)
      in case strip_prefix ''CAP_'' normalized of Some s \<Rightarrow> s | None \<Rightarrow> normalized)"

text \<open>One round of the loop over the security options: \<open>Inr ()\<close> is \<open>continue\<close>.\<close>

definition check_security_option :: "security_backend \<Rightarrow> string \<Rightarrow> box_error + unit" where
  "check_security_option backend raw_option =
     (let option = trim raw_option; label = security_backend_label backend in
      if option = [] then
        Inl (ConfigError (label @ '' isolation does not accept an empty security option''))
      else if eq_ignore_ascii_case option ''no-new-privileges'' then Inr ()
      else (case split_once CHR ''='' option of
        None \<Rightarrow> Inl (unsupported_security_option backend option)
      | Some (key0, value0) \<Rightarrow>
          (let key = trim key0; value = trim value0 in
           if eq_ignore_ascii_case key ''seccomp'' then
             (if eq_ignore_ascii_case value ''default'' then Inr ()
              else if eq_ignore_ascii_case value ''unconfined'' then
                (if backend = SecMicrovm then Inr ()
                 else Inl (ConfigError ''sandbox isolation does not support unconfined seccomp''))
              else if value = [] then
                Inl (ConfigError (label @ '' isolation requires a seccomp mode''))
              else Inl (ConfigError (label @
                '' isolation does not support custom seccomp profile '' @ sq value)))
           else if eq_ignore_ascii_case key ''no-new-privileges'' then
             (if eq_ignore_ascii_case value ''true'' then Inr ()
              else if eq_ignore_ascii_case value ''false'' then
                (if backend = SecMicrovm then Inr ()
                 else Inl (ConfigError
                   ''sandbox isolation requires no-new-privileges and cannot disable it''))
              else Inl (ConfigError (label @
                '' isolation requires no-new-privileges to be true or false, got '' @ sq value)))
           else if eq_ignore_ascii_case key ''apparmor'' then
             Inl (ConfigError (label @
               '' isolation does not support AppArmor security option '' @ sq option))
           else if eq_ignore_ascii_case key ''label'' then
             Inl (ConfigError (label @
               '' isolation does not support SELinux label security option '' @ sq option))
           else Inl (unsupported_security_option backend option))))"

fun check_security_options :: "security_backend \<Rightarrow> string list \<Rightarrow> box_error + unit" where
  "check_security_options backend [] = Inr ()"
| "check_security_options backend (raw_option # rest) =
     rbind (check_security_option backend raw_option) (\<lambda>_. check_security_options backend rest)"

definition validate_security_options :: "box_config \<Rightarrow> security_backend \<Rightarrow> box_error + unit" where
  "validate_security_options config backend =
     check_security_options backend (cfg_security_opt config)"

definition validate_microvm_compatibility :: "box_config \<Rightarrow> box_error + unit" where
  "validate_microvm_compatibility config =
     (if cfg_isolation config \<noteq> Microvm then Inr ()
      else validate_security_options config SecMicrovm)"

text \<open>The \<open>unsupported\<close> vector that \<open>validate_sandbox_compatibility\<close> accumulates.\<close>

definition sandbox_unsupported :: "box_config \<Rightarrow> string list" where
  "sandbox_unsupported config =
     (if cfg_tee config \<noteq> TeeNone then [''TEE and attestation''] else []) @
     (if pool_enabled (cfg_pool config) \<or> pool_snapshot_fork (cfg_pool config)
      then [''warm pools and snapshot-fork''] else []) @
     (if cfg_deferred_main config then [''deferred main execution''] else []) @
     (if cfg_ksm config then [''KSM''] else []) @
     (if cfg_snapshot_mem_file config \<noteq> None \<or> cfg_snapshot_sock config \<noteq> None \<or>
         cfg_restore_from config \<noteq> None then [''VM snapshots and restore''] else []) @
     (if cfg_privileged config then [''privileged mode''] else []) @
     (if cfg_sidecar config \<noteq> None then [''vsock sidecars''] else []) @
     (if cfg_port_map config \<noteq> [] then [''published ports''] else []) @
     (if is_Bridge (cfg_network config) then [''named bridge networking''] else []) @
     (if cfg_sysctls config \<noteq> [] then [''custom sysctls''] else [])"

definition sandbox_disallowed_capabilities :: "box_config \<Rightarrow> string list" where
  "sandbox_disallowed_capabilities config =
     filter (\<lambda>capability. capability \<notin> set SANDBOX_ALLOWED_ADDED_CAPABILITIES)
       (map normalize_capability (cfg_cap_add config))"

definition validate_sandbox_compatibility :: "box_config \<Rightarrow> box_error + unit" where
  "validate_sandbox_compatibility config =
     (if \<not> is_sandbox (cfg_isolation config) then Inr ()
      else rbind (validate_security_options config SecSandbox) (\<lambda>_.
        let unsupported = sandbox_unsupported config;
            disallowed_capabilities = sandbox_disallowed_capabilities config in
        if disallowed_capabilities \<noteq> [] then
          Inl (ConfigError
            (''sandbox isolation rejects added capabilities outside its allowlist: '' @
             join_with '', '' disallowed_capabilities))
        else if unsupported = [] then Inr ()
        else Inl (ConfigError
            (''sandbox isolation does not support: '' @ join_with '', '' unsupported))))"

definition resolve_execution :: "box_config \<Rightarrow> box_error + resolved_execution_plan" where
  "resolve_execution config =
     (case cfg_isolation config of
        Microvm \<Rightarrow> rbind (validate_microvm_compatibility config) (\<lambda>_.
          Inr \<lparr>plan_requested_isolation = Microvm, plan_backend = Krun,
               plan_isolation_class = HardwareVm, plan_required_controls = []\<rparr>)
      | Sandbox \<Rightarrow> rbind (validate_sandbox_compatibility config) (\<lambda>_.
          Inr \<lparr>plan_requested_isolation = Sandbox, plan_backend = Crun,
               plan_isolation_class = SharedKernel,
               plan_required_controls = SANDBOX_REQUIRED_CONTROLS\<rparr>))"

section \<open>What the security-option check accepts\<close>

lemma check_security_options_iff:
  "check_security_options b opts = Inr () \<longleftrightarrow>
     (\<forall>raw \<in> set opts. check_security_option b raw = Inr ())"
  by (induction opts) (auto simp: result_simps)

lemma check_security_options_stop:
  "check_security_options b opts = Inl e \<Longrightarrow>
     \<exists>raw \<in> set opts. check_security_option b raw = Inl e"
  by (induction opts) (auto simp: result_simps)

text \<open>An option the sandbox accepts is accepted by the MicroVM backend too.\<close>

lemma check_security_option_sandbox_microvm:
  "check_security_option SecSandbox raw = Inr () \<Longrightarrow> check_security_option SecMicrovm raw = Inr ()"
  by (auto simp: check_security_option_def Let_def split: if_splits option.splits prod.splits)

lemma check_security_options_sandbox_microvm:
  "check_security_options SecSandbox opts = Inr () \<Longrightarrow>
     check_security_options SecMicrovm opts = Inr ()"
  by (simp add: check_security_options_iff check_security_option_sandbox_microvm)

text \<open>The options that weaken the sandbox, after trimming and up to ASCII case.\<close>

definition weakens_sandbox :: "string \<Rightarrow> bool" where
  "weakens_sandbox raw \<longleftrightarrow>
     (case split_once CHR ''='' (trim raw) of
        None \<Rightarrow> False
      | Some (k, v) \<Rightarrow>
          (eq_ignore_ascii_case (trim k) ''seccomp'' \<and>
             eq_ignore_ascii_case (trim v) ''unconfined'') \<or>
          (eq_ignore_ascii_case (trim k) ''no-new-privileges'' \<and>
             eq_ignore_ascii_case (trim v) ''false''))"

lemma eq_ignore_ascii_case_sym: "eq_ignore_ascii_case s t \<Longrightarrow> eq_ignore_ascii_case t s"
  by (simp add: eq_ignore_ascii_case_def)

lemma eq_ignore_ascii_case_trans:
  "eq_ignore_ascii_case s t \<Longrightarrow> eq_ignore_ascii_case s u \<Longrightarrow> eq_ignore_ascii_case t u"
  by (simp add: eq_ignore_ascii_case_def)

lemma weakens_not_bare_flag:
  assumes "weakens_sandbox raw"
  shows "\<not> eq_ignore_ascii_case (trim raw) ''no-new-privileges''"
proof
  assume eq: "eq_ignore_ascii_case (trim raw) ''no-new-privileges''"
  from assms obtain k v where "split_once CHR ''='' (trim raw) = Some (k, v)"
    by (auto simp: weakens_sandbox_def split: option.splits)
  then have "CHR ''='' \<in> set (trim raw)"
    by (metis option.distinct(1) split_once_None_iff)
  then have "lower_char CHR ''='' \<in> set (map lower_char (trim raw))"
    by simp
  with eq have "lower_char CHR ''='' \<in> set (map lower_char ''no-new-privileges'')"
    by (simp only: eq_ignore_ascii_case_def)
  then show False by (simp add: lower_char_def Let_def)
qed

lemma sandbox_refuses_weakening:
  assumes "weakens_sandbox raw"
  shows "check_security_option SecSandbox raw \<noteq> Inr ()"
proof -
  from assms obtain k v where kv: "split_once CHR ''='' (trim raw) = Some (k, v)"
    and w: "eq_ignore_ascii_case (trim k) ''seccomp'' \<and> eq_ignore_ascii_case (trim v) ''unconfined'' \<or>
      eq_ignore_ascii_case (trim k) ''no-new-privileges'' \<and> eq_ignore_ascii_case (trim v) ''false''"
    by (auto simp: weakens_sandbox_def split: option.splits)
  have n1: "\<not> eq_ignore_ascii_case (trim v) ''default''"
    if "eq_ignore_ascii_case (trim v) ''unconfined''"
    using that by (auto simp: eq_ignore_ascii_case_def lower_char_def Let_def dest: arg_cong [of _ _ length])
  have n2: "\<not> eq_ignore_ascii_case (trim v) ''true''"
    if "eq_ignore_ascii_case (trim v) ''false''"
    using that by (auto simp: eq_ignore_ascii_case_def lower_char_def Let_def dest: arg_cong [of _ _ length])
  have n3: "\<not> eq_ignore_ascii_case (trim k) ''seccomp''"
    if "eq_ignore_ascii_case (trim k) ''no-new-privileges''"
    using that by (auto simp: eq_ignore_ascii_case_def lower_char_def Let_def dest: arg_cong [of _ _ length])
  from kv have ne: "trim raw \<noteq> []"
    by (metis option.distinct(1) split_once.simps(1))
  from w weakens_not_bare_flag [OF assms] ne kv n1 n2 n3 show ?thesis
    by (auto simp: check_security_option_def Let_def)
qed

section \<open>Facts on resolution\<close>

lemma sandbox_unsupported_Nil_iff:
  "sandbox_unsupported c = [] \<longleftrightarrow>
     cfg_tee c = TeeNone \<and> \<not> pool_enabled (cfg_pool c) \<and> \<not> pool_snapshot_fork (cfg_pool c) \<and>
     \<not> cfg_deferred_main c \<and> \<not> cfg_ksm c \<and> cfg_snapshot_mem_file c = None \<and>
     cfg_snapshot_sock c = None \<and> cfg_restore_from c = None \<and> \<not> cfg_privileged c \<and>
     cfg_sidecar c = None \<and> cfg_port_map c = [] \<and> \<not> is_Bridge (cfg_network c) \<and>
     cfg_sysctls c = []"
  by (auto simp: sandbox_unsupported_def)

lemma sandbox_disallowed_Nil_iff:
  "sandbox_disallowed_capabilities c = [] \<longleftrightarrow>
     (\<forall>cap \<in> set (cfg_cap_add c). normalize_capability cap \<in> set SANDBOX_ALLOWED_ADDED_CAPABILITIES)"
  by (auto simp: sandbox_disallowed_capabilities_def filter_empty_conv)

lemma resolve_execution_cases:
  "resolve_execution c = Inr p \<longleftrightarrow>
     (cfg_isolation c = Microvm \<and> check_security_options SecMicrovm (cfg_security_opt c) = Inr () \<and>
      p = \<lparr>plan_requested_isolation = Microvm, plan_backend = Krun,
           plan_isolation_class = HardwareVm, plan_required_controls = []\<rparr>) \<or>
     (cfg_isolation c = Sandbox \<and> check_security_options SecSandbox (cfg_security_opt c) = Inr () \<and>
      sandbox_disallowed_capabilities c = [] \<and> sandbox_unsupported c = [] \<and>
      p = \<lparr>plan_requested_isolation = Sandbox, plan_backend = Crun,
           plan_isolation_class = SharedKernel,
           plan_required_controls = SANDBOX_REQUIRED_CONTROLS\<rparr>)"
  by (cases "cfg_isolation c")
    (auto simp: resolve_execution_def validate_microvm_compatibility_def
      validate_sandbox_compatibility_def validate_security_options_def result_simps Let_def
      split: if_splits)

section \<open>Properties\<close>

text \<open>
  Resolution never falls back. A resolved plan carries the isolation the configuration asked
  for, a MicroVM plan runs on libkrun behind a hardware boundary, and a sandbox plan runs on crun
  with every required control listed, in particular seccomp, the capability bounding set and
  no-new-privileges.
\<close>

lemma resolve_execution_no_fallback:
  assumes "resolve_execution c = Inr p"
  shows "plan_requested_isolation p = cfg_isolation c \<and>
    (plan_backend p = Krun \<longleftrightarrow> cfg_isolation c = Microvm) \<and>
    (plan_isolation_class p = HardwareVm \<longleftrightarrow> cfg_isolation c = Microvm) \<and>
    (cfg_isolation c = Sandbox \<longrightarrow>
       {''seccomp'', ''capability-bounding-set'', ''no-new-privileges''} \<subseteq>
         set (plan_required_controls p) \<and> length (plan_required_controls p) = 10)"
  using assms by (auto simp: resolve_execution_cases SANDBOX_REQUIRED_CONTROLS_def)

definition sandbox_config :: box_config where
  "sandbox_config =
     default_box_config\<lparr>cfg_isolation := Sandbox, cfg_cap_add := ['' cap_chown''],
       cfg_security_opt := [''seccomp=default'', ''no-new-privileges'']\<rparr>"

lemma sandbox_config_isolation [simp]: "cfg_isolation sandbox_config = Sandbox"
  by (simp add: sandbox_config_def)

lemma resolve_sandbox_config:
  "resolve_execution sandbox_config =
     Inr \<lparr>plan_requested_isolation = Sandbox, plan_backend = Crun,
          plan_isolation_class = SharedKernel,
          plan_required_controls = SANDBOX_REQUIRED_CONTROLS\<rparr>"
  by code_simp

lemma resolve_execution_no_fallback_witness:
  "plan_requested_isolation (projr (resolve_execution sandbox_config)) = Sandbox \<and>
   ''seccomp'' \<in> set (plan_required_controls (projr (resolve_execution sandbox_config)))"
  using resolve_execution_no_fallback [OF resolve_sandbox_config]
  by (simp add: resolve_sandbox_config)



text \<open>
  Security options cannot weaken the sandbox. Whatever the letter case and the spacing, an
  option list with \<open>seccomp=unconfined\<close> or \<open>no-new-privileges=false\<close> makes a sandbox configuration
  unresolvable, while every option list the sandbox accepts is accepted for a MicroVM as well.
\<close>

lemma sandbox_never_weakened:
  "(cfg_isolation c = Sandbox \<and> raw \<in> set (cfg_security_opt c) \<and> weakens_sandbox raw \<longrightarrow>
      (\<exists>e. resolve_execution c = Inl e)) \<and>
   (resolve_execution c = Inr p \<longrightarrow>
      (\<exists>q. resolve_execution (c\<lparr>cfg_isolation := Microvm\<rparr>) = Inr q))"
proof -
  have "\<exists>e. resolve_execution c = Inl e"
    if "cfg_isolation c = Sandbox" "raw \<in> set (cfg_security_opt c)" "weakens_sandbox raw"
    using that sandbox_refuses_weakening [of raw]
    by (cases "resolve_execution c") (auto simp: resolve_execution_cases check_security_options_iff)
  moreover have "\<exists>q. resolve_execution (c\<lparr>cfg_isolation := Microvm\<rparr>) = Inr q"
    if "resolve_execution c = Inr p"
    using that check_security_options_sandbox_microvm [of "cfg_security_opt c"]
    by (auto simp: resolve_execution_cases)
  ultimately show ?thesis by blast
qed

lemma sandbox_never_weakened_witness:
  "(\<exists>e. resolve_execution (sandbox_config\<lparr>cfg_security_opt := ['' SecComp = UNCONFINED '']\<rparr>) =
      Inl e) \<and>
   (\<exists>q. resolve_execution (sandbox_config\<lparr>cfg_isolation := Microvm\<rparr>) = Inr q)"
proof -
  have "weakens_sandbox '' SecComp = UNCONFINED ''" by code_simp
  then show ?thesis
    using sandbox_never_weakened
        [of "sandbox_config\<lparr>cfg_security_opt := ['' SecComp = UNCONFINED '']\<rparr>"
          "'' SecComp = UNCONFINED ''"]
      sandbox_never_weakened [of sandbox_config] resolve_sandbox_config
    by (simp add: sandbox_config_def)
qed

end
