(* ===== verification/Execution_Types.thy ===== *)
theory Execution_Types
  imports Execution_Plan
begin

text \<open>
  The vocabulary of the lifecycle facade, \<open>core/src/traits/execution.rs\<close>: validated identifiers,
  the runtime generation, the record policy and creation request, the states and outcomes visible
  to callers, and the facade's errors with their texts.
\<close>

section \<open>Identifiers and generations\<close>

datatype execution_id = ExecutionId (execution_id_str: string)

datatype operation_id = OperationId (operation_id_str: string)

datatype execution_snapshot_id = ExecutionSnapshotId (snapshot_id_str: string)

datatype execution_generation = ExecutionGeneration (generation_get: u64)

datatype execution_manager_error =
    InvalidRequest string
  | MgrNotFound execution_id
  | MgrConflict execution_id string
  | Unavailable string
  | Internal string

definition manager_error_to_string :: "execution_manager_error \<Rightarrow> string" where
  "manager_error_to_string e =
     (case e of
        InvalidRequest m \<Rightarrow> ''invalid execution request: '' @ m
      | MgrNotFound i \<Rightarrow> ''execution not found: '' @ execution_id_str i
      | MgrConflict i m \<Rightarrow> ''execution conflict for '' @ execution_id_str i @ '': '' @ m
      | Unavailable m \<Rightarrow> ''execution backend unavailable: '' @ m
      | Internal m \<Rightarrow> ''execution lifecycle failed: '' @ m)"

definition execution_id_new :: "string \<Rightarrow> execution_manager_error + execution_id" where
  "execution_id_new value =
     (if trim value = [] then Inl (InvalidRequest ''execution ID cannot be empty'')
      else Inr (ExecutionId value))"

definition execution_snapshot_id_new ::
    "string \<Rightarrow> execution_manager_error + execution_snapshot_id" where
  "execution_snapshot_id_new value =
     (if value = [] \<or> length value > 128 \<or>
         \<not> list_all (\<lambda>byte. is_ascii_alphanumeric byte \<or> byte = CHR ''-'' \<or> byte = CHR ''_'') value
      then Inl (InvalidRequest ''execution snapshot ID must match [A-Za-z0-9_-]{1,128}'')
      else Inr (ExecutionSnapshotId value))"

definition operation_id_new :: "string \<Rightarrow> execution_manager_error + operation_id" where
  "operation_id_new value =
     (if trim value = [] then Inl (InvalidRequest ''operation ID cannot be empty'')
      else Inr (OperationId value))"

definition INITIAL :: execution_generation where
  "INITIAL = ExecutionGeneration 1"

definition execution_generation_new :: "u64 \<Rightarrow> execution_manager_error + execution_generation" where
  "execution_generation_new value =
     (if value = 0 then Inl (InvalidRequest ''execution generation must be greater than zero'')
      else Inr (ExecutionGeneration value))"

section \<open>Policy and creation request\<close>

datatype execution_restart_policy = RestartNo | RestartAlways | RestartOnFailure | RestartUnlessStopped

definition restart_policy_as_str :: "execution_restart_policy \<Rightarrow> string" where
  "restart_policy_as_str p =
     (case p of
        RestartNo \<Rightarrow> ''no''
      | RestartAlways \<Rightarrow> ''always''
      | RestartOnFailure \<Rightarrow> ''on-failure''
      | RestartUnlessStopped \<Rightarrow> ''unless-stopped'')"

record execution_health_check =
  hc_cmd :: "string list"
  hc_interval_secs :: u64
  hc_timeout_secs :: u64
  hc_retries :: u32
  hc_start_period_secs :: u64

record execution_record_policy =
  pol_name :: "string option"
  pol_auto_remove :: bool
  pol_restart_policy :: execution_restart_policy
  pol_max_restart_count :: u32
  pol_health_check :: "execution_health_check option"
  pol_healthcheck_disabled :: bool
  pol_log_config :: log_config
  pol_volume_names :: "string list"
  pol_platform :: "string option"
  pol_init :: bool
  pol_devices :: "string list"
  pol_gpus :: "string option"
  pol_shm_size :: "u64 option"
  pol_stop_signal :: "string option"
  pol_stop_timeout :: "u64 option"
  pol_oom_kill_disable :: bool
  pol_oom_score_adj :: "i32 option"

definition default_record_policy :: execution_record_policy where
  "default_record_policy =
     \<lparr>pol_name = None, pol_auto_remove = False, pol_restart_policy = RestartNo,
      pol_max_restart_count = 0, pol_health_check = None, pol_healthcheck_disabled = False,
      pol_log_config = default_log_config, pol_volume_names = [], pol_platform = None,
      pol_init = False, pol_devices = [], pol_gpus = None, pol_shm_size = None,
      pol_stop_signal = None, pol_stop_timeout = None, pol_oom_kill_disable = False,
      pol_oom_score_adj = None\<rparr>"

record create_execution_request =
  req_external_sandbox_id :: string
  req_config :: box_config
  req_labels :: "string \<rightharpoonup> string"
  req_policy :: execution_record_policy
  req_rootfs_snapshot_id :: "execution_snapshot_id option"

section \<open>States, evidence and options\<close>

datatype execution_state =
  ES_Created | ES_Creating | ES_Running | ES_Paused | ES_Stopped | ES_Failed

record execution_reservation =
  rsv_execution_id :: execution_id
  rsv_generation :: execution_generation
  rsv_plan :: resolved_execution_plan
  rsv_resources :: resource_config
  rsv_created_at :: datetime

record execution_lease =
  lease_execution_id :: execution_id
  lease_generation :: execution_generation
  lease_plan :: resolved_execution_plan
  lease_resources :: resource_config
  lease_started_at :: datetime

record execution_status =
  st_execution_id :: execution_id
  st_generation :: execution_generation
  st_state :: execution_state
  st_plan :: resolved_execution_plan

datatype kill_outcome = Killed | AlreadyStopped

record kill_execution_options =
  kill_signal :: "i32 option"
  kill_timeout_secs :: "u64 option"

record restart_execution_options =
  restart_stop_timeout_secs :: "u64 option"

datatype reconcile_outcome =
    Absent
  | RO_Created execution_reservation
  | RO_Creating
  | Ready execution_lease
  | RO_Failed

section \<open>Facts\<close>

lemma execution_id_new_Inr [result_simps]:
  "execution_id_new s = Inr i \<longleftrightarrow> trim s \<noteq> [] \<and> i = ExecutionId s"
  by (auto simp: execution_id_new_def)

lemma operation_id_new_Inr [result_simps]:
  "operation_id_new s = Inr i \<longleftrightarrow> trim s \<noteq> [] \<and> i = OperationId s"
  by (auto simp: operation_id_new_def)

lemma execution_generation_new_Inr [result_simps]:
  "execution_generation_new v = Inr g \<longleftrightarrow> v \<noteq> 0 \<and> g = ExecutionGeneration v"
  by (auto simp: execution_generation_new_def)

text \<open>
  A snapshot identifier is used as a directory name: it can hold no path separator and no dot, so
  joining it to the snapshot root stays a direct child of the root.
\<close>

lemma execution_snapshot_id_new_safe:
  assumes "execution_snapshot_id_new s = Inr i"
  shows "i = ExecutionSnapshotId s \<and> s \<noteq> [] \<and> length s \<le> 128 \<and>
    CHR ''/'' \<notin> set s \<and> CHR ''.'' \<notin> set s"
proof -
  from assms have ok: "list_all (\<lambda>b. is_ascii_alphanumeric b \<or> b = CHR ''-'' \<or> b = CHR ''_'') s"
    by (auto simp: execution_snapshot_id_new_def split: if_splits)
  have "\<not> is_ascii_alphanumeric CHR ''/''" "\<not> is_ascii_alphanumeric CHR ''.''"
    by (simp_all add: is_ascii_alphanumeric_def Let_def)
  with ok have "CHR ''/'' \<notin> set s" "CHR ''.'' \<notin> set s"
    by (auto simp: list_all_iff)
  with assms show ?thesis
    by (auto simp: execution_snapshot_id_new_def split: if_splits)
qed

section \<open>Properties\<close>

text \<open>
  Snapshot identifiers are safe path components. The constructor accepts a string exactly when
  it has 1 to 128 bytes, all of them ASCII letters, digits, dashes or underscores, so an accepted
  identifier holds no path separator and no dot and names a direct child of the snapshot root.
\<close>

lemma snapshot_id_safe:
  "(\<exists>i. execution_snapshot_id_new s = Inr i) =
     (s \<noteq> [] \<and> length s \<le> 128 \<and>
      list_all (\<lambda>b. is_ascii_alphanumeric b \<or> b = CHR ''-'' \<or> b = CHR ''_'') s) \<and>
   (execution_snapshot_id_new s = Inr i \<longrightarrow>
      snapshot_id_str i = s \<and> CHR ''/'' \<notin> set s \<and> CHR ''.'' \<notin> set s)"
  using execution_snapshot_id_new_safe [of s i]
  by (auto simp: execution_snapshot_id_new_def)

lemma snapshot_id_safe_witness:
  "execution_snapshot_id_new ''snap-01'' = Inr (ExecutionSnapshotId ''snap-01'') \<and>
   CHR ''/'' \<notin> set ''snap-01'' \<and> (\<nexists>i. execution_snapshot_id_new ''../etc'' = Inr i)"
proof -
  have "execution_snapshot_id_new ''snap-01'' = Inr (ExecutionSnapshotId ''snap-01'')"
    by code_simp
  moreover have "\<not> is_ascii_alphanumeric CHR ''.''"
    by (simp add: is_ascii_alphanumeric_def Let_def)
  ultimately show ?thesis
    using snapshot_id_safe [of "''snap-01''" "ExecutionSnapshotId ''snap-01''"]
      snapshot_id_safe [of "''../etc''"]
    by simp
qed

end
