(* ===== verification/Box_Record.thy ===== *)
theory Box_Record
  imports Execution_Types
begin

text \<open>
  The persisted execution record, \<open>runtime/src/box_record.rs\<close>: the managed lifecycle states, the
  claimed operation that goes with a transitional state, the metadata of a managed execution and
  the checks a record passes before it takes part in the lifecycle. Fields of \<open>BoxRecord\<close> carry
  the prefix \<open>rec_\<close>, fields of \<open>ManagedExecutionMetadata\<close> the prefix \<open>me_\<close>.
\<close>

section \<open>Data\<close>

datatype managed_execution_state =
    Creating
  | Created
  | Starting
  | Running
  | Pausing
  | Paused
  | Resuming
  | Snapshotting
  | Killing
  | RestartStopping
  | RestartStarting
  | Removing
  | Stopped
  | Failed

datatype managed_execution_operation =
    OpStart
  | OpPause (op_keep_memory: bool)
  | OpResume
  | OpSnapshot (op_snapshot_id: execution_snapshot_id) (op_snapshot_source: managed_execution_state)
  | OpKill (op_signal: "i32 option") (op_timeout_secs: "u64 option")
  | OpRemove
  | OpRestart (op_operation_id: operation_id) (op_source_generation: execution_generation)
      (op_source_state: managed_execution_state) (op_stop_timeout_secs: "u64 option")

datatype managed_restart_outcome = RestartRunning | RestartFailed

record managed_restart_completion =
  mrc_operation_id :: operation_id
  mrc_source_generation :: execution_generation
  mrc_target_generation :: execution_generation
  mrc_outcome :: managed_restart_outcome
  mrc_stop_timeout_secs :: "u64 option"

record managed_execution_metadata =
  me_operation_id :: operation_id
  me_generation :: execution_generation
  me_request :: create_execution_request
  me_plan :: resolved_execution_plan
  me_pending_operation :: "managed_execution_operation option"
  me_last_restart :: "managed_restart_completion option"
  me_finished_at :: "datetime option"
  me_paused_with_memory :: bool

record box_record =
  rec_id :: string
  rec_short_id :: string
  rec_name :: string
  rec_image :: string
  rec_isolation :: execution_isolation
  rec_managed_execution :: "managed_execution_metadata option"
  rec_status :: string
  rec_pid :: "u32 option"
  rec_pid_start_time :: "u64 option"
  rec_cpus :: u32
  rec_memory_mb :: u32
  rec_volumes :: "string list"
  rec_virtiofs_cache :: "string option"
  rec_env :: "string \<rightharpoonup> string"
  rec_cmd :: "string list"
  rec_entrypoint :: "string list option"
  rec_box_dir :: string
  rec_exec_socket_path :: string
  rec_console_log :: string
  rec_created_at :: datetime
  rec_started_at :: "datetime option"
  rec_auto_remove :: bool
  rec_hostname :: "string option"
  rec_user :: "string option"
  rec_workdir :: "string option"
  rec_restart_policy :: string
  rec_port_map :: "string list"
  rec_labels :: "string \<rightharpoonup> string"
  rec_stopped_by_user :: bool
  rec_restart_count :: u32
  rec_max_restart_count :: u32
  rec_exit_code :: "i32 option"
  rec_health_check :: "execution_health_check option"
  rec_healthcheck_disabled :: bool
  rec_health_status :: string
  rec_health_retries :: u32
  rec_health_last_check :: "datetime option"
  rec_network_mode :: network_mode
  rec_network_name :: "string option"
  rec_volume_names :: "string list"
  rec_tmpfs :: "string list"
  rec_anonymous_volumes :: "string list"
  rec_resource_limits :: resource_limits
  rec_log_config :: log_config
  rec_add_host :: "string list"
  rec_platform :: "string option"
  rec_init :: bool
  rec_read_only :: bool
  rec_cap_add :: "string list"
  rec_cap_drop :: "string list"
  rec_security_opt :: "string list"
  rec_privileged :: bool
  rec_devices :: "string list"
  rec_gpus :: "string option"
  rec_shm_size :: "u64 option"
  rec_stop_signal :: "string option"
  rec_stop_timeout :: "u64 option"
  rec_oom_kill_disable :: bool
  rec_oom_score_adj :: "i32 option"

section \<open>Lifecycle states\<close>

definition as_status :: "managed_execution_state \<Rightarrow> string" where
  "as_status s =
     (case s of
        Creating \<Rightarrow> ''creating''
      | Created \<Rightarrow> ''created''
      | Starting \<Rightarrow> ''starting''
      | Running \<Rightarrow> ''running''
      | Pausing \<Rightarrow> ''pausing''
      | Paused \<Rightarrow> ''paused''
      | Resuming \<Rightarrow> ''resuming''
      | Snapshotting \<Rightarrow> ''snapshotting''
      | Killing \<Rightarrow> ''killing''
      | RestartStopping \<Rightarrow> ''restart_stopping''
      | RestartStarting \<Rightarrow> ''restart_starting''
      | Removing \<Rightarrow> ''removing''
      | Stopped \<Rightarrow> ''stopped''
      | Failed \<Rightarrow> ''failed'')"

definition from_status :: "string \<Rightarrow> box_error + managed_execution_state" where
  "from_status status =
     (if status = ''creating'' then Inr Creating
      else if status = ''created'' then Inr Created
      else if status = ''starting'' then Inr Starting
      else if status = ''running'' then Inr Running
      else if status = ''pausing'' then Inr Pausing
      else if status = ''paused'' then Inr Paused
      else if status = ''resuming'' then Inr Resuming
      else if status = ''snapshotting'' then Inr Snapshotting
      else if status = ''killing'' then Inr Killing
      else if status = ''restart_stopping'' then Inr RestartStopping
      else if status = ''restart_starting'' then Inr RestartStarting
      else if status = ''removing'' then Inr Removing
      else if status = ''stopped'' then Inr Stopped
      else if status = ''dead'' \<or> status = ''failed'' then Inr Failed
      else Inl (StateError (''unknown managed execution state: '' @ status)))"

definition keeps_resources :: "managed_execution_state \<Rightarrow> bool" where
  "keeps_resources s \<longleftrightarrow> s \<notin> {Creating, Created, Stopped, Failed}"

definition is_terminal :: "managed_execution_state \<Rightarrow> bool" where
  "is_terminal s \<longleftrightarrow> s \<in> {Stopped, Failed}"

section \<open>Validation\<close>

definition validate_stop_timeout :: "u64 option \<Rightarrow> box_error + unit" where
  "validate_stop_timeout timeout_secs =
     (if (case timeout_secs of None \<Rightarrow> False | Some timeout \<Rightarrow> checked_mul timeout 1000 = None)
      then Inl (StateError ''managed stop timeout is too large'')
      else Inr ())"

definition next_generation :: "execution_generation \<Rightarrow> box_error + execution_generation" where
  "next_generation generation =
     rbind (ok_or (StateError ''execution generation is exhausted'')
              (checked_add (generation_get generation) 1)) (\<lambda>value.
       map_err (\<lambda>error. StateError (''invalid execution generation: '' @ manager_error_to_string error))
         (execution_generation_new value))"

text \<open>The pairs of state and claimed operation that belong together.\<close>

definition pending_consistent ::
    "managed_execution_state \<Rightarrow> managed_execution_operation option \<Rightarrow> bool" where
  "pending_consistent state operation =
     (case (state, operation) of
        (Starting, Some OpStart) \<Rightarrow> True
      | (Pausing, Some (OpPause _)) \<Rightarrow> True
      | (Resuming, Some OpResume) \<Rightarrow> True
      | (Snapshotting, Some (OpSnapshot _ _)) \<Rightarrow> True
      | (Killing, Some (OpKill _ _)) \<Rightarrow> True
      | (Removing, Some OpRemove) \<Rightarrow> True
      | (RestartStopping, Some (OpRestart _ _ _ _)) \<Rightarrow> True
      | (RestartStarting, Some (OpRestart _ _ _ _)) \<Rightarrow> True
      | (_, operation') \<Rightarrow>
          state \<in> {Creating, Created, Running, Paused, Stopped, Failed} \<and> operation' = None)"

definition validate_restart_operation ::
    "managed_execution_state \<Rightarrow> managed_execution_metadata \<Rightarrow> box_error + unit" where
  "validate_restart_operation state metadata =
     (case me_pending_operation metadata of
        Some (OpRestart _ source_generation source_state stop_timeout_secs) \<Rightarrow>
          (if source_state \<notin> {Created, Running, Paused, Stopped, Failed} then
             Inl (StateError ''restart source state is not stable'')
           else
             rbind (case state of
                 RestartStopping \<Rightarrow> Inr source_generation
               | RestartStarting \<Rightarrow> next_generation source_generation
               | _ \<Rightarrow> Inl (StateError ''restart operation is attached to a non-restart state''))
             (\<lambda>expected.
               if me_generation metadata \<noteq> expected then
                 Inl (StateError (''restart state '' @ as_status state @ '' has generation '' @
                   show_word (generation_get (me_generation metadata)) @ '', expected '' @
                   show_word (generation_get expected)))
               else validate_stop_timeout stop_timeout_secs))
      | _ \<Rightarrow> Inr ())"

definition validate_snapshot_operation ::
    "managed_execution_state \<Rightarrow> managed_execution_metadata \<Rightarrow> box_error + unit" where
  "validate_snapshot_operation state metadata =
     (case me_pending_operation metadata of
        Some (OpSnapshot _ source_state) \<Rightarrow>
          (if state \<noteq> Snapshotting \<or> source_state \<notin> {Running, Paused} then
             Inl (StateError ''snapshot operation has an invalid source state'')
           else Inr ())
      | _ \<Rightarrow> Inr ())"

definition validate_kill_operation :: "managed_execution_metadata \<Rightarrow> box_error + unit" where
  "validate_kill_operation metadata =
     (case me_pending_operation metadata of
        Some (OpKill signal timeout_secs) \<Rightarrow>
          (if (case signal of None \<Rightarrow> False | Some s \<Rightarrow> sint s \<le> 0) then
             Inl (StateError ''kill signal must be positive'')
           else validate_stop_timeout timeout_secs)
      | _ \<Rightarrow> Inr ())"

text \<open>The states in which a filesystem-only (cold) pause may be recorded.\<close>

definition valid_cold_pause_state ::
    "managed_execution_state \<Rightarrow> managed_execution_operation option \<Rightarrow> bool" where
  "valid_cold_pause_state state operation =
     (case (state, operation) of
        (Pausing, Some (OpPause keep_memory)) \<Rightarrow> \<not> keep_memory
      | (Paused, _) \<Rightarrow> True
      | (Resuming, _) \<Rightarrow> True
      | (Snapshotting, Some (OpSnapshot _ source_state)) \<Rightarrow> source_state = Paused
      | (Killing, _) \<Rightarrow> True
      | (Removing, _) \<Rightarrow> True
      | (RestartStopping, Some (OpRestart _ _ source_state _)) \<Rightarrow> source_state = Paused
      | _ \<Rightarrow> False)"

definition validate_pending_operation ::
    "managed_execution_state \<Rightarrow> managed_execution_metadata \<Rightarrow> box_error + unit" where
  "validate_pending_operation state metadata =
     (if \<not> pending_consistent state (me_pending_operation metadata) then
        Inl (StateError (''managed execution state '' @ as_status state @
          '' has inconsistent pending operation''))
      else
        rbind (validate_restart_operation state metadata) (\<lambda>_.
        rbind (validate_snapshot_operation state metadata) (\<lambda>_.
        rbind (validate_kill_operation metadata) (\<lambda>_.
          if \<not> me_paused_with_memory metadata \<and>
             \<not> valid_cold_pause_state state (me_pending_operation metadata) then
            Inl (StateError (''managed execution state '' @ as_status state @
              '' cannot retain a filesystem-only pause''))
          else Inr ()))))"

definition metadata_new ::
    "operation_id \<Rightarrow> execution_generation \<Rightarrow> create_execution_request \<Rightarrow>
     box_error + managed_execution_metadata" where
  "metadata_new operation_id generation request =
     (if trim (req_external_sandbox_id request) = [] then
        Inl (ConfigError ''external sandbox ID cannot be empty'')
      else rbind (resolve_execution (req_config request)) (\<lambda>plan.
        Inr \<lparr>me_operation_id = operation_id, me_generation = generation, me_request = request,
             me_plan = plan, me_pending_operation = None, me_last_restart = None,
             me_finished_at = None, me_paused_with_memory = True\<rparr>))"

definition metadata_validate :: "managed_execution_metadata \<Rightarrow> box_error + unit" where
  "metadata_validate self =
     (if trim (req_external_sandbox_id (me_request self)) = [] then
        Inl (StateError ''managed execution has an empty external sandbox ID'')
      else rbind (resolve_execution (req_config (me_request self))) (\<lambda>resolved.
        if resolved \<noteq> me_plan self then
          Inl (StateError ''managed execution plan does not match its persisted creation request'')
        else (case me_last_restart self of
            None \<Rightarrow> Inr ()
          | Some completed \<Rightarrow>
              rbind (next_generation (mrc_source_generation completed)) (\<lambda>expected_target.
                if mrc_target_generation completed \<noteq> expected_target then
                  Inl (StateError (''completed restart '' @
                    operation_id_str (mrc_operation_id completed) @
                    '' has inconsistent generations''))
                else validate_stop_timeout (mrc_stop_timeout_secs completed)))))"

section \<open>Methods of the record\<close>

definition make_short_id :: "string \<Rightarrow> string" where
  "make_short_id i = take 12 (filter (\<lambda>c. c \<noteq> CHR ''-'') i)"

definition managed_state :: "box_record \<Rightarrow> box_error + managed_execution_state option" where
  "managed_state self =
     (case rec_managed_execution self of
        None \<Rightarrow> Inr None
      | Some metadata \<Rightarrow>
          rbind (from_status (rec_status self)) (\<lambda>state.
          rbind (validate_pending_operation state metadata) (\<lambda>_. Inr (Some state))))"

definition is_active :: "box_record \<Rightarrow> bool" where
  "is_active self =
     (if rec_managed_execution self \<noteq> None then
        (case managed_state self of Inr (Some state) \<Rightarrow> keeps_resources state | _ \<Rightarrow> False)
      else rec_status self = ''running'' \<or> rec_status self = ''paused'')"

definition status_summary :: "box_record \<Rightarrow> string" where
  "status_summary self =
     (let annotations =
        (if is_active self \<and> rec_health_check self \<noteq> None \<and> rec_health_status self \<noteq> ''none''
         then [rec_health_status self] else []) @
        (if rec_status self = ''stopped'' \<or> rec_status self = ''dead''
         then (case rec_exit_code self of None \<Rightarrow> [] | Some code \<Rightarrow> [''Exit '' @ show_i32 code])
         else []) @
        (if rec_restart_count self > 0
         then [''Restarts: '' @ show_word (rec_restart_count self)] else [])
      in if annotations = [] then rec_status self
         else rec_status self @ '' ('' @ join_with '', '' annotations @ '')'')"

section \<open>Facts\<close>

lemma from_as_status [simp]: "from_status (as_status s) = Inr s"
  by (cases s) (simp_all add: from_status_def as_status_def)

lemma as_status_inj [simp]: "as_status s = as_status t \<longleftrightarrow> s = t"
  by (metis from_as_status sum.inject(2))

lemma from_status_Inr_iff:
  "from_status x = Inr s \<longleftrightarrow> x = as_status s \<or> (x = ''dead'' \<and> s = Failed)"
  by (cases s) (auto simp: from_status_def as_status_def split: if_splits)

lemma validate_stop_timeout_iff [result_simps]:
  "validate_stop_timeout t = Inr () \<longleftrightarrow>
     (case t of None \<Rightarrow> True | Some s \<Rightarrow> unat s * 1000 < 2 ^ 64)"
  by (auto simp: validate_stop_timeout_def checked_mul_def split: option.splits)

lemma next_generation_iff [result_simps]:
  "next_generation g = Inr h \<longleftrightarrow>
     unat (generation_get g) + 1 < 2 ^ 64 \<and> h = ExecutionGeneration (generation_get g + 1)"
  using word_succ_nonzero [of "generation_get g"]
  by (auto simp: next_generation_def checked_add_def execution_generation_new_def)

lemma next_generation_get:
  assumes "next_generation g = Inr h"
  shows "unat (generation_get h) = unat (generation_get g) + 1"
  using assms by (auto simp: next_generation_iff unat_word_ariths)

lemma managed_state_SomeD:
  assumes "managed_state r = Inr (Some s)"
  obtains m where "rec_managed_execution r = Some m" "from_status (rec_status r) = Inr s"
    "validate_pending_operation s m = Inr ()"
  using assms by (auto simp: managed_state_def result_simps split: option.splits)

lemma managed_state_Some_iff:
  "managed_state r = Inr (Some s) \<longleftrightarrow>
     (\<exists>m. rec_managed_execution r = Some m \<and> from_status (rec_status r) = Inr s \<and>
          validate_pending_operation s m = Inr ())"
  by (auto simp: managed_state_def result_simps split: option.splits)

lemma validate_pending_consistent:
  "validate_pending_operation s m = Inr () \<Longrightarrow> pending_consistent s (me_pending_operation m)"
  by (auto simp: validate_pending_operation_def split: if_splits)

lemma validate_pending_iff:
  "validate_pending_operation s m = Inr () \<longleftrightarrow>
     pending_consistent s (me_pending_operation m) \<and> validate_restart_operation s m = Inr () \<and>
     validate_snapshot_operation s m = Inr () \<and> validate_kill_operation m = Inr () \<and>
     (me_paused_with_memory m \<or> valid_cold_pause_state s (me_pending_operation m))"
  by (auto simp: validate_pending_operation_def result_simps split: if_splits)

lemma pending_consistent_stable:
  "s \<in> {Creating, Created, Running, Paused, Stopped, Failed} \<Longrightarrow>
     pending_consistent s p \<longleftrightarrow> p = None"
  by (auto simp: pending_consistent_def split: managed_execution_operation.splits option.splits)

lemma pending_consistent_restart:
  "pending_consistent RestartStarting p \<Longrightarrow> \<exists>o' g s t. p = Some (OpRestart o' g s t)"
  "pending_consistent RestartStopping p \<Longrightarrow> \<exists>o' g s t. p = Some (OpRestart o' g s t)"
  by (auto simp: pending_consistent_def split: managed_execution_operation.splits option.splits)

lemma pending_consistent_removing:
  "pending_consistent Removing p \<longleftrightarrow> p = Some OpRemove"
  by (auto simp: pending_consistent_def split: managed_execution_operation.splits option.splits)

text \<open>A freshly built metadata value passes its own validation.\<close>

lemma metadata_new_validate:
  assumes "metadata_new o' g req = Inr m"
  shows "metadata_validate m = Inr ()"
  using assms by (auto simp: metadata_new_def metadata_validate_def result_simps split: if_splits)

lemma metadata_new_fields:
  assumes "metadata_new o' g req = Inr m"
  shows "me_operation_id m = o'" "me_generation m = g" "me_request m = req"
    "me_pending_operation m = None" "me_last_restart m = None" "me_paused_with_memory m"
    "resolve_execution (req_config req) = Inr (me_plan m)"
  using assms by (auto simp: metadata_new_def result_simps split: if_splits)

section \<open>Properties\<close>

text \<open>
  The status column round trips. Every lifecycle state reads back from the string it is stored
  as, distinct states have distinct strings, and the only other string that is read at all is the
  legacy spelling \<open>dead\<close> of the failed state.
\<close>

lemma status_round_trip:
  "from_status (as_status s) = Inr s \<and>
   (from_status x = Inr t) = (x = as_status t \<or> x = ''dead'' \<and> t = Failed)"
  by (simp add: from_status_Inr_iff)

text \<open>
  C31: a record whose state reads back is consistent with its claimed operation. Stable states carry
  no pending operation; each transitional state carries the operation that put it there; a restart
  keeps the generation of its claim while stopping and is exactly one generation ahead while
  starting; a snapshot was claimed from a running or paused execution; and an execution without
  memory to resume from is in one of the states of the cold-pause path.
\<close>

theorem managed_state_consistent:
  assumes "managed_state r = Inr (Some s)" and "rec_managed_execution r = Some m"
  shows "(me_pending_operation m = None) =
      (s \<in> {Creating, Created, Running, Paused, Stopped, Failed}) \<and>
    (case me_pending_operation m of
       Some (OpRestart oid g src t) \<Rightarrow>
         src \<in> {Created, Running, Paused, Stopped, Failed} \<and>
         (s = RestartStopping \<and> me_generation m = g \<or>
          s = RestartStarting \<and>
            unat (generation_get (me_generation m)) = unat (generation_get g) + 1)
     | Some (OpSnapshot i src) \<Rightarrow> s = Snapshotting \<and> src \<in> {Running, Paused}
     | Some (OpPause keep) \<Rightarrow> s = Pausing
     | Some OpStart \<Rightarrow> s = Starting
     | Some OpResume \<Rightarrow> s = Resuming
     | Some (OpKill sig t) \<Rightarrow> s = Killing
     | Some OpRemove \<Rightarrow> s = Removing
     | None \<Rightarrow> True) \<and>
    (me_paused_with_memory m \<or>
       s \<in> {Pausing, Paused, Resuming, Snapshotting, Killing, Removing, RestartStopping})"
proof -
  have v: "validate_pending_operation s m = Inr ()"
    using assms by (auto simp: managed_state_Some_iff)
  then have c: "pending_consistent s (me_pending_operation m)"
    "validate_restart_operation s m = Inr ()" "validate_snapshot_operation s m = Inr ()"
    "me_paused_with_memory m \<or> valid_cold_pause_state s (me_pending_operation m)"
    by (simp_all add: validate_pending_iff)
  show ?thesis
  proof (intro conjI)
    show "(me_pending_operation m = None) =
        (s \<in> {Creating, Created, Running, Paused, Stopped, Failed})"
      using c(1) by (cases s) (auto simp: pending_consistent_def split: option.splits)
    show "case me_pending_operation m of
       Some (OpRestart oid g src t) \<Rightarrow>
         src \<in> {Created, Running, Paused, Stopped, Failed} \<and>
         (s = RestartStopping \<and> me_generation m = g \<or>
          s = RestartStarting \<and>
            unat (generation_get (me_generation m)) = unat (generation_get g) + 1)
     | Some (OpSnapshot i src) \<Rightarrow> s = Snapshotting \<and> src \<in> {Running, Paused}
     | Some (OpPause keep) \<Rightarrow> s = Pausing
     | Some OpStart \<Rightarrow> s = Starting
     | Some OpResume \<Rightarrow> s = Resuming
     | Some (OpKill sig t) \<Rightarrow> s = Killing
     | Some OpRemove \<Rightarrow> s = Removing
     | None \<Rightarrow> True"
      using c(1-3)
      by (cases s)
        (auto simp: pending_consistent_def validate_restart_operation_def
          validate_snapshot_operation_def result_simps unat_word_ariths
          split: option.splits managed_execution_operation.splits if_splits)
    show "me_paused_with_memory m \<or>
       s \<in> {Pausing, Paused, Resuming, Snapshotting, Killing, Removing, RestartStopping}"
      using c(4) by (cases s) (auto simp: valid_cold_pause_state_def)
  qed
qed

text \<open>A record of a sandbox execution, for the examples of this and later theories.\<close>

definition sample_request :: create_execution_request where
  "sample_request =
     \<lparr>req_external_sandbox_id = ''sb'', req_config = sandbox_config, req_labels = Map.empty,
      req_policy = default_record_policy, req_rootfs_snapshot_id = None\<rparr>"

definition sample_metadata ::
    "u64 \<Rightarrow> managed_execution_operation option \<Rightarrow> managed_execution_metadata" where
  "sample_metadata generation pending =
     \<lparr>me_operation_id = OperationId ''op'', me_generation = ExecutionGeneration generation,
      me_request = sample_request,
      me_plan = \<lparr>plan_requested_isolation = Sandbox, plan_backend = Crun,
        plan_isolation_class = SharedKernel, plan_required_controls = SANDBOX_REQUIRED_CONTROLS\<rparr>,
      me_pending_operation = pending, me_last_restart = None, me_finished_at = None,
      me_paused_with_memory = True\<rparr>"

definition sample_record ::
    "managed_execution_state \<Rightarrow> managed_execution_metadata \<Rightarrow> box_record" where
  "sample_record state metadata =
     \<lparr>rec_id = ''x1'', rec_short_id = ''x1'', rec_name = ''box'', rec_image = ''img'',
      rec_isolation = Sandbox, rec_managed_execution = Some metadata,
      rec_status = as_status state, rec_pid = None, rec_pid_start_time = None, rec_cpus = 2,
      rec_memory_mb = 1024, rec_volumes = [], rec_virtiofs_cache = None, rec_env = Map.empty,
      rec_cmd = [], rec_entrypoint = None, rec_box_dir = ''/b/x1'',
      rec_exec_socket_path = ''/b/x1/s'', rec_console_log = ''/b/x1/l'', rec_created_at = 0,
      rec_started_at = Some 0, rec_auto_remove = False, rec_hostname = None, rec_user = None,
      rec_workdir = None, rec_restart_policy = ''no'', rec_port_map = [], rec_labels = Map.empty,
      rec_stopped_by_user = False, rec_restart_count = 0, rec_max_restart_count = 0,
      rec_exit_code = None, rec_health_check = None, rec_healthcheck_disabled = False,
      rec_health_status = ''none'', rec_health_retries = 0, rec_health_last_check = None,
      rec_network_mode = Tsi, rec_network_name = None, rec_volume_names = [''data''],
      rec_tmpfs = [], rec_anonymous_volumes = [], rec_resource_limits = default_resource_limits,
      rec_log_config = default_log_config, rec_add_host = [], rec_platform = None,
      rec_init = False, rec_read_only = False, rec_cap_add = [], rec_cap_drop = [],
      rec_security_opt = [], rec_privileged = False, rec_devices = [], rec_gpus = None,
      rec_shm_size = None, rec_stop_signal = None, rec_stop_timeout = None,
      rec_oom_kill_disable = False, rec_oom_score_adj = None\<rparr>"

lemma sample_metadata_valid: "metadata_validate (sample_metadata g p) = Inr ()"
proof -
  have "trim ''sb'' \<noteq> []" by code_simp
  then show ?thesis
    by (simp add: metadata_validate_def sample_metadata_def sample_request_def
        resolve_sandbox_config)
qed

lemma sample_record_fields [simp]:
  "rec_id (sample_record s m) = ''x1''" "rec_managed_execution (sample_record s m) = Some m"
  "rec_status (sample_record s m) = as_status s" "rec_started_at (sample_record s m) = Some 0"
  by (simp_all add: sample_record_def)

lemma sample_record_state:
  "managed_state (sample_record s m) = Inr (Some s) \<longleftrightarrow> validate_pending_operation s m = Inr ()"
  by (simp add: managed_state_Some_iff)

theorem managed_state_consistent_witness:
  "managed_state (sample_record RestartStarting (sample_metadata 4
       (Some (OpRestart (OperationId ''r'') (ExecutionGeneration 3) Running None)))) =
     Inr (Some RestartStarting) \<and>
   unat (generation_get (ExecutionGeneration 4)) =
     unat (generation_get (ExecutionGeneration 3)) + 1"
proof -
  let ?m = "sample_metadata 4
    (Some (OpRestart (OperationId ''r'') (ExecutionGeneration 3) Running None))"
  have "managed_state (sample_record RestartStarting ?m) = Inr (Some RestartStarting)"
    by (simp add: sample_record_state validate_pending_iff pending_consistent_def
        validate_restart_operation_def validate_snapshot_operation_def validate_kill_operation_def
        sample_metadata_def result_simps)
  with managed_state_consistent [OF this sample_record_fields(2)] show ?thesis
    by (simp add: sample_metadata_def)
qed

end
