(* ===== verification/Durable_File.thy ===== *)
theory Durable_File
  imports Box_Prelude
begin

text \<open>
  Durable state files: \<open>core/src/fs_atomic.rs\<close> (\<open>write_durable\<close>) and the quarantine helpers of
  \<open>runtime/src/store_io.rs\<close>.

  A JSON file is represented by what its parser makes of it: \<open>Holds v\<close> when \<open>serde_json\<close> reads it
  as the value \<open>v\<close>, \<open>Unparsable m\<close> when it answers the error text \<open>m\<close>; writing the serialised form
  of \<open>v\<close> yields a file that holds \<open>v\<close>. A disk has the store file, the temporary sibling the writer
  renames over it, and the timestamped backups of corrupt files. \<open>node_synced\<close> says whether the
  data of a file has been flushed: a crash tears every file that has not. I/O failures are inputs:
  each operation takes the errors the operating system answers, step by step.

  The last section is the interface of a locked read-modify-write store, which the box state store
  and the network store both provide.
\<close>

section \<open>Files and disks\<close>

datatype io_error_kind = IoInvalidData | IoOther | IoOs string

datatype io_error = IoError (io_kind: io_error_kind) (io_message: string)

datatype 'a file_content = Unparsable string | Holds 'a

record 'a file_node =
  node_content :: "'a file_content"
  node_synced :: bool

record 'a disk =
  disk_file :: "'a file_node option"
  disk_tmp :: "'a file_node option"
  disk_backups :: "u64 \<rightharpoonup> 'a file_node"

text \<open>After a crash a file whose data was not flushed has lost it: the parser answers \<open>m\<close>.\<close>

definition crash_node :: "string \<Rightarrow> 'a file_node \<Rightarrow> 'a file_node" where
  "crash_node m n =
     (if node_synced n then n else \<lparr>node_content = Unparsable m, node_synced = True\<rparr>)"

definition crash :: "string \<Rightarrow> 'a disk \<Rightarrow> 'a disk" where
  "crash m d =
     \<lparr>disk_file = map_option (crash_node m) (disk_file d),
      disk_tmp = map_option (crash_node m) (disk_tmp d),
      disk_backups = (\<lambda>t. map_option (crash_node m) (disk_backups d t))\<rparr>"

definition file_synced :: "'a disk \<Rightarrow> bool" where
  "file_synced d \<longleftrightarrow> (\<forall>node. disk_file d = Some node \<longrightarrow> node_synced node)"

section \<open>Durable writes\<close>

text \<open>The error each step of \<open>write_durable\<close> meets, and what the parser says of a torn file.\<close>

record write_faults =
  wf_create :: "io_error option"
  wf_write :: "io_error option"
  wf_sync :: "io_error option"
  wf_rename :: "io_error option"
  wf_torn :: string

definition no_write_faults :: write_faults where
  "no_write_faults =
     \<lparr>wf_create = None, wf_write = None, wf_sync = None, wf_rename = None, wf_torn = []\<rparr>"

definition create_tmp :: "string \<Rightarrow> 'a disk \<Rightarrow> 'a disk" where
  "create_tmp torn d =
     d\<lparr>disk_tmp := Some \<lparr>node_content = Unparsable torn, node_synced = False\<rparr>\<rparr>"

definition write_tmp :: "'a \<Rightarrow> 'a disk \<Rightarrow> 'a disk" where
  "write_tmp bytes d = d\<lparr>disk_tmp := Some \<lparr>node_content = Holds bytes, node_synced = False\<rparr>\<rparr>"

definition sync_tmp :: "'a disk \<Rightarrow> 'a disk" where
  "sync_tmp d = d\<lparr>disk_tmp := map_option (\<lambda>n. n\<lparr>node_synced := True\<rparr>) (disk_tmp d)\<rparr>"

definition rename_tmp :: "'a disk \<Rightarrow> 'a disk" where
  "rename_tmp d = d\<lparr>disk_file := disk_tmp d, disk_tmp := None\<rparr>"

text \<open>
  Run the steps in order; a step that fails has no effect and ends the run with its error. The
  first component lists the disks passed through, from the initial one to the last.
\<close>

fun run_steps ::
    "(io_error option \<times> ('a disk \<Rightarrow> 'a disk)) list \<Rightarrow> 'a disk \<Rightarrow>
     'a disk list \<times> (io_error + unit)" where
  "run_steps [] d = ([d], Inr ())"
| "run_steps ((fault, step) # steps) d =
     (case fault of
        Some e \<Rightarrow> ([d], Inl e)
      | None \<Rightarrow> (let (trace, r) = run_steps steps (step d) in (d # trace, r)))"

definition write_durable_steps ::
    "write_faults \<Rightarrow> 'a \<Rightarrow> (io_error option \<times> ('a disk \<Rightarrow> 'a disk)) list" where
  "write_durable_steps wfs bytes =
     [(wf_create wfs, create_tmp (wf_torn wfs)),
      (wf_write wfs, write_tmp bytes),
      (wf_sync wfs, sync_tmp),
      (wf_rename wfs, rename_tmp)]"

definition write_durable :: "write_faults \<Rightarrow> 'a \<Rightarrow> 'a disk \<Rightarrow> (io_error + unit) \<times> 'a disk" where
  "write_durable wfs bytes d =
     (let (trace, r) = run_steps (write_durable_steps wfs bytes) d in (r, last trace))"

section \<open>Quarantine\<close>

record quarantine_faults =
  qf_now_secs :: u64
  qf_rename_ok :: bool
  qf_copy_ok :: bool

text \<open>
  \<open>quarantine_corrupt\<close> moves the file to the backup named by the current second, or copies it when
  the rename fails; it answers the backup's second. \<open>quarantine_copy\<close> only copies.
\<close>

definition quarantine_copy :: "quarantine_faults \<Rightarrow> 'a disk \<Rightarrow> u64 option \<times> 'a disk" where
  "quarantine_copy qf d =
     (case disk_file d of
        None \<Rightarrow> (None, d)
      | Some n \<Rightarrow>
          if qf_copy_ok qf then
            (Some (qf_now_secs qf),
             d\<lparr>disk_backups := (disk_backups d)(qf_now_secs qf \<mapsto> n\<lparr>node_synced := False\<rparr>)\<rparr>)
          else (None, d))"

definition quarantine_corrupt :: "quarantine_faults \<Rightarrow> 'a disk \<Rightarrow> u64 option \<times> 'a disk" where
  "quarantine_corrupt qf d =
     (case disk_file d of
        None \<Rightarrow> (None, d)
      | Some n \<Rightarrow>
          if qf_rename_ok qf then
            (Some (qf_now_secs qf),
             d\<lparr>disk_file := None, disk_backups := (disk_backups d)(qf_now_secs qf \<mapsto> n)\<rparr>)
          else quarantine_copy qf d)"

section \<open>Facts\<close>

lemma write_durable_Inr_iff [result_simps]:
  "write_durable wfs x d = (Inr (), d') \<longleftrightarrow>
     wf_create wfs = None \<and> wf_write wfs = None \<and> wf_sync wfs = None \<and> wf_rename wfs = None \<and>
     d' = d\<lparr>disk_file := Some \<lparr>node_content = Holds x, node_synced = True\<rparr>, disk_tmp := None\<rparr>"
  by (auto simp: write_durable_def write_durable_steps_def create_tmp_def write_tmp_def
      sync_tmp_def rename_tmp_def split: option.splits)

lemma write_durable_Inl:
  "write_durable wfs x d = (Inl e, d') \<Longrightarrow>
     disk_file d' = disk_file d \<and> disk_backups d' = disk_backups d"
  by (auto simp: write_durable_def write_durable_steps_def create_tmp_def write_tmp_def
      sync_tmp_def split: option.splits)

lemma write_durable_backups:
  "write_durable wfs x d = (r, d') \<Longrightarrow> disk_backups d' = disk_backups d"
  by (auto simp: write_durable_def write_durable_steps_def create_tmp_def write_tmp_def
      sync_tmp_def rename_tmp_def split: option.splits)

lemma write_durable_trace:
  assumes "d' \<in> set (fst (run_steps (write_durable_steps wfs x) d))"
  shows "disk_file d' = disk_file d \<or>
    disk_file d' = Some \<lparr>node_content = Holds x, node_synced = True\<rparr>"
  using assms
  by (auto simp: write_durable_steps_def create_tmp_def write_tmp_def
      sync_tmp_def rename_tmp_def split: option.splits)

lemma quarantine_corrupt_file:
  "quarantine_corrupt qf d = (r, d') \<Longrightarrow> disk_file d' = None \<or> disk_file d' = disk_file d"
  by (auto simp: quarantine_corrupt_def quarantine_copy_def split: option.splits if_splits)

lemma quarantine_copy_file:
  "quarantine_copy qf d = (r, d') \<Longrightarrow> disk_file d' = disk_file d"
  by (auto simp: quarantine_copy_def split: option.splits if_splits)

section \<open>The interface of a locked store\<close>

text \<open>
  A store file is read, changed by a closure and written back under a lock. \<open>view\<close> is what a
  fault-free load of the current file answers, \<open>ok\<close> what a written value satisfies, and \<open>run\<close> the
  transaction: when it answers \<open>Ok\<close> the closure ran on the view and its result is the new view;
  when it answers an error the view has not changed.
\<close>

locale locked_store =
  fixes view :: "'s \<Rightarrow> 'v option"
    and ok :: "'v \<Rightarrow> bool"
    and run :: "'f \<Rightarrow> ('v \<Rightarrow> 'e + 'r \<times> 'v) \<Rightarrow> 's \<Rightarrow> ('e + 'r) \<times> 's"
  assumes run_Inr: "run flt body s = (Inr r, s') \<Longrightarrow>
      \<exists>v v'. view s = Some v \<and> body v = Inr (r, v') \<and> ok v' \<and> view s' = Some v'"
    and run_Inl: "run flt body s = (Inl e, s') \<Longrightarrow> view s' = view s"
begin

text \<open>A property of the contents kept by the closure is kept by the transaction.\<close>

lemma run_preserves:
  assumes "run flt body s = (res, s')"
    and "\<And>v r v'. view s = Some v \<Longrightarrow> body v = Inr (r, v') \<Longrightarrow> ok v' \<Longrightarrow> P v \<Longrightarrow> P v'"
    and "\<forall>v. view s = Some v \<longrightarrow> P v"
  shows "\<forall>v. view s' = Some v \<longrightarrow> P v"
proof (cases res)
  case (Inl e)
  then show ?thesis using assms(1,3) run_Inl by metis
next
  case (Inr r)
  with assms(1) obtain v v' where v: "view s = Some v" "body v = Inr (r, v')" "ok v'"
    "view s' = Some v'"
    using run_Inr by blast
  then show ?thesis using assms(2) [OF v(1,2,3)] assms(3) by auto
qed

text \<open>A transaction changes the contents only through a successful run of its closure.\<close>

lemma run_view_cases:
  assumes "run flt body s = (res, s')"
  shows "view s' = view s \<or>
    (\<exists>v r v'. res = Inr r \<and> view s = Some v \<and> body v = Inr (r, v') \<and> ok v' \<and> view s' = Some v')"
  using assms by (cases res) (auto dest: run_Inr run_Inl)

text \<open>A store that could not be read is left as it is.\<close>

lemma run_unreadable:
  assumes "view s = None" and "run flt body s = (res, s')"
  shows "(\<exists>e. res = Inl e) \<and> view s' = None"
  using assms by (cases res) (auto dest: run_Inr run_Inl)

text \<open>A closure that refuses the contents makes the transaction fail and change nothing.\<close>

lemma run_refused:
  assumes "view s = Some v" and "body v = Inl e" and "run flt body s = (res, s')"
  shows "(\<exists>e'. res = Inl e') \<and> view s' = Some v"
  using assms by (cases res) (auto dest: run_Inr run_Inl)

text \<open>Any run of transactions keeps what every one of their closures keeps.\<close>

fun run_all :: "('f \<times> ('v \<Rightarrow> 'e + 'r \<times> 'v)) list \<Rightarrow> 's \<Rightarrow> 's" where
  "run_all [] s = s"
| "run_all ((flt, body) # rest) s = run_all rest (snd (run flt body s))"

lemma run_all_preserves:
  assumes "\<forall>(flt, body) \<in> set ts. \<forall>v r v'. P v \<longrightarrow> body v = Inr (r, v') \<longrightarrow> P v'"
    and "\<forall>v. view s = Some v \<longrightarrow> P v"
  shows "\<forall>v. view (run_all ts s) = Some v \<longrightarrow> P v"
  using assms
proof (induction ts arbitrary: s)
  case Nil
  then show ?case by simp
next
  case (Cons t ts)
  obtain flt body where t: "t = (flt, body)" by (cases t)
  obtain res s' where run: "run flt body s = (res, s')" by (cases "run flt body s")
  from Cons.prems(1) t have body: "\<And>v r v'. P v \<Longrightarrow> body v = Inr (r, v') \<Longrightarrow> P v'"
    by fastforce
  have "\<forall>v. view s' = Some v \<longrightarrow> P v"
    using run_preserves [where P = P, OF run] body Cons.prems(2) by blast
  with Cons.IH [of s'] Cons.prems(1) have "\<forall>v. view (run_all ts s') = Some v \<longrightarrow> P v"
    by simp
  with t run show ?case by simp
qed

end

section \<open>Properties\<close>



definition sample_disk :: "'a \<Rightarrow> 'a disk" where
  "sample_disk x =
     \<lparr>disk_file = Some \<lparr>node_content = Holds x, node_synced = True\<rparr>, disk_tmp = None,
      disk_backups = Map.empty\<rparr>"

lemma sample_disk_synced: "file_synced (sample_disk x)"
  by (simp add: sample_disk_def file_synced_def)


end
