(* ===== verification/Box_State.thy ===== *)
theory Box_State
  imports Box_Record Durable_File
begin

text \<open>
  The durable collection of box records, \<open>runtime/src/box_state.rs\<close>. A \<open>BoxStateStore\<close> value is the
  list of its records; its path selects the disk the operations run on. Every mutating operation
  takes the faults it meets, and the record-level lookups are functions on the list.
\<close>

section \<open>Faults\<close>

record store_faults =
  sf_lock :: "io_error option"
  sf_load_dir :: "io_error option"
  sf_read :: "io_error option"
  sf_write_dir :: "io_error option"
  sf_serialize :: "string option"
  sf_write :: write_faults
  sf_quarantine :: quarantine_faults

definition no_faults :: store_faults where
  "no_faults =
     \<lparr>sf_lock = None, sf_load_dir = None, sf_read = None, sf_write_dir = None,
      sf_serialize = None, sf_write = no_write_faults,
      sf_quarantine = \<lparr>qf_now_secs = 0, qf_rename_ok = True, qf_copy_ok = True\<rparr>\<rparr>"

datatype corruption_policy = ReturnError | Quarantine

section \<open>Lookups\<close>

definition has_operation_id :: "operation_id \<Rightarrow> box_record \<Rightarrow> bool" where
  "has_operation_id operation_id record =
     (case rec_managed_execution record of
        None \<Rightarrow> False
      | Some metadata \<Rightarrow> me_operation_id metadata = operation_id)"

definition find_by_id :: "box_record list \<Rightarrow> string \<Rightarrow> box_record option" where
  "find_by_id records i = find (\<lambda>record. rec_id record = i) records"

text \<open>\<open>find_by_id_mut\<close> with the assignment its caller makes.\<close>

definition update_by_id ::
    "box_record list \<Rightarrow> string \<Rightarrow> (box_record \<Rightarrow> box_record) \<Rightarrow> box_record list" where
  "update_by_id records i f = update_first (\<lambda>record. rec_id record = i) f records"

definition remove_by_id :: "box_record list \<Rightarrow> string \<Rightarrow> bool \<times> box_record list" where
  "remove_by_id records i =
     (let kept = filter (\<lambda>record. rec_id record \<noteq> i) records
      in (length kept < length records, kept))"

definition find_by_name :: "box_record list \<Rightarrow> string \<Rightarrow> box_record option" where
  "find_by_name records name = find (\<lambda>record. rec_name record = name) records"

definition find_by_operation_id :: "box_record list \<Rightarrow> operation_id \<Rightarrow> box_record option" where
  "find_by_operation_id records operation_id = find (has_operation_id operation_id) records"

definition starts_with :: "string \<Rightarrow> string \<Rightarrow> bool" where
  "starts_with s prefix \<longleftrightarrow> strip_prefix prefix s \<noteq> None"

definition find_by_id_prefix :: "box_record list \<Rightarrow> string \<Rightarrow> box_record list" where
  "find_by_id_prefix records prefix =
     filter (\<lambda>record. starts_with (rec_id record) prefix \<or> starts_with (rec_short_id record) prefix)
       records"

definition list_records :: "box_record list \<Rightarrow> bool \<Rightarrow> box_record list" where
  "list_records records all = filter (\<lambda>record. all \<or> rec_status record = ''running'') records"

section \<open>Validation\<close>

definition invalid_managed :: "box_record \<Rightarrow> string \<Rightarrow> string" where
  "invalid_managed record error = ''invalid managed execution '' @ rec_id record @ '': '' @ error"

fun validate_records_from :: "operation_id set \<Rightarrow> box_record list \<Rightarrow> string + unit" where
  "validate_records_from operation_ids [] = Inr ()"
| "validate_records_from operation_ids (record # records) =
     (case rec_managed_execution record of
        None \<Rightarrow> validate_records_from operation_ids records
      | Some metadata \<Rightarrow>
          rbind (map_err (\<lambda>e. invalid_managed record (box_error_to_string e))
                   (metadata_validate metadata)) (\<lambda>_.
          rbind (map_err (\<lambda>e. invalid_managed record (manager_error_to_string e))
                   (execution_id_new (rec_id record))) (\<lambda>_.
          rbind (map_err (\<lambda>e. invalid_managed record (box_error_to_string e))
                   (managed_state record)) (\<lambda>_.
            if me_operation_id metadata \<in> operation_ids then
              Inl (''duplicate managed operation ID: '' @ operation_id_str (me_operation_id metadata))
            else validate_records_from (insert (me_operation_id metadata) operation_ids) records))))"

definition validate_managed_records :: "box_record list \<Rightarrow> string + unit" where
  "validate_managed_records records = validate_records_from {} records"

section \<open>Loading and writing\<close>

definition parse_records :: "box_record list file_content \<Rightarrow> string + box_record list" where
  "parse_records content =
     (case content of
        Unparsable error \<Rightarrow> Inl error
      | Holds records \<Rightarrow> rbind (validate_managed_records records) (\<lambda>_. Inr records))"

definition load_unlocked ::
    "store_faults \<Rightarrow> corruption_policy \<Rightarrow> bool \<Rightarrow> box_record list disk \<Rightarrow>
     (io_error + box_record list) \<times> box_record list disk" where
  "load_unlocked flt policy create_parent d =
     (case disk_file d of
        None \<Rightarrow>
          (case (if create_parent then sf_load_dir flt else None) of
             Some e \<Rightarrow> (Inl e, d)
           | None \<Rightarrow> (Inr [], d))
      | Some node \<Rightarrow>
          (case sf_read flt of
             Some e \<Rightarrow> (Inl e, d)
           | None \<Rightarrow>
               (case parse_records (node_content node) of
                  Inr records \<Rightarrow> (Inr records, d)
                | Inl error \<Rightarrow>
                    if policy = ReturnError then (Inl (IoError IoInvalidData error), d)
                    else (Inr [], snd (quarantine_corrupt (sf_quarantine flt) d)))))"

definition write_unlocked ::
    "store_faults \<Rightarrow> box_record list \<Rightarrow> box_record list disk \<Rightarrow>
     (io_error + unit) \<times> box_record list disk" where
  "write_unlocked flt records d =
     (case validate_managed_records records of
        Inl error \<Rightarrow> (Inl (IoError IoInvalidData error), d)
      | Inr _ \<Rightarrow>
          (case sf_write_dir flt of
             Some e \<Rightarrow> (Inl e, d)
           | None \<Rightarrow>
               (case sf_serialize flt of
                  Some message \<Rightarrow> (Inl (IoError IoOther message), d)
                | None \<Rightarrow> write_durable (sf_write flt) records d)))"

definition load_strict ::
    "store_faults \<Rightarrow> box_record list disk \<Rightarrow> (io_error + box_record list) \<times> box_record list disk"
  where "load_strict flt d = load_unlocked flt ReturnError True d"

definition load_or_quarantine ::
    "store_faults \<Rightarrow> box_record list disk \<Rightarrow> (io_error + box_record list) \<times> box_record list disk"
  where "load_or_quarantine flt d = load_unlocked flt Quarantine True d"

definition load_readonly ::
    "store_faults \<Rightarrow> box_record list disk \<Rightarrow> io_error + box_record list" where
  "load_readonly flt d = fst (load_unlocked flt ReturnError False d)"

definition save ::
    "store_faults \<Rightarrow> box_record list \<Rightarrow> box_record list disk \<Rightarrow>
     (io_error + unit) \<times> box_record list disk" where
  "save flt records d =
     (case sf_lock flt of Some e \<Rightarrow> (Inl e, d) | None \<Rightarrow> write_unlocked flt records d)"

section \<open>Transactions\<close>

definition modify_with_policy ::
    "corruption_policy \<Rightarrow> (io_error \<Rightarrow> 'e) \<Rightarrow> store_faults \<Rightarrow>
     (box_record list \<Rightarrow> 'e + 'r \<times> box_record list) \<Rightarrow> box_record list disk \<Rightarrow>
     ('e + 'r) \<times> box_record list disk" where
  "modify_with_policy policy from_io flt f d =
     (case sf_lock flt of
        Some e \<Rightarrow> (Inl (from_io e), d)
      | None \<Rightarrow>
          (case load_unlocked flt policy True d of
             (Inl e, d1) \<Rightarrow> (Inl (from_io e), d1)
           | (Inr records, d1) \<Rightarrow>
               (case f records of
                  Inl e \<Rightarrow> (Inl e, d1)
                | Inr (output, records') \<Rightarrow>
                    (case write_unlocked flt records' d1 of
                       (Inl e, d2) \<Rightarrow> (Inl (from_io e), d2)
                     | (Inr _, d2) \<Rightarrow> (Inr output, d2)))))"

definition transact ::
    "(io_error \<Rightarrow> 'e) \<Rightarrow> store_faults \<Rightarrow>
     (box_record list \<Rightarrow> 'e + 'r \<times> box_record list) \<Rightarrow> box_record list disk \<Rightarrow>
     ('e + 'r) \<times> box_record list disk" where
  "transact from_io flt f d = modify_with_policy ReturnError from_io flt f d"

definition modify ::
    "store_faults \<Rightarrow> (box_record list \<Rightarrow> io_error + 'r \<times> box_record list) \<Rightarrow> box_record list disk \<Rightarrow>
     (io_error + 'r) \<times> box_record list disk" where
  "modify flt f d = modify_with_policy ReturnError (\<lambda>e. e) flt f d"

definition modify_or_quarantine ::
    "(io_error \<Rightarrow> 'e) \<Rightarrow> store_faults \<Rightarrow>
     (box_record list \<Rightarrow> 'e + 'r \<times> box_record list) \<Rightarrow> box_record list disk \<Rightarrow>
     ('e + 'r) \<times> box_record list disk" where
  "modify_or_quarantine from_io flt f d = modify_with_policy Quarantine from_io flt f d"

section \<open>What a load answers\<close>

definition strict_view :: "box_record list disk \<Rightarrow> box_record list option" where
  "strict_view d =
     (case disk_file d of
        None \<Rightarrow> Some []
      | Some node \<Rightarrow>
          (case parse_records (node_content node) of Inl _ \<Rightarrow> None | Inr records \<Rightarrow> Some records))"

definition recovering_view :: "box_record list disk \<Rightarrow> box_record list option" where
  "recovering_view d = Some (case strict_view d of None \<Rightarrow> [] | Some records \<Rightarrow> records)"

definition valid_records :: "box_record list \<Rightarrow> bool" where
  "valid_records records \<longleftrightarrow> validate_managed_records records = Inr ()"

section \<open>Facts on validation\<close>

definition managed_operation_ids :: "box_record list \<Rightarrow> operation_id list" where
  "managed_operation_ids records =
     map me_operation_id (List.map_filter rec_managed_execution records)"

definition valid_managed_record :: "box_record \<Rightarrow> bool" where
  "valid_managed_record record \<longleftrightarrow>
     (case rec_managed_execution record of
        None \<Rightarrow> True
      | Some metadata \<Rightarrow>
          metadata_validate metadata = Inr () \<and> trim (rec_id record) \<noteq> [] \<and>
          (\<exists>state. managed_state record = Inr (Some state)))"

lemma managed_operation_ids_simps [simp]:
  "managed_operation_ids [] = []"
  "managed_operation_ids (r # rs) =
     (case rec_managed_execution r of
        None \<Rightarrow> managed_operation_ids rs
      | Some m \<Rightarrow> me_operation_id m # managed_operation_ids rs)"
  by (auto simp: managed_operation_ids_def List.map_filter_simps split: option.splits)

lemma managed_operation_ids_append [simp]:
  "managed_operation_ids (xs @ ys) = managed_operation_ids xs @ managed_operation_ids ys"
  by (induction xs) (auto split: option.splits)

lemma managed_operation_ids_filter:
  "set (managed_operation_ids (filter p rs)) \<subseteq> set (managed_operation_ids rs)"
  by (induction rs) (auto split: option.splits)

lemma distinct_managed_operation_ids_filter:
  "distinct (managed_operation_ids rs) \<Longrightarrow> distinct (managed_operation_ids (filter p rs))"
  by (induction rs) (auto split: option.splits dest: managed_operation_ids_filter [THEN subsetD])

lemma in_managed_operation_ids:
  "oid \<in> set (managed_operation_ids rs) \<longleftrightarrow> (\<exists>r \<in> set rs. has_operation_id oid r)"
  by (induction rs) (auto simp: has_operation_id_def split: option.splits)

lemma managed_state_managed:
  "rec_managed_execution r = Some m \<Longrightarrow>
     managed_state r = Inr s \<longleftrightarrow> (\<exists>s'. s = Some s' \<and> managed_state r = Inr (Some s'))"
  by (auto simp: managed_state_def result_simps)

lemma validate_records_from_iff:
  "validate_records_from ids rs = Inr () \<longleftrightarrow>
     (\<forall>r \<in> set rs. valid_managed_record r) \<and> distinct (managed_operation_ids rs) \<and>
     set (managed_operation_ids rs) \<inter> ids = {}"
proof (induction rs arbitrary: ids)
  case Nil
  then show ?case by simp
next
  case (Cons r rs)
  show ?case
  proof (cases "rec_managed_execution r")
    case None
    then show ?thesis by (simp add: Cons.IH valid_managed_record_def)
  next
    case (Some m)
    have "validate_records_from ids (r # rs) = Inr () \<longleftrightarrow>
        metadata_validate m = Inr () \<and> trim (rec_id r) \<noteq> [] \<and>
        (\<exists>s. managed_state r = Inr s) \<and> me_operation_id m \<notin> ids \<and>
        validate_records_from (insert (me_operation_id m) ids) rs = Inr ()"
      using Some by (auto simp: result_simps)
    moreover have "(\<exists>s. managed_state r = Inr s) \<longleftrightarrow> (\<exists>s. managed_state r = Inr (Some s))"
      using managed_state_managed [OF Some] by blast
    ultimately show ?thesis
      using Some by (auto simp: Cons.IH valid_managed_record_def)
  qed
qed

lemma valid_records_iff:
  "valid_records rs \<longleftrightarrow>
     (\<forall>r \<in> set rs. valid_managed_record r) \<and> distinct (managed_operation_ids rs)"
  by (simp add: valid_records_def validate_managed_records_def validate_records_from_iff)

lemma valid_records_managed_state:
  assumes "valid_records rs" and "r \<in> set rs" and "rec_managed_execution r = Some m"
  obtains s where "managed_state r = Inr (Some s)" "metadata_validate m = Inr ()"
proof -
  from assms(1,2) have "valid_managed_record r" by (simp add: valid_records_iff)
  with assms(3) that show ?thesis by (auto simp: valid_managed_record_def)
qed

lemma valid_records_operation_unique:
  assumes "valid_records rs" and "r1 \<in> set rs" and "r2 \<in> set rs"
    and "has_operation_id oid r1" and "has_operation_id oid r2"
  shows "r1 = r2"
proof -
  have "distinct (managed_operation_ids rs)" using assms(1) by (simp add: valid_records_iff)
  then show ?thesis using assms(2-)
  proof (induction rs)
    case Nil
    then show ?case by simp
  next
    case (Cons r rs)
    have once: "\<not> has_operation_id oid x" if "has_operation_id oid r" "x \<in> set rs" for x
      using that Cons.prems(1) in_managed_operation_ids [of oid rs]
      by (auto simp: has_operation_id_def split: option.splits)
    have "distinct (managed_operation_ids rs)"
      using Cons.prems(1) by (auto split: option.splits)
    with Cons once show ?case by auto
  qed
qed

lemma update_by_id_ids [simp]:
  assumes "\<And>r. rec_id (f r) = rec_id r"
  shows "map rec_id (update_by_id rs i f) = map rec_id rs"
  using assms by (simp add: update_by_id_def map_update_first)

lemma strict_view_Some_valid: "strict_view d = Some rs \<Longrightarrow> valid_records rs"
  by (auto simp: strict_view_def valid_records_def parse_records_def validate_managed_records_def
      result_simps split: option.splits sum.splits file_content.splits)

section \<open>Facts on the store\<close>

lemma load_strict_cases:
  assumes "load_unlocked flt ReturnError c d = (res, d')"
  shows "d' = d \<and> (\<forall>rs. res = Inr rs \<longrightarrow> strict_view d = Some rs)"
  using assms
  by (auto simp: load_unlocked_def strict_view_def split: option.splits sum.splits if_splits)

lemma load_strict_faultless:
  assumes "sf_load_dir flt = None" and "sf_read flt = None" and "strict_view d = Some rs"
  shows "load_unlocked flt policy c d = (Inr rs, d)"
  using assms by (auto simp: load_unlocked_def strict_view_def split: option.splits sum.splits)

lemma load_readonly_Inr: "load_readonly flt d = Inr rs \<Longrightarrow> strict_view d = Some rs"
  using load_strict_cases [of flt False d "fst (load_unlocked flt ReturnError False d)"]
  by (cases "load_unlocked flt ReturnError False d") (auto simp: load_readonly_def)

lemma write_unlocked_Inr:
  assumes "write_unlocked flt rs d = (Inr u, d')"
  shows "valid_records rs \<and>
    disk_file d' = Some \<lparr>node_content = Holds rs, node_synced = True\<rparr>"
  using assms
  by (auto simp: write_unlocked_def valid_records_def result_simps split: sum.splits option.splits)

lemma write_unlocked_Inl:
  assumes "write_unlocked flt rs d = (Inl e, d')"
  shows "disk_file d' = disk_file d \<and> disk_backups d' = disk_backups d"
  using assms
  by (auto simp: write_unlocked_def split: sum.splits option.splits dest: write_durable_Inl)

lemma strict_view_cong: "disk_file d' = disk_file d \<Longrightarrow> strict_view d' = strict_view d"
  by (simp add: strict_view_def)

lemma strict_view_written:
  assumes "disk_file d = Some \<lparr>node_content = Holds rs, node_synced = b\<rparr>" and "valid_records rs"
  shows "strict_view d = Some rs"
  using assms by (simp add: strict_view_def parse_records_def valid_records_def)

lemma transact_Inl_file:
  assumes "transact from_io flt f d = (Inl e, d')"
  shows "disk_file d' = disk_file d \<and> disk_backups d' = disk_backups d"
  using assms
  by (auto simp: transact_def modify_with_policy_def split: option.splits sum.splits prod.splits
      dest: load_strict_cases write_unlocked_Inl)

lemma transact_Inr:
  assumes "transact from_io flt f d = (Inr r, d')"
  shows "\<exists>rs rs'. strict_view d = Some rs \<and> f rs = Inr (r, rs') \<and> valid_records rs' \<and>
    disk_file d' = Some \<lparr>node_content = Holds rs', node_synced = True\<rparr>"
  using assms
  by (auto simp: transact_def modify_with_policy_def split: option.splits sum.splits prod.splits
      dest: load_strict_cases write_unlocked_Inr)

interpretation box_store: locked_store strict_view valid_records "transact from_io"
  by unfold_locales
    (auto dest!: transact_Inr transact_Inl_file intro: strict_view_written strict_view_cong)

text \<open>The recovering variant never fails on a corrupt file; it has the same contract.\<close>

lemma load_quarantine_cases:
  assumes "load_unlocked flt Quarantine c d = (res, d')"
  shows "recovering_view d' = recovering_view d \<and>
    (\<forall>rs. res = Inr rs \<longrightarrow> recovering_view d = Some rs)"
proof (cases "strict_view d")
  case None
  have q: "recovering_view (snd (quarantine_corrupt qf d)) = Some []" for qf
    using None quarantine_corrupt_file [of qf d]
    by (cases "quarantine_corrupt qf d")
      (auto simp: recovering_view_def strict_view_def split: option.splits)
  have "recovering_view d = Some []" using None by (simp add: recovering_view_def)
  with assms None show ?thesis
    by (auto simp: load_unlocked_def strict_view_def q split: option.splits sum.splits)
next
  case (Some rs)
  then have "load_unlocked flt Quarantine c d = (Inr rs, d) \<or> (\<exists>e. res = Inl e \<and> d' = d)"
    using assms by (auto simp: load_unlocked_def strict_view_def split: option.splits sum.splits)
  with assms Some show ?thesis by (auto simp: recovering_view_def)
qed

lemma recovering_view_written:
  assumes "disk_file d = Some \<lparr>node_content = Holds rs, node_synced = b\<rparr>" and "valid_records rs"
  shows "recovering_view d = Some rs"
  using strict_view_written [OF assms] by (simp add: recovering_view_def)

lemma recovering_view_cong: "disk_file d' = disk_file d \<Longrightarrow> recovering_view d' = recovering_view d"
  by (simp add: recovering_view_def strict_view_def)

lemma modify_or_quarantine_Inl:
  assumes "modify_or_quarantine from_io flt f d = (Inl e, d')"
  shows "recovering_view d' = recovering_view d"
proof -
  obtain res d1 where l: "load_unlocked flt Quarantine True d = (res, d1)"
    by (cases "load_unlocked flt Quarantine True d")
  have "recovering_view d1 = recovering_view d" using load_quarantine_cases [OF l] by simp
  then show ?thesis
    using assms l
    by (auto simp: modify_or_quarantine_def modify_with_policy_def
        split: option.splits sum.splits prod.splits
        dest!: write_unlocked_Inl recovering_view_cong)
qed

lemma modify_or_quarantine_Inr:
  assumes "modify_or_quarantine from_io flt f d = (Inr r, d')"
  shows "\<exists>rs rs'. recovering_view d = Some rs \<and> f rs = Inr (r, rs') \<and> valid_records rs' \<and>
    recovering_view d' = Some rs'"
  using assms
  by (auto simp: modify_or_quarantine_def modify_with_policy_def
      split: option.splits sum.splits prod.splits
      dest!: load_quarantine_cases write_unlocked_Inr intro: recovering_view_written)

interpretation recovering_store:
  locked_store recovering_view valid_records "modify_or_quarantine from_io"
  by unfold_locales (auto dest: modify_or_quarantine_Inr modify_or_quarantine_Inl)

lemma operation_ids_count:
  "length (filter (has_operation_id oid) rs) = count_list (managed_operation_ids rs) oid"
  by (induction rs) (auto simp: has_operation_id_def split: option.splits)

lemma distinct_count_le_1: "distinct xs \<Longrightarrow> count_list xs x \<le> 1"
  by (induction xs) (auto simp: count_list_0_iff)

text \<open>A valid store has at most one record per operation.\<close>

lemma valid_records_filter_operation:
  assumes "valid_records rs" and "r \<in> set rs" and "has_operation_id oid r"
  shows "filter (has_operation_id oid) rs = [r]"
proof -
  have "length (filter (has_operation_id oid) rs) \<le> 1"
    using assms(1) distinct_count_le_1 [of "managed_operation_ids rs" oid]
    by (simp add: operation_ids_count valid_records_iff)
  moreover have "r \<in> set (filter (has_operation_id oid) rs)" using assms(2,3) by simp
  ultimately show ?thesis by (cases "filter (has_operation_id oid) rs") auto
qed

lemma find_filter: "filter p xs = [x] \<Longrightarrow> find p xs = Some x"
  by (induction xs) (auto split: if_splits)

text \<open>A transaction without faults answers what its closure answers.\<close>

lemma transact_faultless:
  assumes "strict_view d = Some rs" and "f rs = Inr (out, rs')" and "valid_records rs'"
  shows "\<exists>d'. transact from_io no_faults f d = (Inr out, d') \<and> strict_view d' = Some rs'"
proof -
  have l: "load_unlocked no_faults ReturnError True d = (Inr rs, d)"
    by (rule load_strict_faultless [OF _ _ assms(1)]) (simp_all add: no_faults_def)
  have "\<exists>d'. write_unlocked no_faults rs' d = (Inr (), d')"
    using assms(3)
    by (simp add: write_unlocked_def valid_records_def no_faults_def no_write_faults_def
        write_durable_def write_durable_steps_def)
  then obtain d' where w: "write_unlocked no_faults rs' d = (Inr (), d')" by blast
  have "strict_view d' = Some rs'"
    using write_unlocked_Inr [OF w] strict_view_written by blast
  then show ?thesis
    using l w assms(2) by (simp add: transact_def modify_with_policy_def no_faults_def)
qed

lemma transact_refused:
  assumes "strict_view d = Some rs" and "f rs = Inl e"
  shows "transact from_io no_faults f d = (Inl e, d)"
proof -
  have l: "load_unlocked no_faults ReturnError True d = (Inr rs, d)"
    by (rule load_strict_faultless [OF _ _ assms(1)]) (simp_all add: no_faults_def)
  then show ?thesis using assms(2) by (simp add: transact_def modify_with_policy_def no_faults_def)
qed

section \<open>Properties\<close>




definition torn_disk :: "'a disk" where
  "torn_disk =
     \<lparr>disk_file = Some \<lparr>node_content = Unparsable ''eof'', node_synced = True\<rparr>, disk_tmp = None,
      disk_backups = Map.empty\<rparr>"


end
