(* ===== verification/Managed_Store.thy ===== *)
theory Managed_Store
  imports Box_State
begin

text \<open>
  The generation-fenced repository of managed executions,
  \<open>runtime/src/managed_execution_store.rs\<close>. Each mutating operation is a closure on the records run
  by \<open>transact\<close>; the closure of an operation \<open>f\<close> is \<open>f_body\<close>. The conversion of a creation request
  to a JSON value (\<open>serde_json::to_value\<close>) is the parameter \<open>to_value\<close>: the code compares requests
  through it. The second half states the legal lifecycle as a step relation on disks.
\<close>

section \<open>Data\<close>

datatype managed_execution_reservation = Reserved box_record | Existing box_record

datatype store_error =
    StoreIo io_error
  | StoreNotFound execution_id
  | Unmanaged execution_id
  | StoreConflict execution_id string
  | InvalidRecord string
  | InvalidTransition execution_id managed_execution_state managed_execution_state

definition is_new :: "managed_execution_reservation \<Rightarrow> bool" where
  "is_new r = (case r of Reserved _ \<Rightarrow> True | Existing _ \<Rightarrow> False)"

definition reservation_record :: "managed_execution_reservation \<Rightarrow> box_record" where
  "reservation_record r = (case r of Reserved record \<Rightarrow> record | Existing record \<Rightarrow> record)"

section \<open>Checks\<close>

text \<open>The state of a record the repository requires to be managed.\<close>

definition require_managed_state ::
    "execution_id \<Rightarrow> box_record \<Rightarrow> store_error + managed_execution_state" where
  "require_managed_state i record =
     rbind (map_err (\<lambda>e. InvalidRecord (box_error_to_string e)) (managed_state record)) (\<lambda>state.
       ok_or (Unmanaged i) state)"

definition require_metadata ::
    "execution_id \<Rightarrow> box_record \<Rightarrow> store_error + managed_execution_metadata" where
  "require_metadata i record = ok_or (Unmanaged i) (rec_managed_execution record)"

definition validate_new_record :: "box_record \<Rightarrow> store_error + execution_id" where
  "validate_new_record record =
     rbind (map_err (\<lambda>e. InvalidRecord (manager_error_to_string e))
              (execution_id_new (rec_id record))) (\<lambda>execution_id.
     rbind (require_metadata execution_id record) (\<lambda>metadata.
     rbind (map_err (\<lambda>e. InvalidRecord (box_error_to_string e))
              (metadata_validate metadata)) (\<lambda>_.
     rbind (require_managed_state execution_id record) (\<lambda>state.
       if state \<noteq> Created then
         Inl (InvalidRecord (''new execution '' @ execution_id_str execution_id @
           '' must be created, found '' @ as_status state))
       else if me_generation metadata \<noteq> INITIAL then
         Inl (InvalidRecord (''new execution '' @ execution_id_str execution_id @
           '' must start at generation '' @ show_word (generation_get INITIAL)))
       else Inr execution_id))))"

definition same_creation_intent ::
    "(create_execution_request \<Rightarrow> string + 'j) \<Rightarrow> managed_execution_metadata \<Rightarrow>
     managed_execution_metadata \<Rightarrow> store_error + bool" where
  "same_creation_intent to_value left right =
     rbind (map_err InvalidRecord (to_value (me_request left))) (\<lambda>left_request.
     rbind (map_err InvalidRecord (to_value (me_request right))) (\<lambda>right_request.
       Inr (left_request = right_request \<and> me_plan left = me_plan right)))"

definition legal_transition ::
    "managed_execution_state \<Rightarrow> managed_execution_state \<Rightarrow> bool" where
  "legal_transition from to =
     (case from of
        Creating \<Rightarrow> to \<in> {Created, Starting, Killing, Stopped, Failed}
      | Created \<Rightarrow> to \<in> {Starting, Killing, RestartStopping, Stopped, Failed}
      | Starting \<Rightarrow> to \<in> {Created, Creating, Running, Killing, Stopped, Failed}
      | Running \<Rightarrow> to \<in> {Pausing, Snapshotting, Killing, RestartStopping, Stopped, Failed}
      | Pausing \<Rightarrow> to \<in> {Paused, Running, Killing, Stopped, Failed}
      | Paused \<Rightarrow> to \<in> {Resuming, Snapshotting, Killing, RestartStopping, Stopped, Failed}
      | Resuming \<Rightarrow> to \<in> {Running, Paused, Killing, Stopped, Failed}
      | Snapshotting \<Rightarrow> to \<in> {Running, Paused, Stopped, Failed}
      | Killing \<Rightarrow> to \<in> {Stopped, Failed}
      | Stopped \<Rightarrow> to = RestartStopping
      | Failed \<Rightarrow> to = RestartStopping
      | RestartStopping \<Rightarrow> to = RestartStarting
      | RestartStarting \<Rightarrow> to \<in> {Running, Failed}
      | Removing \<Rightarrow> False)"

definition increments_generation ::
    "managed_execution_state \<Rightarrow> managed_execution_state \<Rightarrow> bool" where
  "increments_generation from to \<longleftrightarrow>
     (from, to) \<in> {(Pausing, Paused), (Resuming, Running), (RestartStopping, RestartStarting)}"

definition transition_generation ::
    "execution_id \<Rightarrow> managed_execution_state \<Rightarrow> managed_execution_state \<Rightarrow> execution_generation \<Rightarrow>
     store_error + execution_generation" where
  "transition_generation i from to current =
     (if \<not> legal_transition from to then Inl (InvalidTransition i from to)
      else if increments_generation from to then
        rbind (ok_or (InvalidRecord (''execution '' @ execution_id_str i @
                 '' generation is exhausted''))
                 (checked_add (generation_get current) 1)) (\<lambda>value.
          map_err (\<lambda>e. InvalidRecord (manager_error_to_string e)) (execution_generation_new value))
      else Inr current)"

section \<open>Reads\<close>

definition get_managed ::
    "store_faults \<Rightarrow> execution_id \<Rightarrow> box_record list disk \<Rightarrow> store_error + box_record option" where
  "get_managed flt i d =
     rbind (map_err StoreIo (load_readonly flt d)) (\<lambda>records.
       (case find_by_id records (execution_id_str i) of
          None \<Rightarrow> Inr None
        | Some record \<Rightarrow>
            if rec_managed_execution record = None then Inl (Unmanaged i) else Inr (Some record)))"

definition list_managed ::
    "store_faults \<Rightarrow> box_record list disk \<Rightarrow> store_error + box_record list" where
  "list_managed flt d =
     rbind (map_err StoreIo (load_readonly flt d)) (\<lambda>records.
       Inr (filter (\<lambda>record. rec_managed_execution record \<noteq> None) records))"

definition get_by_operation_id ::
    "store_faults \<Rightarrow> operation_id \<Rightarrow> box_record list disk \<Rightarrow> store_error + box_record option" where
  "get_by_operation_id flt oid d =
     rbind (map_err StoreIo (load_readonly flt d)) (\<lambda>records.
       Inr (find_by_operation_id records oid))"

section \<open>Reservation\<close>

definition reserve_body ::
    "(create_execution_request \<Rightarrow> string + 'j) \<Rightarrow> execution_id \<Rightarrow> managed_execution_metadata \<Rightarrow>
     box_record \<Rightarrow> box_record list \<Rightarrow>
     store_error + managed_execution_reservation \<times> box_record list" where
  "reserve_body to_value i incoming record records =
     (case find_by_operation_id records (me_operation_id incoming) of
        Some existing \<Rightarrow>
          rbind (map_err (\<lambda>e. InvalidRecord (manager_error_to_string e))
                   (execution_id_new (rec_id existing))) (\<lambda>existing_id.
          rbind (require_metadata existing_id existing) (\<lambda>existing_metadata.
          rbind (same_creation_intent to_value existing_metadata incoming) (\<lambda>same.
            if \<not> same then
              Inl (StoreConflict existing_id (''operation '' @
                operation_id_str (me_operation_id incoming) @
                '' was already reserved with different creation intent''))
            else Inr (Existing existing, records))))
      | None \<Rightarrow>
          if find_by_id records (execution_id_str i) \<noteq> None then
            Inl (StoreConflict i ''execution ID is already present'')
          else Inr (Reserved record, records @ [record]))"

definition reserve ::
    "(create_execution_request \<Rightarrow> string + 'j) \<Rightarrow> store_faults \<Rightarrow> box_record \<Rightarrow>
     box_record list disk \<Rightarrow>
     (store_error + managed_execution_reservation) \<times> box_record list disk" where
  "reserve to_value flt record d =
     (case validate_new_record record of
        Inl e \<Rightarrow> (Inl e, d)
      | Inr i \<Rightarrow>
          (let record' = record\<lparr>rec_status := as_status Created\<rparr> in
           case require_metadata i record' of
             Inl e \<Rightarrow> (Inl e, d)
           | Inr incoming \<Rightarrow>
               transact StoreIo flt (reserve_body to_value i incoming record') d))"

section \<open>Removal\<close>

definition begin_remove_record ::
    "execution_id \<Rightarrow> execution_generation \<Rightarrow> box_record \<Rightarrow> store_error + box_record" where
  "begin_remove_record i expected_generation record =
     rbind (require_managed_state i record) (\<lambda>state.
     rbind (require_metadata i record) (\<lambda>metadata.
       if me_generation metadata \<noteq> expected_generation then
         Inl (StoreConflict i (''expected generation '' @
           show_word (generation_get expected_generation) @ '', found '' @
           show_word (generation_get (me_generation metadata))))
       else (case state of
           Removing \<Rightarrow> Inr record
         | _ \<Rightarrow>
             if state \<in> {Created, Stopped, Failed} then
               Inr (record\<lparr>rec_status := as_status Removing,
                 rec_managed_execution := Some (metadata\<lparr>me_pending_operation := Some OpRemove\<rparr>)\<rparr>)
             else Inl (StoreConflict i (''cannot remove execution in state '' @ as_status state)))))"

definition begin_remove_body ::
    "execution_id \<Rightarrow> execution_generation \<Rightarrow> box_record list \<Rightarrow>
     store_error + box_record option \<times> box_record list" where
  "begin_remove_body i expected_generation records =
     (case find_by_id records (execution_id_str i) of
        None \<Rightarrow> Inr (None, records)
      | Some record \<Rightarrow>
          rbind (begin_remove_record i expected_generation record) (\<lambda>record'.
            Inr (Some record', update_by_id records (execution_id_str i) (\<lambda>_. record'))))"

definition begin_remove ::
    "store_faults \<Rightarrow> execution_id \<Rightarrow> execution_generation \<Rightarrow> box_record list disk \<Rightarrow>
     (store_error + box_record option) \<times> box_record list disk" where
  "begin_remove flt i expected_generation d =
     transact StoreIo flt (begin_remove_body i expected_generation) d"

definition finish_remove_body ::
    "execution_id \<Rightarrow> execution_generation \<Rightarrow> box_record list \<Rightarrow>
     store_error + bool \<times> box_record list" where
  "finish_remove_body i expected_generation records =
     (case find_by_id records (execution_id_str i) of
        None \<Rightarrow> Inr (False, records)
      | Some record \<Rightarrow>
          rbind (require_managed_state i record) (\<lambda>state.
          rbind (require_metadata i record) (\<lambda>metadata.
            if me_generation metadata \<noteq> expected_generation \<or> state \<noteq> Removing then
              Inl (StoreConflict i (''expected removing generation '' @
                show_word (generation_get expected_generation) @ '', found '' @ as_status state @
                '' generation '' @ show_word (generation_get (me_generation metadata))))
            else Inr (remove_by_id records (execution_id_str i)))))"

definition finish_remove ::
    "store_faults \<Rightarrow> execution_id \<Rightarrow> execution_generation \<Rightarrow> box_record list disk \<Rightarrow>
     (store_error + bool) \<times> box_record list disk" where
  "finish_remove flt i expected_generation d =
     transact StoreIo flt (finish_remove_body i expected_generation) d"

section \<open>Transitions\<close>

text \<open>The completion recorded when a restart leaves its starting state.\<close>

definition record_completion ::
    "execution_id \<Rightarrow> managed_execution_state \<Rightarrow> managed_execution_state \<Rightarrow> execution_generation \<Rightarrow>
     managed_execution_metadata \<Rightarrow> store_error + managed_execution_metadata" where
  "record_completion i expected_state next_state next_gen metadata =
     (if expected_state = RestartStarting \<and> next_state \<in> {Running, Failed} then
        (case me_pending_operation metadata of
           Some (OpRestart operation_id source_generation source_state stop_timeout_secs) \<Rightarrow>
             Inr (metadata\<lparr>me_last_restart := Some
               \<lparr>mrc_operation_id = operation_id, mrc_source_generation = source_generation,
                mrc_target_generation = next_gen,
                mrc_outcome = (if next_state = Running then RestartRunning else RestartFailed),
                mrc_stop_timeout_secs = stop_timeout_secs\<rparr>\<rparr>)
         | _ \<Rightarrow> Inl (InvalidRecord (''restart completion for '' @ execution_id_str i @
                 '' has no persisted restart intent'')))
      else Inr metadata)"

text \<open>The operation claimed by the state a transition enters.\<close>

definition next_pending ::
    "execution_id \<Rightarrow> managed_execution_state \<Rightarrow> managed_execution_operation option \<Rightarrow>
     store_error + managed_execution_operation option" where
  "next_pending i next_state pending =
     (case next_state of
        Starting \<Rightarrow> Inr (Some OpStart)
      | Pausing \<Rightarrow>
          (case pending of
             Some (OpPause keep) \<Rightarrow> Inr (Some (OpPause keep))
           | _ \<Rightarrow> Inr (Some (OpPause False)))
      | Resuming \<Rightarrow> Inr (Some OpResume)
      | Snapshotting \<Rightarrow>
          (case pending of
             Some (OpSnapshot s src) \<Rightarrow> Inr (Some (OpSnapshot s src))
           | _ \<Rightarrow> Inl (InvalidRecord (''snapshot transition for '' @ execution_id_str i @
                   '' has no persisted snapshot intent'')))
      | Killing \<Rightarrow>
          (case pending of
             Some (OpKill s t) \<Rightarrow> Inr (Some (OpKill s t))
           | _ \<Rightarrow> Inr (Some (OpKill None None)))
      | Removing \<Rightarrow> Inr (Some OpRemove)
      | _ \<Rightarrow>
          if next_state \<in> {RestartStopping, RestartStarting} then
            (case pending of
               Some (OpRestart a b c e) \<Rightarrow> Inr (Some (OpRestart a b c e))
             | _ \<Rightarrow> Inl (InvalidRecord (''restart transition for '' @ execution_id_str i @
                     '' has no persisted restart intent'')))
          else Inr None)"

text \<open>What the transition makes of the record it found.\<close>

definition transition_record ::
    "(create_execution_request \<Rightarrow> string + 'j) \<Rightarrow> execution_id \<Rightarrow> execution_generation \<Rightarrow>
     managed_execution_state \<Rightarrow> managed_execution_state \<Rightarrow> (box_record \<Rightarrow> box_record) \<Rightarrow>
     box_record \<Rightarrow> store_error + box_record" where
  "transition_record to_value i expected_generation expected_state next_state update record =
     rbind (require_managed_state i record) (\<lambda>actual_state.
     rbind (require_metadata i record) (\<lambda>original_metadata.
       if me_generation original_metadata \<noteq> expected_generation \<or> actual_state \<noteq> expected_state then
         Inl (StoreConflict i (''expected '' @ as_status expected_state @ '' generation '' @
           show_word (generation_get expected_generation) @ '', found '' @
           as_status actual_state @ '' generation '' @
           show_word (generation_get (me_generation original_metadata))))
       else
         rbind (transition_generation i expected_state next_state expected_generation) (\<lambda>next_gen.
           let updated = update record in
           if rec_id updated \<noteq> execution_id_str i then
             Inl (InvalidRecord (''transition changed execution ID '' @ execution_id_str i))
           else
             rbind (require_metadata i updated) (\<lambda>updated_metadata.
             rbind (if me_operation_id updated_metadata \<noteq> me_operation_id original_metadata
                    then Inr False
                    else same_creation_intent to_value updated_metadata original_metadata)
               (\<lambda>same_identity.
               if \<not> same_identity then
                 Inl (InvalidRecord (''transition changed creation identity for '' @
                   execution_id_str i))
               else
                 rbind (record_completion i expected_state next_state next_gen
                          (updated_metadata\<lparr>me_generation := next_gen\<rparr>)) (\<lambda>completed.
                 rbind (next_pending i next_state (me_pending_operation completed)) (\<lambda>pending.
                   Inr (updated\<lparr>rec_status := as_status next_state,
                     rec_managed_execution :=
                       Some (completed\<lparr>me_pending_operation := pending\<rparr>)\<rparr>))))))))"

definition transition_body ::
    "(create_execution_request \<Rightarrow> string + 'j) \<Rightarrow> execution_id \<Rightarrow> execution_generation \<Rightarrow>
     managed_execution_state \<Rightarrow> managed_execution_state \<Rightarrow> (box_record \<Rightarrow> box_record) \<Rightarrow>
     box_record list \<Rightarrow> store_error + box_record \<times> box_record list" where
  "transition_body to_value i expected_generation expected_state next_state update records =
     (case find_by_id records (execution_id_str i) of
        None \<Rightarrow> Inl (StoreNotFound i)
      | Some record \<Rightarrow>
          rbind (transition_record to_value i expected_generation expected_state next_state update
                   record) (\<lambda>record'.
            Inr (record', update_by_id records (execution_id_str i) (\<lambda>_. record'))))"

definition transition_with ::
    "(create_execution_request \<Rightarrow> string + 'j) \<Rightarrow> store_faults \<Rightarrow> execution_id \<Rightarrow>
     execution_generation \<Rightarrow> managed_execution_state \<Rightarrow> managed_execution_state \<Rightarrow>
     (box_record \<Rightarrow> box_record) \<Rightarrow> box_record list disk \<Rightarrow>
     (store_error + box_record) \<times> box_record list disk" where
  "transition_with to_value flt i expected_generation expected_state next_state update d =
     transact StoreIo flt
       (transition_body to_value i expected_generation expected_state next_state update) d"

definition transition ::
    "(create_execution_request \<Rightarrow> string + 'j) \<Rightarrow> store_faults \<Rightarrow> execution_id \<Rightarrow>
     execution_generation \<Rightarrow> managed_execution_state \<Rightarrow> managed_execution_state \<Rightarrow>
     box_record list disk \<Rightarrow> (store_error + box_record) \<times> box_record list disk" where
  "transition to_value flt i expected_generation expected_state next_state d =
     transition_with to_value flt i expected_generation expected_state next_state (\<lambda>r. r) d"

section \<open>Facts on single records\<close>

lemma require_managed_state_Inr [result_simps]:
  "require_managed_state i r = Inr s \<longleftrightarrow> managed_state r = Inr (Some s)"
  by (auto simp: require_managed_state_def result_simps)

lemma require_metadata_Inr [result_simps]:
  "require_metadata i r = Inr m \<longleftrightarrow> rec_managed_execution r = Some m"
  by (simp add: require_metadata_def result_simps)

lemma transition_generation_Inr [result_simps]:
  "transition_generation i s t g = Inr h \<longleftrightarrow>
     legal_transition s t \<and>
     (if increments_generation s t
      then unat (generation_get g) + 1 < 2 ^ 64 \<and> h = ExecutionGeneration (generation_get g + 1)
      else h = g)"
  using word_succ_nonzero [of "generation_get g"]
  by (auto simp: transition_generation_def checked_add_def execution_generation_new_def)

lemma legal_transition_irrefl: "\<not> legal_transition s s"
  by (cases s) (simp_all add: legal_transition_def)

lemma legal_transition_Removing: "\<not> legal_transition Removing t"  "\<not> legal_transition s Removing"
  by (cases s; simp add: legal_transition_def)+

lemma transition_generation_bounds:
  assumes "transition_generation i s t g = Inr h"
  shows "unat (generation_get h) =
    unat (generation_get g) + (if increments_generation s t then 1 else 0)"
  using assms by (auto simp: result_simps unat_word_ariths)

lemma record_completion_keeps:
  assumes "record_completion i s t g m = Inr m'"
  shows "me_operation_id m' = me_operation_id m" "me_generation m' = me_generation m"
    "me_request m' = me_request m" "me_plan m' = me_plan m"
    "me_pending_operation m' = me_pending_operation m"
  using assms
  by (auto simp: record_completion_def
      split: if_splits option.splits managed_execution_operation.splits)

lemma same_creation_intent_True:
  "same_creation_intent tv a b = Inr True \<longleftrightarrow>
     me_plan a = me_plan b \<and> (\<exists>v. tv (me_request a) = Inr v \<and> tv (me_request b) = Inr v)"
  by (auto simp: same_creation_intent_def result_simps)

text \<open>The creation identity of two metadata values is the same.\<close>

definition same_identity ::
    "(create_execution_request \<Rightarrow> string + 'j) \<Rightarrow> managed_execution_metadata \<Rightarrow>
     managed_execution_metadata \<Rightarrow> bool" where
  "same_identity tv a b \<longleftrightarrow>
     me_operation_id a = me_operation_id b \<and> me_plan a = me_plan b \<and>
     (me_request a = me_request b \<or> tv (me_request a) = tv (me_request b))"

lemma transition_record_Inr:
  assumes "transition_record tv i g s t u r = Inr r'"
  obtains m m' where "rec_managed_execution r = Some m" "managed_state r = Inr (Some s)"
    "me_generation m = g" "legal_transition s t" "rec_managed_execution r' = Some m'"
    "transition_generation i s t g = Inr (me_generation m')"
    "rec_status r' = as_status t" "rec_id r' = execution_id_str i" "same_identity tv m' m"
proof -
  from assms obtain m h um c pd where f:
    "managed_state r = Inr (Some s)" "rec_managed_execution r = Some m" "me_generation m = g"
    "transition_generation i s t g = Inr h" "rec_id (u r) = execution_id_str i"
    "rec_managed_execution (u r) = Some um" "me_operation_id um = me_operation_id m"
    "same_creation_intent tv um m = Inr True"
    "record_completion i s t h (um\<lparr>me_generation := h\<rparr>) = Inr c"
    "r' = (u r)\<lparr>rec_status := as_status t,
            rec_managed_execution := Some (c\<lparr>me_pending_operation := pd\<rparr>)\<rparr>"
    unfolding transition_record_def Let_def
    by (auto simp: rbind_eq_Inr require_managed_state_Inr require_metadata_Inr split: if_splits)
  note keeps = record_completion_keeps [OF f(9)]
  show ?thesis
    by (rule that [of m "c\<lparr>me_pending_operation := pd\<rparr>"])
      (use f keeps in \<open>auto simp: same_identity_def same_creation_intent_True
          transition_generation_Inr\<close>)
qed

lemma transition_record_conflict:
  assumes "managed_state r = Inr (Some s')" and "rec_managed_execution r = Some m"
    and "me_generation m \<noteq> g \<or> s' \<noteq> s"
  shows "\<exists>msg. transition_record tv i g s t u r = Inl (StoreConflict i msg)"
  using assms by (auto simp: transition_record_def require_managed_state_def require_metadata_def)

lemma begin_remove_record_Inr:
  assumes "begin_remove_record i g r = Inr r'"
  obtains m s where "rec_managed_execution r = Some m" "managed_state r = Inr (Some s)"
    "me_generation m = g" "s \<in> {Created, Stopped, Failed, Removing}" "rec_id r' = rec_id r"
    "s = Removing \<Longrightarrow> r' = r"
    "s \<noteq> Removing \<Longrightarrow> rec_status r' = as_status Removing \<and>
       rec_managed_execution r' = Some (m\<lparr>me_pending_operation := Some OpRemove\<rparr>)"
  using assms
  by (auto simp: begin_remove_record_def result_simps
      split: if_splits managed_execution_state.splits)

lemma begin_remove_record_identity:
  assumes "begin_remove_record i g r = Inr r'" and "rec_managed_execution r = Some m"
  obtains m' where "rec_managed_execution r' = Some m'" "me_generation m' = me_generation m"
    "same_identity tv m' m" "rec_id r' = rec_id r"
proof (cases "r' = r")
  case True
  with assms show ?thesis by (intro that [of m]) (auto simp: same_identity_def)
next
  case False
  obtain m0 s where f: "rec_managed_execution r = Some m0" "rec_id r' = rec_id r"
    "s = Removing \<Longrightarrow> r' = r"
    "s \<noteq> Removing \<Longrightarrow> rec_status r' = as_status Removing \<and>
       rec_managed_execution r' = Some (m0\<lparr>me_pending_operation := Some OpRemove\<rparr>)"
    by (rule begin_remove_record_Inr [OF assms(1)]) blast
  with False assms(2) show ?thesis
    by (intro that [of "m\<lparr>me_pending_operation := Some OpRemove\<rparr>"])
      (auto simp: same_identity_def)
qed

section \<open>Facts on the closures\<close>

abbreviation generation_of :: "managed_execution_metadata \<Rightarrow> nat" where
  "generation_of m \<equiv> unat (generation_get (me_generation m))"

text \<open>
  What one repository operation may do to a record it does not remove: its creation identity
  stays, its generation does not decrease and grows by at most one, and a record claimed for removal
  is not touched.
\<close>

definition record_evolves ::
    "(create_execution_request \<Rightarrow> string + 'j) \<Rightarrow> box_record \<Rightarrow> box_record \<Rightarrow> bool" where
  "record_evolves tv r r' \<longleftrightarrow>
     (\<forall>m. rec_managed_execution r = Some m \<longrightarrow>
        (\<exists>m'. rec_managed_execution r' = Some m' \<and> same_identity tv m' m \<and>
           generation_of m \<le> generation_of m' \<and> generation_of m' \<le> generation_of m + 1)) \<and>
     (managed_state r = Inr (Some Removing) \<longrightarrow> r' = r)"

lemma same_identity_refl [simp]: "same_identity tv m m"
  by (simp add: same_identity_def)

lemma record_evolves_refl [simp]: "record_evolves tv r r"
  by (auto simp: record_evolves_def)

lemma transition_record_evolves:
  assumes "transition_record tv i g s t u r = Inr r'"
  shows "record_evolves tv r r'"
proof -
  obtain m m' where f: "rec_managed_execution r = Some m" "managed_state r = Inr (Some s)"
    "me_generation m = g" "legal_transition s t" "rec_managed_execution r' = Some m'"
    "transition_generation i s t g = Inr (me_generation m')" "same_identity tv m' m"
    by (rule transition_record_Inr [OF assms]) blast
  moreover have "s \<noteq> Removing" using f(4) legal_transition_Removing by blast
  ultimately show ?thesis
    using transition_generation_bounds [OF f(6)] by (auto simp: record_evolves_def)
qed

lemma begin_remove_record_evolves:
  assumes "begin_remove_record i g r = Inr r'"
  shows "record_evolves tv r r'"
proof -
  obtain m s where f: "rec_managed_execution r = Some m" "managed_state r = Inr (Some s)"
    "s = Removing \<Longrightarrow> r' = r"
    by (rule begin_remove_record_Inr [OF assms]) blast
  obtain m' where "rec_managed_execution r' = Some m'" "me_generation m' = me_generation m"
    "same_identity tv m' m"
    by (rule begin_remove_record_identity [OF assms f(1)]) blast
  with f show ?thesis by (auto simp: record_evolves_def)
qed

text \<open>
  The records before and after an operation: a record disappears only when it was claimed for
  removal, and evolves otherwise.
\<close>

definition records_evolve ::
    "(create_execution_request \<Rightarrow> string + 'j) \<Rightarrow> box_record list \<Rightarrow> box_record list \<Rightarrow> bool" where
  "records_evolve tv rs rs' \<longleftrightarrow>
     (\<forall>j r. find_by_id rs j = Some r \<longrightarrow>
        (case find_by_id rs' j of
           None \<Rightarrow> managed_state r = Inr (Some Removing)
         | Some r' \<Rightarrow> record_evolves tv r r'))"

text \<open>The repository owns the file: every record is managed and no two share an identifier.\<close>

definition owned_records :: "box_record list \<Rightarrow> bool" where
  "owned_records rs \<longleftrightarrow>
     distinct (map rec_id rs) \<and> (\<forall>r \<in> set rs. rec_managed_execution r \<noteq> None)"

lemma records_evolve_refl [simp]: "records_evolve tv rs rs"
  by (simp add: records_evolve_def split: option.splits)

lemma find_by_id_SomeD: "find_by_id rs j = Some r \<Longrightarrow> r \<in> set rs \<and> rec_id r = j"
  using find_SomeD [of "\<lambda>record. rec_id record = j"] by (auto simp: find_by_id_def)

lemma find_by_id_update:
  assumes "find_by_id rs j = Some r" and "rec_id r' = j"
  shows "find_by_id (update_by_id rs j (\<lambda>_. r')) k =
    (if k = j then Some r' else find_by_id rs k)"
proof (cases "k = j")
  case True
  then show ?thesis
    using assms find_update_first [of "\<lambda>x. rec_id x = j" "\<lambda>_. r'" rs]
    by (simp add: find_by_id_def update_by_id_def)
next
  case False
  then show ?thesis
    using assms find_update_first_other [of "\<lambda>x. rec_id x = j" "\<lambda>x. rec_id x = k" "\<lambda>_. r'" rs]
    by (simp add: find_by_id_def update_by_id_def)
qed

lemma update_by_id_evolves:
  assumes "find_by_id rs j = Some r" and "rec_id r' = j" and "record_evolves tv r r'"
  shows "records_evolve tv rs (update_by_id rs j (\<lambda>_. r'))"
  using assms
  by (auto simp: records_evolve_def find_by_id_update [OF assms(1,2)] split: option.splits)

lemma update_by_id_owned:
  assumes "find_by_id rs j = Some r" and "rec_id r' = j" and "rec_managed_execution r' \<noteq> None"
    and "owned_records rs"
  shows "owned_records (update_by_id rs j (\<lambda>_. r'))"
proof -
  have "map rec_id (update_by_id rs j (\<lambda>_. r')) = map rec_id rs"
    using assms(2) by (auto simp: update_by_id_def intro!: map_update_first)
  with assms show ?thesis
    by (auto simp: owned_records_def update_by_id_def dest!: set_update_first)
qed

lemma transition_body_Inr:
  assumes "transition_body tv i g s t u rs = Inr (out, rs')"
  obtains r where "find_by_id rs (execution_id_str i) = Some r"
    "transition_record tv i g s t u r = Inr out"
    "rs' = update_by_id rs (execution_id_str i) (\<lambda>_. out)" "rec_id out = execution_id_str i"
    "rec_managed_execution out \<noteq> None"
  using assms
  by (auto simp: transition_body_def rbind_eq_Inr split: option.splits
      elim!: transition_record_Inr)

lemma begin_remove_body_Inr:
  assumes "begin_remove_body i g rs = Inr (out, rs')"
  shows "(out = None \<and> rs' = rs \<and> find_by_id rs (execution_id_str i) = None) \<or>
    (\<exists>r r'. find_by_id rs (execution_id_str i) = Some r \<and> begin_remove_record i g r = Inr r' \<and>
       out = Some r' \<and> rs' = update_by_id rs (execution_id_str i) (\<lambda>_. r') \<and>
       rec_id r' = execution_id_str i \<and> rec_managed_execution r' \<noteq> None)"
proof (cases "find_by_id rs (execution_id_str i)")
  case None
  with assms show ?thesis by (simp add: begin_remove_body_def)
next
  case (Some r)
  with assms obtain r' where r': "begin_remove_record i g r = Inr r'" "out = Some r'"
    "rs' = update_by_id rs (execution_id_str i) (\<lambda>_. r')"
    by (auto simp: begin_remove_body_def rbind_eq_Inr)
  obtain m where "rec_managed_execution r = Some m"
    by (rule begin_remove_record_Inr [OF r'(1)]) blast
  with r' Some find_by_id_SomeD [OF Some] show ?thesis
    by (auto elim!: begin_remove_record_identity [OF r'(1), of m tv])
qed

lemma finish_remove_body_Inr:
  assumes "finish_remove_body i g rs = Inr (out, rs')"
  shows "(\<not> out \<and> rs' = rs \<and> find_by_id rs (execution_id_str i) = None) \<or>
    (\<exists>r m. find_by_id rs (execution_id_str i) = Some r \<and> rec_managed_execution r = Some m \<and>
       me_generation m = g \<and> managed_state r = Inr (Some Removing) \<and> out \<and>
       rs' = filter (\<lambda>x. rec_id x \<noteq> execution_id_str i) rs)"
proof (cases "find_by_id rs (execution_id_str i)")
  case None
  with assms show ?thesis by (simp add: finish_remove_body_def)
next
  case (Some r)
  then have "r \<in> set rs" "rec_id r = execution_id_str i" using find_by_id_SomeD by auto
  then have less: "length (filter (\<lambda>x. rec_id x \<noteq> execution_id_str i) rs) < length rs"
    by (intro length_filter_less [of r]) simp_all
  from Some assms obtain m where "managed_state r = Inr (Some Removing)"
    "rec_managed_execution r = Some m" "me_generation m = g"
    "(out, rs') = remove_by_id rs (execution_id_str i)"
    by (auto simp: finish_remove_body_def rbind_eq_Inr require_managed_state_Inr
        require_metadata_Inr split: if_splits)
  with Some less show ?thesis by (simp add: remove_by_id_def)
qed

lemma reserve_body_Inr:
  assumes "reserve_body tv i m record rs = Inr (out, rs')"
  shows "(\<exists>r m'. out = Existing r \<and> rs' = rs \<and>
      find_by_operation_id rs (me_operation_id m) = Some r \<and>
      rec_managed_execution r = Some m' \<and> same_creation_intent tv m' m = Inr True) \<or>
    (out = Reserved record \<and> rs' = rs @ [record] \<and> find_by_id rs (execution_id_str i) = None \<and>
      find_by_operation_id rs (me_operation_id m) = None)"
  using assms
  by (auto simp: reserve_body_def result_simps split: option.splits if_splits)

lemma validate_new_record_Inr:
  assumes "validate_new_record r = Inr i"
  obtains m where "i = ExecutionId (rec_id r)" "trim (rec_id r) \<noteq> []"
    "rec_managed_execution r = Some m" "metadata_validate m = Inr ()"
    "managed_state r = Inr (Some Created)" "me_generation m = INITIAL"
  using assms by (auto simp: validate_new_record_def result_simps split: if_splits)

lemma transition_body_keeps:
  assumes "transition_body tv i g s t u rs = Inr (out, rs')" and "owned_records rs"
  shows "owned_records rs' \<and> records_evolve tv rs rs'"
  using assms
  by (auto elim!: transition_body_Inr
      intro: update_by_id_owned update_by_id_evolves transition_record_evolves)

lemma begin_remove_body_keeps:
  assumes "begin_remove_body i g rs = Inr (out, rs')" and "owned_records rs"
  shows "owned_records rs' \<and> records_evolve tv rs rs'"
proof -
  from begin_remove_body_Inr [OF assms(1)] consider "rs' = rs"
    | r r' where "find_by_id rs (execution_id_str i) = Some r" "begin_remove_record i g r = Inr r'"
        "rs' = update_by_id rs (execution_id_str i) (\<lambda>_. r')"
        "rec_id r' = execution_id_str i" "rec_managed_execution r' \<noteq> None"
    by blast
  then show ?thesis
  proof cases
    case 1
    with assms(2) show ?thesis by simp
  next
    case 2
    then show ?thesis
      using update_by_id_owned [OF 2(1,4,5) assms(2)]
        update_by_id_evolves [OF 2(1,4) begin_remove_record_evolves [OF 2(2)]] by simp
  qed
qed

lemma find_by_id_filter:
  "find_by_id (filter (\<lambda>x. rec_id x \<noteq> j) rs) k = (if k = j then None else find_by_id rs k)"
  by (induction rs) (auto simp: find_by_id_def)

lemma finish_remove_body_keeps:
  assumes "finish_remove_body i g rs = Inr (out, rs')" and "owned_records rs"
  shows "owned_records rs' \<and> records_evolve tv rs rs'"
  using finish_remove_body_Inr [OF assms(1)] assms(2)
  by (auto simp: owned_records_def records_evolve_def find_by_id_filter distinct_map_filter
      split: option.splits if_splits)

lemma records_evolve_append: "records_evolve tv rs (rs @ xs)"
  by (auto simp: records_evolve_def find_by_id_def find_append_Some)

lemma reserve_body_keeps:
  assumes "reserve_body tv i m record rs = Inr (out, rs')" and "owned_records rs"
    and "rec_id record = execution_id_str i" and "rec_managed_execution record \<noteq> None"
  shows "owned_records rs' \<and> records_evolve tv rs rs'"
  using reserve_body_Inr [OF assms(1)] assms(2-)
  by (fastforce simp: owned_records_def find_by_id_def find_None_iff_all records_evolve_append)

section \<open>The repository as a step relation\<close>

text \<open>
  One step of the repository: any of its four mutating operations, with any arguments, any update
  closure and any faults, or a crash of the machine between two operations.
\<close>

inductive managed_step ::
    "(create_execution_request \<Rightarrow> string + 'j) \<Rightarrow> box_record list disk \<Rightarrow> box_record list disk \<Rightarrow> bool"
  for tv where
  StepReserve: "reserve tv flt record d = (res, d') \<Longrightarrow> managed_step tv d d'"
| StepTransition: "transition_with tv flt i g s t u d = (res, d') \<Longrightarrow> managed_step tv d d'"
| StepBeginRemove: "begin_remove flt i g d = (res, d') \<Longrightarrow> managed_step tv d d'"
| StepFinishRemove: "finish_remove flt i g d = (res, d') \<Longrightarrow> managed_step tv d d'"
| StepCrash: "managed_step tv d (crash torn d)"

inductive managed_reachable ::
    "(create_execution_request \<Rightarrow> string + 'j) \<Rightarrow> box_record list disk \<Rightarrow> bool"
  for tv where
  ReachInit: "disk_file d = None \<Longrightarrow> managed_reachable tv d"
| ReachStep: "managed_reachable tv d \<Longrightarrow> managed_step tv d d' \<Longrightarrow> managed_reachable tv d'"

text \<open>The repository invariant: the file is flushed, loads, and belongs to the repository.\<close>

definition repository_inv :: "box_record list disk \<Rightarrow> bool" where
  "repository_inv d \<longleftrightarrow>
     file_synced d \<and> (\<exists>rs. strict_view d = Some rs \<and> owned_records rs)"

lemma crash_strict_view: "file_synced d \<Longrightarrow> strict_view (crash m d) = strict_view d"
  by (auto simp: crash_def crash_node_def strict_view_def file_synced_def split: option.splits)

lemma crash_file_synced: "file_synced (crash m d)"
  by (auto simp: crash_def crash_node_def file_synced_def)

lemma transact_file_synced:
  assumes "transact from_io flt f d = (res, d')" and "file_synced d"
  shows "file_synced d'"
proof (cases res)
  case (Inl e)
  with assms transact_Inl_file [of from_io flt f d e d'] show ?thesis
    by (simp add: file_synced_def)
next
  case (Inr r)
  with assms transact_Inr [of from_io flt f d r d'] show ?thesis
    by (auto simp: file_synced_def)
qed

text \<open>
  A transaction of the repository keeps the invariant and lets the records evolve when its closure
  does; this is the locked store's contract at work.
\<close>

lemma transact_keeps:
  assumes run: "transact from_io flt f d = (res, d')" and inv: "repository_inv d"
    and keeps: "\<And>rs out rs'. f rs = Inr (out, rs') \<Longrightarrow> owned_records rs \<Longrightarrow>
      owned_records rs' \<and> records_evolve tv rs rs'"
  shows "repository_inv d' \<and>
    (\<exists>rs rs'. strict_view d = Some rs \<and> strict_view d' = Some rs' \<and> records_evolve tv rs rs')"
proof -
  from inv obtain rs where rs: "strict_view d = Some rs" "owned_records rs" "file_synced d"
    by (auto simp: repository_inv_def)
  have "file_synced d'" using transact_file_synced [OF run rs(3)] .
  moreover have "\<exists>rs'. strict_view d' = Some rs' \<and> owned_records rs' \<and> records_evolve tv rs rs'"
    using box_store.run_view_cases [OF run] rs keeps by fastforce
  ultimately show ?thesis using rs by (auto simp: repository_inv_def)
qed

lemma reserve_keeps:
  assumes "reserve tv flt record d = (res, d')" and "repository_inv d"
  shows "repository_inv d' \<and>
    (\<exists>rs rs'. strict_view d = Some rs \<and> strict_view d' = Some rs' \<and> records_evolve tv rs rs')"
proof (cases "validate_new_record record")
  case (Inl e)
  with assms show ?thesis by (auto simp: reserve_def repository_inv_def)
next
  case (Inr i)
  obtain m where m: "i = ExecutionId (rec_id record)" "rec_managed_execution record = Some m"
    by (rule validate_new_record_Inr [OF Inr]) blast
  let ?r = "record\<lparr>rec_status := as_status Created\<rparr>"
  from assms(1) Inr m have "transact StoreIo flt (reserve_body tv i m ?r) d = (res, d')"
    by (simp add: reserve_def Let_def require_metadata_def)
  then show ?thesis
    by (rule transact_keeps [OF _ assms(2)]) (use m in \<open>auto dest: reserve_body_keeps\<close>)
qed

lemma managed_step_keeps:
  assumes "managed_step tv d d'" and "repository_inv d"
  shows "repository_inv d' \<and>
    (\<exists>rs rs'. strict_view d = Some rs \<and> strict_view d' = Some rs' \<and> records_evolve tv rs rs')"
  using assms
proof cases
  case StepReserve
  with assms(2) reserve_keeps show ?thesis by blast
next
  case (StepTransition flt i g s t u res)
  show ?thesis
    by (rule transact_keeps [OF _ assms(2) transition_body_keeps])
      (use StepTransition in \<open>simp_all add: transition_with_def\<close>)
next
  case (StepBeginRemove flt i g res)
  show ?thesis
    by (rule transact_keeps [OF _ assms(2) begin_remove_body_keeps])
      (use StepBeginRemove in \<open>simp_all add: begin_remove_def\<close>)
next
  case (StepFinishRemove flt i g res)
  show ?thesis
    by (rule transact_keeps [OF _ assms(2) finish_remove_body_keeps])
      (use StepFinishRemove in \<open>simp_all add: finish_remove_def\<close>)
next
  case (StepCrash torn)
  with assms(2) show ?thesis
    by (auto simp: repository_inv_def crash_strict_view crash_file_synced)
qed

lemma reachable_repository_inv: "managed_reachable tv d \<Longrightarrow> repository_inv d"
  by (induction rule: managed_reachable.induct)
    (auto simp: repository_inv_def strict_view_def file_synced_def owned_records_def
      dest: managed_step_keeps)

section \<open>Properties\<close>

text \<open>
  C2: the generation-fenced compare-and-swap. A transition succeeds only on a stored record that is
  in the expected state at the expected generation, along a legal edge; the stored result is in the
  next state, keeps the creation identity, and its generation is the expected one, plus one exactly
  on the edges pausing to paused, resuming to running and restart-stopping to restart-starting. A
  record in any other state or generation makes it fail without touching the file.
\<close>

theorem transition_fenced:
  assumes "transition_with tv flt i g s t u d = (res, d')" and "strict_view d = Some rs"
    and "find_by_id rs (execution_id_str i) = Some r" and "rec_managed_execution r = Some m"
  shows "(res = Inr r' \<longrightarrow>
      managed_state r = Inr (Some s) \<and> me_generation m = g \<and> legal_transition s t \<and>
      (\<exists>m'. rec_managed_execution r' = Some m' \<and> same_identity tv m' m \<and>
         managed_state r' = Inr (Some t) \<and>
         generation_of m' = generation_of m + (if increments_generation s t then 1 else 0)) \<and>
      (\<exists>rs'. strict_view d' = Some rs' \<and> find_by_id rs' (execution_id_str i) = Some r')) \<and>
    (managed_state r \<noteq> Inr (Some s) \<or> me_generation m \<noteq> g \<or> \<not> legal_transition s t \<longrightarrow>
      (\<exists>e. res = Inl e) \<and> disk_file d' = disk_file d)"
proof -
  let ?f = "transition_body tv i g s t u"
  note run = assms(1) [unfolded transition_with_def]
  have moved: "managed_state r = Inr (Some s) \<and> me_generation m = g \<and> legal_transition s t \<and>
      (\<exists>m'. rec_managed_execution x = Some m' \<and> same_identity tv m' m \<and>
         managed_state x = Inr (Some t) \<and>
         generation_of m' = generation_of m + (if increments_generation s t then 1 else 0)) \<and>
      (\<exists>rs'. strict_view d' = Some rs' \<and> find_by_id rs' (execution_id_str i) = Some x)"
    if ok: "res = Inr x" for x
  proof -
    obtain rs' where b: "?f rs = Inr (x, rs')" "valid_records rs'" "strict_view d' = Some rs'"
      using box_store.run_Inr [OF run [unfolded ok]] assms(2) by auto
    have x: "transition_record tv i g s t u r = Inr x" "rec_id x = execution_id_str i"
      "rs' = update_by_id rs (execution_id_str i) (\<lambda>_. x)" "rec_managed_execution x \<noteq> None"
      using b(1) assms(3) by (auto elim!: transition_body_Inr)
    have at: "find_by_id rs' (execution_id_str i) = Some x"
      using find_by_id_update [OF assms(3) x(2)] x(3) by simp
    obtain m0 m' where f: "rec_managed_execution r = Some m0" "managed_state r = Inr (Some s)"
      "me_generation m0 = g" "legal_transition s t" "rec_managed_execution x = Some m'"
      "transition_generation i s t g = Inr (me_generation m')" "rec_status x = as_status t"
      "same_identity tv m' m0"
      by (rule transition_record_Inr [OF x(1)]) blast
    obtain s' where "managed_state x = Inr (Some s')"
      using valid_records_managed_state [OF b(2) _ f(5)] find_by_id_SomeD [OF at] by blast
    then have "managed_state x = Inr (Some t)" using f(7) by (auto simp: managed_state_Some_iff)
    then show ?thesis
      using f at b(3) assms(4) transition_generation_bounds [OF f(6)] by auto
  qed
  show ?thesis
  proof (intro conjI impI)
    assume "managed_state r \<noteq> Inr (Some s) \<or> me_generation m \<noteq> g \<or> \<not> legal_transition s t"
    then obtain e where e: "res = Inl e" using moved by (cases res) auto
    then show "\<exists>e. res = Inl e" by simp
    show "disk_file d' = disk_file d" using transact_Inl_file [OF run [unfolded e]] by simp
  qed (use moved in auto)
qed

text \<open>The sample record in a store of its own.\<close>

lemma sample_view:
  assumes "validate_pending_operation s m = Inr ()" and "metadata_validate m = Inr ()"
  shows "strict_view (sample_disk [sample_record s m]) = Some [sample_record s m]"
proof (rule strict_view_written)
  have "trim ''x1'' \<noteq> []" by code_simp
  moreover have "managed_state (sample_record s m) = Inr (Some s)"
    using assms(1) by (simp add: sample_record_state)
  ultimately show "valid_records [sample_record s m]"
    using assms(2) by (simp add: valid_records_iff valid_managed_record_def)
qed (simp add: sample_disk_def)

lemma sample_find: "find_by_id [sample_record s m] ''x1'' = Some (sample_record s m)"
  by (simp add: find_by_id_def)

lemma sample_running: "validate_pending_operation Running (sample_metadata g None) = Inr ()"
  by (simp add: validate_pending_iff pending_consistent_def validate_restart_operation_def
      validate_snapshot_operation_def validate_kill_operation_def sample_metadata_def)

lemmas sample_running_view = sample_view [OF sample_running sample_metadata_valid]

lemma sample_transition_with:
  assumes "validate_pending_operation s m = Inr ()" and "metadata_validate m = Inr ()"
    and "transition_record tv (ExecutionId ''x1'') g s t u (sample_record s m) = Inr (sample_record t m')"
    and "validate_pending_operation t m' = Inr ()" and "metadata_validate m' = Inr ()"
  shows "transition_with tv no_faults (ExecutionId ''x1'') g s t u (sample_disk [sample_record s m]) =
    (Inr (sample_record t m'), sample_disk [sample_record t m'])"
proof -
  have "valid_records [sample_record t m']"
    using strict_view_Some_valid [OF sample_view [OF assms(4,5)]] .
  then show ?thesis
    using assms(3) load_strict_faultless [OF _ _ sample_view [OF assms(1,2)], of no_faults]
    by (simp add: transition_with_def transact_def modify_with_policy_def no_faults_def
        transition_body_def sample_find update_by_id_def write_unlocked_def valid_records_def
        no_write_faults_def sample_disk_def write_durable_def write_durable_steps_def
        create_tmp_def write_tmp_def sync_tmp_def rename_tmp_def)
qed

lemma sample_killing: "validate_pending_operation Killing (sample_metadata g (Some (OpKill None None))) = Inr ()"
  by (simp add: validate_pending_iff pending_consistent_def validate_restart_operation_def
      validate_snapshot_operation_def validate_kill_operation_def sample_metadata_def result_simps)

text \<open>The claim of a kill on the sample record; requests convert to themselves.\<close>

lemma sample_kill_claim:
  "transition_with Inr no_faults (ExecutionId ''x1'') (ExecutionGeneration 3) Running Killing (\<lambda>r. r)
     (sample_disk [sample_record Running (sample_metadata 3 None)]) =
   (Inr (sample_record Killing (sample_metadata 3 (Some (OpKill None None)))),
    sample_disk [sample_record Killing (sample_metadata 3 (Some (OpKill None None)))])"
proof (rule sample_transition_with [OF sample_running sample_metadata_valid _ sample_killing
      sample_metadata_valid])
  have "managed_state (sample_record Running (sample_metadata 3 None)) = Inr (Some Running)"
    using sample_running by (simp add: sample_record_state)
  then show "transition_record Inr (ExecutionId ''x1'') (ExecutionGeneration 3) Running Killing (\<lambda>r. r)
      (sample_record Running (sample_metadata 3 None)) =
    Inr (sample_record Killing (sample_metadata 3 (Some (OpKill None None))))"
    by (simp add: transition_record_def require_managed_state_def require_metadata_def
        transition_generation_def legal_transition_def increments_generation_def
        same_creation_intent_def record_completion_def next_pending_def)
      (simp add: sample_metadata_def sample_record_def)
qed

theorem transition_fenced_witness:
  "managed_state (sample_record Killing (sample_metadata 3 (Some (OpKill None None)))) =
     Inr (Some Killing) \<and>
   (\<exists>e. fst (transition_with Inr no_faults (ExecutionId ''x1'') (ExecutionGeneration 2) Running Killing
      (\<lambda>r. r) (sample_disk [sample_record Running (sample_metadata 3 None)])) = Inl e)"
proof -
  let ?d = "sample_disk [sample_record Running (sample_metadata 3 None)]"
  have m: "me_generation (sample_metadata 3 None) \<noteq> ExecutionGeneration 2"
    by (simp add: sample_metadata_def)
  obtain res d' where stale: "transition_with Inr no_faults (ExecutionId ''x1'')
      (ExecutionGeneration 2) Running Killing (\<lambda>r. r) ?d = (res, d')" by fastforce
  have at: "find_by_id [sample_record Running (sample_metadata 3 None)]
      (execution_id_str (ExecutionId ''x1'')) = Some (sample_record Running (sample_metadata 3 None))"
    by (simp add: sample_find)
  show ?thesis
    using transition_fenced [OF sample_kill_claim sample_running_view at sample_record_fields(2)]
      transition_fenced [OF stale sample_running_view at sample_record_fields(2)] m stale
    by auto
qed

text \<open>
  C8: a claim has one owner. When two callers act on the same observation of a record and the
  first one's transition went through, the same transition of the second one fails, whatever its
  update and whatever faults it meets, and it leaves the file as the first one wrote it.
\<close>

theorem claim_exclusive:
  assumes "transition_with tv flt i g s t u d = (Inr r', d')"
    and "transition_with tv flt2 i g s t2 u2 d' = (res, d'')"
  shows "(\<exists>e. res = Inl e) \<and> disk_file d'' = disk_file d'"
proof -
  from box_store.run_Inr [OF assms(1) [unfolded transition_with_def]] obtain rs rs' where
    b: "transition_body tv i g s t u rs = Inr (r', rs')" "valid_records rs'"
      "strict_view d' = Some rs'" by blast
  obtain r where r: "find_by_id rs (execution_id_str i) = Some r"
    "transition_record tv i g s t u r = Inr r'" "rec_id r' = execution_id_str i"
    "rs' = update_by_id rs (execution_id_str i) (\<lambda>_. r')"
    by (rule transition_body_Inr [OF b(1)])
  have at: "find_by_id rs' (execution_id_str i) = Some r'"
    using find_by_id_update [OF r(1,3)] r(4) by simp
  obtain m' where m': "rec_status r' = as_status t" "legal_transition s t"
    by (rule transition_record_Inr [OF r(2)])
  have "managed_state r' \<noteq> Inr (Some s)"
    using m' legal_transition_irrefl [of s] by (auto simp: managed_state_Some_iff)
  then have "transition_record tv i g s t2 u2 r' \<noteq> Inr x" for x
    by (auto elim!: transition_record_Inr)
  then obtain e where "transition_body tv i g s t2 u2 rs' = Inl e"
    using at by (cases "transition_body tv i g s t2 u2 rs'") (auto elim!: transition_body_Inr)
  then obtain e' where "res = Inl e'"
    using box_store.run_refused [OF b(3) _ assms(2) [unfolded transition_with_def]] by blast
  with transact_Inl_file assms(2) show ?thesis by (fastforce simp: transition_with_def)
qed

theorem claim_exclusive_witness:
  "\<exists>e. fst (transition_with Inr no_faults (ExecutionId ''x1'') (ExecutionGeneration 3) Running Killing
     (\<lambda>r. r) (sample_disk [sample_record Killing (sample_metadata 3 (Some (OpKill None None)))])) =
   Inl e"
proof -
  obtain res d'' where "transition_with Inr no_faults (ExecutionId ''x1'') (ExecutionGeneration 3)
      Running Killing (\<lambda>r. r)
      (sample_disk [sample_record Killing (sample_metadata 3 (Some (OpKill None None)))]) = (res, d'')"
    by fastforce
  with claim_exclusive [OF sample_kill_claim this] show ?thesis by auto
qed

lemma reserved_record:
  assumes "reserve tv flt r d = (Inr (Reserved r1), d1)"
  shows "\<exists>rs. strict_view d1 = Some rs \<and> valid_records rs \<and> r1 \<in> set rs"
proof -
  from assms obtain i m where
    "transact StoreIo flt (reserve_body tv i m (r\<lparr>rec_status := as_status Created\<rparr>)) d =
      (Inr (Reserved r1), d1)"
    by (auto simp: reserve_def Let_def split: sum.splits)
  from box_store.run_Inr [OF this] show ?thesis by (auto dest: reserve_body_Inr)
qed

lemma reserve_faultless:
  assumes "validate_new_record r = Inr i" and "rec_managed_execution r = Some m"
    and "strict_view d = Some rs"
  shows "reserve tv no_faults r d =
    transact StoreIo no_faults (reserve_body tv i m (r\<lparr>rec_status := as_status Created\<rparr>)) d"
  using assms by (simp add: reserve_def Let_def require_metadata_def)

text \<open>
  C24: reservation is idempotent per operation. After a reservation created a record, a retry with
  the same operation identifier and the same creation intent is answered with that same record,
  marked as existing, and adds none; a retry whose intent differs is refused with a conflict; and
  whatever a store holds, at most one of its records belongs to an operation.
\<close>

theorem reserve_idempotent:
  assumes "reserve tv flt r d = (Inr (Reserved r1), d1)" and "validate_new_record r2 = Inr i2"
    and "rec_managed_execution r1 = Some m1" and "rec_managed_execution r2 = Some m2"
    and "me_operation_id m2 = me_operation_id m1"
    and "tv (me_request m1) = Inr j1" and "tv (me_request m2) = Inr j2"
  shows "(if j1 = j2 \<and> me_plan m1 = me_plan m2
      then \<exists>d2. reserve tv no_faults r2 d1 = (Inr (Existing r1), d2) \<and> strict_view d2 = strict_view d1
      else \<exists>i msg. reserve tv no_faults r2 d1 = (Inl (StoreConflict i msg), d1)) \<and>
    (\<forall>rs. strict_view d1 = Some rs \<longrightarrow>
       filter (has_operation_id (me_operation_id m1)) rs = [r1])"
proof -
  obtain rs where rs: "strict_view d1 = Some rs" "valid_records rs" "r1 \<in> set rs"
    using reserved_record [OF assms(1)] by blast
  have own: "has_operation_id (me_operation_id m1) r1"
    using assms(3) by (simp add: has_operation_id_def)
  have only: "filter (has_operation_id (me_operation_id m1)) rs = [r1]"
    using valid_records_filter_operation [OF rs(2,3) own] .
  have found: "find_by_operation_id rs (me_operation_id m2) = Some r1"
    using find_filter [OF only] assms(5) by (simp add: find_by_operation_id_def)
  have "valid_managed_record r1" using rs(2,3) by (simp add: valid_records_iff)
  then have id1: "execution_id_new (rec_id r1) = Inr (ExecutionId (rec_id r1))"
    using assms(3) by (simp add: valid_managed_record_def execution_id_new_def)
  let ?f = "reserve_body tv i2 m2 (r2\<lparr>rec_status := as_status Created\<rparr>)"
  have f: "?f rs = (if j1 = j2 \<and> me_plan m1 = me_plan m2 then Inr (Existing r1, rs)
      else Inl (StoreConflict (ExecutionId (rec_id r1)) (''operation '' @
        operation_id_str (me_operation_id m2) @
        '' was already reserved with different creation intent'')))"
    using found id1 assms(3,6,7)
    by (simp add: reserve_body_def require_metadata_def same_creation_intent_def)
  have run: "reserve tv no_faults r2 d1 = transact StoreIo no_faults ?f d1"
    using reserve_faultless [OF assms(2,4) rs(1)] .
  show ?thesis
  proof (cases "j1 = j2 \<and> me_plan m1 = me_plan m2")
    case True
    with f have "?f rs = Inr (Existing r1, rs)" by simp
    from transact_faultless [where f = ?f and from_io = StoreIo, OF rs(1) this rs(2)] True run rs(1) only
    show ?thesis by auto
  next
    case False
    with f transact_refused [where f = ?f and from_io = StoreIo, OF rs(1)] run rs(1) only show ?thesis by auto
  qed
qed

text \<open>A reservation of the sample record in an empty store.\<close>

definition empty_disk :: "'a disk" where
  "empty_disk = \<lparr>disk_file = None, disk_tmp = None, disk_backups = Map.empty\<rparr>"

lemma sample_created: "validate_pending_operation Created (sample_metadata g None) = Inr ()"
  by (simp add: validate_pending_iff pending_consistent_def validate_restart_operation_def
      validate_snapshot_operation_def validate_kill_operation_def sample_metadata_def)

lemma sample_new_record:
  "validate_new_record (sample_record Created (sample_metadata 1 None)) = Inr (ExecutionId ''x1'')"
proof -
  have "trim ''x1'' \<noteq> []" by code_simp
  moreover have "managed_state (sample_record Created (sample_metadata 1 None)) = Inr (Some Created)"
    using sample_created by (simp add: sample_record_state)
  ultimately show ?thesis
    using sample_metadata_valid [of 1 None]
    by (simp add: validate_new_record_def execution_id_new_def require_metadata_def
        require_managed_state_def)
      (simp add: sample_metadata_def INITIAL_def)
qed

lemma sample_reserve:
  "\<exists>d1. reserve Inr no_faults (sample_record Created (sample_metadata 1 None)) empty_disk =
     (Inr (Reserved (sample_record Created (sample_metadata 1 None))), d1)"
proof -
  let ?r = "sample_record Created (sample_metadata 1 None)"
  have view: "strict_view empty_disk = Some []" by (simp add: strict_view_def empty_disk_def)
  have same: "?r\<lparr>rec_status := as_status Created\<rparr> = ?r" by (simp add: sample_record_def)
  have f: "reserve_body Inr (ExecutionId ''x1'') (sample_metadata 1 None) ?r [] = Inr (Reserved ?r, [?r])"
    by (simp add: reserve_body_def find_by_operation_id_def find_by_id_def)
  have "valid_records [?r]"
    using strict_view_Some_valid [OF sample_view [OF sample_created sample_metadata_valid]] .
  from transact_faultless [where f = "reserve_body Inr (ExecutionId ''x1'') (sample_metadata 1 None) ?r"
      and from_io = StoreIo, OF view f this]
  show ?thesis
    using reserve_faultless [where tv = Inr, OF sample_new_record sample_record_fields(2) view] same
    by auto
qed

theorem reserve_idempotent_witness:
  "\<exists>d1 d2. reserve Inr no_faults (sample_record Created (sample_metadata 1 None)) d1 =
     (Inr (Existing (sample_record Created (sample_metadata 1 None))), d2) \<and>
   strict_view d2 = strict_view d1"
proof -
  obtain d1 where "reserve Inr no_faults (sample_record Created (sample_metadata 1 None)) empty_disk =
      (Inr (Reserved (sample_record Created (sample_metadata 1 None))), d1)"
    using sample_reserve by blast
  from reserve_idempotent [OF this sample_new_record sample_record_fields(2) sample_record_fields(2)]
  show ?thesis by auto
qed

text \<open>
  C1: the repository invariant. Start from no state file and let any clients run reservations,
  transitions with arbitrary updates, removal claims and removals, each under arbitrary faults and
  in any order, with crashes between them. The file then always loads, is flushed, passes
  validation, holds managed records only and no two with the same identifier or operation.
\<close>

theorem repository_always_loads:
  assumes "managed_reachable tv d"
  shows "file_synced d \<and>
    (\<exists>rs. load_strict no_faults d = (Inr rs, d) \<and> valid_records rs \<and> distinct (map rec_id rs) \<and>
       distinct (managed_operation_ids rs) \<and> list_all (\<lambda>r. rec_managed_execution r \<noteq> None) rs)"
proof -
  obtain rs where "file_synced d" "strict_view d = Some rs" "owned_records rs"
    using reachable_repository_inv [OF assms] by (auto simp: repository_inv_def)
  moreover from this have "load_strict no_faults d = (Inr rs, d)"
    using load_strict_faultless [of no_faults d rs] by (simp add: load_strict_def no_faults_def)
  ultimately show ?thesis
    using strict_view_Some_valid [of d rs]
    by (auto simp: owned_records_def list_all_iff valid_records_iff)
qed

theorem repository_always_loads_witness:
  "\<exists>d1. managed_reachable Inr d1 \<and> file_synced (crash ''eof'' d1) \<and>
     (\<exists>rs. load_strict no_faults (crash ''eof'' d1) = (Inr rs, crash ''eof'' d1))"
proof -
  obtain d1 where "reserve Inr no_faults (sample_record Created (sample_metadata 1 None)) empty_disk =
      (Inr (Reserved (sample_record Created (sample_metadata 1 None))), d1)"
    using sample_reserve by blast
  then have r: "managed_reachable Inr d1"
    by (intro ReachStep [OF ReachInit StepReserve]) (auto simp: empty_disk_def)
  then have "managed_reachable Inr (crash ''eof'' d1)" by (rule ReachStep [OF _ StepCrash])
  from repository_always_loads [OF this] r show ?thesis by blast
qed

text \<open>
  C23: what one repository step may do to a record. Its creation identity (operation, request and
  plan) never changes, its generation never decreases and grows by at most one, a record claimed
  for removal is never changed again, and a record disappears only when it was claimed for removal.
\<close>

theorem repository_records_evolve:
  assumes "managed_reachable tv d" and "managed_step tv d d'"
    and "strict_view d = Some rs" and "find_by_id rs j = Some r"
    and "rec_managed_execution r = Some m"
  shows "\<exists>rs'. strict_view d' = Some rs' \<and>
    (case find_by_id rs' j of
       None \<Rightarrow> managed_state r = Inr (Some Removing)
     | Some r' \<Rightarrow>
         (managed_state r = Inr (Some Removing) \<longrightarrow> r' = r) \<and>
         (\<exists>m'. rec_managed_execution r' = Some m' \<and> me_operation_id m' = me_operation_id m \<and>
            me_plan m' = me_plan m \<and>
            (me_request m' = me_request m \<or> tv (me_request m') = tv (me_request m)) \<and>
            generation_of m \<le> generation_of m' \<and> generation_of m' \<le> generation_of m + 1))"
proof -
  obtain rs' where "strict_view d' = Some rs'" "records_evolve tv rs rs'"
    using managed_step_keeps [OF assms(2) reachable_repository_inv [OF assms(1)]] assms(3) by auto
  moreover from this(2) assms(4) have "case find_by_id rs' j of
      None \<Rightarrow> managed_state r = Inr (Some Removing) | Some r' \<Rightarrow> record_evolves tv r r'"
    unfolding records_evolve_def by blast
  ultimately show ?thesis
    using assms(5)
    by (intro exI [of _ rs'])
      (auto simp: record_evolves_def same_identity_def split: option.splits)
qed

theorem repository_records_evolve_witness:
  "\<exists>d1 d' rs' r'. managed_step Inr d1 d' \<and> strict_view d' = Some rs' \<and>
     find_by_id rs' ''x1'' = Some r' \<and> rec_managed_execution r' \<noteq> None"
proof -
  let ?r = "sample_record Created (sample_metadata 1 None)"
  obtain d1 where d1: "reserve Inr no_faults ?r empty_disk = (Inr (Reserved ?r), d1)"
    using sample_reserve by blast
  then have reach: "managed_reachable Inr d1"
    by (intro ReachStep [OF ReachInit StepReserve]) (auto simp: empty_disk_def)
  obtain rs where rs: "strict_view d1 = Some rs" "valid_records rs" "?r \<in> set rs"
    using reserved_record [OF d1] by blast
  then obtain x where x: "find_by_id rs ''x1'' = Some x"
    by (cases "find_by_id rs ''x1''") (auto simp: find_by_id_def find_None_iff_all)
  have "rec_managed_execution x \<noteq> None"
    using repository_inv_def [of d1] reachable_repository_inv [OF reach] rs(1)
      find_by_id_SomeD [OF x] by (auto simp: owned_records_def)
  then obtain m where m: "rec_managed_execution x = Some m" by blast
  have "repository_inv d1" using reachable_repository_inv [OF reach] .
  then have "distinct (map rec_id rs)" using rs(1) by (simp add: repository_inv_def owned_records_def)
  then have "x = ?r" using find_by_id_SomeD [OF x] rs(3) by (auto simp: distinct_map inj_on_def)
  then have "managed_state x = Inr (Some Created)"
    using sample_created [of 1] by (simp add: sample_record_state)
  with repository_records_evolve [OF reach StepCrash [of Inr d1 "''eof''"] rs(1) x m]
  have "\<exists>rs' r'. strict_view (crash ''eof'' d1) = Some rs' \<and> find_by_id rs' ''x1'' = Some r' \<and>
      rec_managed_execution r' \<noteq> None"
    by (auto split: option.splits)
  with StepCrash [of Inr d1 "''eof''"] show ?thesis by blast
qed

end
