(* ===== verification/Local_Record.thy ===== *)
theory Local_Record
  imports Managed_Store
begin

text \<open>
  The pure parts of the local execution manager, \<open>runtime/src/local_execution/\<close>: what a backend
  reports (\<open>backend.rs\<close>), how a record is built and updated (\<open>record.rs\<close>), the checks on a record
  (\<open>support.rs\<close>) and the bookkeeping of restarts (\<open>restart.rs\<close>) and snapshots (\<open>snapshot.rs\<close>).
  Times that the code takes from the clock are arguments. The platform is not Windows, so the
  health-check restriction of \<open>validate_effective_health_check\<close> does not apply.
\<close>

section \<open>Backend evidence\<close>

record local_execution_handle =
  hd_started_at :: datetime
  hd_pid :: "u32 option"
  hd_pid_start_time :: "u64 option"
  hd_exec_socket_path :: string
  hd_console_log :: string
  hd_anonymous_volumes :: "string list"

definition handle_validate ::
    "local_execution_handle \<Rightarrow> execution_id \<Rightarrow> execution_manager_error + unit" where
  "handle_validate self i =
     (if hd_pid self = None \<and> hd_pid_start_time self \<noteq> None then
        Inl (Internal (''backend returned a PID start time without a PID for '' @
          execution_id_str i))
      else if hd_exec_socket_path self = [] then
        Inl (Internal (''backend returned an empty exec socket path for '' @ execution_id_str i))
      else if hd_console_log self = [] then
        Inl (Internal (''backend returned an empty console log path for '' @ execution_id_str i))
      else Inr ())"

record local_execution_observation =
  ob_state :: execution_state
  ob_handle :: "local_execution_handle option"
  ob_exit_code :: "i32 option"

definition debug_execution_state :: "execution_state \<Rightarrow> string" where
  "debug_execution_state s =
     (case s of
        ES_Created \<Rightarrow> ''Created''
      | ES_Creating \<Rightarrow> ''Creating''
      | ES_Running \<Rightarrow> ''Running''
      | ES_Paused \<Rightarrow> ''Paused''
      | ES_Stopped \<Rightarrow> ''Stopped''
      | ES_Failed \<Rightarrow> ''Failed'')"

definition observation_validate ::
    "local_execution_observation \<Rightarrow> execution_id \<Rightarrow> execution_manager_error + unit" where
  "observation_validate self i =
     (if ob_state self \<in> {ES_Running, ES_Paused} \<and> ob_handle self = None then
        Inl (Internal (''backend returned '' @ debug_execution_state (ob_state self) @
          '' without runtime evidence for '' @ execution_id_str i))
      else (case ob_handle self of
          None \<Rightarrow> Inr ()
        | Some handle \<Rightarrow> handle_validate handle i))"

section \<open>Building a record\<close>

definition validate_effective_health_check ::
    "bool \<Rightarrow> bool \<Rightarrow> execution_manager_error + unit" where
  "validate_effective_health_check has_health_check healthcheck_disabled = Inr ()"

definition validate_health_policy ::
    "execution_record_policy \<Rightarrow> execution_manager_error + unit" where
  "validate_health_policy policy =
     validate_effective_health_check (pol_health_check policy \<noteq> None)
       (pol_healthcheck_disabled policy)"

definition validate_record_health :: "box_record \<Rightarrow> execution_manager_error + unit" where
  "validate_record_health record =
     rbind (validate_effective_health_check (rec_health_check record \<noteq> None)
              (rec_healthcheck_disabled record)) (\<lambda>_.
       (case rec_managed_execution record of
          None \<Rightarrow> Inr ()
        | Some metadata \<Rightarrow> validate_health_policy (req_policy (me_request metadata))))"

definition record_of_request ::
    "string \<Rightarrow> execution_id \<Rightarrow> managed_execution_metadata \<Rightarrow> create_execution_request \<Rightarrow>
     datetime \<Rightarrow> box_record" where
  "record_of_request home_dir i metadata request now =
     (let config = req_config request; policy = req_policy request;
          short_id = make_short_id (execution_id_str i);
          box_dir = path_join (path_join home_dir ''boxes'') (execution_id_str i) in
      \<lparr>rec_id = execution_id_str i,
       rec_short_id = short_id,
       rec_name = (case pol_name policy of None \<Rightarrow> ''managed-'' @ short_id | Some name \<Rightarrow> name),
       rec_image = cfg_image config,
       rec_isolation = cfg_isolation config,
       rec_managed_execution = Some metadata,
       rec_status = as_status Created,
       rec_pid = None,
       rec_pid_start_time = None,
       rec_cpus = res_vcpus (cfg_resources config),
       rec_memory_mb = res_memory_mb (cfg_resources config),
       rec_volumes = cfg_volumes config,
       rec_virtiofs_cache = cfg_virtiofs_cache config,
       rec_env = map_of (rev (cfg_extra_env config)),
       rec_cmd = cfg_cmd config,
       rec_entrypoint = cfg_entrypoint_override config,
       rec_box_dir = box_dir,
       rec_exec_socket_path = path_join box_dir ''sockets/exec.sock'',
       rec_console_log = path_join box_dir ''logs/console.log'',
       rec_created_at = now,
       rec_started_at = None,
       rec_auto_remove = pol_auto_remove policy,
       rec_hostname = cfg_hostname config,
       rec_user = cfg_user config,
       rec_workdir = cfg_workdir config,
       rec_restart_policy = restart_policy_as_str (pol_restart_policy policy),
       rec_port_map = cfg_port_map config,
       rec_labels = req_labels request,
       rec_stopped_by_user = False,
       rec_restart_count = 0,
       rec_max_restart_count = pol_max_restart_count policy,
       rec_exit_code = None,
       rec_health_check = pol_health_check policy,
       rec_healthcheck_disabled = pol_healthcheck_disabled policy,
       rec_health_status = ''none'',
       rec_health_retries = 0,
       rec_health_last_check = None,
       rec_network_mode = cfg_network config,
       rec_network_name = (case cfg_network config of Bridge network \<Rightarrow> Some network | _ \<Rightarrow> None),
       rec_volume_names = pol_volume_names policy,
       rec_tmpfs = cfg_tmpfs config,
       rec_anonymous_volumes = [],
       rec_resource_limits = cfg_resource_limits config,
       rec_log_config = pol_log_config policy,
       rec_add_host = cfg_add_hosts config,
       rec_platform = pol_platform policy,
       rec_init = pol_init policy,
       rec_read_only = cfg_read_only config,
       rec_cap_add = cfg_cap_add config,
       rec_cap_drop = cfg_cap_drop config,
       rec_security_opt = cfg_security_opt config,
       rec_privileged = cfg_privileged config,
       rec_devices = pol_devices policy,
       rec_gpus = pol_gpus policy,
       rec_shm_size = pol_shm_size policy,
       rec_stop_signal = pol_stop_signal policy,
       rec_stop_timeout = pol_stop_timeout policy,
       rec_oom_kill_disable = pol_oom_kill_disable policy,
       rec_oom_score_adj = pol_oom_score_adj policy\<rparr>)"

definition build_managed_record ::
    "string \<Rightarrow> execution_id \<Rightarrow> operation_id \<Rightarrow> create_execution_request \<Rightarrow> datetime \<Rightarrow>
     execution_manager_error + box_record" where
  "build_managed_record home_dir i operation_id request now =
     rbind (validate_health_policy (req_policy request)) (\<lambda>_.
     rbind (map_err (\<lambda>e. InvalidRequest (box_error_to_string e))
              (metadata_new operation_id INITIAL request)) (\<lambda>metadata.
       Inr (record_of_request home_dir i metadata request now)))"

section \<open>Updating a record\<close>

definition update_metadata ::
    "(managed_execution_metadata \<Rightarrow> managed_execution_metadata) \<Rightarrow> box_record \<Rightarrow> box_record" where
  "update_metadata f record =
     record\<lparr>rec_managed_execution := map_option f (rec_managed_execution record)\<rparr>"

definition apply_handle :: "local_execution_handle \<Rightarrow> box_record \<Rightarrow> box_record" where
  "apply_handle handle record =
     update_metadata (\<lambda>metadata. metadata\<lparr>me_finished_at := None, me_paused_with_memory := True\<rparr>)
       (record\<lparr>rec_pid := hd_pid handle, rec_pid_start_time := hd_pid_start_time handle,
          rec_exec_socket_path := hd_exec_socket_path handle,
          rec_console_log := hd_console_log handle, rec_started_at := Some (hd_started_at handle),
          rec_anonymous_volumes := hd_anonymous_volumes handle, rec_exit_code := None\<rparr>)"

definition initialize_health :: "box_record \<Rightarrow> box_record" where
  "initialize_health record =
     record\<lparr>rec_health_status :=
         (if rec_health_check record \<noteq> None \<and> \<not> rec_healthcheck_disabled record
          then ''starting'' else ''none''),
       rec_health_retries := 0, rec_health_last_check := None, rec_stopped_by_user := False\<rparr>"

definition apply_start_handle :: "local_execution_handle \<Rightarrow> box_record \<Rightarrow> box_record" where
  "apply_start_handle handle record =
     (initialize_health (apply_handle handle record))\<lparr>rec_restart_count := 0\<rparr>"

definition apply_restart_handle :: "local_execution_handle \<Rightarrow> box_record \<Rightarrow> box_record" where
  "apply_restart_handle handle record = initialize_health (apply_handle handle record)"

definition clear_live_runtime :: "datetime \<Rightarrow> i32 option \<Rightarrow> box_record \<Rightarrow> box_record" where
  "clear_live_runtime now exit_code record =
     update_metadata
       (\<lambda>metadata. metadata\<lparr>me_finished_at := Some now, me_paused_with_memory := True\<rparr>)
       (record\<lparr>rec_pid := None, rec_pid_start_time := None, rec_exit_code := exit_code,
          rec_health_status := ''none'', rec_health_retries := 0\<rparr>)"

definition clear_live_runtime_for_cold_pause :: "box_record \<Rightarrow> box_record" where
  "clear_live_runtime_for_cold_pause record =
     update_metadata (\<lambda>metadata. metadata\<lparr>me_finished_at := None, me_paused_with_memory := False\<rparr>)
       (record\<lparr>rec_pid := None, rec_pid_start_time := None, rec_exit_code := None,
          rec_health_status := ''none'', rec_health_retries := 0, rec_health_last_check := None\<rparr>)"

section \<open>Reading a record\<close>

definition record_execution_id :: "box_record \<Rightarrow> execution_manager_error + execution_id" where
  "record_execution_id record =
     map_err (\<lambda>e. Internal (manager_error_to_string e)) (execution_id_new (rec_id record))"

definition record_metadata ::
    "box_record \<Rightarrow> execution_id \<Rightarrow> execution_manager_error + managed_execution_metadata" where
  "record_metadata record i =
     ok_or (Internal (''execution '' @ execution_id_str i @ '' lost managed lifecycle metadata''))
       (rec_managed_execution record)"

definition reservation_from_record ::
    "box_record \<Rightarrow> execution_manager_error + execution_reservation" where
  "reservation_from_record record =
     rbind (record_execution_id record) (\<lambda>i.
     rbind (record_metadata record i) (\<lambda>metadata.
       Inr \<lparr>rsv_execution_id = i, rsv_generation = me_generation metadata,
            rsv_plan = me_plan metadata,
            rsv_resources = cfg_resources (req_config (me_request metadata)),
            rsv_created_at = rec_created_at record\<rparr>))"

definition lease_from_record :: "box_record \<Rightarrow> execution_manager_error + execution_lease" where
  "lease_from_record record =
     rbind (record_execution_id record) (\<lambda>i.
     rbind (record_metadata record i) (\<lambda>metadata.
     rbind (ok_or (Internal (''managed execution '' @ execution_id_str i @
              '' is ready without a start timestamp'')) (rec_started_at record)) (\<lambda>started_at.
       Inr \<lparr>lease_execution_id = i, lease_generation = me_generation metadata,
            lease_plan = me_plan metadata,
            lease_resources = cfg_resources (req_config (me_request metadata)),
            lease_started_at = started_at\<rparr>)))"

definition status_from_record ::
    "box_record \<Rightarrow> execution_state \<Rightarrow> execution_manager_error + execution_status" where
  "status_from_record record state =
     rbind (record_execution_id record) (\<lambda>i.
     rbind (record_metadata record i) (\<lambda>metadata.
       Inr \<lparr>st_execution_id = i, st_generation = me_generation metadata, st_state = state,
            st_plan = me_plan metadata\<rparr>))"

text \<open>\<open>support.rs\<close>\<close>

definition support_managed_state ::
    "box_record \<Rightarrow> execution_manager_error + managed_execution_state" where
  "support_managed_state record =
     rbind (map_err (\<lambda>e. Internal (box_error_to_string e)) (managed_state record)) (\<lambda>state.
       ok_or (Internal (''execution '' @ rec_id record @ '' is not managed'')) state)"

definition record_generation ::
    "box_record \<Rightarrow> execution_id \<Rightarrow> execution_manager_error + execution_generation" where
  "record_generation record i =
     ok_or (Internal (''execution '' @ execution_id_str i @ '' has no managed generation''))
       (map_option me_generation (rec_managed_execution record))"

definition require_generation ::
    "box_record \<Rightarrow> execution_id \<Rightarrow> execution_generation \<Rightarrow> execution_manager_error + unit" where
  "require_generation record i expected =
     rbind (record_generation record i) (\<lambda>actual.
       if actual = expected then Inr ()
       else Inl (MgrConflict i (''expected generation '' @ show_word (generation_get expected) @
              '', found '' @ show_word (generation_get actual))))"

definition state_conflict :: "box_record \<Rightarrow> execution_id \<Rightarrow> string \<Rightarrow> execution_manager_error" where
  "state_conflict record i operation =
     (let state = (case support_managed_state record of
            Inr s \<Rightarrow> as_status s | Inl e \<Rightarrow> manager_error_to_string e)
      in MgrConflict i (''cannot '' @ operation @ '' execution in state '' @ state))"

definition required_handle ::
    "local_execution_observation \<Rightarrow> execution_id \<Rightarrow>
     execution_manager_error + local_execution_handle" where
  "required_handle observation i =
     ok_or (Internal (''backend returned no runtime evidence for '' @ execution_id_str i))
       (ob_handle observation)"

definition record_pending :: "box_record \<Rightarrow> managed_execution_operation option" where
  "record_pending record = Option.bind (rec_managed_execution record) me_pending_operation"

definition pending_pause_policy ::
    "box_record \<Rightarrow> execution_id \<Rightarrow> execution_manager_error + bool" where
  "pending_pause_policy record i =
     (case record_pending record of
        Some (OpPause keep_memory) \<Rightarrow> Inr keep_memory
      | _ \<Rightarrow> Inl (Internal (''pausing execution '' @ execution_id_str i @
               '' has no persisted pause policy'')))"

definition pending_kill_options ::
    "box_record \<Rightarrow> execution_id \<Rightarrow> execution_manager_error + kill_execution_options" where
  "pending_kill_options record i =
     (case record_pending record of
        Some (OpKill signal timeout_secs) \<Rightarrow>
          Inr \<lparr>kill_signal = signal, kill_timeout_secs = timeout_secs\<rparr>
      | _ \<Rightarrow> Inl (Internal (''killing execution '' @ execution_id_str i @
               '' has no persisted termination policy'')))"

definition paused_with_memory ::
    "box_record \<Rightarrow> execution_id \<Rightarrow> execution_manager_error + bool" where
  "paused_with_memory record i =
     ok_or (Internal (''execution '' @ execution_id_str i @ '' has no persisted pause mode''))
       (map_option me_paused_with_memory (rec_managed_execution record))"

definition pending_restart_source_state ::
    "box_record \<Rightarrow> execution_id \<Rightarrow> execution_manager_error + managed_execution_state" where
  "pending_restart_source_state record i =
     (case record_pending record of
        Some (OpRestart _ _ source_state _) \<Rightarrow> Inr source_state
      | _ \<Rightarrow> Inl (Internal (''restarting execution '' @ execution_id_str i @
               '' has no persisted restart source state'')))"

definition outcome_from_record ::
    "box_record \<Rightarrow> execution_state \<Rightarrow> execution_manager_error + reconcile_outcome" where
  "outcome_from_record record state =
     (case state of
        ES_Created \<Rightarrow> rbind (reservation_from_record record) (\<lambda>r. Inr (RO_Created r))
      | ES_Creating \<Rightarrow> Inr RO_Creating
      | ES_Running \<Rightarrow> rbind (lease_from_record record) (\<lambda>l. Inr (Ready l))
      | ES_Paused \<Rightarrow> rbind (lease_from_record record) (\<lambda>l. Inr (Ready l))
      | ES_Stopped \<Rightarrow> Inr RO_Failed
      | ES_Failed \<Rightarrow> Inr RO_Failed)"

section \<open>Restart and snapshot bookkeeping\<close>

record restart_intent =
  ri_operation_id :: operation_id
  ri_source_generation :: execution_generation
  ri_source_state :: managed_execution_state
  ri_stop_timeout_secs :: "u64 option"

definition intent_options :: "restart_intent \<Rightarrow> restart_execution_options" where
  "intent_options self = \<lparr>restart_stop_timeout_secs = ri_stop_timeout_secs self\<rparr>"

definition ensure_restart_generation_available ::
    "execution_id \<Rightarrow> execution_generation \<Rightarrow> execution_manager_error + unit" where
  "ensure_restart_generation_available i generation =
     (if checked_add (generation_get generation) 1 \<noteq> None then Inr ()
      else Inl (MgrConflict i ''execution generation is exhausted''))"

definition ensure_restart_timeout_valid ::
    "execution_id \<Rightarrow> u64 option \<Rightarrow> execution_manager_error + unit" where
  "ensure_restart_timeout_valid i timeout_secs =
     (if (case timeout_secs of None \<Rightarrow> False | Some timeout \<Rightarrow> checked_mul timeout 1000 = None)
      then Inl (InvalidRequest (''restart timeout is too large for execution '' @
             execution_id_str i))
      else Inr ())"

definition restart_intent_of :: "box_record \<Rightarrow> execution_manager_error + restart_intent" where
  "restart_intent_of record =
     rbind (record_execution_id record) (\<lambda>i.
       (case record_pending record of
          Some (OpRestart operation_id source_generation source_state stop_timeout_secs) \<Rightarrow>
            Inr \<lparr>ri_operation_id = operation_id, ri_source_generation = source_generation,
                 ri_source_state = source_state, ri_stop_timeout_secs = stop_timeout_secs\<rparr>
        | _ \<Rightarrow> Inl (Internal (''restarting execution '' @ execution_id_str i @
                 '' has no persisted restart intent''))))"

definition require_matching_restart ::
    "box_record \<Rightarrow> execution_generation \<Rightarrow> operation_id \<Rightarrow> restart_execution_options \<Rightarrow>
     execution_manager_error + unit" where
  "require_matching_restart record expected_generation operation_id options =
     rbind (record_execution_id record) (\<lambda>i.
     rbind (restart_intent_of record) (\<lambda>intent.
       if ri_operation_id intent = operation_id \<and>
          ri_source_generation intent = expected_generation \<and>
          ri_stop_timeout_secs intent = restart_stop_timeout_secs options
       then Inr ()
       else Inl (MgrConflict i (''restart is already owned by operation '' @
              operation_id_str (ri_operation_id intent) @ '' from generation '' @
              show_word (generation_get (ri_source_generation intent))))))"

definition completed_restart_result ::
    "box_record \<Rightarrow> execution_generation \<Rightarrow> operation_id \<Rightarrow> restart_execution_options \<Rightarrow>
     execution_manager_error + (execution_manager_error + execution_lease) option" where
  "completed_restart_result record expected_generation operation_id options =
     rbind (record_execution_id record) (\<lambda>i.
       (case Option.bind (rec_managed_execution record) me_last_restart of
          None \<Rightarrow> Inr None
        | Some completed \<Rightarrow>
            if mrc_operation_id completed \<noteq> operation_id then Inr None
            else if mrc_source_generation completed \<noteq> expected_generation then
              Inr (Some (Inl (MgrConflict i (''restart operation '' @
                operation_id_str operation_id @ '' belongs to generation '' @
                show_word (generation_get (mrc_source_generation completed)) @ '', not '' @
                show_word (generation_get expected_generation)))))
            else if mrc_stop_timeout_secs completed \<noteq> restart_stop_timeout_secs options then
              Inr (Some (Inl (MgrConflict i (''restart operation '' @
                operation_id_str operation_id @ '' was retried with different stop options''))))
            else if mrc_outcome completed = RestartFailed then
              Inr (Some (Inl (MgrConflict i (''restart operation '' @
                operation_id_str operation_id @ '' failed at generation '' @
                show_word (generation_get (mrc_target_generation completed))))))
            else
              rbind (record_generation record i) (\<lambda>current_generation.
              rbind (support_managed_state record) (\<lambda>state.
                if state = Running \<and> current_generation = mrc_target_generation completed
                then Inr (Some (lease_from_record record))
                else Inr (Some (Inl (MgrConflict i (''restart operation '' @
                  operation_id_str operation_id @
                  '' completed, but the execution has since moved'')))))) ))"

definition snapshot_operation ::
    "box_record \<Rightarrow> execution_manager_error + execution_snapshot_id \<times> managed_execution_state" where
  "snapshot_operation record =
     (case record_pending record of
        Some (OpSnapshot snapshot_id source_state) \<Rightarrow>
          (if source_state \<in> {Running, Paused} then Inr (snapshot_id, source_state)
           else Inl (Internal (''execution '' @ rec_id record @
                  '' has invalid snapshot recovery metadata'')))
      | _ \<Rightarrow> Inl (Internal (''execution '' @ rec_id record @
               '' has invalid snapshot recovery metadata'')))"

definition snapshot_execution_state ::
    "managed_execution_state \<Rightarrow> execution_manager_error + execution_state" where
  "snapshot_execution_state state =
     (case state of
        Running \<Rightarrow> Inr ES_Running
      | Paused \<Rightarrow> Inr ES_Paused
      | _ \<Rightarrow> Inl (Internal (''invalid stable snapshot state '' @ as_status state)))"

definition map_store_error :: "store_error \<Rightarrow> execution_manager_error" where
  "map_store_error e =
     (case e of
        StoreIo error \<Rightarrow> Unavailable (io_message error)
      | StoreNotFound i \<Rightarrow> MgrNotFound i
      | StoreConflict i message \<Rightarrow> MgrConflict i message
      | Unmanaged i \<Rightarrow> Internal (''execution record is not managed: '' @ execution_id_str i)
      | InvalidRecord message \<Rightarrow> Internal message
      | InvalidTransition i from to \<Rightarrow>
          Internal (''invalid managed transition for '' @ execution_id_str i @ '': '' @
            as_status from @ '' -> '' @ as_status to))"

definition validate_kill_options :: "kill_execution_options \<Rightarrow> execution_manager_error + unit" where
  "validate_kill_options options =
     (if (case kill_signal options of None \<Rightarrow> False | Some signal \<Rightarrow> sint signal \<le> 0) then
        Inl (InvalidRequest ''kill signal must be positive'')
      else if (case kill_timeout_secs options of
            None \<Rightarrow> False | Some timeout \<Rightarrow> checked_mul timeout 1000 = None) then
        Inl (InvalidRequest ''kill timeout is too large'')
      else Inr ())"

end
