(* ===== verification/Net_Addr.thy ===== *)
theory Net_Addr
  imports Box_Prelude
begin

text \<open>
  Network addresses and number texts of Rust's standard library, as \<open>core/src/network.rs\<close> uses
  them: \<open>Ipv4Addr\<close> is the 32-bit word \<open>u32::from(addr)\<close>; its parser wants four decimal octets
  without superfluous zeros, its printer writes them; \<open>u8::from_str\<close> reads a decimal number with an
  optional plus sign.
\<close>

section \<open>Decimal numbers\<close>

definition is_digit :: "char \<Rightarrow> bool" where
  "is_digit c \<longleftrightarrow> (let n = of_char c :: nat in 48 \<le> n \<and> n \<le> 57)"

definition digit_val :: "char \<Rightarrow> nat" where
  "digit_val c = of_char c - 48"

text \<open>\<open>u8::from_str\<close> with the texts of \<open>ParseIntError\<close>.\<close>

fun parse_u8_digits :: "nat \<Rightarrow> string \<Rightarrow> string + u8" where
  "parse_u8_digits acc [] = Inr (of_nat acc)"
| "parse_u8_digits acc (c # s) =
     (if \<not> is_digit c then Inl ''invalid digit found in string''
      else if acc * 10 + digit_val c > 255 then Inl ''number too large to fit in target type''
      else parse_u8_digits (acc * 10 + digit_val c) s)"

definition parse_u8 :: "string \<Rightarrow> string + u8" where
  "parse_u8 s =
     (case s of
        [] \<Rightarrow> Inl ''cannot parse integer from empty string''
      | c # t \<Rightarrow>
          if (c = CHR ''+'' \<or> c = CHR ''-'') \<and> t = [] then Inl ''invalid digit found in string''
          else if c = CHR ''+'' then parse_u8_digits 0 t
          else parse_u8_digits 0 s)"

section \<open>IPv4 addresses\<close>

type_synonym ipv4 = u32

definition octet :: "nat \<Rightarrow> ipv4 \<Rightarrow> nat" where
  "octet k ip = unat ip div 256 ^ (3 - k) mod 256"

definition of_octets :: "nat \<Rightarrow> nat \<Rightarrow> nat \<Rightarrow> nat \<Rightarrow> ipv4" where
  "of_octets a b c d = of_nat (a * 2 ^ 24 + b * 2 ^ 16 + c * 2 ^ 8 + d)"

fun decimal_value :: "nat \<Rightarrow> string \<Rightarrow> nat" where
  "decimal_value acc [] = acc"
| "decimal_value acc (c # s) = decimal_value (acc * 10 + digit_val c) s"

text \<open>One octet: one to three digits, no leading zero, at most 255.\<close>

definition parse_octet :: "string \<Rightarrow> nat option" where
  "parse_octet s =
     (if s \<noteq> [] \<and> length s \<le> 3 \<and> list_all is_digit s \<and> (length s = 1 \<or> hd s \<noteq> CHR ''0'') \<and>
         decimal_value 0 s \<le> 255
      then Some (decimal_value 0 s) else None)"

definition parse_ipv4 :: "string \<Rightarrow> string + ipv4" where
  "parse_ipv4 s =
     (if length s > 15 then Inl ''invalid IPv4 address syntax''
      else (case split_on CHR ''.'' s of
          [a, b, c, d] \<Rightarrow>
            (case (parse_octet a, parse_octet b, parse_octet c, parse_octet d) of
               (Some a', Some b', Some c', Some d') \<Rightarrow> Inr (of_octets a' b' c' d')
             | _ \<Rightarrow> Inl ''invalid IPv4 address syntax'')
        | _ \<Rightarrow> Inl ''invalid IPv4 address syntax''))"

definition show_ipv4 :: "ipv4 \<Rightarrow> string" where
  "show_ipv4 ip =
     show_nat (octet 0 ip) @ ''.'' @ show_nat (octet 1 ip) @ ''.'' @ show_nat (octet 2 ip) @ ''.'' @
     show_nat (octet 3 ip)"

text \<open>\<open>{:02x}\<close> of an octet.\<close>

definition hex_digit :: "nat \<Rightarrow> char" where
  "hex_digit n = (if n < 10 then char_of (48 + n) else char_of (87 + n))"

definition hex2 :: "nat \<Rightarrow> string" where
  "hex2 n = [hex_digit (n div 16), hex_digit (n mod 16)]"

section \<open>Facts\<close>

lemma octet_less [simp]: "octet k ip < 256"
  by (simp add: octet_def)

text \<open>The decimal digit of a number below ten.\<close>

abbreviation digit :: "nat \<Rightarrow> char" where
  "digit k \<equiv> char_of (48 + k)"

lemma of_char_digit: "k < 10 \<Longrightarrow> of_char (digit k) = (48 + k :: nat)"
  by simp

lemma digit_facts:
  assumes "k < 10"
  shows "is_digit (digit k)" "digit_val (digit k) = k" "digit k = CHR ''0'' \<longleftrightarrow> k = 0"
    "digit k \<noteq> CHR ''.''" "digit k \<noteq> CHR ''/''" "digit k \<noteq> CHR ''+''" "digit k \<noteq> CHR ''-''"
proof -
  have neq: "digit k \<noteq> c" if "of_char c \<noteq> 48 + k" for c
    using that of_char_digit [OF assms] by metis
  have "digit 0 = CHR ''0''"
    by (rule of_char_eq_iff [where 'a = nat, THEN iffD1]) simp
  then show "digit k = CHR ''0'' \<longleftrightarrow> k = 0"
    using neq [of "CHR ''0''"] by auto
  show "is_digit (digit k)" "digit_val (digit k) = k"
    using assms by (simp_all add: is_digit_def digit_val_def)
  show "digit k \<noteq> CHR ''.''" "digit k \<noteq> CHR ''/''" "digit k \<noteq> CHR ''+''" "digit k \<noteq> CHR ''-''"
    by (rule neq, simp)+
qed

lemma show_nat_cases:
  assumes "n < 256"
  shows "(n < 10 \<and> show_nat n = [digit n]) \<or>
    (10 \<le> n \<and> n < 100 \<and> show_nat n = [digit (n div 10), digit (n mod 10)]) \<or>
    (100 \<le> n \<and>
      show_nat n = [digit (n div 10 div 10), digit (n div 10 mod 10), digit (n mod 10)])"
proof -
  have one: "show_nat k = [digit k]" if "k < 10" for k
    using that by (simp add: show_nat.simps [of k])
  have two: "show_nat k = [digit (k div 10), digit (k mod 10)]" if "10 \<le> k" "k < 100" for k
    using that one [of "k div 10"] by (simp add: show_nat.simps [of k])
  have "show_nat n = [digit (n div 10 div 10), digit (n div 10 mod 10), digit (n mod 10)]"
    if "100 \<le> n"
    using that assms two [of "n div 10"] by (simp add: show_nat.simps [of n])
  with one two show ?thesis by force
qed

lemma show_octet:
  assumes "n < 256"
  shows "parse_octet (show_nat n) = Some n" "CHR ''.'' \<notin> set (show_nat n)"
    "CHR ''/'' \<notin> set (show_nat n)" "length (show_nat n) \<le> 3"
    "parse_u8 (show_nat n) = Inr (of_nat n)"
proof -
  note d = digit_facts
  have m: "n mod 10 < 10" "n div 10 mod 10 < 10" by simp_all
  consider "n < 10" "show_nat n = [digit n]"
    | "10 \<le> n" "n div 10 < 10" "show_nat n = [digit (n div 10), digit (n mod 10)]"
    | "100 \<le> n" "n div 10 div 10 < 10" "n div 10 div 10 \<noteq> 0"
        "show_nat n = [digit (n div 10 div 10), digit (n div 10 mod 10), digit (n mod 10)]"
    using show_nat_cases [OF assms] assms by fastforce
  then have "parse_octet (show_nat n) = Some n \<and> CHR ''.'' \<notin> set (show_nat n) \<and>
    CHR ''/'' \<notin> set (show_nat n) \<and> length (show_nat n) \<le> 3 \<and>
    parse_u8 (show_nat n) = Inr (of_nat n)"
  proof cases
    case 1
    with assms show ?thesis
      by (simp add: parse_octet_def parse_u8_def d d(4-7) [THEN not_sym])
  next
    case 2
    with assms m show ?thesis
      by (simp add: parse_octet_def parse_u8_def d d(4-7) [THEN not_sym])
  next
    case 3
    moreover have "(n div 10 div 10 * 10 + n div 10 mod 10) * 10 + n mod 10 = n"
      by (simp only: div_mult_mod_eq)
    ultimately show ?thesis using assms m
      by (simp add: parse_octet_def parse_u8_def d d(4-7) [THEN not_sym])
  qed
  then show "parse_octet (show_nat n) = Some n" "CHR ''.'' \<notin> set (show_nat n)"
    "CHR ''/'' \<notin> set (show_nat n)" "length (show_nat n) \<le> 3"
    "parse_u8 (show_nat n) = Inr (of_nat n)" by simp_all
qed

lemma octets_decompose:
  "unat ip = octet 0 ip * 2 ^ 24 + octet 1 ip * 2 ^ 16 + octet 2 ip * 2 ^ 8 + octet 3 ip"
proof -
  define n a b c where "n = unat ip" and "a = n div 256" and "b = a div 256" and "c = b div 256"
  have "n < 2 ^ 32" using unsigned_less [of ip] by (simp add: n_def)
  then have "c < 256" by (simp add: a_def b_def c_def div_mult2_eq [symmetric])
  moreover have "n div 65536 = b" "n div 16777216 = c"
    by (simp_all add: a_def b_def c_def div_mult2_eq [symmetric])
  ultimately have octets: "octet 0 ip = c" "octet 1 ip = b mod 256" "octet 2 ip = a mod 256"
    "octet 3 ip = n mod 256"
    by (simp_all add: octet_def n_def [symmetric] a_def [symmetric])
  have "n = a * 256 + n mod 256" "a = b * 256 + a mod 256" "b = c * 256 + b mod 256"
    by (simp_all only: a_def b_def c_def div_mult_mod_eq)
  then have "n = c * 16777216 + b mod 256 * 65536 + a mod 256 * 256 + n mod 256"
    by linarith
  then show ?thesis unfolding octets n_def [symmetric] by simp
qed

lemma of_octets_octets [simp]: "of_octets (octet 0 ip) (octet 1 ip) (octet 2 ip) (octet 3 ip) = ip"
  by (simp only: of_octets_def octets_decompose [symmetric] of_nat_unat ucast_id)

lemma octets_inject:
  assumes "octet 0 a = octet 0 b" "octet 1 a = octet 1 b" "octet 2 a = octet 2 b"
    "octet 3 a = octet 3 b"
  shows "a = b"
  using assms of_octets_octets [of a] of_octets_octets [of b] by simp

text \<open>Printing an address and parsing it again is the identity.\<close>

lemma parse_show_ipv4: "parse_ipv4 (show_ipv4 ip) = Inr ip"
proof -
  have "split_on CHR ''.'' (show_ipv4 ip) =
      [show_nat (octet 0 ip), show_nat (octet 1 ip), show_nat (octet 2 ip), show_nat (octet 3 ip)]"
    by (simp add: show_ipv4_def split_on_append_sep split_on_no_sep show_octet)
  moreover have "length (show_ipv4 ip) \<le> 15"
    using show_octet(4) [of "octet 0 ip"] show_octet(4) [of "octet 1 ip"]
      show_octet(4) [of "octet 2 ip"] show_octet(4) [of "octet 3 ip"]
    by (simp add: show_ipv4_def)
  ultimately show ?thesis
    using of_octets_octets [of ip] by (simp add: parse_ipv4_def show_octet)
qed

lemma show_ipv4_no_slash: "CHR ''/'' \<notin> set (show_ipv4 ip)"
  by (simp add: show_ipv4_def show_octet)

lemma show_ipv4_inject: "show_ipv4 a = show_ipv4 b \<Longrightarrow> a = b"
  by (metis parse_show_ipv4 sum.inject(2))

lemma hex_digit_inject:
  assumes "a < 16" and "b < 16" and "hex_digit a = hex_digit b"
  shows "a = b"
proof -
  have "of_char (hex_digit k) = (if k < 10 then 48 + k else 87 + k :: nat)" if "k < 16" for k
    using that by (simp add: hex_digit_def)
  from this [OF assms(1)] this [OF assms(2)]
  have "(if a < 10 then 48 + a else 87 + a) = (if b < 10 then 48 + b else 87 + b)"
    by (simp only: assms(3))
  then show ?thesis by (auto split: if_splits)
qed

lemma hex2_inject:
  assumes "a < 256" and "b < 256" and "hex2 a = hex2 b"
  shows "a = b"
proof -
  have "a div 16 = b div 16" by (rule hex_digit_inject) (use assms in \<open>simp_all add: hex2_def\<close>)
  moreover have "a mod 16 = b mod 16"
    by (rule hex_digit_inject) (use assms in \<open>simp_all add: hex2_def\<close>)
  ultimately show ?thesis by (metis div_mult_mod_eq)
qed

end
