(* ===== verification/Network.thy ===== *)
theory Network
  imports Box_Config Net_Addr "HOL-Library.AList"
begin

unbundle bit_operations_syntax

text \<open>
  User-defined networks, \<open>core/src/network.rs\<close>: the isolation policy, the sequential IPv4 address
  manager and the network with its endpoints. The \<open>HashMap\<close> of endpoints is an association list
  whose order stands for the unspecified iteration order. Field prefixes: \<open>nc_\<close> for
  \<open>NetworkConfig\<close>, \<open>ep_\<close> for \<open>NetworkEndpoint\<close>, \<open>np_\<close> for \<open>NetworkPolicy\<close>, \<open>rule_\<close> for \<open>PolicyRule\<close>.
\<close>

section \<open>Data\<close>

datatype isolation_mode = IsolationNone | IsolationStrict | IsolationCustom

datatype policy_action = Allow | Deny

record policy_rule =
  rule_from :: string
  rule_to :: string
  rule_ports :: "u16 list"
  rule_protocol :: string
  rule_action :: policy_action

record network_policy =
  np_isolation :: isolation_mode
  np_ingress :: "policy_rule list"
  np_egress :: "policy_rule list"

definition default_policy :: network_policy where
  "default_policy = \<lparr>np_isolation = IsolationNone, np_ingress = [], np_egress = []\<rparr>"

record network_endpoint =
  ep_box_id :: string
  ep_box_name :: string
  ep_aliases :: "string list"
  ep_ip_address :: ipv4
  ep_mac_address :: string

record network_config =
  nc_name :: string
  nc_subnet :: string
  nc_gateway :: ipv4
  nc_driver :: string
  nc_labels :: "(string \<times> string) list"
  nc_endpoints :: "(string \<times> network_endpoint) list"
  nc_created_at :: string
  nc_policy :: network_policy

section \<open>Policies\<close>

definition policy_validate :: "network_policy \<Rightarrow> string + unit" where
  "policy_validate self =
     (case np_isolation self of
        IsolationNone \<Rightarrow> Inr ()
      | IsolationStrict \<Rightarrow>
          Inl (''network policy isolation mode '' @ sq ''strict'' @
            '' is not yet enforced at runtime; packets will NOT be filtered. '' @
            ''Remove the policy or use isolation=none'')
      | IsolationCustom \<Rightarrow>
          Inl (''network policy isolation mode '' @ sq ''custom'' @
            '' is not yet enforced at runtime; ingress/egress rules will NOT be applied. '' @
            ''Remove the policy or use isolation=none''))"

definition matches_pattern :: "string \<Rightarrow> string \<Rightarrow> bool" where
  "matches_pattern pattern name \<longleftrightarrow> pattern = ''*'' \<or> pattern = name"

fun evaluate_rules :: "policy_rule list \<Rightarrow> string \<Rightarrow> string \<Rightarrow> bool" where
  "evaluate_rules [] from to = False"
| "evaluate_rules (rule # rules) from to =
     (if matches_pattern (rule_from rule) from \<and> matches_pattern (rule_to rule) to
      then rule_action rule = Allow
      else evaluate_rules rules from to)"

definition is_peer_allowed :: "network_policy \<Rightarrow> string \<Rightarrow> string \<Rightarrow> bool" where
  "is_peer_allowed self box_name peer_name =
     (case np_isolation self of
        IsolationNone \<Rightarrow> True
      | IsolationStrict \<Rightarrow> False
      | IsolationCustom \<Rightarrow> evaluate_rules (np_egress self) box_name peer_name)"

definition allowed_peers ::
    "network_policy \<Rightarrow> string \<Rightarrow> (string \<times> string) list \<Rightarrow> (string \<times> string) list" where
  "allowed_peers self box_name peers =
     filter (\<lambda>(_, peer_name). is_peer_allowed self box_name peer_name) peers"

section \<open>IPv4 address management\<close>

record ipam =
  ipam_network :: ipv4
  ipam_prefix_len :: u8
  ipam_gateway :: ipv4

definition ipam_new :: "string \<Rightarrow> string + ipam" where
  "ipam_new cidr =
     (case split_on CHR ''/'' cidr of
        [addr, len] \<Rightarrow>
          rbind (map_err (\<lambda>e. ''invalid network address '' @ sq addr @ '': '' @ e)
                   (parse_ipv4 addr)) (\<lambda>network.
          rbind (map_err (\<lambda>e. ''invalid prefix length '' @ sq len @ '': '' @ e)
                   (parse_u8 len)) (\<lambda>prefix_len.
            if prefix_len = 0 \<or> prefix_len > 30 then
              Inl (''prefix length '' @ show_word prefix_len @
                '' out of range (must be 1-30 for a usable subnet)'')
            else
              rbind (ok_or (''network address '' @ sq (show_ipv4 network) @
                       '' has no room for a gateway'')
                       (checked_add network 1)) (\<lambda>gateway.
                Inr \<lparr>ipam_network = network, ipam_prefix_len = prefix_len,
                     ipam_gateway = gateway\<rparr>)))
      | _ \<Rightarrow> Inl (''invalid CIDR notation: '' @ cidr))"

definition cidr :: "ipam \<Rightarrow> string" where
  "cidr self = show_ipv4 (ipam_network self) @ ''/'' @ show_word (ipam_prefix_len self)"

definition host_bits :: "ipam \<Rightarrow> nat" where
  "host_bits self = 32 - unat (ipam_prefix_len self)"

definition host_mask :: "ipam \<Rightarrow> u32" where
  "host_mask self = push_bit (host_bits self) 1 - 1"

definition broadcast :: "ipam \<Rightarrow> ipv4" where
  "broadcast self = ipam_network self OR host_mask self"

text \<open>\<open>saturating_sub\<close> stops at zero.\<close>

definition capacity :: "ipam \<Rightarrow> u32" where
  "capacity self = (if host_mask self < 2 then 0 else host_mask self - 2)"

definition no_addresses :: string where
  "no_addresses = ''no available IP addresses in subnet''"

function allocate_from :: "ipv4 \<Rightarrow> ipv4 \<Rightarrow> ipv4 list \<Rightarrow> u32 \<Rightarrow> string + ipv4" where
  "allocate_from broadcast_u32 gateway_u32 used candidate =
     (if candidate < broadcast_u32 then
        (if candidate \<noteq> gateway_u32 \<and> candidate \<notin> set used then Inr candidate
         else (case checked_add candidate 1 of
             Some next \<Rightarrow> allocate_from broadcast_u32 gateway_u32 used next
           | None \<Rightarrow> Inl no_addresses))
      else Inl no_addresses)"
  by pat_completeness auto
termination
  by (relation "measure (\<lambda>(b, g, used, c). unat b - unat c)")
    (auto dest!: checked_add_SomeD simp: word_less_nat_alt)

declare allocate_from.simps [simp del]

definition allocate :: "ipam \<Rightarrow> ipv4 list \<Rightarrow> string + ipv4" where
  "allocate self used =
     (case checked_add (ipam_network self) 2 of
        None \<Rightarrow> Inl no_addresses
      | Some candidate \<Rightarrow> allocate_from (broadcast self) (ipam_gateway self) used candidate)"

definition mac_from_ip :: "ipv4 \<Rightarrow> string" where
  "mac_from_ip ip =
     ''02:42:'' @ hex2 (octet 0 ip) @ '':'' @ hex2 (octet 1 ip) @ '':'' @ hex2 (octet 2 ip) @ '':'' @
     hex2 (octet 3 ip)"

section \<open>Networks\<close>

text \<open>The creation time of \<open>Utc::now()\<close> is an argument.\<close>

definition network_new :: "string \<Rightarrow> string \<Rightarrow> string \<Rightarrow> string + network_config" where
  "network_new now name subnet =
     rbind (ipam_new subnet) (\<lambda>ipam.
       Inr \<lparr>nc_name = name, nc_subnet = cidr ipam, nc_gateway = ipam_gateway ipam,
            nc_driver = ''bridge'', nc_labels = [], nc_endpoints = [], nc_created_at = now,
            nc_policy = default_policy\<rparr>)"

definition validate_runtime :: "network_config \<Rightarrow> string + unit" where
  "validate_runtime self =
     (if nc_driver self \<noteq> ''bridge'' then
        Inl (''Unsupported network driver '' @ sq (nc_driver self) @ ''. Only '' @ sq ''bridge'' @
          '' is currently supported'')
      else map_err (\<lambda>error. ''Unsupported network isolation mode: '' @ error)
             (policy_validate (nc_policy self)))"

definition connect_with_aliases ::
    "network_config \<Rightarrow> string \<Rightarrow> string \<Rightarrow> string list \<Rightarrow>
     string + network_endpoint \<times> network_config" where
  "connect_with_aliases self box_id box_name aliases =
     (if map_of (nc_endpoints self) box_id \<noteq> None then
        Inl (''box '' @ sq box_id @ '' is already connected to network '' @ sq (nc_name self))
      else
        rbind (ipam_new (nc_subnet self)) (\<lambda>ipam.
        rbind (allocate ipam (map (\<lambda>(_, e). ep_ip_address e) (nc_endpoints self))) (\<lambda>ip.
          let endpoint = \<lparr>ep_box_id = box_id, ep_box_name = box_name,
                ep_aliases = filter (\<lambda>a. a \<noteq> [] \<and> a \<noteq> box_name) aliases,
                ep_ip_address = ip, ep_mac_address = mac_from_ip ip\<rparr>
          in Inr (endpoint,
                  self\<lparr>nc_endpoints := AList.update box_id endpoint (nc_endpoints self)\<rparr>))))"

definition connect ::
    "network_config \<Rightarrow> string \<Rightarrow> string \<Rightarrow> string + network_endpoint \<times> network_config" where
  "connect self box_id box_name = connect_with_aliases self box_id box_name []"

definition disconnect ::
    "network_config \<Rightarrow> string \<Rightarrow> string + network_endpoint \<times> network_config" where
  "disconnect self box_id =
     (case map_of (nc_endpoints self) box_id of
        None \<Rightarrow> Inl (''box '' @ sq box_id @ '' is not connected to network '' @ sq (nc_name self))
      | Some endpoint \<Rightarrow>
          Inr (endpoint, self\<lparr>nc_endpoints := AList.delete box_id (nc_endpoints self)\<rparr>))"

definition set_policy :: "network_config \<Rightarrow> network_policy \<Rightarrow> string + network_config" where
  "set_policy self policy =
     rbind (policy_validate policy) (\<lambda>_. Inr (self\<lparr>nc_policy := policy\<rparr>))"

definition connected_boxes :: "network_config \<Rightarrow> network_endpoint list" where
  "connected_boxes self = map snd (nc_endpoints self)"

definition peer_endpoints :: "network_config \<Rightarrow> string \<Rightarrow> (string \<times> string) list" where
  "peer_endpoints self exclude_box_id =
     concat (map (\<lambda>ep. (show_ipv4 (ep_ip_address ep), ep_box_name ep) #
                       map (\<lambda>a. (show_ipv4 (ep_ip_address ep), a)) (ep_aliases ep))
       (filter (\<lambda>ep. ep_box_id ep \<noteq> exclude_box_id) (map snd (nc_endpoints self))))"

definition allowed_peer_endpoints :: "network_config \<Rightarrow> string \<Rightarrow> (string \<times> string) list" where
  "allowed_peer_endpoints self exclude_box_id =
     (let box_name = (case map_of (nc_endpoints self) exclude_box_id of
            None \<Rightarrow> [] | Some ep \<Rightarrow> ep_box_name ep)
      in allowed_peers (nc_policy self) box_name (peer_endpoints self exclude_box_id))"

section \<open>Facts on address management\<close>

definition ipam_wf :: "ipam \<Rightarrow> bool" where
  "ipam_wf a \<longleftrightarrow>
     1 \<le> unat (ipam_prefix_len a) \<and> unat (ipam_prefix_len a) \<le> 30 \<and>
     unat (ipam_network a) + 1 < 2 ^ 32 \<and> ipam_gateway a = ipam_network a + 1"

lemma ipam_new_wf:
  assumes "ipam_new s = Inr a"
  shows "ipam_wf a"
proof -
  from assms obtain net len gw where "len \<noteq> 0" "\<not> len > 30" "checked_add net 1 = Some gw"
    "a = \<lparr>ipam_network = net, ipam_prefix_len = len, ipam_gateway = gw\<rparr>"
    by (auto simp: ipam_new_def result_simps split: list.splits if_splits)
  then show ?thesis
    using checked_add_SomeD [of net 1 gw] checked_add_def [of net 1] unsigned_eq_0_iff [of len]
    by (auto simp: ipam_wf_def word_less_nat_alt Suc_le_eq split: if_splits)
qed

text \<open>The textual form a network stores parses back to the same address manager.\<close>

lemma ipam_new_cidr:
  assumes "ipam_wf a"
  shows "ipam_new (cidr a) = Inr a"
proof -
  have len: "unat (ipam_prefix_len a) < 256"
    using unat_bound [of "ipam_prefix_len a"] by simp
  have "split_on CHR ''/'' (cidr a) = [show_ipv4 (ipam_network a), show_word (ipam_prefix_len a)]"
    using show_octet(3) [OF len]
    by (simp add: cidr_def split_on_append_sep split_on_no_sep show_ipv4_no_slash show_word_def)
  moreover have "parse_u8 (show_word (ipam_prefix_len a)) = Inr (ipam_prefix_len a)"
    using show_octet(5) [OF len] by (simp add: show_word_def)
  moreover have "ipam_prefix_len a \<noteq> 0" "\<not> ipam_prefix_len a > 30"
    using assms unsigned_eq_0_iff [of "ipam_prefix_len a"]
    by (auto simp: ipam_wf_def word_less_nat_alt)
  moreover have "checked_add (ipam_network a) 1 = Some (ipam_gateway a)"
    using assms by (simp add: ipam_wf_def checked_add_def)
  ultimately show ?thesis by (simp add: ipam_new_def parse_show_ipv4)
qed

lemma host_bits_bounds:
  assumes "ipam_wf a"
  shows "2 \<le> host_bits a" "host_bits a \<le> 31"
  using assms by (auto simp: host_bits_def ipam_wf_def)

lemma unat_mask_u32:
  assumes "h \<le> 32"
  shows "unat (mask h :: u32) = 2 ^ h - 1"
proof -
  have "unat (mask h :: u32) = mask h"
    by (rule bit_eqI) (use assms in \<open>auto simp: bit_simps\<close>)
  then show ?thesis by (simp add: mask_eq_exp_minus_1)
qed

lemma unat_host_mask:
  assumes "ipam_wf a"
  shows "unat (host_mask a) = 2 ^ host_bits a - 1"
proof -
  have "host_mask a = mask (host_bits a)"
    by (simp add: host_mask_def mask_eq_exp_minus_1 push_bit_eq_mult)
  then show ?thesis
    using host_bits_bounds [OF assms] by (simp add: unat_mask_u32)
qed

lemma or_mask_nat: "(n :: nat) OR (2 ^ h - 1) = n div 2 ^ h * 2 ^ h + (2 ^ h - 1)"
proof -
  have "n OR mask h = push_bit h (drop_bit h (n OR mask h)) + take_bit h (n OR mask h)"
    by (rule bits_ident [symmetric])
  moreover have "drop_bit h (n OR mask h) = drop_bit h n"
    by (rule bit_eqI) (simp add: bit_simps)
  moreover have "take_bit h (n OR mask h) = mask h"
    by (rule bit_eqI) (auto simp: bit_simps)
  ultimately show ?thesis
    by (simp add: mask_eq_exp_minus_1 push_bit_eq_mult drop_bit_eq_div)
qed

lemma unat_broadcast:
  assumes "ipam_wf a"
  shows "unat (broadcast a) =
    unat (ipam_network a) div 2 ^ host_bits a * 2 ^ host_bits a + (2 ^ host_bits a - 1)"
  by (simp only: broadcast_def unsigned_or_eq unat_host_mask [OF assms] or_mask_nat)

lemma unat_capacity:
  assumes "ipam_wf a"
  shows "unat (capacity a) = 2 ^ host_bits a - 3"
proof -
  have "2 ^ 2 \<le> (2 :: nat) ^ host_bits a"
    by (rule power_increasing) (use host_bits_bounds [OF assms] in simp_all)
  then show ?thesis
    using unat_host_mask [OF assms]
    by (auto simp: capacity_def word_less_nat_alt unat_sub_if')
qed

text \<open>The loop answers the least address that is free, and fails exactly when there is none.\<close>

lemma allocate_from_spec:
  "case allocate_from b g used c of
     Inr ip \<Rightarrow> c \<le> ip \<and> ip < b \<and> ip \<noteq> g \<and> ip \<notin> set used \<and>
       (\<forall>x. c \<le> x \<longrightarrow> x < ip \<longrightarrow> x = g \<or> x \<in> set used)
   | Inl e \<Rightarrow> e = no_addresses \<and> (\<forall>x. c \<le> x \<longrightarrow> x < b \<longrightarrow> x = g \<or> x \<in> set used)"
proof (induction b g used c rule: allocate_from.induct)
  case (1 b g used c)
  show ?case
  proof (cases "c < b \<and> (c = g \<or> c \<in> set used)")
    case True
    then have "unat c + 1 < 2 ^ 32"
      using unat_bound [of b] by (auto simp: word_less_nat_alt)
    then have ca: "checked_add c 1 = Some (c + 1)" by (simp add: checked_add_def)
    have step: "allocate_from b g used c = allocate_from b g used (c + 1)"
      using True ca by (subst allocate_from.simps) auto
    have le: "c \<le> x \<longleftrightarrow> x = c \<or> c + 1 \<le> x" for x
      using checked_add_SomeD [OF ca] by (auto simp: word_le_nat_alt word_unat_eq_iff)
    have "case allocate_from b g used (c + 1) of
        Inr ip \<Rightarrow> c + 1 \<le> ip \<and> ip < b \<and> ip \<noteq> g \<and> ip \<notin> set used \<and>
          (\<forall>x. c + 1 \<le> x \<longrightarrow> x < ip \<longrightarrow> x = g \<or> x \<in> set used)
      | Inl e \<Rightarrow> e = no_addresses \<and> (\<forall>x. c + 1 \<le> x \<longrightarrow> x < b \<longrightarrow> x = g \<or> x \<in> set used)"
      using "1.IH" True ca by simp
    with True show ?thesis unfolding step
      by (auto simp: le split: sum.splits)
  next
    case False
    then show ?thesis
      by (subst allocate_from.simps) (auto dest: order.strict_trans1)
  qed
qed

lemma allocate_Inr:
  assumes "allocate a used = Inr ip"
  shows "unat (ipam_network a) + 2 \<le> unat ip \<and> ip < broadcast a \<and> ip \<noteq> ipam_gateway a \<and>
    ip \<notin> set used"
proof -
  from assms obtain c where c: "checked_add (ipam_network a) 2 = Some c"
    "allocate_from (broadcast a) (ipam_gateway a) used c = Inr ip"
    by (auto simp: allocate_def split: option.splits)
  with allocate_from_spec [where b = "broadcast a" and g = "ipam_gateway a" and used = used and c = c] checked_add_unat [OF c(1)]
  show ?thesis by (simp add: word_le_nat_alt)
qed

lemma allocate_Inl_iff:
  assumes "ipam_wf a"
  shows "allocate a used = Inl e \<longleftrightarrow>
    e = no_addresses \<and>
    (\<forall>x. unat (ipam_network a) + 2 \<le> unat x \<longrightarrow> x < broadcast a \<longrightarrow> x \<in> set used)"
proof -
  have gw: "unat (ipam_gateway a) = unat (ipam_network a) + 1"
    using assms by (simp add: ipam_wf_def unat_word_ariths)
  show ?thesis
  proof (cases "checked_add (ipam_network a) 2")
    case None
    then have "\<not> unat (ipam_network a) + 2 \<le> unat x" for x :: ipv4
      using unat_bound [of x] by (simp add: checked_add_None_iff)
    with None show ?thesis by (auto simp: allocate_def)
  next
    case (Some c)
    have "unat c = unat (ipam_network a) + 2" using checked_add_unat [OF Some] by simp
    with Some gw allocate_from_spec [where b = "broadcast a" and g = "ipam_gateway a" and used = used and c = c] show ?thesis
      by (auto simp: allocate_def word_le_nat_alt split: sum.splits)
  qed
qed

text \<open>An address below the broadcast address and above the network address is in the subnet.\<close>

lemma in_subnet:
  assumes "ipam_wf a" and "unat (ipam_network a) \<le> unat ip" and "ip \<le> broadcast a"
  shows "drop_bit (host_bits a) ip = drop_bit (host_bits a) (ipam_network a)"
proof -
  let ?h = "2 ^ host_bits a :: nat"
  let ?n = "unat (ipam_network a)"
  have "unat ip \<le> ?n div ?h * ?h + (?h - 1)"
    using assms(3) unat_broadcast [OF assms(1)] by (simp add: word_le_nat_alt)
  then have "unat ip < Suc (?n div ?h) * ?h"
    by (metis Suc_pred' add.commute less_Suc_eq_le mult_Suc plus_nat.simps(2) zero_less_numeral
        zero_less_power add_Suc_right)
  then have "unat ip div ?h < Suc (?n div ?h)" by (rule less_mult_imp_div_less)
  then have "unat ip div ?h \<le> ?n div ?h" by (rule less_Suc_eq_le [THEN iffD1])
  moreover have "?n div ?h \<le> unat ip div ?h" using assms(2) by (rule div_le_mono)
  ultimately have "unat ip div ?h = ?n div ?h" by simp
  then have "unat (drop_bit (host_bits a) ip) = unat (drop_bit (host_bits a) (ipam_network a))"
    unfolding unsigned_drop_bit_eq
    using unat_bound [of ip] unat_bound [of "ipam_network a"]
    by (simp add: drop_bit_eq_div take_bit_nat_eq_self)
  then show ?thesis by (rule unsigned_word_eqI)
qed

lemma card_word_interval:
  "card {x :: 'a::len word. lo \<le> unat x \<and> x < b} = unat b - lo"
proof -
  have "unat ` {x :: 'a word. lo \<le> unat x \<and> x < b} = {lo ..< unat b}"
  proof (intro set_eqI iffI)
    fix n
    assume "n \<in> {lo ..< unat b}"
    then have "n < 2 ^ LENGTH('a)" using less_trans [OF _ unat_bound [of b]] by simp
    then have "unat (of_nat n :: 'a word) = n" by (simp add: unat_of_nat)
    with \<open>n \<in> {lo ..< unat b}\<close> show "n \<in> unat ` {x :: 'a word. lo \<le> unat x \<and> x < b}"
      by (intro image_eqI [of _ _ "of_nat n"]) (auto simp: word_less_nat_alt)
  qed (auto simp: word_less_nat_alt)
  moreover have "inj_on unat {x :: 'a word. lo \<le> unat x \<and> x < b}"
    by (auto simp: inj_on_def word_unat_eq_iff)
  ultimately show ?thesis by (metis card_image card_atLeastLessThan)
qed

lemma allocate_succeeds:
  assumes "ipam_wf a" and "unat (ipam_network a) mod 2 ^ host_bits a = 0"
    and "card (set used) < unat (capacity a)"
  shows "\<exists>ip. allocate a used = Inr ip"
proof (rule ccontr)
  let ?h = "2 ^ host_bits a :: nat"
  let ?free = "{x. unat (ipam_network a) + 2 \<le> unat x \<and> x < broadcast a}"
  assume "\<nexists>ip. allocate a used = Inr ip"
  then obtain e where "allocate a used = Inl e" by (cases "allocate a used") auto
  then have "?free \<subseteq> set used" using allocate_Inl_iff [OF assms(1)] by blast
  then have "card ?free \<le> card (set used)" by (rule card_mono [rotated]) simp
  moreover have "unat (broadcast a) = unat (ipam_network a) + (?h - 1)"
    using unat_broadcast [OF assms(1)] assms(2) by (metis add.right_neutral div_mult_mod_eq)
  then have "card ?free = ?h - 3"
    by (simp add: card_word_interval)
  ultimately show False using assms(3) unat_capacity [OF assms(1)] by simp
qed

lemma mac_from_ip_inject: "mac_from_ip a = mac_from_ip b \<Longrightarrow> a = b"
  by (rule octets_inject; rule hex2_inject) (simp_all add: mac_from_ip_def hex2_def)

section \<open>Facts on networks\<close>

text \<open>
  The invariant of a network: its subnet parses, its gateway is the subnet's, every endpoint is
  filed under its own box, has a usable address of the subnet that no other endpoint has, and the
  MAC address that belongs to it.
\<close>

definition endpoint_ok :: "ipam \<Rightarrow> string \<Rightarrow> network_endpoint \<Rightarrow> bool" where
  "endpoint_ok a key ep \<longleftrightarrow>
     ep_box_id ep = key \<and> ep_mac_address ep = mac_from_ip (ep_ip_address ep) \<and>
     unat (ipam_network a) + 2 \<le> unat (ep_ip_address ep) \<and> ep_ip_address ep < broadcast a \<and>
     [] \<notin> set (ep_aliases ep) \<and> ep_box_name ep \<notin> set (ep_aliases ep)"

definition endpoint_ips :: "network_config \<Rightarrow> ipv4 list" where
  "endpoint_ips nc = map (\<lambda>(_, e). ep_ip_address e) (nc_endpoints nc)"

definition network_inv :: "network_config \<Rightarrow> bool" where
  "network_inv nc \<longleftrightarrow>
     (case ipam_new (nc_subnet nc) of
        Inl _ \<Rightarrow> False
      | Inr a \<Rightarrow>
          nc_gateway nc = ipam_gateway a \<and> distinct (map fst (nc_endpoints nc)) \<and>
          distinct (endpoint_ips nc) \<and>
          (\<forall>(key, ep) \<in> set (nc_endpoints nc). endpoint_ok a key ep))"

lemma network_new_inv:
  assumes "network_new now name subnet = Inr nc"
  shows "network_inv nc"
  using assms
  by (auto simp: network_new_def network_inv_def result_simps endpoint_ips_def
      ipam_new_cidr [OF ipam_new_wf])

lemma update_absent:
  "map_of xs k = None \<Longrightarrow> AList.update k v xs = xs @ [(k, v)]"
  by (induction xs) (auto split: if_splits)

lemma connect_with_aliases_Inr:
  assumes "connect_with_aliases nc i n al = Inr (ep, nc')"
  obtains a ip where "map_of (nc_endpoints nc) i = None" "ipam_new (nc_subnet nc) = Inr a"
    "allocate a (endpoint_ips nc) = Inr ip"
    "ep = \<lparr>ep_box_id = i, ep_box_name = n, ep_aliases = filter (\<lambda>x. x \<noteq> [] \<and> x \<noteq> n) al,
       ep_ip_address = ip, ep_mac_address = mac_from_ip ip\<rparr>"
    "nc' = nc\<lparr>nc_endpoints := nc_endpoints nc @ [(i, ep)]\<rparr>"
  using assms
  by (auto simp: connect_with_aliases_def endpoint_ips_def result_simps Let_def update_absent
      split: if_splits)

lemma connect_inv:
  assumes "connect_with_aliases nc i n al = Inr (ep, nc')" and "network_inv nc"
  shows "network_inv nc'"
proof -
  obtain a ip where f: "map_of (nc_endpoints nc) i = None" "ipam_new (nc_subnet nc) = Inr a"
    "allocate a (endpoint_ips nc) = Inr ip"
    "ep = \<lparr>ep_box_id = i, ep_box_name = n, ep_aliases = filter (\<lambda>x. x \<noteq> [] \<and> x \<noteq> n) al,
       ep_ip_address = ip, ep_mac_address = mac_from_ip ip\<rparr>"
    "nc' = nc\<lparr>nc_endpoints := nc_endpoints nc @ [(i, ep)]\<rparr>"
    by (rule connect_with_aliases_Inr [OF assms(1)]) blast
  have "endpoint_ok a i ep" "ip \<notin> set (endpoint_ips nc)"
    using allocate_Inr [OF f(3)] f(4) by (auto simp: endpoint_ok_def)
  moreover have "i \<notin> fst ` set (nc_endpoints nc)" using f(1) by (simp add: map_of_eq_None_iff)
  ultimately show ?thesis
    using assms(2) f(2,4,5) by (auto simp: network_inv_def endpoint_ips_def)
qed

lemma disconnect_inv:
  assumes "disconnect nc i = Inr (ep, nc')" and "network_inv nc"
  shows "network_inv nc'"
proof -
  have "nc' = nc\<lparr>nc_endpoints := filter (\<lambda>(k, _). i \<noteq> k) (nc_endpoints nc)\<rparr>"
    using assms(1) by (auto simp: disconnect_def AList.delete_eq split: option.splits)
  with assms(2) show ?thesis
    by (auto simp: network_inv_def endpoint_ips_def distinct_map_filter split: sum.splits)
qed

lemma set_policy_inv:
  assumes "set_policy nc p = Inr nc'" and "network_inv nc"
  shows "network_inv nc' \<and> nc_policy nc' = p \<and> np_isolation p = IsolationNone"
  using assms
  by (auto simp: set_policy_def policy_validate_def network_inv_def endpoint_ips_def result_simps
      split: isolation_mode.splits sum.splits)

lemma allocate_lowest:
  assumes "ipam_wf a" and "allocate a used = Inr ip"
    and "unat (ipam_network a) + 1 < unat x" and "x < ip"
  shows "x \<in> set used"
proof -
  from assms(2) obtain c where c: "checked_add (ipam_network a) 2 = Some c"
    "allocate_from (broadcast a) (ipam_gateway a) used c = Inr ip"
    by (auto simp: allocate_def split: option.splits)
  have "x \<noteq> ipam_gateway a" using assms(1,3) by (auto simp: ipam_wf_def unat_word_ariths)
  moreover have "c \<le> x" using checked_add_unat [OF c(1)] assms(3) by (simp add: word_le_nat_alt)
  ultimately show ?thesis
    using allocate_from_spec [where b = "broadcast a" and g = "ipam_gateway a" and used = used and c = c]
      c(2) assms(4) by auto
qed

lemma evaluate_rules_first:
  "evaluate_rules rules from to =
     (case find (\<lambda>rule. matches_pattern (rule_from rule) from \<and> matches_pattern (rule_to rule) to) rules of
        None \<Rightarrow> False
      | Some rule \<Rightarrow> rule_action rule = Allow)"
  by (induction rules) simp_all

lemma allowed_peer_is_peer:
  assumes "network_inv nc" and "(addr, n) \<in> set (allowed_peer_endpoints nc box)"
  shows "\<exists>other ep. other \<noteq> box \<and> map_of (nc_endpoints nc) other = Some ep \<and>
    addr = show_ipv4 (ep_ip_address ep) \<and> n \<in> insert (ep_box_name ep) (set (ep_aliases ep))"
proof -
  from assms(2) obtain key ep where e: "(key, ep) \<in> set (nc_endpoints nc)" "ep_box_id ep \<noteq> box"
    "addr = show_ipv4 (ep_ip_address ep)" "n \<in> insert (ep_box_name ep) (set (ep_aliases ep))"
    by (auto simp: allowed_peer_endpoints_def allowed_peers_def peer_endpoints_def Let_def)
  moreover have "map_of (nc_endpoints nc) key = Some ep" "ep_box_id ep = key"
    using assms(1) e(1) by (auto simp: network_inv_def endpoint_ok_def split: sum.splits)
  ultimately show ?thesis by blast
qed

section \<open>Properties\<close>


definition sample_ipam :: ipam where
  "sample_ipam = \<lparr>ipam_network = 0x0A580000, ipam_prefix_len = 29, ipam_gateway = 0x0A580001\<rparr>"

lemma sample_ipam_parsed: "ipam_new ''10.88.0.0/29'' = Inr sample_ipam"
proof -
  have "parse_u8 ''29'' = Inr 29"
    by (simp add: parse_u8_def is_digit_def digit_val_def)
  moreover have "parse_ipv4 ''10.88.0.0'' = Inr 0x0A580000"
    by (simp add: parse_ipv4_def parse_octet_def of_octets_def is_digit_def digit_val_def)
  ultimately show ?thesis by (simp add: ipam_new_def checked_add_def sample_ipam_def)
qed

lemma sample_ipam_values:
  "ipam_network sample_ipam = 0x0A580000" "ipam_gateway sample_ipam = 0x0A580001"
  "host_bits sample_ipam = 3" "broadcast sample_ipam = 0x0A580007" "capacity sample_ipam = 5"
  by (simp_all add: sample_ipam_def host_bits_def broadcast_def capacity_def host_mask_def)

lemma sample_allocate: "allocate sample_ipam [0x0A580002, 0x0A580004] = Inr 0x0A580003"
  by (simp add: allocate_def sample_ipam_values checked_add_def allocate_from.simps)


text \<open>
  A subnet serves as many endpoints as it promises. On a subnet whose address is aligned,
  allocation succeeds as long as fewer addresses are in use than \<open>capacity\<close> says, and that is the
  number of addresses of the subnet less the network, gateway and broadcast addresses.
\<close>

lemma capacity_is_served:
  assumes "ipam_new s = Inr a" and "unat (ipam_network a) mod 2 ^ host_bits a = 0"
    and "card (set used) < unat (capacity a)"
  shows "(\<exists>ip. allocate a used = Inr ip) \<and> unat (capacity a) = 2 ^ host_bits a - 3"
  using allocate_succeeds [OF ipam_new_wf [OF assms(1)] assms(2,3)]
    unat_capacity [OF ipam_new_wf [OF assms(1)]] by simp

lemma capacity_is_served_witness:
  "(\<exists>ip. allocate sample_ipam [0x0A580002, 0x0A580004] = Inr ip) \<and> unat (capacity sample_ipam) = 5"
proof -
  have c: "unat (capacity sample_ipam) = 5" by (simp add: sample_ipam_values)
  have "unat (ipam_network sample_ipam) mod 2 ^ host_bits sample_ipam = 0"
    by (simp add: sample_ipam_values)
  moreover have "card (set [0x0A580002, 0x0A580004 :: ipv4]) < unat (capacity sample_ipam)"
    unfolding c by simp
  ultimately have "\<exists>ip. allocate sample_ipam [0x0A580002, 0x0A580004] = Inr ip"
    by (rule capacity_is_served [OF sample_ipam_parsed, THEN conjunct1])
  with c show ?thesis by (rule_tac conjI)
qed

text \<open>
  The textual subnet round trips. A network stores its subnet as text; what \<open>NetworkConfig::new\<close>
  stores parses back to the address manager it was built from, and an IPv4 address parses back from
  its printed form.
\<close>

lemma subnet_round_trip:
  "parse_ipv4 (show_ipv4 ip) = Inr ip \<and>
   (network_new now name subnet = Inr nc \<longrightarrow>
      (\<exists>a. ipam_new subnet = Inr a \<and> ipam_new (nc_subnet nc) = Inr a \<and> nc_subnet nc = cidr a \<and>
         nc_gateway nc = ipam_gateway a))"
  by (auto simp: parse_show_ipv4 network_new_def result_simps ipam_new_cidr [OF ipam_new_wf])

definition sample_network :: network_config where
  "sample_network =
     \<lparr>nc_name = ''dev'', nc_subnet = ''10.88.0.0/29'', nc_gateway = 0x0A580001,
      nc_driver = ''bridge'', nc_labels = [], nc_endpoints = [], nc_created_at = ''now'',
      nc_policy = default_policy\<rparr>"

lemma sample_network_new: "network_new ''now'' ''dev'' ''10.88.0.0/29'' = Inr sample_network"
proof -
  have "show_nat 10 = ''10''" "show_nat 88 = ''88''" "show_nat 0 = ''0''" "show_nat 29 = ''29''"
    by code_simp+
  then have "cidr sample_ipam = ''10.88.0.0/29''"
    by (simp add: cidr_def show_ipv4_def octet_def sample_ipam_def show_word_def)
  then show ?thesis
    by (simp add: network_new_def sample_ipam_parsed sample_network_def sample_ipam_values)
qed

lemma subnet_round_trip_witness:
  "parse_ipv4 (show_ipv4 0x0A580002) = Inr 0x0A580002 \<and>
   (\<exists>a. ipam_new (nc_subnet sample_network) = Inr a \<and> nc_gateway sample_network = ipam_gateway a)"
  using subnet_round_trip
      [where ip = "0x0A580002" and now = "''now''" and name = "''dev''" and subnet = "''10.88.0.0/29''"
        and nc = sample_network] sample_network_new
  by blast

text \<open>
  Policies. A policy that would need packet filtering is refused, so a network never carries
  one; under a custom policy the first matching egress rule decides and no match denies; and the
  peers a box learns of are other boxes of its network that the policy allows.
\<close>

lemma policy_enforced:
  "(set_policy nc p = Inr nc' \<longrightarrow> np_isolation p = IsolationNone \<and> nc_policy nc' = p) \<and>
   (np_isolation p = IsolationCustom \<longrightarrow>
      is_peer_allowed p box peer =
        (case find (\<lambda>rule. matches_pattern (rule_from rule) box \<and> matches_pattern (rule_to rule) peer)
                (np_egress p) of
           None \<Rightarrow> False
         | Some rule \<Rightarrow> rule_action rule = Allow)) \<and>
   (network_inv nc \<and> (addr, n) \<in> set (allowed_peer_endpoints nc box) \<longrightarrow>
      (\<exists>other ep. other \<noteq> box \<and> map_of (nc_endpoints nc) other = Some ep \<and>
         addr = show_ipv4 (ep_ip_address ep) \<and> n \<in> insert (ep_box_name ep) (set (ep_aliases ep))))"
proof (intro conjI impI)
  assume "set_policy nc p = Inr nc'"
  then show "np_isolation p = IsolationNone" "nc_policy nc' = p"
    by (auto simp: set_policy_def policy_validate_def result_simps split: isolation_mode.splits)
next
  assume "np_isolation p = IsolationCustom"
  then show "is_peer_allowed p box peer =
        (case find (\<lambda>rule. matches_pattern (rule_from rule) box \<and> matches_pattern (rule_to rule) peer)
                (np_egress p) of
           None \<Rightarrow> False
         | Some rule \<Rightarrow> rule_action rule = Allow)"
    by (simp add: is_peer_allowed_def evaluate_rules_first)
next
  assume "network_inv nc \<and> (addr, n) \<in> set (allowed_peer_endpoints nc box)"
  then show "\<exists>other ep. other \<noteq> box \<and> map_of (nc_endpoints nc) other = Some ep \<and>
         addr = show_ipv4 (ep_ip_address ep) \<and> n \<in> insert (ep_box_name ep) (set (ep_aliases ep))"
    using allowed_peer_is_peer by blast
qed

definition sample_policy :: network_policy where
  "sample_policy =
     \<lparr>np_isolation = IsolationCustom, np_ingress = [],
      np_egress =
        [\<lparr>rule_from = ''web'', rule_to = ''db'', rule_ports = [], rule_protocol = ''any'', rule_action = Allow\<rparr>,
         \<lparr>rule_from = ''*'', rule_to = ''*'', rule_ports = [], rule_protocol = ''any'', rule_action = Deny\<rparr>]\<rparr>"

lemma policy_enforced_witness:
  "is_peer_allowed sample_policy ''web'' ''db'' \<and> \<not> is_peer_allowed sample_policy ''web'' ''mail'' \<and>
   nc_policy (sample_network\<lparr>nc_policy := default_policy\<rparr>) = default_policy"
proof -
  have "set_policy sample_network default_policy = Inr (sample_network\<lparr>nc_policy := default_policy\<rparr>)"
    by (simp add: set_policy_def policy_validate_def default_policy_def)
  then show ?thesis
    using policy_enforced [of sample_network sample_policy _ "''web''" "''db''"]
      policy_enforced [of sample_network sample_policy _ "''web''" "''mail''"]
      policy_enforced [of sample_network default_policy]
    by (simp add: sample_policy_def matches_pattern_def)
qed

end
