(* ===== verification/Json_Store.thy ===== *)
theory Json_Store
  imports Box_Config Durable_File "HOL-Library.AList"
begin

text \<open>
  The map files \<open>networks.json\<close> and \<open>volumes.json\<close>. \<open>runtime/src/network/store.rs\<close> and
  \<open>runtime/src/volume/store.rs\<close> hold the same \<open>load\<close>, \<open>save\<close> and \<open>with_write_lock\<close>, apart from the
  label in their messages and the error variants; \<open>map_store\<close> holds those. A \<open>HashMap\<close> is an
  association list whose order stands for the unspecified iteration order.
\<close>

record map_store =
  ms_path :: string
  ms_parent :: "string option"
  ms_tmp :: string
  ms_label :: string
  ms_error :: "string \<Rightarrow> box_error"
  ms_serialize_error :: "string \<Rightarrow> box_error"

record map_faults =
  mf_lock :: "io_error option"
  mf_read :: "io_error option"
  mf_dir :: "io_error option"
  mf_serialize :: "string option"
  mf_create :: "io_error option"
  mf_write :: "io_error option"
  mf_rename :: "io_error option"
  mf_torn :: string
  mf_quarantine :: quarantine_faults

definition no_map_faults :: map_faults where
  "no_map_faults =
     \<lparr>mf_lock = None, mf_read = None, mf_dir = None, mf_serialize = None, mf_create = None,
      mf_write = None, mf_rename = None, mf_torn = [],
      mf_quarantine = \<lparr>qf_now_secs = 0, qf_rename_ok = True, qf_copy_ok = True\<rparr>\<rparr>"

type_synonym 'v map_file = "(string \<times> 'v) list"

definition map_load ::
    "map_store \<Rightarrow> map_faults \<Rightarrow> 'v map_file disk \<Rightarrow> (box_error + 'v map_file) \<times> 'v map_file disk" where
  "map_load st flt d =
     (case disk_file d of
        None \<Rightarrow> (Inr [], d)
      | Some node \<Rightarrow>
          (case mf_read flt of
             Some e \<Rightarrow>
               (Inl (ms_error st (''failed to read '' @ ms_label st @ '' file '' @ ms_path st @ '': '' @
                  io_message e)), d)
           | None \<Rightarrow>
               (case node_content node of
                  Holds file \<Rightarrow> (Inr file, d)
                | Unparsable _ \<Rightarrow> (Inr [], snd (quarantine_corrupt (mf_quarantine flt) d)))))"

text \<open>The arrow of the rename message, in UTF-8.\<close>

definition arrow :: string where
  "arrow = '' '' @ [CHR 0xE2, CHR 0x86, CHR 0x92] @ '' ''"

definition map_save ::
    "map_store \<Rightarrow> map_faults \<Rightarrow> 'v map_file \<Rightarrow> 'v map_file disk \<Rightarrow>
     (box_error + unit) \<times> 'v map_file disk" where
  "map_save st flt file d =
     (case (ms_parent st, mf_dir flt) of
        (Some parent, Some e) \<Rightarrow>
          (Inl (ms_error st (''failed to create directory '' @ parent @ '': '' @ io_message e)), d)
      | _ \<Rightarrow>
          (case mf_serialize flt of
             Some e \<Rightarrow>
               (Inl (ms_serialize_error st (''failed to serialize '' @ ms_label st @ '': '' @ e)), d)
           | None \<Rightarrow>
               (case run_steps [(mf_create flt, create_tmp (mf_torn flt)),
                                (mf_write flt, write_tmp file)] d of
                  (trace, Inl e) \<Rightarrow>
                    (Inl (ms_error st (''failed to write tmp file '' @ ms_tmp st @ '': '' @
                       io_message e)), last trace)
                | (trace, Inr _) \<Rightarrow>
                    (case mf_rename flt of
                       Some e \<Rightarrow>
                         (Inl (ms_error st (''failed to rename '' @ ms_tmp st @ arrow @ ms_path st @
                            '': '' @ io_message e)), last trace)
                     | None \<Rightarrow> (Inr (), rename_tmp (last trace))))))"

definition map_with_write_lock ::
    "map_store \<Rightarrow> (box_error \<Rightarrow> 'e) \<Rightarrow> map_faults \<Rightarrow> ('v map_file \<Rightarrow> 'e + 'r \<times> 'v map_file) \<Rightarrow>
     'v map_file disk \<Rightarrow> ('e + 'r) \<times> 'v map_file disk" where
  "map_with_write_lock st from_box flt f d =
     (case mf_lock flt of
        Some e \<Rightarrow>
          (Inl (from_box (ms_error st (''failed to lock '' @ ms_label st @ '' file '' @ ms_path st @
             '': '' @ io_message e))), d)
      | None \<Rightarrow>
          (case map_load st flt d of
             (Inl e, d1) \<Rightarrow> (Inl (from_box e), d1)
           | (Inr file, d1) \<Rightarrow>
               (case f file of
                  Inl e \<Rightarrow> (Inl e, d1)
                | Inr (r, file') \<Rightarrow>
                    (case map_save st flt file' d1 of
                       (Inl e, d2) \<Rightarrow> (Inl (from_box e), d2)
                     | (Inr _, d2) \<Rightarrow> (Inr r, d2)))))"

section \<open>Facts\<close>

text \<open>What a load without read fault answers.\<close>

definition map_view :: "'v map_file disk \<Rightarrow> 'v map_file option" where
  "map_view d =
     Some (case disk_file d of
        None \<Rightarrow> []
      | Some node \<Rightarrow> (case node_content node of Holds file \<Rightarrow> file | Unparsable _ \<Rightarrow> []))"

lemma map_load_cases:
  assumes "map_load st flt d = (res, d')"
  shows "map_view d' = map_view d \<and> (\<forall>file. res = Inr file \<longrightarrow> map_view d = Some file)"
proof (cases "d' = d")
  case True
  with assms show ?thesis
    by (auto simp: map_load_def map_view_def split: option.splits file_content.splits)
next
  case False
  with assms have *: "map_view d = Some []" "res = Inr []"
    "d' = snd (quarantine_corrupt (mf_quarantine flt) d)"
    by (auto simp: map_load_def map_view_def split: option.splits file_content.splits)
  then have "disk_file d' = None \<or> disk_file d' = disk_file d"
    using quarantine_corrupt_file [of "mf_quarantine flt" d]
    by (cases "quarantine_corrupt (mf_quarantine flt) d") auto
  then have "map_view d' = Some []" using *(1) by (auto simp: map_view_def)
  with * show ?thesis by simp
qed

lemma map_save_Inr:
  assumes "map_save st flt file d = (Inr u, d')"
  shows "disk_file d' = Some \<lparr>node_content = Holds file, node_synced = False\<rparr>"
  using assms
  by (auto simp: map_save_def rename_tmp_def write_tmp_def create_tmp_def
      split: option.splits sum.splits prod.splits)

lemma map_save_Inl:
  assumes "map_save st flt file d = (Inl e, d')"
  shows "disk_file d' = disk_file d"
  using assms
  by (auto simp: map_save_def rename_tmp_def write_tmp_def create_tmp_def
      split: option.splits sum.splits prod.splits)

lemma map_lock_Inl:
  assumes "map_with_write_lock st from_box flt f d = (Inl e, d')"
  shows "map_view d' = map_view d"
proof -
  obtain res d1 where l: "map_load st flt d = (res, d1)" by (cases "map_load st flt d")
  have "map_view d1 = map_view d" using map_load_cases [OF l] by simp
  with assms l show ?thesis
    by (auto simp: map_with_write_lock_def map_view_def
        split: option.splits sum.splits prod.splits dest!: map_save_Inl)
qed

lemma map_lock_Inr:
  assumes "map_with_write_lock st from_box flt f d = (Inr r, d')"
  shows "\<exists>file file'. map_view d = Some file \<and> f file = Inr (r, file') \<and> map_view d' = Some file'"
  using assms
  by (auto simp: map_with_write_lock_def split: option.splits sum.splits prod.splits
      dest!: map_load_cases map_save_Inr simp: map_view_def [of d'])

interpretation json_store: locked_store map_view "\<lambda>_. True" "map_with_write_lock st from_box"
  by unfold_locales (auto dest: map_lock_Inr map_lock_Inl)

text \<open>Without faults the transaction runs its closure on the current map.\<close>

lemma map_lock_faultless:
  assumes "map_view d = Some file" and "f file = Inr (r, file')"
  shows "\<exists>d'. map_with_write_lock st from_box no_map_faults f d = (Inr r, d') \<and>
    map_view d' = Some file'"
proof -
  obtain d1 where l: "map_load st no_map_faults d = (Inr file, d1)"
    using assms(1)
    by (auto simp: map_load_def map_view_def no_map_faults_def
        split: option.splits file_content.splits)
  obtain d2 where s: "map_save st no_map_faults file' d1 = (Inr (), d2)"
    by (cases "ms_parent st") (simp_all add: map_save_def no_map_faults_def)
  then show ?thesis
    using l assms(2) map_save_Inr [OF s]
    by (auto simp: map_with_write_lock_def map_view_def no_map_faults_def)
qed

section \<open>Properties\<close>


text \<open>
  a completed save of \<open>networks.json\<close> or \<open>volumes.json\<close> is not durable. The transaction wrote
  and renamed its temporary file without flushing it, so after it answered success a crash can
  leave a torn file, and the next load then answers an empty map: every network or volume is
  forgotten, not only the change. \<open>write_durable\<close>, which the record file uses, excludes this.
\<close>

lemma json_save_not_durable:
  assumes "map_with_write_lock st from_box flt f d = (Inr r, d')"
  shows "fst (map_load st no_map_faults (crash torn d')) = Inr []"
proof -
  from assms obtain contents d1 where "map_save st flt contents d1 = (Inr (), d')"
    by (auto simp: map_with_write_lock_def split: option.splits sum.splits prod.splits)
  from map_save_Inr [OF this] show ?thesis
    by (simp add: crash_def crash_node_def map_load_def no_map_faults_def)
qed

definition empty_map_disk :: "'v map_file disk" where
  "empty_map_disk = \<lparr>disk_file = None, disk_tmp = None, disk_backups = Map.empty\<rparr>"

definition sample_map_store :: map_store where
  "sample_map_store =
     \<lparr>ms_path = ''networks.json'', ms_parent = None, ms_tmp = ''networks.json.tmp'',
      ms_label = ''networks'', ms_error = NetworkError, ms_serialize_error = NetworkError\<rparr>"

lemma json_save_not_durable_witness:
  "\<exists>d'. map_with_write_lock sample_map_store (\<lambda>e. e) no_map_faults
     (\<lambda>file. Inr (True, (''dev'', 1 :: nat) # file)) empty_map_disk = (Inr True, d') \<and>
   map_view d' = Some [(''dev'', 1)] \<and>
   fst (map_load sample_map_store no_map_faults (crash ''eof'' d')) = Inr []"
proof -
  have "map_view empty_map_disk = Some ([] :: nat map_file)"
    by (simp add: map_view_def empty_map_disk_def)
  from map_lock_faultless [where f = "\<lambda>file. Inr (True, (''dev'', 1 :: nat) # file)"
      and st = sample_map_store and from_box = "\<lambda>e. e", OF this]
  obtain d' where "map_with_write_lock sample_map_store (\<lambda>e. e) no_map_faults
      (\<lambda>file. Inr (True, (''dev'', 1 :: nat) # file)) empty_map_disk = (Inr True, d')"
    "map_view d' = Some [(''dev'', 1)]" by auto
  with json_save_not_durable [OF this(1), of "''eof''"] show ?thesis by blast
qed

end
