(* ===== verification/Network_Store.thy ===== *)
theory Network_Store
  imports Network Json_Store
begin

text \<open>
  The network store, \<open>runtime/src/network/store.rs\<close>, and its clients that attach an execution or a
  pod to a network: the network part of \<open>ExecutionResourceGuard\<close> and \<open>release_resources\<close>
  (\<open>runtime/src/local_execution/resources.rs\<close>) and the CRI pod attachment
  (\<open>cri/src/runtime_service/network.rs\<close>).
\<close>

section \<open>The store\<close>

type_synonym network_disk = "network_config map_file disk"

definition network_store :: "string \<Rightarrow> string option \<Rightarrow> string \<Rightarrow> map_store" where
  "network_store path parent tmp =
     \<lparr>ms_path = path, ms_parent = parent, ms_tmp = tmp, ms_label = ''networks'',
      ms_error = NetworkError, ms_serialize_error = NetworkError\<rparr>"

definition network_get ::
    "map_store \<Rightarrow> map_faults \<Rightarrow> string \<Rightarrow> network_disk \<Rightarrow>
     (box_error + network_config option) \<times> network_disk" where
  "network_get st flt name d =
     (let (r, d') = map_load st flt d in (rbind r (\<lambda>networks. Inr (map_of networks name)), d'))"

definition network_list ::
    "map_store \<Rightarrow> map_faults \<Rightarrow> network_disk \<Rightarrow> (box_error + network_config list) \<times> network_disk" where
  "network_list st flt d =
     (let (r, d') = map_load st flt d in (rbind r (\<lambda>networks. Inr (map snd networks)), d'))"

definition create_body ::
    "network_config \<Rightarrow> network_config map_file \<Rightarrow> box_error + unit \<times> network_config map_file" where
  "create_body config networks =
     (if map_of networks (nc_name config) \<noteq> None then
        Inl (NetworkError (''network '' @ sq (nc_name config) @ '' already exists''))
      else Inr ((), AList.update (nc_name config) config networks))"

definition network_create ::
    "map_store \<Rightarrow> map_faults \<Rightarrow> network_config \<Rightarrow> network_disk \<Rightarrow> (box_error + unit) \<times> network_disk" where
  "network_create st flt config d = map_with_write_lock st (\<lambda>e. e) flt (create_body config) d"

definition remove_body ::
    "string \<Rightarrow> network_config map_file \<Rightarrow>
     box_error + network_config \<times> network_config map_file" where
  "remove_body name networks =
     (case map_of networks name of
        None \<Rightarrow> Inl (NetworkError (''network '' @ sq name @ '' not found''))
      | Some config \<Rightarrow>
          if nc_endpoints config \<noteq> [] then
            Inl (NetworkError (''network '' @ sq name @ '' has '' @
              show_nat (length (nc_endpoints config)) @
              '' connected endpoint(s); disconnect them first or use --force''))
          else Inr (config, AList.delete name networks))"

definition network_remove ::
    "map_store \<Rightarrow> map_faults \<Rightarrow> string \<Rightarrow> network_disk \<Rightarrow>
     (box_error + network_config) \<times> network_disk" where
  "network_remove st flt name d = map_with_write_lock st (\<lambda>e. e) flt (remove_body name) d"

definition update_body ::
    "network_config \<Rightarrow> network_config map_file \<Rightarrow> box_error + unit \<times> network_config map_file" where
  "update_body config networks =
     (if map_of networks (nc_name config) = None then
        Inl (NetworkError (''network '' @ sq (nc_name config) @ '' not found''))
      else Inr ((), AList.update (nc_name config) config networks))"

definition network_update ::
    "map_store \<Rightarrow> map_faults \<Rightarrow> network_config \<Rightarrow> network_disk \<Rightarrow> (box_error + unit) \<times> network_disk" where
  "network_update st flt config d = map_with_write_lock st (\<lambda>e. e) flt (update_body config) d"

section \<open>Attaching and detaching\<close>

text \<open>
  The closure of \<open>ExecutionResourceGuard::prepare\<close>: connect an execution unless it is connected
  already; the answer says whether this call connected it.
\<close>

definition attach_body ::
    "string \<Rightarrow> string \<Rightarrow> string \<Rightarrow> network_config map_file \<Rightarrow>
     box_error + bool \<times> network_config map_file" where
  "attach_body network_name box_id box_name networks =
     (case map_of networks network_name of
        None \<Rightarrow> Inl (NetworkError (''network '' @ sq network_name @ '' not found''))
      | Some network \<Rightarrow>
          rbind (map_err NetworkError (validate_runtime network)) (\<lambda>_.
            if map_of (nc_endpoints network) box_id \<noteq> None then Inr (False, networks)
            else rbind (map_err NetworkError (connect network box_id box_name))
                   (\<lambda>(_, network'). Inr (True, AList.update network_name network' networks))))"

text \<open>The closure that \<open>rollback_inner\<close>, \<open>release_resources\<close> and the CRI teardown share.\<close>

definition detach_body ::
    "string \<Rightarrow> string \<Rightarrow> network_config map_file \<Rightarrow> box_error + unit \<times> network_config map_file" where
  "detach_body network_name box_id networks =
     (case map_of networks network_name of
        None \<Rightarrow> Inr ((), networks)
      | Some network \<Rightarrow>
          (case disconnect network box_id of
             Inl _ \<Rightarrow> Inr ((), networks)
           | Inr (_, network') \<Rightarrow> Inr ((), AList.update network_name network' networks)))"

text \<open>
  The CRI closure keeps its own status: a missing network and a failed connection are answers of a
  successful transaction (\<open>Inl (True, _)\<close> is \<open>not_found\<close>, \<open>Inl (False, _)\<close> is
  \<open>failed_precondition\<close>).
\<close>

definition connect_sandbox_body ::
    "string \<Rightarrow> string \<Rightarrow> string \<Rightarrow> network_config map_file \<Rightarrow>
     box_error + ((bool \<times> string) + string) \<times> network_config map_file" where
  "connect_sandbox_body network_name sandbox_id pod_name networks =
     (case map_of networks network_name of
        None \<Rightarrow> Inr (Inl (True, ''Network not found: '' @ network_name), networks)
      | Some network \<Rightarrow>
          (case connect network sandbox_id pod_name of
             Inr (endpoint, network') \<Rightarrow>
               Inr (Inr (show_ipv4 (ep_ip_address endpoint)),
                    AList.update network_name network' networks)
           | Inl e \<Rightarrow>
               Inr (Inl (False, ''Failed to connect sandbox '' @ sandbox_id @ '' to network '' @
                 network_name @ '': '' @ e), networks)))"

definition connect_sandbox_to_network_store ::
    "map_store \<Rightarrow> map_faults \<Rightarrow> string \<Rightarrow> string \<Rightarrow> string \<Rightarrow> network_disk \<Rightarrow>
     (box_error + ((bool \<times> string) + string)) \<times> network_disk" where
  "connect_sandbox_to_network_store st flt network_name sandbox_id pod_name d =
     map_with_write_lock st (\<lambda>e. e) flt (connect_sandbox_body network_name sandbox_id pod_name) d"

definition disconnect_sandbox_from_network_store ::
    "map_store \<Rightarrow> map_faults \<Rightarrow> string \<Rightarrow> string \<Rightarrow> network_disk \<Rightarrow>
     (box_error + unit) \<times> network_disk" where
  "disconnect_sandbox_from_network_store st flt network_name sandbox_id d =
     map_with_write_lock st (\<lambda>e. e) flt (detach_body network_name sandbox_id) d"

section \<open>Facts\<close>

text \<open>
  The invariant of a networks file: keys are distinct, every network is filed under its name and
  satisfies the network invariant.
\<close>

definition networks_inv :: "network_config map_file \<Rightarrow> bool" where
  "networks_inv networks \<longleftrightarrow>
     distinct (map fst networks) \<and>
     (\<forall>(key, nc) \<in> set networks. nc_name nc = key \<and> network_inv nc)"

lemma networks_inv_lookup:
  assumes "networks_inv networks" and "map_of networks k = Some nc"
  shows "nc_name nc = k \<and> network_inv nc"
  using assms map_of_SomeD [OF assms(2)] by (auto simp: networks_inv_def)

lemma networks_inv_update:
  assumes "networks_inv networks" and "nc_name nc = k" and "network_inv nc"
  shows "networks_inv (AList.update k nc networks)"
proof -
  have "set (AList.update k nc networks) \<subseteq> insert (k, nc) (set networks)"
    by (induction networks) auto
  moreover have "distinct (map fst (AList.update k nc networks))"
    using assms(1) by (simp add: networks_inv_def distinct_update)
  ultimately show ?thesis using assms by (fastforce simp: networks_inv_def)
qed

lemma networks_inv_delete:
  assumes "networks_inv networks"
  shows "networks_inv (AList.delete k networks)"
  using assms by (auto simp: networks_inv_def AList.delete_eq distinct_map_filter)

lemma connect_name: "connect_with_aliases nc i n al = Inr (ep, nc') \<Longrightarrow> nc_name nc' = nc_name nc"
  by (erule connect_with_aliases_Inr) simp

lemma disconnect_name: "disconnect nc i = Inr (ep, nc') \<Longrightarrow> nc_name nc' = nc_name nc"
  by (auto simp: disconnect_def split: option.splits)

lemma networks_inv_connect:
  assumes "networks_inv networks" and "map_of networks k = Some nc"
    and "connect nc i n = Inr (ep, nc')"
  shows "networks_inv (AList.update k nc' networks)"
  using assms networks_inv_lookup [OF assms(1,2)]
  by (auto simp: connect_def intro!: networks_inv_update dest: connect_inv connect_name)

lemma networks_inv_disconnect:
  assumes "networks_inv networks" and "map_of networks k = Some nc"
    and "disconnect nc i = Inr (ep, nc')"
  shows "networks_inv (AList.update k nc' networks)"
  using assms networks_inv_lookup [OF assms(1,2)]
  by (auto intro!: networks_inv_update dest: disconnect_inv disconnect_name)

lemma attach_body_inv:
  assumes "attach_body k i n networks = Inr (r, networks')" and "networks_inv networks"
  shows "networks_inv networks'"
  using assms
  by (auto simp: attach_body_def result_simps split: option.splits if_splits
      intro: networks_inv_connect)

lemma detach_body_inv:
  assumes "detach_body k i networks = Inr (r, networks')" and "networks_inv networks"
  shows "networks_inv networks'"
  using assms
  by (auto simp: detach_body_def split: option.splits sum.splits prod.splits
      intro: networks_inv_disconnect)

lemma connect_sandbox_body_inv:
  assumes "connect_sandbox_body k i n networks = Inr (r, networks')" and "networks_inv networks"
  shows "networks_inv networks'"
  using assms
  by (auto simp: connect_sandbox_body_def split: option.splits sum.splits prod.splits
      intro: networks_inv_connect)

lemma create_body_inv:
  assumes "create_body nc networks = Inr (r, networks')" and "networks_inv networks"
    and "network_inv nc"
  shows "networks_inv networks'"
  using assms by (auto simp: create_body_def intro: networks_inv_update split: if_splits)

lemma remove_body_inv:
  assumes "remove_body k networks = Inr (r, networks')" and "networks_inv networks"
  shows "networks_inv networks'"
  using assms
  by (auto simp: remove_body_def intro: networks_inv_delete split: option.splits if_splits)

section \<open>Networks under concurrent clients\<close>

text \<open>
  The steps of any number of processes on the networks file: because every one of them runs under
  the write lock, an interleaving of clients is a sequence of these steps. A network enters the
  file through \<open>create\<close> with a value built by \<open>NetworkConfig::new\<close>.
\<close>

inductive network_step :: "network_disk \<Rightarrow> network_disk \<Rightarrow> bool" where
  NetCreate: "network_new now name subnet = Inr nc \<Longrightarrow> network_create st flt nc d = (r, d') \<Longrightarrow>
    network_step d d'"
| NetRemove: "network_remove st flt name d = (r, d') \<Longrightarrow> network_step d d'"
| NetAttach: "map_with_write_lock st (\<lambda>e. e) flt (attach_body k i n) d = (r, d') \<Longrightarrow>
    network_step d d'"
| NetDetach: "map_with_write_lock st (\<lambda>e. e) flt (detach_body k i) d = (r, d') \<Longrightarrow> network_step d d'"
| NetConnectPod: "connect_sandbox_to_network_store st flt k i n d = (r, d') \<Longrightarrow> network_step d d'"
| NetDisconnectPod: "disconnect_sandbox_from_network_store st flt k i d = (r, d') \<Longrightarrow>
    network_step d d'"
| NetRead: "network_get st flt name d = (r, d') \<Longrightarrow> network_step d d'"

lemma network_get_view:
  assumes "network_get st flt name d = (r, d')"
  shows "map_view d' = map_view d"
  using assms map_load_cases [of st flt d]
  by (cases "map_load st flt d") (auto simp: network_get_def)

lemma network_step_inv:
  assumes "network_step d d'" and "\<forall>networks. map_view d = Some networks \<longrightarrow> networks_inv networks"
  shows "\<forall>networks. map_view d' = Some networks \<longrightarrow> networks_inv networks"
  using assms
proof cases
  case (NetCreate now name subnet nc st flt r)
  show ?thesis
    by (rule json_store.run_preserves [OF NetCreate(2) [unfolded network_create_def] _ assms(2)])
      (auto intro: create_body_inv network_new_inv [OF NetCreate(1)])
next
  case (NetRemove st flt name r)
  show ?thesis
    by (rule json_store.run_preserves [OF NetRemove [unfolded network_remove_def] _ assms(2)])
      (auto intro: remove_body_inv)
next
  case (NetAttach st flt k i n r)
  show ?thesis
    by (rule json_store.run_preserves [OF NetAttach _ assms(2)]) (auto intro: attach_body_inv)
next
  case (NetDetach st flt k i r)
  show ?thesis
    by (rule json_store.run_preserves [OF NetDetach _ assms(2)]) (auto intro: detach_body_inv)
next
  case (NetConnectPod st flt k i n r)
  show ?thesis
    by (rule json_store.run_preserves
          [OF NetConnectPod [unfolded connect_sandbox_to_network_store_def] _ assms(2)])
      (auto intro: connect_sandbox_body_inv)
next
  case (NetDisconnectPod st flt k i r)
  show ?thesis
    by (rule json_store.run_preserves
          [OF NetDisconnectPod [unfolded disconnect_sandbox_from_network_store_def] _ assms(2)])
      (auto intro: detach_body_inv)
next
  case (NetRead st flt name r)
  with assms(2) show ?thesis by (simp add: network_get_view)
qed

section \<open>Properties\<close>

definition empty_networks :: network_disk where
  "empty_networks = \<lparr>disk_file = None, disk_tmp = None, disk_backups = Map.empty\<rparr>"

text \<open>
  C20: no two endpoints of a network ever share an address. Let any number of processes create and
  remove networks, attach and detach executions and pods and read the file, each under its lock and
  with any I/O failures, in any order from a file without networks. Every network in the file then
  has a gateway that matches its subnet and endpoints with pairwise distinct usable addresses of the
  subnet and pairwise distinct MAC addresses.
\<close>

theorem networks_addresses_unique:
  assumes "network_step\<^sup>*\<^sup>* d d'" and "map_view d = Some []" and "map_view d' = Some networks"
    and "map_of networks name = Some nc"
  shows "nc_name nc = name \<and>
    (\<exists>a. ipam_new (nc_subnet nc) = Inr a \<and> nc_gateway nc = ipam_gateway a \<and>
       distinct (map ep_ip_address (connected_boxes nc)) \<and>
       distinct (map ep_mac_address (connected_boxes nc)) \<and>
       list_all (\<lambda>ep. unat (ipam_gateway a) < unat (ep_ip_address ep) \<and> ep_ip_address ep < broadcast a)
         (connected_boxes nc))"
proof -
  have "\<forall>networks. map_view d' = Some networks \<longrightarrow> networks_inv networks"
    using assms(1)
  proof (induction rule: rtranclp_induct)
    case base
    then show ?case using assms(2) by (simp add: networks_inv_def)
  next
    case (step y z)
    then show ?case by (blast dest: network_step_inv)
  qed
  then have n: "nc_name nc = name" "network_inv nc"
    using networks_inv_lookup [OF _ assms(4)] assms(3) by auto
  then obtain a where a: "ipam_new (nc_subnet nc) = Inr a" "nc_gateway nc = ipam_gateway a"
    "distinct (endpoint_ips nc)" "\<forall>(key, ep) \<in> set (nc_endpoints nc). endpoint_ok a key ep"
    by (auto simp: network_inv_def split: sum.splits)
  have ips: "map ep_ip_address (connected_boxes nc) = endpoint_ips nc"
    by (simp add: connected_boxes_def endpoint_ips_def case_prod_beta comp_def)
  have macs: "map ep_mac_address (connected_boxes nc) = map mac_from_ip (endpoint_ips nc)"
    using a(4) by (auto simp: connected_boxes_def endpoint_ips_def endpoint_ok_def)
  have "distinct (map mac_from_ip (endpoint_ips nc))"
    using a(3) by (simp add: distinct_map inj_on_def mac_from_ip_inject)
  moreover have "unat (ipam_gateway a) = unat (ipam_network a) + 1"
    using ipam_new_wf [OF a(1)] by (simp add: ipam_wf_def unat_word_ariths)
  then have "list_all (\<lambda>ep. unat (ipam_gateway a) < unat (ep_ip_address ep) \<and> ep_ip_address ep < broadcast a)
      (connected_boxes nc)"
    using a(4) by (auto simp: connected_boxes_def endpoint_ok_def list_all_iff)
  ultimately show ?thesis using n(1) a(1-3) ips macs by auto
qed

theorem networks_addresses_unique_witness:
  "\<exists>d' networks. network_step\<^sup>*\<^sup>* empty_networks d' \<and> map_view d' = Some networks \<and>
     (\<exists>nc. map_of networks ''dev'' = Some nc \<and> distinct (map ep_ip_address (connected_boxes nc)))"
proof -
  let ?st = "network_store ''n'' None ''t''"
  have e: "map_view empty_networks = Some []" by (simp add: map_view_def empty_networks_def)
  have "create_body sample_network [] = Inr ((), [(''dev'', sample_network)])"
    by (simp add: create_body_def sample_network_def)
  from map_lock_faultless [where f = "create_body sample_network" and st = ?st and from_box = "\<lambda>e. e",
      OF e this]
  obtain d1 where d1: "network_create ?st no_map_faults sample_network empty_networks = (Inr (), d1)"
    "map_view d1 = Some [(''dev'', sample_network)]" by (auto simp: network_create_def)
  then have s: "network_step\<^sup>*\<^sup>* empty_networks d1"
    using NetCreate [OF sample_network_new d1(1)] by (rule_tac r_into_rtranclp)
  from networks_addresses_unique [OF s e d1(2), of "''dev''" sample_network] s d1(2)
  show ?thesis by auto
qed

end
