(* ===== verification/Volume_Store.thy ===== *)
theory Volume_Store
  imports Json_Store
begin

text \<open>
  Named volumes: \<open>core/src/volume.rs\<close> (\<open>VolumeConfig\<close>, prefix \<open>vol_\<close>) and the volume store
  \<open>runtime/src/volume/store.rs\<close>. Besides \<open>volumes.json\<close> the store owns the data directories under
  \<open>volumes_dir\<close>; a volume world has both, the directories as the set of their paths. A closure run
  under the write lock may create directories, and these stay when the transaction fails later.
\<close>

section \<open>Volumes\<close>

record volume_config =
  vol_name :: string
  vol_driver :: string
  vol_mount_point :: string
  vol_labels :: "(string \<times> string) list"
  vol_in_use_by :: "string list"
  vol_size_limit :: u64
  vol_created_at :: string

definition volume_new :: "string \<Rightarrow> string \<Rightarrow> string \<Rightarrow> volume_config" where
  "volume_new now name mount_point =
     \<lparr>vol_name = name, vol_driver = ''local'', vol_mount_point = mount_point, vol_labels = [],
      vol_in_use_by = [], vol_size_limit = 0, vol_created_at = now\<rparr>"

definition with_size_limit :: "string \<Rightarrow> string \<Rightarrow> string \<Rightarrow> u64 \<Rightarrow> volume_config" where
  "with_size_limit now name mount_point size_limit =
     (volume_new now name mount_point)\<lparr>vol_size_limit := size_limit\<rparr>"

text \<open>The size of the data directory (\<open>None\<close> when it does not exist) is an argument.\<close>

definition check_quota :: "u64 option \<Rightarrow> volume_config \<Rightarrow> string + u64" where
  "check_quota dir_size self =
     (if vol_size_limit self = 0 then Inr 0
      else (case dir_size of
          None \<Rightarrow> Inr 0
        | Some current \<Rightarrow>
            if current > vol_size_limit self then
              Inl (''volume '' @ sq (vol_name self) @ '' exceeds size limit: '' @ show_word current @
                '' > '' @ show_word (vol_size_limit self) @ '' bytes'')
            else Inr current))"

definition attach :: "string \<Rightarrow> volume_config \<Rightarrow> volume_config" where
  "attach box_id self =
     (if box_id \<notin> set (vol_in_use_by self)
      then self\<lparr>vol_in_use_by := vol_in_use_by self @ [box_id]\<rparr> else self)"

definition detach :: "string \<Rightarrow> volume_config \<Rightarrow> volume_config" where
  "detach box_id self =
     self\<lparr>vol_in_use_by := filter (\<lambda>i. i \<noteq> box_id) (vol_in_use_by self)\<rparr>"

definition is_in_use :: "volume_config \<Rightarrow> bool" where
  "is_in_use self \<longleftrightarrow> vol_in_use_by self \<noteq> []"

section \<open>The store\<close>

record volume_world =
  vw_disk :: "volume_config map_file disk"
  vw_dirs :: "string set"

record volume_faults =
  vf_map :: map_faults
  vf_mkdir :: "io_error option"
  vf_rmdir_ok :: bool

definition no_volume_faults :: volume_faults where
  "no_volume_faults = \<lparr>vf_map = no_map_faults, vf_mkdir = None, vf_rmdir_ok = True\<rparr>"

record volume_store =
  vs_map :: map_store
  vs_volumes_dir :: string

definition volume_store_new ::
    "string \<Rightarrow> string option \<Rightarrow> string \<Rightarrow> string \<Rightarrow> volume_store" where
  "volume_store_new path parent tmp dir =
     \<lparr>vs_map = \<lparr>ms_path = path, ms_parent = parent, ms_tmp = tmp, ms_label = ''volumes'',
        ms_error = ConfigError, ms_serialize_error = SerializationError\<rparr>,
      vs_volumes_dir = dir\<rparr>"

text \<open>The contents the closure of a transaction sees, if it gets to run.\<close>

definition loaded ::
    "volume_store \<Rightarrow> volume_faults \<Rightarrow> volume_world \<Rightarrow> volume_config map_file option" where
  "loaded st flt w =
     (case mf_lock (vf_map flt) of
        Some _ \<Rightarrow> None
      | None \<Rightarrow>
          (case fst (map_load (vs_map st) (vf_map flt) (vw_disk w)) of
             Inl _ \<Rightarrow> None
           | Inr volumes \<Rightarrow> Some volumes))"

definition volume_with_write_lock ::
    "volume_store \<Rightarrow> volume_faults \<Rightarrow>
     (volume_config map_file \<Rightarrow> string set \<Rightarrow>
        (box_error + 'r \<times> volume_config map_file) \<times> string set) \<Rightarrow>
     volume_world \<Rightarrow> (box_error + 'r) \<times> volume_world" where
  "volume_with_write_lock st flt f w =
     (let (r, d') = map_with_write_lock (vs_map st) (\<lambda>e. e) (vf_map flt)
                      (\<lambda>volumes. fst (f volumes (vw_dirs w))) (vw_disk w)
      in (r, \<lparr>vw_disk = d',
              vw_dirs = (case loaded st flt w of
                  None \<Rightarrow> vw_dirs w
                | Some volumes \<Rightarrow> snd (f volumes (vw_dirs w)))\<rparr>))"

definition volume_dir :: "volume_store \<Rightarrow> string \<Rightarrow> string" where
  "volume_dir st name = path_join (vs_volumes_dir st) name"

definition volume_get ::
    "volume_store \<Rightarrow> volume_faults \<Rightarrow> string \<Rightarrow> volume_world \<Rightarrow>
     (box_error + volume_config option) \<times> volume_world" where
  "volume_get st flt name w =
     (let (r, d') = map_load (vs_map st) (vf_map flt) (vw_disk w)
      in (rbind r (\<lambda>volumes. Inr (map_of volumes name)), w\<lparr>vw_disk := d'\<rparr>))"

definition materialize ::
    "volume_store \<Rightarrow> volume_faults \<Rightarrow> volume_config \<Rightarrow> volume_config map_file \<Rightarrow> string set \<Rightarrow>
     (box_error + volume_config \<times> volume_config map_file) \<times> string set" where
  "materialize st flt config volumes dirs =
     (let vol_dir = volume_dir st (vol_name config) in
      case vf_mkdir flt of
        Some e \<Rightarrow>
          (Inl (ConfigError (''failed to create volume directory '' @ vol_dir @ '': '' @
             io_message e)), dirs)
      | None \<Rightarrow>
          (let config' = config\<lparr>vol_mount_point := vol_dir\<rparr>
           in (Inr (config', AList.update (vol_name config') config' volumes),
               insert vol_dir dirs)))"

definition volume_create ::
    "volume_store \<Rightarrow> volume_faults \<Rightarrow> volume_config \<Rightarrow> volume_world \<Rightarrow>
     (box_error + volume_config) \<times> volume_world" where
  "volume_create st flt config w =
     volume_with_write_lock st flt (\<lambda>volumes dirs.
       if map_of volumes (vol_name config) \<noteq> None then
         (Inl (ConfigError (''volume '' @ sq (vol_name config) @ '' already exists'')), dirs)
       else materialize st flt config volumes dirs) w"

definition get_or_create ::
    "volume_store \<Rightarrow> volume_faults \<Rightarrow> volume_config \<Rightarrow> volume_world \<Rightarrow>
     (box_error + volume_config) \<times> volume_world" where
  "get_or_create st flt config w =
     volume_with_write_lock st flt (\<lambda>volumes dirs.
       (case map_of volumes (vol_name config) of
          Some existing \<Rightarrow> (Inr (existing, volumes), dirs)
        | None \<Rightarrow> materialize st flt config volumes dirs)) w"

definition remove_entry_body ::
    "string \<Rightarrow> bool \<Rightarrow> volume_config map_file \<Rightarrow>
     box_error + volume_config \<times> volume_config map_file" where
  "remove_entry_body name force volumes =
     (case map_of volumes name of
        None \<Rightarrow> Inl (ConfigError (''volume '' @ sq name @ '' not found''))
      | Some config \<Rightarrow>
          if is_in_use config \<and> \<not> force then
            Inl (ConfigError (''volume '' @ sq name @ '' is in use by '' @
              show_nat (length (vol_in_use_by config)) @ '' box(es); use --force to remove''))
          else Inr (config, AList.delete name volumes))"

text \<open>The two phases of \<open>remove\<close>: the entry under the lock, then the directory outside of it.\<close>

definition remove_entry ::
    "volume_store \<Rightarrow> volume_faults \<Rightarrow> string \<Rightarrow> bool \<Rightarrow> volume_world \<Rightarrow>
     (box_error + volume_config) \<times> volume_world" where
  "remove_entry st flt name force w =
     volume_with_write_lock st flt (\<lambda>volumes dirs. (remove_entry_body name force volumes, dirs)) w"

definition remove_data ::
    "volume_store \<Rightarrow> volume_faults \<Rightarrow> string \<Rightarrow> volume_world \<Rightarrow> volume_world" where
  "remove_data st flt name w =
     (if volume_dir st name \<in> vw_dirs w \<and> vf_rmdir_ok flt
      then w\<lparr>vw_dirs := vw_dirs w - {volume_dir st name}\<rparr> else w)"

definition volume_remove ::
    "volume_store \<Rightarrow> volume_faults \<Rightarrow> string \<Rightarrow> bool \<Rightarrow> volume_world \<Rightarrow>
     (box_error + volume_config) \<times> volume_world" where
  "volume_remove st flt name force w =
     (case remove_entry st flt name force w of
        (Inl e, w1) \<Rightarrow> (Inl e, w1)
      | (Inr config, w1) \<Rightarrow> (Inr config, remove_data st flt name w1))"

definition volume_update ::
    "volume_store \<Rightarrow> volume_faults \<Rightarrow> volume_config \<Rightarrow> volume_world \<Rightarrow>
     (box_error + unit) \<times> volume_world" where
  "volume_update st flt config w =
     volume_with_write_lock st flt (\<lambda>volumes dirs.
       (if map_of volumes (vol_name config) = None then
          Inl (ConfigError (''volume '' @ sq (vol_name config) @ '' not found''))
        else Inr ((), AList.update (vol_name config) config volumes), dirs)) w"

definition modify_body ::
    "string \<Rightarrow> (volume_config \<Rightarrow> volume_config) \<Rightarrow> volume_config map_file \<Rightarrow>
     box_error + bool \<times> volume_config map_file" where
  "modify_body name f volumes =
     (case map_of volumes name of
        Some config \<Rightarrow> Inr (True, AList.update name (f config) volumes)
      | None \<Rightarrow> Inr (False, volumes))"

definition volume_modify ::
    "volume_store \<Rightarrow> volume_faults \<Rightarrow> string \<Rightarrow> (volume_config \<Rightarrow> volume_config) \<Rightarrow> volume_world \<Rightarrow>
     (box_error + bool) \<times> volume_world" where
  "volume_modify st flt name f w =
     volume_with_write_lock st flt (\<lambda>volumes dirs. (modify_body name f volumes, dirs)) w"

text \<open>\<open>prune\<close> drops the result of every removal; each removal meets its own faults.\<close>

fun prune_each ::
    "volume_store \<Rightarrow> (string \<times> volume_faults) list \<Rightarrow> volume_world \<Rightarrow> volume_world" where
  "prune_each st [] w = w"
| "prune_each st ((name, flt) # rest) w =
     prune_each st rest (snd (volume_remove st flt name False w))"

definition prune ::
    "volume_store \<Rightarrow> volume_faults \<Rightarrow> (string \<Rightarrow> volume_faults) \<Rightarrow> volume_world \<Rightarrow>
     (box_error + string list) \<times> volume_world" where
  "prune st flt flts w =
     (let (r, d') = map_load (vs_map st) (vf_map flt) (vw_disk w); w' = w\<lparr>vw_disk := d'\<rparr> in
      case r of
        Inl e \<Rightarrow> (Inl e, w')
      | Inr volumes \<Rightarrow>
          (let pruned = map fst (filter (\<lambda>(_, config). \<not> is_in_use config) volumes)
           in (Inr pruned, prune_each st (map (\<lambda>n. (n, flts n)) pruned) w')))"

section \<open>Facts\<close>

definition volume_view :: "volume_world \<Rightarrow> volume_config map_file" where
  "volume_view w = (case map_view (vw_disk w) of None \<Rightarrow> [] | Some volumes \<Rightarrow> volumes)"

lemma map_view_total: "\<exists>file. map_view d = Some file"
  by (simp add: map_view_def)

lemma volume_lock_Inr:
  assumes "volume_with_write_lock st flt f w = (Inr r, w')"
  shows "\<exists>volumes'. f (volume_view w) (vw_dirs w) = (Inr (r, volumes'), vw_dirs w') \<and>
    volume_view w' = volumes'"
proof -
  obtain d' where run: "map_with_write_lock (vs_map st) (\<lambda>e. e) (vf_map flt)
      (\<lambda>volumes. fst (f volumes (vw_dirs w))) (vw_disk w) = (Inr r, d')" "vw_disk w' = d'"
    using assms by (auto simp: volume_with_write_lock_def Let_def split: prod.splits)
  obtain v v' where v: "map_view (vw_disk w) = Some v" "fst (f v (vw_dirs w)) = Inr (r, v')"
    "map_view d' = Some v'"
    using map_lock_Inr [OF run(1)] by blast
  obtain rl dl where l: "map_load (vs_map st) (vf_map flt) (vw_disk w) = (rl, dl)" by fastforce
  have "mf_lock (vf_map flt) = None \<and> rl = Inr v"
    using run(1) l v(1) map_load_cases [OF l]
    by (auto simp: map_with_write_lock_def split: option.splits sum.splits)
  then have "loaded st flt w = Some v" using l by (simp add: loaded_def)
  then have "vw_dirs w' = snd (f v (vw_dirs w))"
    using assms by (auto simp: volume_with_write_lock_def Let_def split: prod.splits)
  with v run(2) show ?thesis by (auto simp: volume_view_def prod_eq_iff)
qed

lemma volume_lock_Inl:
  assumes "volume_with_write_lock st flt f w = (Inl e, w')"
  shows "volume_view w' = volume_view w"
proof -
  obtain d' where "map_with_write_lock (vs_map st) (\<lambda>e. e) (vf_map flt)
      (\<lambda>volumes. fst (f volumes (vw_dirs w))) (vw_disk w) = (Inl e, d')" "vw_disk w' = d'"
    using assms by (auto simp: volume_with_write_lock_def Let_def split: prod.splits)
  then show ?thesis by (simp add: volume_view_def map_lock_Inl)
qed

lemma volume_lock_faultless:
  assumes "vf_map flt = no_map_faults" and "f (volume_view w) (vw_dirs w) = (Inr (r, v'), dirs')"
  shows "\<exists>w'. volume_with_write_lock st flt f w = (Inr r, w') \<and> volume_view w' = v' \<and>
    vw_dirs w' = dirs'"
proof -
  obtain v where v: "map_view (vw_disk w) = Some v" using map_view_total by blast
  then have "(\<lambda>volumes. fst (f volumes (vw_dirs w))) v = Inr (r, v')"
    using assms(2) by (simp add: volume_view_def)
  from map_lock_faultless
    [where f = "\<lambda>volumes. fst (f volumes (vw_dirs w))" and st = "vs_map st" and from_box = "\<lambda>e. e",
      OF v this]
  obtain d' where
    run: "map_with_write_lock (vs_map st) (\<lambda>e. e) no_map_faults
      (\<lambda>volumes. fst (f volumes (vw_dirs w))) (vw_disk w) = (Inr r, d')" by blast
  then obtain w' where w': "volume_with_write_lock st flt f w = (Inr r, w')"
    using assms(1) by (simp add: volume_with_write_lock_def)
  from volume_lock_Inr [OF this] assms(2) show ?thesis using w' by auto
qed

text \<open>
  The invariant of the store: every volume is filed under its name, which is a relative path, its
  mount point is its data directory, the directory exists and no box is listed twice.
\<close>

definition relative_name :: "string \<Rightarrow> bool" where
  "relative_name n \<longleftrightarrow> n = [] \<or> hd n \<noteq> CHR ''/''"

definition volume_ok :: "volume_store \<Rightarrow> string set \<Rightarrow> string \<Rightarrow> volume_config \<Rightarrow> bool" where
  "volume_ok st dirs key c \<longleftrightarrow>
     vol_name c = key \<and> relative_name key \<and> vol_mount_point c = volume_dir st key \<and>
     volume_dir st key \<in> dirs \<and> distinct (vol_in_use_by c)"

definition volumes_ok :: "volume_store \<Rightarrow> string set \<Rightarrow> volume_config map_file \<Rightarrow> bool" where
  "volumes_ok st dirs volumes \<longleftrightarrow>
     distinct (map fst volumes) \<and> (\<forall>(key, c) \<in> set volumes. volume_ok st dirs key c)"

abbreviation volume_inv :: "volume_store \<Rightarrow> volume_world \<Rightarrow> bool" where
  "volume_inv st w \<equiv> volumes_ok st (vw_dirs w) (volume_view w)"

lemma volume_dir_inject:
  "relative_name a \<Longrightarrow> relative_name b \<Longrightarrow> volume_dir st a = volume_dir st b \<Longrightarrow> a = b"
  by (auto simp: volume_dir_def path_join_def relative_name_def split: if_splits)

lemma volumes_ok_lookup:
  "volumes_ok st dirs volumes \<Longrightarrow> map_of volumes k = Some c \<Longrightarrow> volume_ok st dirs k c"
  by (auto simp: volumes_ok_def dest: map_of_SomeD)

lemma volumes_ok_update:
  assumes "volumes_ok st dirs volumes" and "volume_ok st dirs k c"
  shows "volumes_ok st dirs (AList.update k c volumes)"
proof -
  have "set (AList.update k c volumes) \<subseteq> insert (k, c) (set volumes)"
    by (induction volumes) auto
  moreover have "distinct (map fst (AList.update k c volumes))"
    using assms(1) by (simp add: volumes_ok_def distinct_update)
  ultimately show ?thesis using assms by (fastforce simp: volumes_ok_def)
qed

lemma volumes_ok_mono: "volumes_ok st dirs volumes \<Longrightarrow> dirs \<subseteq> dirs' \<Longrightarrow> volumes_ok st dirs' volumes"
  by (auto simp: volumes_ok_def volume_ok_def)

lemma volumes_ok_delete:
  assumes "volumes_ok st dirs volumes" and "relative_name k"
  shows "volumes_ok st (dirs - {volume_dir st k}) (AList.delete k volumes)"
  using assms
  by (auto simp: volumes_ok_def volume_ok_def AList.delete_eq distinct_map_filter
      dest: volume_dir_inject)

lemma attach_ok: "volume_ok st dirs k c \<Longrightarrow> volume_ok st dirs k (attach i c)"
  by (simp add: volume_ok_def attach_def)

lemma detach_ok: "volume_ok st dirs k c \<Longrightarrow> volume_ok st dirs k (detach i c)"
  by (simp add: volume_ok_def detach_def)

lemma detach_attach:
  "i \<notin> set (vol_in_use_by c) \<Longrightarrow> detach i (attach i c) = c"
proof -
  assume "i \<notin> set (vol_in_use_by c)"
  then have "filter (\<lambda>x. x \<noteq> i) (vol_in_use_by c) = vol_in_use_by c"
    by (auto simp: filter_id_conv)
  then show ?thesis using \<open>i \<notin> set (vol_in_use_by c)\<close> by (simp add: attach_def detach_def)
qed

lemma materialize_ok:
  assumes "materialize st flt config volumes dirs = (Inr (c, volumes'), dirs')"
    and "volumes_ok st dirs volumes" and "relative_name (vol_name config)"
    and "distinct (vol_in_use_by config)"
  shows "volumes_ok st dirs' volumes'"
proof -
  from assms(1) have e: "dirs' = insert (volume_dir st (vol_name config)) dirs"
    "volumes' = AList.update (vol_name config) c volumes"
    "c = config\<lparr>vol_mount_point := volume_dir st (vol_name config)\<rparr>"
    by (auto simp: materialize_def Let_def split: option.splits)
  have "volumes_ok st dirs' volumes" using assms(2) e(1) by (auto intro: volumes_ok_mono)
  then show ?thesis unfolding e(2)
    by (rule volumes_ok_update) (use assms e in \<open>auto simp: volume_ok_def\<close>)
qed

lemma materialize_Inl_dirs:
  "materialize st flt config volumes dirs = (Inl e, dirs') \<Longrightarrow> dirs' = dirs"
  by (auto simp: materialize_def Let_def split: option.splits)

lemma materialize_dirs: "dirs \<subseteq> snd (materialize st flt config volumes dirs)"
  by (auto simp: materialize_def Let_def split: option.splits)

text \<open>A failed transaction keeps the invariant: it may at most leave a directory behind.\<close>

lemma volume_lock_Inl_inv:
  assumes "volume_with_write_lock st flt f w = (Inl e, w')" and "volume_inv st w"
    and "\<And>volumes. vw_dirs w \<subseteq> snd (f volumes (vw_dirs w))"
  shows "volume_inv st w'"
proof -
  have "vw_dirs w \<subseteq> vw_dirs w'"
    using assms(1) assms(3) [THEN subsetD]
    by (auto simp: volume_with_write_lock_def Let_def split: prod.splits option.splits)
  with assms(2) volume_lock_Inl [OF assms(1)] show ?thesis by (auto intro: volumes_ok_mono)
qed

lemma get_or_create_inv:
  assumes "get_or_create st flt config w = (r, w')" and "volume_inv st w"
    and "relative_name (vol_name config)" and "distinct (vol_in_use_by config)"
  shows "volume_inv st w'"
proof (cases r)
  case (Inl e)
  with assms(1) show ?thesis unfolding get_or_create_def
    by (rule_tac volume_lock_Inl_inv [OF _ assms(2)])
      (auto split: option.splits dest: materialize_dirs [THEN subsetD])
next
  case (Inr c)
  with volume_lock_Inr [OF assms(1) [unfolded get_or_create_def Inr]] assms(2-) show ?thesis
    by (auto split: option.splits dest: materialize_ok)
qed

lemma remove_entry_Inr:
  assumes "remove_entry st flt name force w = (Inr c, w')"
  shows "map_of (volume_view w) name = Some c \<and> (is_in_use c \<longrightarrow> force) \<and>
    volume_view w' = AList.delete name (volume_view w) \<and> vw_dirs w' = vw_dirs w"
  using volume_lock_Inr [OF assms [unfolded remove_entry_def]]
  by (auto simp: remove_entry_body_def split: option.splits if_splits)

lemma remove_entry_Inl:
  assumes "remove_entry st flt name force w = (Inl e, w')"
  shows "volume_view w' = volume_view w \<and> vw_dirs w' = vw_dirs w"
  using volume_lock_Inl [OF assms [unfolded remove_entry_def]] assms
  by (auto simp: remove_entry_def volume_with_write_lock_def Let_def
      split: option.splits prod.splits)

lemma remove_data_view [simp]: "volume_view (remove_data st flt name w) = volume_view w"
  by (simp add: remove_data_def volume_view_def)

lemma volume_remove_inv:
  assumes "volume_remove st flt name force w = (r, w')" and "volume_inv st w"
  shows "volume_inv st w'"
proof (cases "remove_entry st flt name force w")
  case (Pair r1 w1)
  show ?thesis
  proof (cases r1)
    case (Inl e)
    with Pair assms remove_entry_Inl [of st flt name force w e w1] show ?thesis
      by (simp add: volume_remove_def)
  next
    case (Inr c)
    with Pair have e: "map_of (volume_view w) name = Some c"
      "volume_view w1 = AList.delete name (volume_view w)" "vw_dirs w1 = vw_dirs w"
      using remove_entry_Inr [of st flt name force w c w1] by simp_all
    have "relative_name name"
      using volumes_ok_lookup [OF assms(2) e(1)] by (simp add: volume_ok_def)
    then have "volumes_ok st (vw_dirs w - {volume_dir st name}) (volume_view w1)"
      using volumes_ok_delete [OF assms(2)] e(2) by simp
    moreover have "w' = remove_data st flt name w1"
      using assms(1) Pair Inr by (simp add: volume_remove_def)
    ultimately show ?thesis
      using e(3) by (auto simp: remove_data_def volume_view_def intro: volumes_ok_mono)
  qed
qed

lemma volume_modify_inv:
  assumes "volume_modify st flt name f w = (r, w')" and "volume_inv st w"
    and "\<And>c dirs. volume_ok st dirs name c \<Longrightarrow> volume_ok st dirs name (f c)"
  shows "volume_inv st w'"
proof (cases r)
  case (Inl e)
  with assms(1,2) show ?thesis by (auto simp: volume_modify_def intro: volume_lock_Inl_inv)
next
  case (Inr b)
  with volume_lock_Inr [OF assms(1) [unfolded volume_modify_def Inr]]
  have "modify_body name f (volume_view w) = Inr (b, volume_view w')" "vw_dirs w' = vw_dirs w"
    by auto
  with assms(2) volumes_ok_update [OF assms(2) assms(3) [OF volumes_ok_lookup [OF assms(2)]]]
  show ?thesis by (auto simp: modify_body_def split: option.splits)
qed

lemma volume_modify_Inr:
  assumes "volume_modify st flt name f w = (Inr b, w')"
  shows "modify_body name f (volume_view w) = Inr (b, volume_view w') \<and> vw_dirs w' = vw_dirs w"
  using volume_lock_Inr [OF assms [unfolded volume_modify_def]] by auto

lemma volume_modify_Inl:
  assumes "volume_modify st flt name f w = (Inl e, w')"
  shows "volume_view w' = volume_view w"
  using volume_lock_Inl [OF assms [unfolded volume_modify_def]] .

section \<open>Volumes under concurrent clients\<close>

text \<open>
  The steps of any number of processes on the volume store when removals do not overlap other
  steps: creation of volumes with relative names, removal, attachment and detachment.
\<close>

inductive volume_step :: "volume_store \<Rightarrow> volume_world \<Rightarrow> volume_world \<Rightarrow> bool" for st where
  VolCreate: "relative_name name \<Longrightarrow>
    volume_create st flt (with_size_limit now name mount limit) w = (r, w') \<Longrightarrow> volume_step st w w'"
| VolGetOrCreate: "relative_name name \<Longrightarrow>
    get_or_create st flt (with_size_limit now name mount limit) w = (r, w') \<Longrightarrow> volume_step st w w'"
| VolRemove: "volume_remove st flt name force w = (r, w') \<Longrightarrow> volume_step st w w'"
| VolAttach: "volume_modify st flt name (attach box) w = (r, w') \<Longrightarrow> volume_step st w w'"
| VolDetach: "volume_modify st flt name (detach box) w = (r, w') \<Longrightarrow> volume_step st w w'"
| VolGet: "volume_get st flt name w = (r, w') \<Longrightarrow> volume_step st w w'"

lemma with_size_limit_fields [simp]:
  "vol_name (with_size_limit now name mount limit) = name"
  "vol_in_use_by (with_size_limit now name mount limit) = []"
  by (simp_all add: with_size_limit_def volume_new_def)

lemma volume_create_inv:
  assumes "volume_create st flt config w = (r, w')" and "volume_inv st w"
    and "relative_name (vol_name config)" and "distinct (vol_in_use_by config)"
  shows "volume_inv st w'"
proof (cases r)
  case (Inl e)
  with assms(1) show ?thesis unfolding volume_create_def
    by (rule_tac volume_lock_Inl_inv [OF _ assms(2)])
      (auto dest: materialize_dirs [THEN subsetD])
next
  case (Inr c)
  with volume_lock_Inr [OF assms(1) [unfolded volume_create_def Inr]] assms(2-) show ?thesis
    by (auto split: if_splits dest: materialize_ok)
qed

lemma volume_get_inv:
  assumes "volume_get st flt name w = (r, w')"
  shows "volume_view w' = volume_view w \<and> vw_dirs w' = vw_dirs w"
proof -
  obtain rl dl where l: "map_load (vs_map st) (vf_map flt) (vw_disk w) = (rl, dl)" by fastforce
  from map_load_cases [OF l] assms l show ?thesis
    by (auto simp: volume_get_def volume_view_def)
qed

lemma volume_step_inv: "volume_step st w w' \<Longrightarrow> volume_inv st w \<Longrightarrow> volume_inv st w'"
  by (induction rule: volume_step.induct)
    (auto intro: volume_create_inv get_or_create_inv volume_remove_inv volume_modify_inv attach_ok
      detach_ok dest: volume_get_inv)

text \<open>
  every listed volume is usable. However creations, removals, attachments and detachments
  follow each other, with any I/O failures, starting from an empty store, a volume the store lists
  is filed under its own name, its mount point is its data directory, the directory exists, and no
  box is listed twice among its users.
\<close>

lemma volumes_usable:
  assumes "(volume_step st)\<^sup>*\<^sup>* w w'" and "volume_view w = []"
    and "map_of (volume_view w') name = Some c"
  shows "vol_name c = name \<and> vol_mount_point c = volume_dir st name \<and>
    volume_dir st name \<in> vw_dirs w' \<and> distinct (vol_in_use_by c)"
proof -
  have "volume_inv st w'" using assms(1)
  proof (induction rule: rtranclp_induct)
    case base
    then show ?case using assms(2) by (simp add: volumes_ok_def)
  next
    case (step y z)
    then show ?case by (blast intro: volume_step_inv)
  qed
  from volumes_ok_lookup [OF this assms(3)] show ?thesis by (simp add: volume_ok_def)
qed

definition sample_volume_store :: volume_store where
  "sample_volume_store = volume_store_new ''volumes.json'' None ''volumes.json.tmp'' ''/v''"

definition empty_volumes :: volume_world where
  "empty_volumes = \<lparr>vw_disk = empty_map_disk, vw_dirs = {}\<rparr>"

lemma empty_volumes_view: "volume_view empty_volumes = []"
  by (simp add: volume_view_def map_view_def empty_volumes_def empty_map_disk_def)

text \<open>A volume in a store of its own, and its entry removed again.\<close>

definition sample_volume_config :: volume_config where
  "sample_volume_config = (with_size_limit ''now'' ''data'' [] 0)\<lparr>vol_mount_point := ''/v/data''\<rparr>"

lemma sample_create:
  assumes "volume_view w = []"
  shows "\<exists>w'. get_or_create sample_volume_store no_volume_faults
      (with_size_limit ''now'' ''data'' [] 0) w = (Inr sample_volume_config, w') \<and>
    volume_view w' = [(''data'', sample_volume_config)] \<and> vw_dirs w' = insert ''/v/data'' (vw_dirs w)"
  unfolding get_or_create_def
  by (rule volume_lock_faultless)
    (simp_all add: no_volume_faults_def assms materialize_def volume_dir_def Let_def
      sample_volume_store_def volume_store_new_def path_join_def sample_volume_config_def)

lemma sample_remove_entry:
  assumes "volume_view w = [(''data'', sample_volume_config)]"
  shows "\<exists>w'. remove_entry sample_volume_store no_volume_faults ''data'' False w =
      (Inr sample_volume_config, w') \<and> volume_view w' = []"
proof -
  have "remove_entry_body ''data'' False (volume_view w) = Inr (sample_volume_config, [])"
    by (simp add: assms remove_entry_body_def is_in_use_def sample_volume_config_def)
  from volume_lock_faultless [where f = "\<lambda>volumes dirs. (remove_entry_body ''data'' False volumes, dirs)"
      and flt = no_volume_faults and st = sample_volume_store and w = w and r = sample_volume_config
      and v' = "[]" and dirs' = "vw_dirs w"] this
  show ?thesis by (auto simp: no_volume_faults_def remove_entry_def)
qed

lemma volumes_usable_witness:
  "\<exists>w c. (volume_step sample_volume_store)\<^sup>*\<^sup>* empty_volumes w \<and>
     map_of (volume_view w) ''data'' = Some c \<and>
     volume_dir sample_volume_store ''data'' \<in> vw_dirs w"
proof -
  obtain w where w: "get_or_create sample_volume_store no_volume_faults
      (with_size_limit ''now'' ''data'' [] 0) empty_volumes = (Inr sample_volume_config, w)"
    "volume_view w = [(''data'', sample_volume_config)]"
    using sample_create [OF empty_volumes_view] by blast
  have "relative_name ''data''" by (simp add: relative_name_def)
  from VolGetOrCreate [OF this w(1)]
  have s: "(volume_step sample_volume_store)\<^sup>*\<^sup>* empty_volumes w" by (rule r_into_rtranclp)
  with volumes_usable [OF s empty_volumes_view, of "''data''"] w(2) show ?thesis by auto
qed



text \<open>
  removing a volume races with recreating it. \<open>remove\<close> deletes the data directory after it has
  released the lock. When another process recreates the volume in between, the directory it has
  just made is deleted: the store then lists a volume whose mount point does not exist.
\<close>

lemma volume_remove_race:
  assumes "remove_entry st flt name force w = (Inr old, w1)"
    and "get_or_create st flt2 config w1 = (Inr new, w2)" and "vol_name config = name"
    and "vf_rmdir_ok flt"
  shows "map_of (volume_view (remove_data st flt name w2)) name = Some new \<and>
    vol_mount_point new = volume_dir st name \<and>
    volume_dir st name \<notin> vw_dirs (remove_data st flt name w2)"
proof -
  have none: "map_of (volume_view w1) name = None"
    using remove_entry_Inr [OF assms(1)] by (simp add: delete_conv')
  from volume_lock_Inr [OF assms(2) [unfolded get_or_create_def]] none assms(3)
  have "materialize st flt2 config (volume_view w1) (vw_dirs w1) = (Inr (new, volume_view w2), vw_dirs w2)"
    by auto
  then have "map_of (volume_view w2) name = Some new" "vol_mount_point new = volume_dir st name"
    "volume_dir st name \<in> vw_dirs w2"
    using assms(3)
    by (auto simp: materialize_def Let_def update_conv' split: option.splits
        dest!: sym [of _ "volume_view w2"])
  then show ?thesis using assms(4) by (simp add: remove_data_def volume_view_def)
qed

lemma volume_remove_race_witness:
  "\<exists>w w1 w2 c. remove_entry sample_volume_store no_volume_faults ''data'' False w =
       (Inr sample_volume_config, w1) \<and>
     get_or_create sample_volume_store no_volume_faults (with_size_limit ''now'' ''data'' [] 0) w1 = (Inr c, w2) \<and>
     map_of (volume_view (remove_data sample_volume_store no_volume_faults ''data'' w2)) ''data'' = Some c \<and>
     vol_mount_point c = ''/v/data'' \<and>
     ''/v/data'' \<notin> vw_dirs (remove_data sample_volume_store no_volume_faults ''data'' w2)"
proof -
  obtain w where "volume_view w = [(''data'', sample_volume_config)]"
    using sample_create [OF empty_volumes_view] by blast
  then obtain w1 where w1: "remove_entry sample_volume_store no_volume_faults ''data'' False w =
      (Inr sample_volume_config, w1)" "volume_view w1 = []"
    using sample_remove_entry by blast
  then obtain w2 where w2: "get_or_create sample_volume_store no_volume_faults
      (with_size_limit ''now'' ''data'' [] 0) w1 = (Inr sample_volume_config, w2)"
    using sample_create by blast
  have "volume_dir sample_volume_store ''data'' = ''/v/data''"
    by (simp add: volume_dir_def sample_volume_store_def volume_store_new_def path_join_def)
  moreover have "vf_rmdir_ok no_volume_faults" by (simp add: no_volume_faults_def)
  ultimately show ?thesis
    using volume_remove_race [OF w1(1) w2 with_size_limit_fields(1)] w1(1) w2 by metis
qed

text \<open>
  \<open>prune\<close> answers volumes it did not remove. It drops the result of every removal, so when the
  removals fail the answer still names every unused volume while the store keeps all of them.
\<close>

lemma prune_reports_kept_volumes:
  assumes "prune st flt flts w = (Inr names, w')" and "\<And>n. mf_lock (vf_map (flts n)) \<noteq> None"
  shows "names = map fst (filter (\<lambda>(_, c). \<not> is_in_use c) (volume_view w)) \<and>
    volume_view w' = volume_view w"
proof -
  obtain rl dl where l: "map_load (vs_map st) (vf_map flt) (vw_disk w) = (rl, dl)" by fastforce
  then obtain volumes where v: "rl = Inr volumes"
    using assms(1) by (cases rl) (auto simp: prune_def)
  have view: "volume_view w = volumes" "volume_view (w\<lparr>vw_disk := dl\<rparr>) = volumes"
    using map_load_cases [OF l] v by (auto simp: volume_view_def)
  have kept: "volume_view (snd (volume_remove st (flts n) n False x)) = volume_view x" for n x
  proof -
    obtain e where "mf_lock (vf_map (flts n)) = Some e" using assms(2) [of n] by blast
    then have "\<exists>err x'. remove_entry st (flts n) n False x = (Inl err, x')"
      by (auto simp: remove_entry_def volume_with_write_lock_def map_with_write_lock_def)
    then obtain err x' where r: "remove_entry st (flts n) n False x = (Inl err, x')" by blast
    with remove_entry_Inl [OF r] show ?thesis by (simp add: volume_remove_def)
  qed
  have "volume_view (prune_each st (map (\<lambda>n. (n, flts n)) ns) x) = volume_view x" for ns x
    by (induction ns arbitrary: x) (simp_all add: kept)
  moreover have "prune st flt flts w =
      (let pruned = map fst (filter (\<lambda>(_, c). \<not> is_in_use c) volumes)
       in (Inr pruned, prune_each st (map (\<lambda>n. (n, flts n)) pruned) (w\<lparr>vw_disk := dl\<rparr>)))"
    using l v by (simp add: prune_def)
  ultimately show ?thesis using assms(1) view by (auto simp: Let_def simp del: map_map)
qed

lemma prune_reports_kept_volumes_witness:
  "\<exists>w w'. prune sample_volume_store no_volume_faults
     (\<lambda>_. no_volume_faults\<lparr>vf_map := no_map_faults\<lparr>mf_lock := Some (IoError IoOther ''busy'')\<rparr>\<rparr>) w =
     (Inr [''data''], w') \<and> map_of (volume_view w') ''data'' = Some sample_volume_config"
proof -
  let ?flts = "\<lambda>_ :: string.
    no_volume_faults\<lparr>vf_map := no_map_faults\<lparr>mf_lock := Some (IoError IoOther ''busy'')\<rparr>\<rparr>"
  obtain w where w: "volume_view w = [(''data'', sample_volume_config)]"
    using sample_create [OF empty_volumes_view] by blast
  obtain names w' where p: "prune sample_volume_store no_volume_faults ?flts w = (Inr names, w')"
  proof -
    have "mf_read (vf_map no_volume_faults) = None"
      by (simp add: no_volume_faults_def no_map_faults_def)
    then have "\<exists>v d. map_load (vs_map sample_volume_store) (vf_map no_volume_faults) (vw_disk w) =
        (Inr v, d)"
      by (simp add: map_load_def split: option.split file_content.split)
    then show ?thesis using that by (auto simp: prune_def Let_def)
  qed
  have "names = [''data'']" "volume_view w' = volume_view w"
    using prune_reports_kept_volumes [OF p] w
    by (simp_all add: is_in_use_def sample_volume_config_def)
  with p w show ?thesis by (intro exI [of _ w] exI [of _ w']) simp
qed

end
