(* ===== verification/Resources.thy ===== *)
theory Resources
  imports Local_Record Network_Store Volume_Store
begin

text \<open>
  Shared host resources of an execution, \<open>runtime/src/local_execution/resources.rs\<close>: named volumes
  and the network endpoint are acquired before a backend starts an execution, rolled back when the
  start fails, and released when the execution ends. The filesystem work of
  \<open>prepare_snapshot_lower\<close> is the argument \<open>snapshot_lower\<close>, which answers whether it created the
  marker; removing the marker again changes neither store.
\<close>

record resource_world =
  rw_volumes :: volume_world
  rw_networks :: network_disk

text \<open>The faults of one call: the two volume operations at each position, and the network.\<close>

record resource_faults =
  rf_volume_get :: "nat \<Rightarrow> volume_faults"
  rf_volume_modify :: "nat \<Rightarrow> volume_faults"
  rf_network :: map_faults

record resource_stores =
  rs_volumes :: volume_store
  rs_networks :: map_store

definition home_stores :: "string \<Rightarrow> resource_stores" where
  "home_stores home_dir =
     \<lparr>rs_volumes = volume_store_new (path_join home_dir ''volumes.json'') (Some home_dir)
        (path_join home_dir ''volumes.json.tmp'') (path_join home_dir ''volumes''),
      rs_networks = network_store (path_join home_dir ''networks.json'') (Some home_dir)
        (path_join home_dir ''networks.json.tmp'')\<rparr>"

definition resource_error ::
    "box_record \<Rightarrow> string \<Rightarrow> box_error \<Rightarrow> execution_manager_error" where
  "resource_error record operation error =
     Unavailable (''failed to '' @ operation @ '' for execution '' @ rec_id record @ '': '' @
       box_error_to_string error)"

definition record_network_name :: "box_record \<Rightarrow> string option" where
  "record_network_name record =
     (case rec_network_name record of
        Some name \<Rightarrow> Some name
      | None \<Rightarrow> (case rec_network_mode record of Bridge network \<Rightarrow> Some network | _ \<Rightarrow> None))"

section \<open>Acquisition and rollback\<close>

record resource_guard =
  rg_attached_volumes :: "string list"
  rg_connected_network :: "string option"
  rg_snapshot_marker_created :: bool

text \<open>The loop over the volume names; \<open>n\<close> is the position, \<open>attached\<close> what was acquired so far.\<close>

fun acquire_volumes ::
    "volume_store \<Rightarrow> resource_faults \<Rightarrow> box_record \<Rightarrow> nat \<Rightarrow> string list \<Rightarrow> string list \<Rightarrow>
     volume_world \<Rightarrow> (execution_manager_error + unit) \<times> string list \<times> volume_world" where
  "acquire_volumes st flt record n [] attached w = (Inr (), attached, w)"
| "acquire_volumes st flt record n (name # names) attached w =
     (case volume_get st (rf_volume_get flt n) name w of
        (Inl e, w1) \<Rightarrow> (Inl (resource_error record ''load named volume'' e), attached, w1)
      | (Inr None, w1) \<Rightarrow>
          (Inl (Unavailable (''named volume '' @ sq name @ '' required by execution '' @
             rec_id record @ '' was not found'')), attached, w1)
      | (Inr (Some volume), w1) \<Rightarrow>
          if rec_id record \<in> set (vol_in_use_by volume) then
            acquire_volumes st flt record (Suc n) names attached w1
          else
            (case volume_modify st (rf_volume_modify flt n) name (attach (rec_id record)) w1 of
               (Inl e, w2) \<Rightarrow> (Inl (resource_error record ''attach named volume'' e), attached, w2)
             | (Inr False, w2) \<Rightarrow>
                 (Inl (Unavailable (''named volume '' @ sq name @ '' required by execution '' @
                    rec_id record @ '' disappeared during startup'')), attached, w2)
             | (Inr True, w2) \<Rightarrow>
                 acquire_volumes st flt record (Suc n) names (attached @ [name]) w2))"

definition acquire_network ::
    "map_store \<Rightarrow> map_faults \<Rightarrow> box_record \<Rightarrow> network_disk \<Rightarrow>
     (execution_manager_error + string option) \<times> network_disk" where
  "acquire_network st flt record d =
     (case record_network_name record of
        None \<Rightarrow> (Inr None, d)
      | Some name \<Rightarrow>
          (case map_with_write_lock st (\<lambda>e. e) flt
                  (attach_body name (rec_id record) (rec_name record)) d of
             (Inl e, d') \<Rightarrow> (Inl (resource_error record ''connect network'' e), d')
           | (Inr connected, d') \<Rightarrow> (Inr (if connected then Some name else None), d')))"

fun detach_volumes ::
    "volume_store \<Rightarrow> (nat \<Rightarrow> volume_faults) \<Rightarrow> string \<Rightarrow> nat \<Rightarrow> string list \<Rightarrow> volume_world \<Rightarrow>
     volume_world" where
  "detach_volumes st flt box_id n [] w = w"
| "detach_volumes st flt box_id n (name # names) w =
     detach_volumes st flt box_id (Suc n) names
       (snd (volume_modify st (flt n) name (detach box_id) w))"

text \<open>Rollback ignores every error; it runs when the guard is dropped while armed.\<close>

definition rollback ::
    "resource_stores \<Rightarrow> resource_faults \<Rightarrow> string \<Rightarrow> resource_guard \<Rightarrow> resource_world \<Rightarrow>
     resource_world" where
  "rollback st flt box_id guard w =
     w\<lparr>rw_volumes := detach_volumes (rs_volumes st) (rf_volume_modify flt) box_id 0
           (rg_attached_volumes guard) (rw_volumes w),
       rw_networks := (case rg_connected_network guard of
           None \<Rightarrow> rw_networks w
         | Some name \<Rightarrow>
             snd (map_with_write_lock (rs_networks st) (\<lambda>e. e) (rf_network flt)
                    (detach_body name box_id) (rw_networks w)))\<rparr>"

text \<open>
  \<open>prepare\<close>: an error return drops the armed guard, which rolls back what the call acquired
  (\<open>back\<close> holds the faults the rollback meets).
\<close>

definition prepare ::
    "resource_stores \<Rightarrow> resource_faults \<Rightarrow> resource_faults \<Rightarrow>
     (box_record \<Rightarrow> execution_manager_error + bool) \<Rightarrow> box_record \<Rightarrow> resource_world \<Rightarrow>
     (execution_manager_error + resource_guard) \<times> resource_world" where
  "prepare st flt back snapshot_lower record w =
     (case snapshot_lower record of
        Inl e \<Rightarrow> (Inl e, w)
      | Inr marker \<Rightarrow>
          (let (rv, attached, vw) =
                 acquire_volumes (rs_volumes st) flt record 0 (rec_volume_names record) []
                   (rw_volumes w);
               w1 = w\<lparr>rw_volumes := vw\<rparr>;
               guard = \<lparr>rg_attached_volumes = attached, rg_connected_network = None,
                        rg_snapshot_marker_created = marker\<rparr> in
           case rv of
             Inl e \<Rightarrow> (Inl e, rollback st back (rec_id record) guard w1)
           | Inr _ \<Rightarrow>
               (case acquire_network (rs_networks st) (rf_network flt) record (rw_networks w1) of
                  (Inl e, d') \<Rightarrow>
                    (Inl e, rollback st back (rec_id record) guard (w1\<lparr>rw_networks := d'\<rparr>))
                | (Inr connected, d') \<Rightarrow>
                    (Inr (guard\<lparr>rg_connected_network := connected\<rparr>), w1\<lparr>rw_networks := d'\<rparr>))))"

section \<open>Release\<close>

fun release_volumes ::
    "volume_store \<Rightarrow> (nat \<Rightarrow> volume_faults) \<Rightarrow> box_record \<Rightarrow> nat \<Rightarrow> string list \<Rightarrow> volume_world \<Rightarrow>
     (execution_manager_error + unit) \<times> volume_world" where
  "release_volumes st flt record n [] w = (Inr (), w)"
| "release_volumes st flt record n (name # names) w =
     (case volume_modify st (flt n) name (detach (rec_id record)) w of
        (Inl e, w1) \<Rightarrow> (Inl (resource_error record ''detach named volume'' e), w1)
      | (Inr _, w1) \<Rightarrow> release_volumes st flt record (Suc n) names w1)"

definition release_resources ::
    "resource_stores \<Rightarrow> resource_faults \<Rightarrow> box_record \<Rightarrow> resource_world \<Rightarrow>
     (execution_manager_error + unit) \<times> resource_world" where
  "release_resources st flt record w =
     (case release_volumes (rs_volumes st) (rf_volume_modify flt) record 0
             (rec_volume_names record) (rw_volumes w) of
        (Inl e, vw) \<Rightarrow> (Inl e, w\<lparr>rw_volumes := vw\<rparr>)
      | (Inr _, vw) \<Rightarrow>
          (case record_network_name record of
             None \<Rightarrow> (Inr (), w\<lparr>rw_volumes := vw\<rparr>)
           | Some name \<Rightarrow>
               (case map_with_write_lock (rs_networks st) (\<lambda>e. e) (rf_network flt)
                       (detach_body name (rec_id record)) (rw_networks w) of
                  (Inl e, d') \<Rightarrow>
                    (Inl (resource_error record ''disconnect network'' e),
                     w\<lparr>rw_volumes := vw, rw_networks := d'\<rparr>)
                | (Inr _, d') \<Rightarrow> (Inr (), w\<lparr>rw_volumes := vw, rw_networks := d'\<rparr>))))"

section \<open>Facts\<close>

abbreviation volumes_of :: "resource_world \<Rightarrow> string \<rightharpoonup> volume_config" where
  "volumes_of w \<equiv> map_of (volume_view (rw_volumes w))"

text \<open>The volumes, as a map, after a change at the given names.\<close>

definition at_names ::
    "string set \<Rightarrow> (volume_config \<Rightarrow> volume_config) \<Rightarrow> (string \<rightharpoonup> volume_config) \<Rightarrow>
     (string \<rightharpoonup> volume_config)" where
  "at_names names f m = (\<lambda>k. if k \<in> names then map_option f (m k) else m k)"

lemma volume_get_view:
  assumes "volume_get st flt name w = (r, w')"
  shows "volume_view w' = volume_view w \<and> vw_dirs w' = vw_dirs w \<and>
    (\<forall>v. r = Inr v \<longrightarrow> v = map_of (volume_view w) name)"
proof -
  obtain rl dl where l: "map_load (vs_map st) (vf_map flt) (vw_disk w) = (rl, dl)" by fastforce
  from map_load_cases [OF l] assms l show ?thesis
    by (auto simp: volume_get_def volume_view_def result_simps)
qed

lemma volume_modify_map:
  assumes "volume_modify st flt name f w = (Inr b, w')"
  shows "map_of (volume_view w') = at_names {name} f (map_of (volume_view w))"
proof -
  from volume_modify_Inr [OF assms]
  have "modify_body name f (volume_view w) = Inr (b, volume_view w')" by simp
  then show ?thesis
    by (cases "map_of (volume_view w) name")
      (auto simp: modify_body_def at_names_def fun_eq_iff update_conv'
        dest!: sym [of _ "volume_view w'"])
qed

lemma volume_modify_faultless:
  assumes "vf_map flt = no_map_faults"
  shows "\<exists>b w'. volume_modify st flt name f w = (Inr b, w') \<and>
    map_of (volume_view w') = at_names {name} f (map_of (volume_view w))"
proof -
  obtain b v' where "modify_body name f (volume_view w) = Inr (b, v')"
    by (cases "map_of (volume_view w) name") (auto simp: modify_body_def)
  then have "\<exists>w'. volume_modify st flt name f w = (Inr b, w')"
    using volume_lock_faultless [OF assms,
        where f = "\<lambda>volumes dirs. (modify_body name f volumes, dirs)" and w = w and st = st and r = b]
    by (auto simp: volume_modify_def)
  with volume_modify_map show ?thesis by blast
qed

lemma detach_volumes_map:
  assumes "\<And>k. vf_map (flt k) = no_map_faults"
  shows "map_of (volume_view (detach_volumes st flt i n names w)) =
    at_names (set names) (detach i) (map_of (volume_view w))"
proof (induction names arbitrary: n w)
  case Nil
  then show ?case by (simp add: at_names_def)
next
  case (Cons name names)
  obtain b w' where m: "volume_modify st (flt n) name (detach i) w = (Inr b, w')"
    "map_of (volume_view w') = at_names {name} (detach i) (map_of (volume_view w))"
    using volume_modify_faultless [OF assms] by blast
  have "detach i (detach i c) = detach i c" for c
    by (simp add: detach_def)
  then show ?case
    using m Cons.IH [of "Suc n" w']
    by (auto simp: at_names_def fun_eq_iff option.map_comp comp_def split: if_splits)
qed

text \<open>What acquisition did: it attached exactly the new names, none of which was attached before.\<close>

lemma acquire_volumes_map:
  assumes "acquire_volumes st flt record n names attached w = (r, attached', w')"
    and "map_of (volume_view w) = at_names (set attached) (attach (rec_id record)) m"
    and "\<forall>k \<in> set attached. \<forall>c. m k = Some c \<longrightarrow> rec_id record \<notin> set (vol_in_use_by c)"
  shows "map_of (volume_view w') = at_names (set attached') (attach (rec_id record)) m \<and>
    (\<forall>k \<in> set attached'. \<forall>c. m k = Some c \<longrightarrow> rec_id record \<notin> set (vol_in_use_by c))"
  using assms
proof (induction names arbitrary: n attached w)
  case Nil
  then show ?case by simp
next
  case (Cons name names)
  let ?i = "rec_id record"
  obtain rg w1 where g: "volume_get st (rf_volume_get flt n) name w = (rg, w1)" by fastforce
  have w1: "volume_view w1 = volume_view w"
    "\<And>v. rg = Inr v \<Longrightarrow> v = map_of (volume_view w) name"
    using volume_get_view [OF g] by auto
  show ?case
  proof (cases "\<exists>volume. rg = Inr (Some volume) \<and> ?i \<notin> set (vol_in_use_by volume)")
    case False
    then have "(r, attached', w') = acquire_volumes st flt record (Suc n) names attached w1 \<or>
        attached' = attached \<and> w' = w1"
      using Cons.prems(1) g by (auto split: sum.splits option.splits)
    then show ?thesis
      using Cons.IH [of "Suc n" attached w1] Cons.prems(2,3) w1(1) by auto
  next
    case True
    then obtain volume where v: "rg = Inr (Some volume)" "?i \<notin> set (vol_in_use_by volume)"
      by blast
    have mv: "at_names (set attached) (attach ?i) m name = Some volume"
      using w1(2) v(1) Cons.prems(2) by simp
    have "?i \<in> set (vol_in_use_by (attach ?i c))" for c
      by (simp add: attach_def)
    with mv v(2) have new: "name \<notin> set attached" "m name = Some volume"
      by (auto simp: at_names_def split: if_splits)
    obtain rm w2 where md: "volume_modify st (rf_volume_modify flt n) name (attach ?i) w1 = (rm, w2)"
      by fastforce
    show ?thesis
    proof (cases "rm = Inr True")
      case True
      have "map_of (volume_view w2) = at_names (set (attached @ [name])) (attach ?i) m"
        using volume_modify_map [OF md [unfolded True]] Cons.prems(2) w1(1) new
        by (auto simp: at_names_def fun_eq_iff)
      moreover have "acquire_volumes st flt record (Suc n) names (attached @ [name]) w2 =
          (r, attached', w')"
        using Cons.prems(1) g v md True by simp
      ultimately show ?thesis
        using Cons.IH [of "Suc n" "attached @ [name]" w2] Cons.prems(3) v(2) new by auto
    next
      case False
      then have end': "attached' = attached" "w' = w2"
        using Cons.prems(1) g v md by (auto split: sum.splits bool.splits)
      have "map_of (volume_view w2) = map_of (volume_view w1)"
      proof (cases rm)
        case (Inl e)
        then show ?thesis using volume_modify_Inl md by metis
      next
        case (Inr b)
        with False have "rm = Inr False" by simp
        with volume_modify_Inr [of st "rf_volume_modify flt n" name "attach ?i" w1 False w2] md
        show ?thesis by (auto simp: modify_body_def split: option.splits)
      qed
      with end' Cons.prems(2,3) w1(1) show ?thesis by simp
    qed
  qed
qed

lemma at_names_undo:
  assumes "\<forall>k \<in> names. \<forall>c. m k = Some c \<longrightarrow> i \<notin> set (vol_in_use_by c)"
  shows "at_names names (detach i) (at_names names (attach i) m) = m"
proof
  fix k
  show "at_names names (detach i) (at_names names (attach i) m) k = m k"
    using assms by (cases "m k") (auto simp: at_names_def detach_attach)
qed

text \<open>Acquiring the volumes and rolling back leaves every volume as it was.\<close>

lemma acquire_rollback_volumes:
  assumes "acquire_volumes st flt record 0 names [] w = (r, attached, w')"
    and "\<And>k. vf_map (flt' k) = no_map_faults"
  shows "map_of (volume_view (detach_volumes st flt' (rec_id record) 0 attached w')) =
    map_of (volume_view w)"
proof -
  have "map_of (volume_view w') =
      at_names (set attached) (attach (rec_id record)) (map_of (volume_view w)) \<and>
    (\<forall>k \<in> set attached. \<forall>c. map_of (volume_view w) k = Some c \<longrightarrow>
       rec_id record \<notin> set (vol_in_use_by c))"
    using acquire_volumes_map [OF assms(1), of "map_of (volume_view w)"]
    by (simp add: at_names_def)
  then show ?thesis
    by (simp add: detach_volumes_map [where flt = flt', OF assms(2)] at_names_undo)
qed

lemma acquire_network_Inl:
  assumes "acquire_network st flt record d = (Inl e, d')"
  shows "map_view d' = map_view d"
  using assms
  by (auto simp: acquire_network_def split: option.splits sum.splits prod.splits
      dest: map_lock_Inl)

lemma prepare_Inl:
  assumes "prepare st flt back sl record w = (Inl e, w')"
    and "\<And>k. vf_map (rf_volume_modify back k) = no_map_faults"
  shows "volumes_of w' = volumes_of w \<and> map_view (rw_networks w') = map_view (rw_networks w)"
proof (cases "sl record")
  case (Inl e')
  with assms(1) show ?thesis by (simp add: prepare_def)
next
  case (Inr marker)
  obtain rv attached vw where a: "acquire_volumes (rs_volumes st) flt record 0
      (rec_volume_names record) [] (rw_volumes w) = (rv, attached, vw)"
    by (metis prod_cases3)
  obtain rn d' where n: "acquire_network (rs_networks st) (rf_network flt) record (rw_networks w) =
      (rn, d')" by fastforce
  note undone = acquire_rollback_volumes [OF a, where flt' = "rf_volume_modify back", OF assms(2)]
  from assms(1) Inr a n undone acquire_network_Inl [of "rs_networks st" "rf_network flt" "record"
      "rw_networks w" _ d'] show ?thesis
    by (auto simp: prepare_def rollback_def Let_def split: sum.splits)
qed

text \<open>A completed release leaves the execution in no volume it names and on no network it names.\<close>

lemma release_volumes_map:
  assumes "release_volumes st flt record n names w = (Inr u, w')"
  shows "map_of (volume_view w') =
    at_names (set names) (detach (rec_id record)) (map_of (volume_view w))"
  using assms
proof (induction names arbitrary: n w)
  case Nil
  then show ?case by (simp add: at_names_def)
next
  case (Cons name names)
  obtain rm w1 where m: "volume_modify st (flt n) name (detach (rec_id record)) w = (rm, w1)"
    by fastforce
  with Cons.prems obtain b where b: "rm = Inr b"
    "release_volumes st flt record (Suc n) names w1 = (Inr u, w')"
    by (cases rm) auto
  have "detach i (detach i c) = detach i c" for i c
    by (simp add: detach_def)
  with Cons.IH [OF b(2)] volume_modify_map [OF m [unfolded b(1)]] show ?case
    by (auto simp: at_names_def fun_eq_iff option.map_comp comp_def split: if_splits)
qed

lemma detach_body_removes:
  assumes "detach_body name i networks = Inr (u, networks')"
    and "map_of networks' name = Some nc"
  shows "map_of (nc_endpoints nc) i = None"
  using assms
  by (auto simp: detach_body_def disconnect_def update_conv' delete_conv'
      split: option.splits sum.splits prod.splits if_splits)

lemma release_resources_Inr:
  assumes "release_resources st flt record w = (Inr u, w')"
  shows "(\<forall>name \<in> set (rec_volume_names record). \<forall>c. volumes_of w' name = Some c \<longrightarrow>
      rec_id record \<notin> set (vol_in_use_by c)) \<and>
    (\<forall>name networks nc. record_network_name record = Some name \<longrightarrow>
      map_view (rw_networks w') = Some networks \<longrightarrow> map_of networks name = Some nc \<longrightarrow>
      map_of (nc_endpoints nc) (rec_id record) = None)"
proof -
  obtain vw where v: "release_volumes (rs_volumes st) (rf_volume_modify flt) record 0
      (rec_volume_names record) (rw_volumes w) = (Inr (), vw)" "rw_volumes w' = vw"
    using assms by (auto simp: release_resources_def split: sum.splits prod.splits option.splits)
  have "rec_id record \<notin> set (vol_in_use_by c)"
    if "name \<in> set (rec_volume_names record)" "volumes_of w' name = Some c" for name c
    using that release_volumes_map [OF v(1)] v(2) by (auto simp: at_names_def detach_def)
  moreover have "map_of (nc_endpoints nc) (rec_id record) = None"
    if named: "record_network_name record = Some name"
      and view: "map_view (rw_networks w') = Some networks"
      and nc: "map_of networks name = Some nc" for name networks nc
  proof -
    obtain r d' where d: "map_with_write_lock (rs_networks st) (\<lambda>e. e) (rf_network flt)
        (detach_body name (rec_id record)) (rw_networks w) = (Inr r, d')" "rw_networks w' = d'"
      using assms v(1) named by (auto simp: release_resources_def split: sum.splits prod.splits)
    from map_lock_Inr [OF d(1)] d(2) view obtain old where
      "detach_body name (rec_id record) old = Inr (r, networks)" by auto
    with nc show ?thesis by (rule detach_body_removes [rotated])
  qed
  ultimately show ?thesis by blast
qed

lemma no_volume_faults_map: "vf_map no_volume_faults = no_map_faults"
  by (simp add: no_volume_faults_def)

section \<open>Properties\<close>

text \<open>
  C25: preparing resources is all or nothing. When acquiring the volumes and the network of an
  execution fails at any point and the rollback meets no fault of its own, every volume has the
  users it had before, in the same order, and every network the endpoints it had before, including
  attachments the execution already held.
\<close>

theorem prepare_all_or_nothing:
  assumes "prepare st flt undo snapshot_lower record w = (Inl e, w')"
    and "\<And>k. vf_map (rf_volume_modify undo k) = no_map_faults"
  shows "map_of (volume_view (rw_volumes w')) = map_of (volume_view (rw_volumes w)) \<and>
    map_view (rw_networks w') = map_view (rw_networks w)"
  using prepare_Inl [OF assms] .

definition no_resource_faults :: resource_faults where
  "no_resource_faults =
     \<lparr>rf_volume_get = \<lambda>_. no_volume_faults, rf_volume_modify = \<lambda>_. no_volume_faults,
      rf_network = no_map_faults\<rparr>"

definition empty_resources :: resource_world where
  "empty_resources = \<lparr>rw_volumes = empty_volumes, rw_networks = empty_networks\<rparr>"

theorem prepare_all_or_nothing_witness:
  "\<exists>e w'. prepare (home_stores ''/h'') no_resource_faults no_resource_faults (\<lambda>_. Inr False)
     (sample_record Created (sample_metadata 1 None)) empty_resources = (Inl e, w') \<and>
     map_of (volume_view (rw_volumes w')) = Map.empty"
proof -
  obtain r w' where p: "prepare (home_stores ''/h'') no_resource_faults no_resource_faults
      (\<lambda>_. Inr False) (sample_record Created (sample_metadata 1 None)) empty_resources = (r, w')"
    by fastforce
  moreover have "\<exists>e. r = Inl e"
    using p
    by (auto simp: prepare_def sample_record_def no_resource_faults_def empty_resources_def
        volume_get_def map_load_def empty_volumes_def empty_map_disk_def Let_def)
  then obtain e where e: "r = Inl e" by blast
  moreover have "map_of (volume_view (rw_volumes w')) = Map.empty"
    using prepare_all_or_nothing [OF p [unfolded e]] empty_volumes_view
    by (simp add: no_resource_faults_def no_volume_faults_def empty_resources_def)
  ultimately show ?thesis by blast
qed

text \<open>
  C26: release is complete. When releasing the resources of an execution succeeds, no volume the
  record names lists the execution any more, and the network the record names has no endpoint for
  it; a retry of a release finds nothing left to do for it.
\<close>

theorem release_complete:
  assumes "release_resources st flt record w = (Inr (), w')"
  shows "list_all (\<lambda>name. \<forall>c. map_of (volume_view (rw_volumes w')) name = Some c \<longrightarrow>
        rec_id record \<notin> set (vol_in_use_by c)) (rec_volume_names record) \<and>
    (\<forall>name networks nc. record_network_name record = Some name \<longrightarrow>
        map_view (rw_networks w') = Some networks \<longrightarrow> map_of networks name = Some nc \<longrightarrow>
        map_of (nc_endpoints nc) (rec_id record) = None)"
  using release_resources_Inr [OF assms] by (simp add: list_all_iff)

text \<open>A world with one volume that the sample execution uses.\<close>

definition sample_resources :: resource_world where
  "sample_resources =
     \<lparr>rw_volumes = \<lparr>vw_disk = sample_disk [(''data'', attach ''x1'' sample_volume_config)],
        vw_dirs = {''/v/data''}\<rparr>,
      rw_networks = empty_networks\<rparr>"

theorem release_complete_witness:
  "\<exists>w' c. release_resources (home_stores ''/h'') no_resource_faults
      (sample_record Running (sample_metadata 3 None)) sample_resources = (Inr (), w') \<and>
    map_of (volume_view (rw_volumes w')) ''data'' = Some c \<and> ''x1'' \<notin> set (vol_in_use_by c)"
proof -
  let ?r = "sample_record Running (sample_metadata 3 None)"
  have names: "rec_volume_names ?r = [''data'']" "record_network_name ?r = None" "rec_id ?r = ''x1''"
    by (simp_all add: sample_record_def record_network_name_def)
  obtain b w1 where w1: "volume_modify (rs_volumes (home_stores ''/h'')) no_volume_faults ''data''
      (detach ''x1'') (rw_volumes sample_resources) = (Inr b, w1)"
    "map_of (volume_view w1) = at_names {''data''} (detach ''x1'')
       (map_of (volume_view (rw_volumes sample_resources)))"
    using volume_modify_faultless [of no_volume_faults] no_volume_faults_map by blast
  let ?w = "sample_resources\<lparr>rw_volumes := w1\<rparr>"
  have run: "release_resources (home_stores ''/h'') no_resource_faults ?r sample_resources = (Inr (), ?w)"
    using w1(1) names by (simp add: release_resources_def no_resource_faults_def)
  have "map_of (volume_view (rw_volumes sample_resources)) ''data'' =
      Some (attach ''x1'' sample_volume_config)"
    by (simp add: sample_resources_def volume_view_def map_view_def sample_disk_def)
  then obtain c where "map_of (volume_view w1) ''data'' = Some c" using w1(2) by (simp add: at_names_def)
  with run release_complete [OF run] names show ?thesis by auto
qed

end
