(* ===== verification/Local_Manager.thy ===== *)
theory Local_Manager
  imports Resources
begin

text \<open>
  The effects of the local execution manager. A world has the state file, the shared resource
  stores, the backend's own state and a counter of the calls made so far. A manager action answers
  a result and the next world. The manager record has the fixed configuration, the backend (the
  trait object of \<open>backend.rs\<close>) and, indexed by the call counter, what the outside contributes: the
  faults, the clock, the fresh identifiers and the changes other processes make to the state file
  before a store call. Code that works on host files only (capture of a root filesystem, deletion
  of execution directories, the snapshot store) is a field too, with no assumption on it.
\<close>

section \<open>Worlds and actions\<close>

record 'b world =
  w_disk :: "box_record list disk"
  w_resources :: resource_world
  w_backend :: 'b
  w_tick :: nat

type_synonym 'b host = "'b \<times> resource_world"
type_synonym ('b, 'a) host_op = "'b host \<Rightarrow> (execution_manager_error + 'a) \<times> 'b host"
type_synonym ('b, 'a) act = "'b world \<Rightarrow> (execution_manager_error + 'a) \<times> 'b world"

text \<open>The metadata of a published snapshot that the manager reads.\<close>

record snapshot_info =
  si_source_box_id :: string
  si_size_bytes :: u64
  si_health_check :: "execution_health_check option"
  si_healthcheck_disabled :: bool

record ('b, 'j) manager =
  mg_home_dir :: string
  mg_to_value :: "create_execution_request \<Rightarrow> string + 'j"
  mg_faults :: "nat \<Rightarrow> store_faults"
  mg_interfere :: "nat \<Rightarrow> box_record list disk \<Rightarrow> box_record list disk"
  mg_now :: "nat \<Rightarrow> datetime"
  mg_uuid :: "nat \<Rightarrow> string"
  mg_lock_fault :: "nat \<Rightarrow> io_error option"
  mg_resource_faults :: "nat \<Rightarrow> resource_faults"
  be_start :: "box_record \<Rightarrow> ('b, local_execution_handle) host_op"
  be_inspect :: "box_record \<Rightarrow> ('b, local_execution_observation) host_op"
  be_pause :: "box_record \<Rightarrow> bool \<Rightarrow> ('b, local_execution_handle) host_op"
  be_resume :: "box_record \<Rightarrow> ('b, local_execution_handle) host_op"
  be_prepare_quiescent_rootfs :: "box_record \<Rightarrow> ('b, unit) host_op"
  be_cleanup_quiescent_rootfs :: "box_record \<Rightarrow> ('b, unit) host_op"
  be_stop_for_restart :: "box_record \<Rightarrow> u64 option \<Rightarrow> ('b, kill_outcome) host_op"
  be_kill :: "box_record \<Rightarrow> ('b, kill_outcome) host_op"
  fs_capture :: "box_record \<Rightarrow> execution_snapshot_id \<Rightarrow> ('b, u64) host_op"
  fs_load_snapshot :: "execution_snapshot_id \<Rightarrow> ('b, snapshot_info option) host_op"
  fs_restorable :: "execution_snapshot_id \<Rightarrow> ('b, snapshot_info) host_op"
  fs_cleanup_paths :: "box_record \<Rightarrow> ('b, unit) host_op"

definition ret :: "'a \<Rightarrow> ('b, 'a) act" where
  "ret x w = (Inr x, w)"

definition throw :: "execution_manager_error \<Rightarrow> ('b, 'a) act" where
  "throw e w = (Inl e, w)"

definition lift :: "execution_manager_error + 'a \<Rightarrow> ('b, 'a) act" where
  "lift r w = (r, w)"

definition and_then :: "('b, 'a) act \<Rightarrow> ('a \<Rightarrow> ('b, 'c) act) \<Rightarrow> ('b, 'c) act" where
  "and_then m k w = (case m w of (Inl e, w') \<Rightarrow> (Inl e, w') | (Inr x, w') \<Rightarrow> k x w')"

text \<open>The result of an action as a value, for the code that inspects an error.\<close>

definition attempt :: "('b, 'a) act \<Rightarrow> ('b, execution_manager_error + 'a) act" where
  "attempt m w = (case m w of (r, w') \<Rightarrow> (Inr r, w'))"

definition only_if :: "bool \<Rightarrow> ('b, unit) act \<Rightarrow> ('b, unit) act" where
  "only_if c m = (if c then m else ret ())"

section \<open>Calls\<close>

definition store_call ::
    "('b, 'j) manager \<Rightarrow>
     (store_faults \<Rightarrow> box_record list disk \<Rightarrow> (store_error + 'a) \<times> box_record list disk) \<Rightarrow>
     ('b, 'a) act" where
  "store_call mg operation w =
     (let d = mg_interfere mg (w_tick w) (w_disk w);
          (r, d') = operation (mg_faults mg (w_tick w)) d
      in (map_err map_store_error r, w\<lparr>w_disk := d', w_tick := Suc (w_tick w)\<rparr>))"

definition host_call :: "('b, 'a) host_op \<Rightarrow> ('b, 'a) act" where
  "host_call f w =
     (let (r, b, rw) = f (w_backend w, w_resources w)
      in (r, w\<lparr>w_backend := b, w_resources := rw\<rparr>))"

definition validate_lock_id :: "string \<Rightarrow> execution_manager_error + unit" where
  "validate_lock_id execution_id =
     (if execution_id = [] \<or>
         \<not> list_all (\<lambda>byte. is_ascii_alphanumeric byte \<or> byte = CHR ''-'' \<or> byte = CHR ''_'')
             execution_id
      then Inl (Internal ''execution ID is not safe for a lifecycle lock filename'')
      else Inr ())"

definition lifecycle_lock :: "('b, 'j) manager \<Rightarrow> string \<Rightarrow> ('b, unit) act" where
  "lifecycle_lock mg execution_id w =
     (case validate_lock_id execution_id of
        Inl e \<Rightarrow> (Inl e, w)
      | Inr _ \<Rightarrow>
          (case mg_lock_fault mg (w_tick w) of
             Some e \<Rightarrow> (Inl (Internal (''failed to acquire lifecycle lock: '' @ io_message e)),
                        w\<lparr>w_tick := Suc (w_tick w)\<rparr>)
           | None \<Rightarrow> (Inr (), w\<lparr>w_tick := Suc (w_tick w)\<rparr>)))"

definition release_execution_resources :: "('b, 'j) manager \<Rightarrow> box_record \<Rightarrow> ('b, unit) act" where
  "release_execution_resources mg record w =
     (let (r, rw) = release_resources (home_stores (mg_home_dir mg))
                      (mg_resource_faults mg (w_tick w)) record (w_resources w)
      in (r, w\<lparr>w_resources := rw, w_tick := Suc (w_tick w)\<rparr>))"

section \<open>The repository behind the manager (\<open>store.rs\<close>)\<close>

datatype runtime_update =
    UpdNone
  | UpdHandle local_execution_handle
  | StartHandle local_execution_handle
  | Terminal "i32 option"
  | KillTerminal "i32 option"
  | ColdPause
  | PauseClaim bool
  | KillClaim kill_execution_options
  | SnapshotClaim execution_snapshot_id managed_execution_state
  | RestartClaim operation_id restart_execution_options
  | RestartAdvance
  | RestartHandle local_execution_handle
  | RestartFailedUpd "i32 option"

definition set_pending ::
    "(managed_execution_metadata \<Rightarrow> managed_execution_operation) \<Rightarrow> box_record \<Rightarrow> box_record" where
  "set_pending f record =
     update_metadata (\<lambda>metadata. metadata\<lparr>me_pending_operation := Some (f metadata)\<rparr>) record"

definition apply_update ::
    "datetime \<Rightarrow> managed_execution_state \<Rightarrow> runtime_update \<Rightarrow> box_record \<Rightarrow> box_record" where
  "apply_update now from update record =
     (case update of
        UpdNone \<Rightarrow> record
      | UpdHandle handle \<Rightarrow> apply_handle handle record
      | StartHandle handle \<Rightarrow> apply_start_handle handle record
      | Terminal exit_code \<Rightarrow> clear_live_runtime now exit_code record
      | KillTerminal exit_code \<Rightarrow>
          (clear_live_runtime now exit_code record)\<lparr>rec_stopped_by_user := True\<rparr>
      | ColdPause \<Rightarrow> clear_live_runtime_for_cold_pause record
      | PauseClaim keep_memory \<Rightarrow> set_pending (\<lambda>_. OpPause keep_memory) record
      | KillClaim options \<Rightarrow>
          set_pending (\<lambda>_. OpKill (kill_signal options) (kill_timeout_secs options)) record
      | SnapshotClaim snapshot_id source_state \<Rightarrow>
          set_pending (\<lambda>_. OpSnapshot snapshot_id source_state) record
      | RestartClaim operation_id options \<Rightarrow>
          set_pending (\<lambda>metadata. OpRestart operation_id (me_generation metadata) from
            (restart_stop_timeout_secs options)) record
      | RestartAdvance \<Rightarrow> clear_live_runtime now None record
      | RestartHandle handle \<Rightarrow> apply_restart_handle handle record
      | RestartFailedUpd exit_code \<Rightarrow> clear_live_runtime now exit_code record)"

definition mgr_get :: "('b, 'j) manager \<Rightarrow> execution_id \<Rightarrow> ('b, box_record option) act" where
  "mgr_get mg i = store_call mg (\<lambda>flt d. (get_managed flt i d, d))"

definition mgr_get_by_operation ::
    "('b, 'j) manager \<Rightarrow> operation_id \<Rightarrow> ('b, box_record option) act" where
  "mgr_get_by_operation mg oid = store_call mg (\<lambda>flt d. (get_by_operation_id flt oid d, d))"

text \<open>\<open>get\<close> followed by \<open>ok_or_else(NotFound)\<close>.\<close>

definition mgr_require :: "('b, 'j) manager \<Rightarrow> execution_id \<Rightarrow> ('b, box_record) act" where
  "mgr_require mg i =
     and_then (mgr_get mg i) (\<lambda>found. lift (ok_or (MgrNotFound i) found))"

definition merge_snapshot_health :: "snapshot_info \<Rightarrow> box_record \<Rightarrow> box_record" where
  "merge_snapshot_health info record =
     (let health_check = (case rec_health_check record of
            None \<Rightarrow> si_health_check info | Some h \<Rightarrow> Some h);
          disabled = rec_healthcheck_disabled record \<or> si_healthcheck_disabled info
      in update_metadata (\<lambda>m. m\<lparr>me_request := (me_request m)\<lparr>req_policy :=
             (req_policy (me_request m))\<lparr>pol_health_check := health_check,
                pol_healthcheck_disabled := disabled\<rparr>\<rparr>\<rparr>)
           (record\<lparr>rec_health_check := health_check, rec_healthcheck_disabled := disabled\<rparr>))"

definition mgr_reserve ::
    "('b, 'j) manager \<Rightarrow> box_record \<Rightarrow> ('b, managed_execution_reservation) act" where
  "mgr_reserve mg record =
     (case Option.bind (rec_managed_execution record) (req_rootfs_snapshot_id \<circ> me_request) of
        None \<Rightarrow> store_call mg (\<lambda>flt d. reserve (mg_to_value mg) flt record d)
      | Some snapshot_id \<Rightarrow>
          and_then (host_call (fs_restorable mg snapshot_id)) (\<lambda>info.
            let record' = merge_snapshot_health info record in
            and_then (lift (validate_record_health record')) (\<lambda>_.
              store_call mg (\<lambda>flt d. reserve (mg_to_value mg) flt record' d))))"

definition mgr_transition ::
    "('b, 'j) manager \<Rightarrow> box_record \<Rightarrow> managed_execution_state \<Rightarrow> managed_execution_state \<Rightarrow>
     runtime_update \<Rightarrow> ('b, box_record) act" where
  "mgr_transition mg record from to update =
     and_then (lift (record_execution_id record)) (\<lambda>i.
     and_then (lift (record_generation record i)) (\<lambda>generation w.
       store_call mg (\<lambda>flt d. transition_with (mg_to_value mg) flt i generation from to
         (apply_update (mg_now mg (w_tick w)) from update) d) w))"

definition completion_generation ::
    "execution_id \<Rightarrow> managed_execution_state \<Rightarrow> managed_execution_state \<Rightarrow> execution_generation \<Rightarrow>
     execution_manager_error + execution_generation" where
  "completion_generation i from to current =
     (if (from, to) \<in> {(Pausing, Paused), (Resuming, Running)} then
        rbind (ok_or (Internal (''execution '' @ execution_id_str i @ '' generation is exhausted''))
                 (checked_add (generation_get current) 1)) execution_generation_new
      else Inr current)"

definition complete_transition ::
    "('b, 'j) manager \<Rightarrow> box_record \<Rightarrow> managed_execution_state \<Rightarrow> managed_execution_state \<Rightarrow>
     runtime_update \<Rightarrow> ('b, box_record) act" where
  "complete_transition mg record from to update =
     and_then (lift (record_execution_id record)) (\<lambda>i.
     and_then (lift (record_generation record i)) (\<lambda>current_generation.
     and_then (lift (completion_generation i from to current_generation)) (\<lambda>expected_generation.
     and_then (attempt (mgr_transition mg record from to update)) (\<lambda>result.
       (case result of
          Inr record' \<Rightarrow> ret record'
        | Inl (MgrConflict j m) \<Rightarrow>
            and_then (mgr_require mg i) (\<lambda>current.
            and_then (lift (support_managed_state current)) (\<lambda>state.
            if state = to then
              and_then (lift (record_generation current i)) (\<lambda>actual_generation.
                if actual_generation = expected_generation then ret current
                else throw (MgrConflict j m))
            else throw (MgrConflict j m)))
        | Inl e \<Rightarrow> throw e)))))"

definition complete_with_handle ::
    "('b, 'j) manager \<Rightarrow> box_record \<Rightarrow> managed_execution_state \<Rightarrow> managed_execution_state \<Rightarrow>
     local_execution_handle \<Rightarrow> ('b, box_record) act" where
  "complete_with_handle mg record from to handle =
     complete_transition mg record from to
       (if from = Starting \<and> to = Running then StartHandle handle else UpdHandle handle)"

section \<open>Facts on actions\<close>

lemma ret_apply [simp]: "ret x w = (Inr x, w)"
  by (simp add: ret_def)

lemma throw_apply [simp]: "throw e w = (Inl e, w)"
  by (simp add: throw_def)

lemma lift_Inl [simp]: "lift (Inl e) = throw e"
  by (simp add: lift_def throw_def fun_eq_iff)

lemma lift_Inr [simp]: "lift (Inr x) = ret x"
  by (simp add: lift_def ret_def fun_eq_iff)

lemma and_then_ret [simp]: "and_then (ret x) k = k x"
  by (simp add: and_then_def fun_eq_iff)

lemma and_then_throw [simp]: "and_then (throw e) k = throw e"
  by (simp add: and_then_def fun_eq_iff)

lemma and_then_Inr: "m w = (Inr x, w') \<Longrightarrow> and_then m k w = k x w'"
  by (simp add: and_then_def)

lemma and_then_Inl: "m w = (Inl e, w') \<Longrightarrow> and_then m k w = (Inl e, w')"
  by (simp add: and_then_def)

lemma attempt_apply: "m w = (r, w') \<Longrightarrow> attempt m w = (Inr r, w')"
  by (simp add: attempt_def)

lemma and_then_attempt: "m w = (r, w') \<Longrightarrow> and_then (attempt m) k w = k r w'"
  by (simp add: and_then_def attempt_def)

lemma and_then_eq_Inr:
  "and_then m k w = (Inr y, w'') \<longleftrightarrow> (\<exists>x w'. m w = (Inr x, w') \<and> k x w' = (Inr y, w''))"
  by (cases "m w"; cases "fst (m w)") (auto simp: and_then_def)

end
