(* ===== verification/Local_Operations.thy ===== *)
theory Local_Operations
  imports Local_Manager
begin

text \<open>
  The operations of the local execution manager, \<open>runtime/src/local_execution/\<close>: start
  (\<open>create.rs\<close>), pause, resume and kill (\<open>operations.rs\<close>), restart (\<open>restart.rs\<close>), filesystem
  snapshots (\<open>snapshot.rs\<close>), removal (\<open>remove.rs\<close>), observation and recovery (\<open>recovery.rs\<close>) and the
  \<open>ExecutionManager\<close> trait implementation (\<open>api.rs\<close>). Every operation is an action on worlds.
\<close>

section \<open>Start (\<open>create.rs\<close>)\<close>

definition resolve_start_error ::
    "('b, 'j) manager \<Rightarrow> box_record \<Rightarrow> execution_manager_error \<Rightarrow> ('b, execution_lease) act" where
  "resolve_start_error mg claimed start_error =
     and_then (lift (record_execution_id claimed)) (\<lambda>i.
     and_then (attempt (host_call (be_inspect mg claimed))) (\<lambda>inspected.
       (case inspected of
          Inr observation \<Rightarrow>
            and_then (lift (observation_validate observation i)) (\<lambda>_.
              (case ob_state observation of
                 ES_Running \<Rightarrow>
                   and_then (lift (required_handle observation i)) (\<lambda>handle.
                   and_then (complete_with_handle mg claimed Starting Running handle) (\<lambda>running.
                     lift (lease_from_record running)))
               | ES_Stopped \<Rightarrow>
                   and_then (attempt (mgr_transition mg claimed Starting Failed
                     (Terminal (ob_exit_code observation)))) (\<lambda>_. throw start_error)
               | ES_Failed \<Rightarrow>
                   and_then (attempt (mgr_transition mg claimed Starting Failed
                     (Terminal (ob_exit_code observation)))) (\<lambda>_. throw start_error)
               | _ \<Rightarrow> throw start_error))
        | Inl (MgrNotFound _) \<Rightarrow>
            and_then (attempt (mgr_transition mg claimed Starting Failed (Terminal None)))
              (\<lambda>_. throw start_error)
        | Inl _ \<Rightarrow> throw start_error)))"

definition ensure_started_after_lost_claim ::
    "('b, 'j) manager \<Rightarrow> box_record \<Rightarrow> ('b, execution_lease) act" where
  "ensure_started_after_lost_claim mg record =
     and_then (lift (support_managed_state record)) (\<lambda>state.
       if state = Running then lift (lease_from_record record)
       else if state \<in> {Creating, Created} then
         and_then (lift (record_execution_id record)) (\<lambda>i.
           throw (Unavailable (''execution '' @ execution_id_str i @
             '' startup claim was released; retry the request'')))
       else if state = Starting then
         and_then (lift (record_execution_id record)) (\<lambda>i.
         and_then (attempt (host_call (be_inspect mg record))) (\<lambda>inspected.
           (case inspected of
              Inr observation \<Rightarrow>
                if ob_state observation = ES_Running then
                  and_then (lift (observation_validate observation i)) (\<lambda>_.
                  and_then (lift (required_handle observation i)) (\<lambda>handle.
                  and_then (complete_with_handle mg record Starting Running handle) (\<lambda>running.
                    lift (lease_from_record running))))
                else throw (Unavailable (''execution '' @ execution_id_str i @
                       '' startup is owned by another caller''))
            | Inl (MgrNotFound _) \<Rightarrow>
                throw (Unavailable (''execution '' @ execution_id_str i @
                  '' startup is owned by another caller''))
            | Inl e \<Rightarrow> throw e)))
       else
         and_then (lift (record_execution_id record)) (\<lambda>i.
           throw (MgrConflict i (''creation claim moved to '' @ as_status state))))"

definition claim_and_start ::
    "('b, 'j) manager \<Rightarrow> box_record \<Rightarrow> managed_execution_state \<Rightarrow> ('b, execution_lease) act" where
  "claim_and_start mg record expected_state =
     and_then (lift (validate_record_health record)) (\<lambda>_.
     and_then (attempt (mgr_transition mg record expected_state Starting UpdNone)) (\<lambda>claim.
       (case claim of
          Inl (MgrConflict _ _) \<Rightarrow>
            and_then (lift (record_execution_id record)) (\<lambda>i.
            and_then (mgr_require mg i) (\<lambda>current. ensure_started_after_lost_claim mg current))
        | Inl e \<Rightarrow> throw e
        | Inr claimed \<Rightarrow>
            and_then (lift (record_execution_id claimed)) (\<lambda>i.
            and_then (attempt (host_call (be_start mg claimed))) (\<lambda>started.
              (case started of
                 Inr handle \<Rightarrow>
                   and_then (lift (handle_validate handle i)) (\<lambda>_.
                   and_then (complete_with_handle mg claimed Starting Running handle) (\<lambda>running.
                     lift (lease_from_record running)))
               | Inl e \<Rightarrow> resolve_start_error mg claimed e))))))"

definition ensure_started ::
    "('b, 'j) manager \<Rightarrow> box_record \<Rightarrow> ('b, execution_lease) act" where
  "ensure_started mg record =
     and_then (lift (validate_record_health record)) (\<lambda>_.
     and_then (lift (support_managed_state record)) (\<lambda>state.
       if state \<in> {Creating, Created} then claim_and_start mg record state
       else if state = Starting then
         and_then (lift (record_execution_id record)) (\<lambda>i.
         and_then (attempt (host_call (be_inspect mg record))) (\<lambda>inspected.
           (case inspected of
              Inr observation \<Rightarrow>
                and_then (lift (observation_validate observation i)) (\<lambda>_.
                  (case ob_state observation of
                     ES_Running \<Rightarrow>
                       and_then (lift (required_handle observation i)) (\<lambda>handle.
                       and_then (complete_with_handle mg record Starting Running handle)
                         (\<lambda>running. lift (lease_from_record running)))
                   | ES_Creating \<Rightarrow>
                       throw (Unavailable (''execution '' @ execution_id_str i @
                         '' is still starting''))
                   | ES_Created \<Rightarrow>
                       throw (Internal (''backend reported created state while starting '' @
                         execution_id_str i))
                   | ES_Paused \<Rightarrow>
                       throw (Internal (''execution '' @ execution_id_str i @
                         '' became paused while starting''))
                   | _ \<Rightarrow>
                       and_then (mgr_transition mg record Starting Failed
                         (Terminal (ob_exit_code observation))) (\<lambda>_.
                         throw (MgrConflict i ''the reserved creation operation is terminal''))))
            | Inl (MgrNotFound _) \<Rightarrow>
                throw (Unavailable (''execution '' @ execution_id_str i @
                  '' has been claimed for startup''))
            | Inl e \<Rightarrow> throw e)))
       else if state = Running then lift (lease_from_record record)
       else
         and_then (lift (record_execution_id record)) (\<lambda>i.
           throw (MgrConflict i (''creation operation is '' @ as_status state)))))"

section \<open>Pause, resume and kill (\<open>operations.rs\<close>)\<close>

text \<open>An action whose failure the code turns into \<open>None\<close>.\<close>

definition ok_option :: "('b, 'a) act \<Rightarrow> ('b, 'a option) act" where
  "ok_option m =
     and_then (attempt m) (\<lambda>r. ret (case r of Inl _ \<Rightarrow> None | Inr x \<Rightarrow> Some x))"

definition finish_cold_pause ::
    "('b, 'j) manager \<Rightarrow> box_record \<Rightarrow> ('b, execution_lease) act" where
  "finish_cold_pause mg record =
     and_then (lift (record_execution_id record)) (\<lambda>i.
     and_then (attempt (host_call (be_stop_for_restart mg record (rec_stop_timeout record))))
       (\<lambda>stopped.
     and_then
       (case stopped of
          Inr _ \<Rightarrow> ret ()
        | Inl (MgrNotFound _) \<Rightarrow> ret ()
        | Inl stop_error \<Rightarrow>
            and_then (attempt (host_call (be_inspect mg record))) (\<lambda>inspected.
              (case inspected of
                 Inl (MgrNotFound _) \<Rightarrow> ret ()
               | Inr observation \<Rightarrow>
                   if ob_state observation \<in> {ES_Stopped, ES_Failed} then ret ()
                   else if ob_state observation = ES_Running then
                     and_then (attempt (mgr_transition mg record Pausing Running UpdNone))
                       (\<lambda>_. throw stop_error)
                   else throw stop_error
               | Inl _ \<Rightarrow> throw stop_error)))
       (\<lambda>_.
     and_then (release_execution_resources mg record) (\<lambda>_.
     and_then (complete_transition mg record Pausing Paused ColdPause) (\<lambda>paused.
       lift (lease_from_record paused))))))"

definition resolve_pause_error ::
    "('b, 'j) manager \<Rightarrow> box_record \<Rightarrow> ('b, execution_lease option) act" where
  "resolve_pause_error mg record =
     (case record_execution_id record of
        Inl _ \<Rightarrow> ret None
      | Inr i \<Rightarrow>
          and_then (attempt (host_call (be_inspect mg record))) (\<lambda>inspected.
            (case inspected of
               Inr observation \<Rightarrow>
                 if ob_state observation = ES_Paused then
                   (case (observation_validate observation i, required_handle observation i) of
                      (Inr _, Inr handle) \<Rightarrow>
                        ok_option (and_then (complete_with_handle mg record Pausing Paused handle)
                          (\<lambda>paused. lift (lease_from_record paused)))
                    | _ \<Rightarrow> ret None)
                 else if ob_state observation = ES_Running then
                   and_then (attempt (mgr_transition mg record Pausing Running UpdNone))
                     (\<lambda>_. ret None)
                 else ret None
             | Inl _ \<Rightarrow> ret None)))"

definition finish_pause :: "('b, 'j) manager \<Rightarrow> box_record \<Rightarrow> ('b, execution_lease) act" where
  "finish_pause mg record =
     and_then (lift (record_execution_id record)) (\<lambda>i.
     and_then (lift (pending_pause_policy record i)) (\<lambda>keep_memory.
       if \<not> keep_memory then finish_cold_pause mg record
       else
         and_then (attempt (host_call (be_pause mg record keep_memory))) (\<lambda>result.
           (case result of
              Inr handle \<Rightarrow>
                and_then (lift (handle_validate handle i)) (\<lambda>_.
                and_then (complete_with_handle mg record Pausing Paused handle) (\<lambda>paused.
                  lift (lease_from_record paused)))
            | Inl e \<Rightarrow>
                and_then (resolve_pause_error mg record) (\<lambda>resolved.
                  (case resolved of Some lease \<Rightarrow> ret lease | None \<Rightarrow> throw e))))))"

definition rollback_cold_resume :: "('b, 'j) manager \<Rightarrow> box_record \<Rightarrow> ('b, unit) act" where
  "rollback_cold_resume mg record =
     and_then (release_execution_resources mg record) (\<lambda>_.
     and_then (mgr_transition mg record Resuming Paused UpdNone) (\<lambda>_. ret ()))"

definition resolve_cold_resume_error ::
    "('b, 'j) manager \<Rightarrow> box_record \<Rightarrow> execution_manager_error \<Rightarrow> ('b, execution_lease) act" where
  "resolve_cold_resume_error mg record start_error =
     and_then (lift (record_execution_id record)) (\<lambda>i.
     and_then (attempt (host_call (be_inspect mg record))) (\<lambda>inspected.
       (case inspected of
          Inr observation \<Rightarrow>
            if ob_state observation = ES_Running then
              and_then (lift (observation_validate observation i)) (\<lambda>_.
              and_then (lift (required_handle observation i)) (\<lambda>handle.
              and_then (complete_transition mg record Resuming Running (StartHandle handle))
                (\<lambda>running. lift (lease_from_record running))))
            else if ob_state observation \<in> {ES_Created, ES_Paused, ES_Stopped, ES_Failed} then
              and_then (rollback_cold_resume mg record) (\<lambda>_. throw start_error)
            else throw start_error
        | Inl (MgrNotFound _) \<Rightarrow>
            and_then (rollback_cold_resume mg record) (\<lambda>_. throw start_error)
        | Inl _ \<Rightarrow> throw start_error)))"

definition cold_resume_start :: "('b, 'j) manager \<Rightarrow> box_record \<Rightarrow> ('b, execution_lease) act" where
  "cold_resume_start mg record =
     and_then (lift (record_execution_id record)) (\<lambda>i.
     and_then (attempt (host_call (be_start mg record))) (\<lambda>started.
       (case started of
          Inr handle \<Rightarrow>
            and_then (lift (handle_validate handle i)) (\<lambda>_.
            and_then (complete_transition mg record Resuming Running (StartHandle handle))
              (\<lambda>running. lift (lease_from_record running)))
        | Inl start_error \<Rightarrow> resolve_cold_resume_error mg record start_error)))"

definition finish_cold_resume ::
    "('b, 'j) manager \<Rightarrow> box_record \<Rightarrow> ('b, execution_lease) act" where
  "finish_cold_resume mg record =
     and_then (lift (record_execution_id record)) (\<lambda>i.
     and_then (attempt (host_call (be_inspect mg record))) (\<lambda>inspected.
       (case inspected of
          Inr observation \<Rightarrow>
            if ob_state observation = ES_Running then
              and_then (lift (observation_validate observation i)) (\<lambda>_.
              and_then (lift (required_handle observation i)) (\<lambda>handle.
              and_then (complete_transition mg record Resuming Running (StartHandle handle))
                (\<lambda>running. lift (lease_from_record running))))
            else if ob_state observation \<in> {ES_Stopped, ES_Failed} then
              cold_resume_start mg record
            else throw (MgrConflict i (''filesystem-only resume found unexpected backend state '' @
                   debug_execution_state (ob_state observation)))
        | Inl (MgrNotFound _) \<Rightarrow> cold_resume_start mg record
        | Inl e \<Rightarrow> throw e)))"

definition resolve_resume_error ::
    "('b, 'j) manager \<Rightarrow> box_record \<Rightarrow> ('b, execution_lease option) act" where
  "resolve_resume_error mg record =
     (case record_execution_id record of
        Inl _ \<Rightarrow> ret None
      | Inr i \<Rightarrow>
          and_then (attempt (host_call (be_inspect mg record))) (\<lambda>inspected.
            (case inspected of
               Inr observation \<Rightarrow>
                 if ob_state observation = ES_Running then
                   (case (observation_validate observation i, required_handle observation i) of
                      (Inr _, Inr handle) \<Rightarrow>
                        ok_option (and_then (complete_with_handle mg record Resuming Running handle)
                          (\<lambda>running. lift (lease_from_record running)))
                    | _ \<Rightarrow> ret None)
                 else if ob_state observation = ES_Paused then
                   and_then (attempt (mgr_transition mg record Resuming Paused UpdNone))
                     (\<lambda>_. ret None)
                 else ret None
             | Inl _ \<Rightarrow> ret None)))"

definition finish_resume :: "('b, 'j) manager \<Rightarrow> box_record \<Rightarrow> ('b, execution_lease) act" where
  "finish_resume mg record =
     and_then (lift (record_execution_id record)) (\<lambda>i.
     and_then (lift (paused_with_memory record i)) (\<lambda>memory.
       if \<not> memory then finish_cold_resume mg record
       else
         and_then (attempt (host_call (be_resume mg record))) (\<lambda>result.
           (case result of
              Inr handle \<Rightarrow>
                and_then (lift (handle_validate handle i)) (\<lambda>_.
                and_then (complete_with_handle mg record Resuming Running handle) (\<lambda>running.
                  lift (lease_from_record running)))
            | Inl e \<Rightarrow>
                and_then (resolve_resume_error mg record) (\<lambda>resolved.
                  (case resolved of Some lease \<Rightarrow> ret lease | None \<Rightarrow> throw e))))))"

definition resolve_kill_error ::
    "('b, 'j) manager \<Rightarrow> box_record \<Rightarrow> ('b, kill_outcome option) act" where
  "resolve_kill_error mg record =
     and_then (attempt (host_call (be_inspect mg record))) (\<lambda>inspected.
       let terminal = (case inspected of
             Inl (MgrNotFound _) \<Rightarrow> True
           | Inr observation \<Rightarrow> ob_state observation \<in> {ES_Stopped, ES_Failed}
           | _ \<Rightarrow> False)
       in if \<not> terminal then ret None
          else ok_option (and_then (release_execution_resources mg record) (\<lambda>_.
                 and_then (mgr_transition mg record Killing Stopped (KillTerminal None))
                   (\<lambda>_. ret Killed))))"

text \<open>The record the backend sees carries the persisted signal and timeout.\<close>

definition kill_record :: "kill_execution_options \<Rightarrow> box_record \<Rightarrow> box_record" where
  "kill_record options record =
     record\<lparr>rec_stop_signal := (case kill_signal options of
         None \<Rightarrow> rec_stop_signal record | Some signal \<Rightarrow> Some (show_i32 signal)),
       rec_stop_timeout := (case kill_timeout_secs options of
         None \<Rightarrow> rec_stop_timeout record | Some timeout \<Rightarrow> Some timeout)\<rparr>"

definition finish_kill :: "('b, 'j) manager \<Rightarrow> box_record \<Rightarrow> ('b, kill_outcome) act" where
  "finish_kill mg record =
     and_then (lift (record_execution_id record)) (\<lambda>i.
     and_then (lift (pending_kill_options record i)) (\<lambda>options.
     and_then (attempt (host_call (be_kill mg (kill_record options record)))) (\<lambda>result.
       (case result of
          Inr outcome \<Rightarrow>
            and_then (release_execution_resources mg record) (\<lambda>_.
            and_then (mgr_transition mg record Killing Stopped (KillTerminal None)) (\<lambda>_.
              ret outcome))
        | Inl (MgrNotFound _) \<Rightarrow>
            and_then (release_execution_resources mg record) (\<lambda>_.
            and_then (mgr_transition mg record Killing Stopped (KillTerminal None)) (\<lambda>_.
              ret AlreadyStopped))
        | Inl e \<Rightarrow>
            and_then (resolve_kill_error mg record) (\<lambda>resolved.
              (case resolved of Some outcome \<Rightarrow> ret outcome | None \<Rightarrow> throw e))))))"

section \<open>Filesystem snapshots (\<open>snapshot.rs\<close>)\<close>

record execution_snapshot =
  es_snapshot_id :: execution_snapshot_id
  es_size_bytes :: u64
  es_state :: execution_state
  es_lease :: execution_lease

definition pause_for_snapshot ::
    "('b, 'j) manager \<Rightarrow> box_record \<Rightarrow> execution_id \<Rightarrow> ('b, local_execution_handle) act" where
  "pause_for_snapshot mg record i =
     and_then (attempt (host_call (be_pause mg record True))) (\<lambda>result.
       (case result of
          Inr handle \<Rightarrow> and_then (lift (handle_validate handle i)) (\<lambda>_. ret handle)
        | Inl pause_error \<Rightarrow>
            and_then (attempt (host_call (be_inspect mg record))) (\<lambda>inspected.
              (case inspected of
                 Inr observation \<Rightarrow>
                   if ob_state observation = ES_Paused then
                     and_then (lift (observation_validate observation i)) (\<lambda>_.
                       lift (required_handle observation i))
                   else throw pause_error
               | Inl _ \<Rightarrow> throw pause_error))))"

text \<open>\<open>ExecutionId::new\<close> of the record's identifier, as the snapshot code writes it.\<close>

definition snapshot_execution_id :: "box_record \<Rightarrow> execution_manager_error + execution_id" where
  "snapshot_execution_id record = execution_id_new (rec_id record)"

definition resume_for_snapshot ::
    "('b, 'j) manager \<Rightarrow> box_record \<Rightarrow> ('b, local_execution_handle) act" where
  "resume_for_snapshot mg record =
     and_then (lift (snapshot_execution_id record)) (\<lambda>i.
     and_then (attempt (host_call (be_resume mg record))) (\<lambda>result.
       (case result of
          Inr handle \<Rightarrow> and_then (lift (handle_validate handle i)) (\<lambda>_. ret handle)
        | Inl resume_error \<Rightarrow>
            and_then (attempt (host_call (be_inspect mg record))) (\<lambda>inspected.
              (case inspected of
                 Inr observation \<Rightarrow>
                   if ob_state observation = ES_Running then
                     and_then (lift (observation_validate observation i)) (\<lambda>_.
                       lift (required_handle observation i))
                   else throw resume_error
               | Inl _ \<Rightarrow> throw resume_error)))))"

definition restore_snapshot_source_state ::
    "('b, 'j) manager \<Rightarrow> box_record \<Rightarrow> managed_execution_state \<Rightarrow> local_execution_handle \<Rightarrow>
     ('b, box_record) act" where
  "restore_snapshot_source_state mg record source_state handle =
     and_then (if source_state = Running then resume_for_snapshot mg record else ret handle)
       (\<lambda>handle'. complete_with_handle mg record Snapshotting source_state handle')"

definition drive_cold_paused_snapshot ::
    "('b, 'j) manager \<Rightarrow> box_record \<Rightarrow> execution_snapshot_id \<Rightarrow> ('b, execution_snapshot) act" where
  "drive_cold_paused_snapshot mg record snapshot_id =
     and_then (attempt (host_call (be_prepare_quiescent_rootfs mg record))) (\<lambda>prepared.
     and_then (attempt (case prepared of
         Inr _ \<Rightarrow> host_call (fs_capture mg record snapshot_id)
       | Inl e \<Rightarrow> throw e)) (\<lambda>capture.
     and_then (attempt (host_call (be_cleanup_quiescent_rootfs mg record))) (\<lambda>cleanup.
       (case cleanup of
          Inl cleanup_error \<Rightarrow>
            (case capture of
               Inr _ \<Rightarrow> throw cleanup_error
             | Inl capture_error \<Rightarrow>
                 throw (Internal (manager_error_to_string capture_error @
                   ''; failed to clean up quiescent rootfs for '' @ rec_id record @ '': '' @
                   manager_error_to_string cleanup_error)))
        | Inr _ \<Rightarrow>
            and_then (attempt (complete_transition mg record Snapshotting Paused UpdNone))
              (\<lambda>restored.
              (case (capture, restored) of
                 (Inr size_bytes, Inr restored_record) \<Rightarrow>
                   and_then (lift (lease_from_record restored_record)) (\<lambda>lease.
                     ret \<lparr>es_snapshot_id = snapshot_id, es_size_bytes = size_bytes,
                          es_state = ES_Paused, es_lease = lease\<rparr>)
               | (Inl capture_error, Inr _) \<Rightarrow> throw capture_error
               | (Inr _, Inl restore_error) \<Rightarrow> throw restore_error
               | (Inl capture_error, Inl restore_error) \<Rightarrow>
                   throw (Internal (manager_error_to_string capture_error @
                     ''; failed to restore cold-paused execution '' @ rec_id record @
                     '' after snapshot failure: '' @
                     manager_error_to_string restore_error))))))))"

text \<open>The handle to restore with, once the backend is known to be quiescent.\<close>

definition quiesce_for_snapshot ::
    "('b, 'j) manager \<Rightarrow> box_record \<Rightarrow> execution_id \<Rightarrow> managed_execution_state \<Rightarrow>
     local_execution_observation \<Rightarrow> local_execution_handle \<Rightarrow> ('b, local_execution_handle) act" where
  "quiesce_for_snapshot mg record i source_state observation handle =
     (if source_state = Running \<and> ob_state observation = ES_Running then
        pause_for_snapshot mg record i
      else if source_state \<in> {Running, Paused} \<and> ob_state observation = ES_Paused then ret handle
      else if source_state = Paused \<and> ob_state observation = ES_Running then
        throw (MgrConflict i
          ''a paused execution resumed while its filesystem snapshot was pending'')
      else throw (MgrConflict i (''execution entered '' @
             debug_execution_state (ob_state observation) @
             '' while its filesystem snapshot was pending'')))"

definition drive_snapshot :: "('b, 'j) manager \<Rightarrow> box_record \<Rightarrow> ('b, execution_snapshot) act" where
  "drive_snapshot mg record =
     and_then (lift (snapshot_operation record)) (\<lambda>(snapshot_id, source_state).
     and_then (lift (snapshot_execution_id record)) (\<lambda>i.
     and_then (if source_state = Paused
               then and_then (lift (paused_with_memory record i)) (\<lambda>memory. ret (\<not> memory))
               else ret False) (\<lambda>cold.
       if cold then drive_cold_paused_snapshot mg record snapshot_id
       else
         and_then (host_call (be_inspect mg record)) (\<lambda>observation.
         and_then (lift (observation_validate observation i)) (\<lambda>_.
         and_then (lift (required_handle observation i)) (\<lambda>handle.
         and_then (quiesce_for_snapshot mg record i source_state observation handle) (\<lambda>handle'.
         and_then (attempt (host_call (fs_capture mg record snapshot_id))) (\<lambda>capture.
           (case capture of
              Inr size_bytes \<Rightarrow>
                and_then (restore_snapshot_source_state mg record source_state handle')
                  (\<lambda>completed.
                and_then (lift (snapshot_execution_state source_state)) (\<lambda>state.
                and_then (lift (lease_from_record completed)) (\<lambda>lease.
                  ret \<lparr>es_snapshot_id = snapshot_id, es_size_bytes = size_bytes,
                       es_state = state, es_lease = lease\<rparr>)))
            | Inl capture_error \<Rightarrow>
                and_then (attempt (restore_snapshot_source_state mg record source_state handle'))
                  (\<lambda>restored.
                  (case restored of
                     Inr _ \<Rightarrow> throw capture_error
                   | Inl restore_error \<Rightarrow>
                       throw (Internal (manager_error_to_string capture_error @
                         ''; failed to restore execution '' @ rec_id record @
                         '' after snapshot failure: '' @
                         manager_error_to_string restore_error)))))))))))))"

definition stabilize_snapshot ::
    "('b, 'j) manager \<Rightarrow> box_record \<Rightarrow> ('b, box_record) act" where
  "stabilize_snapshot mg record =
     and_then (lift (support_managed_state record)) (\<lambda>state.
       if state \<noteq> Snapshotting then ret record
       else
         and_then (lift (snapshot_execution_id record)) (\<lambda>i.
         and_then (drive_snapshot mg record) (\<lambda>_. mgr_require mg i)))"

definition recover_snapshot ::
    "('b, 'j) manager \<Rightarrow> box_record \<Rightarrow> ('b, execution_lease) act" where
  "recover_snapshot mg record =
     and_then (drive_snapshot mg record) (\<lambda>snapshot. ret (es_lease snapshot))"

definition create_snapshot ::
    "('b, 'j) manager \<Rightarrow> execution_id \<Rightarrow> execution_generation \<Rightarrow> execution_snapshot_id \<Rightarrow>
     ('b, execution_snapshot) act" where
  "create_snapshot mg i expected_generation snapshot_id =
     and_then (mgr_require mg i) (\<lambda>record.
     and_then (lift (require_generation record i expected_generation)) (\<lambda>_.
     and_then (lift (support_managed_state record)) (\<lambda>source_state.
       if source_state = Snapshotting then
         and_then (lift (snapshot_operation record)) (\<lambda>(pending_snapshot_id, _).
           if pending_snapshot_id \<noteq> snapshot_id then throw (state_conflict record i ''snapshot'')
           else drive_snapshot mg record)
       else if source_state \<notin> {Running, Paused} then
         throw (state_conflict record i ''snapshot'')
       else
         and_then (lift (record_metadata record i)) (\<lambda>metadata.
           if plan_backend (me_plan metadata) \<noteq> Crun then
             throw (MgrConflict i
               ''filesystem snapshots currently require the Sandbox backend'')
           else
             and_then (host_call (fs_load_snapshot mg snapshot_id)) (\<lambda>existing.
               (case existing of
                  Some info \<Rightarrow>
                    if si_source_box_id info \<noteq> rec_id record then
                      throw (MgrConflict i (''filesystem snapshot '' @
                        snapshot_id_str snapshot_id @ '' belongs to another execution''))
                    else
                      and_then (lift (snapshot_execution_state source_state)) (\<lambda>state.
                      and_then (lift (lease_from_record record)) (\<lambda>lease.
                        ret \<lparr>es_snapshot_id = snapshot_id, es_size_bytes = si_size_bytes info,
                             es_state = state, es_lease = lease\<rparr>))
                | None \<Rightarrow>
                    and_then (mgr_transition mg record source_state Snapshotting
                      (SnapshotClaim snapshot_id source_state)) (\<lambda>claimed.
                      drive_snapshot mg claimed)))))))"

section \<open>Restart (\<open>restart.rs\<close>)\<close>

definition complete_restart_with_handle ::
    "('b, 'j) manager \<Rightarrow> box_record \<Rightarrow> local_execution_handle \<Rightarrow> ('b, execution_lease) act" where
  "complete_restart_with_handle mg record handle =
     and_then (lift (restart_intent_of record)) (\<lambda>intent.
     and_then (lift (record_execution_id record)) (\<lambda>i.
     and_then (attempt (mgr_transition mg record RestartStarting Running (RestartHandle handle)))
       (\<lambda>result.
       (case result of
          Inr running \<Rightarrow> lift (lease_from_record running)
        | Inl (MgrConflict j m) \<Rightarrow>
            and_then (mgr_require mg i) (\<lambda>current.
            and_then (lift (completed_restart_result current (ri_source_generation intent)
                (ri_operation_id intent) (intent_options intent))) (\<lambda>completed.
              (case completed of
                 Some completed_result \<Rightarrow> lift completed_result
               | None \<Rightarrow> throw (MgrConflict j m))))
        | Inl e \<Rightarrow> throw e))))"

definition publish_restart_failure ::
    "('b, 'j) manager \<Rightarrow> box_record \<Rightarrow> i32 option \<Rightarrow> ('b, unit) act" where
  "publish_restart_failure mg record exit_code =
     and_then (release_execution_resources mg record) (\<lambda>_.
     and_then (lift (restart_intent_of record)) (\<lambda>intent.
     and_then (lift (record_execution_id record)) (\<lambda>i.
     and_then (attempt (mgr_transition mg record RestartStarting Failed
         (RestartFailedUpd exit_code))) (\<lambda>result.
       (case result of
          Inr _ \<Rightarrow> ret ()
        | Inl (MgrConflict j m) \<Rightarrow>
            and_then (mgr_require mg i) (\<lambda>current.
            and_then (lift (completed_restart_result current (ri_source_generation intent)
                (ri_operation_id intent) (intent_options intent))) (\<lambda>completed.
              if completed \<noteq> None then ret () else throw (MgrConflict j m)))
        | Inl e \<Rightarrow> throw e)))))"

definition resolve_restart_start_error ::
    "('b, 'j) manager \<Rightarrow> box_record \<Rightarrow> execution_manager_error \<Rightarrow> ('b, execution_lease) act" where
  "resolve_restart_start_error mg record start_error =
     and_then (lift (record_execution_id record)) (\<lambda>i.
     and_then (attempt (host_call (be_inspect mg record))) (\<lambda>inspected.
       (case inspected of
          Inr observation \<Rightarrow>
            and_then (lift (observation_validate observation i)) (\<lambda>_.
              (case ob_state observation of
                 ES_Running \<Rightarrow>
                   and_then (lift (required_handle observation i)) (\<lambda>handle.
                     complete_restart_with_handle mg record handle)
               | ES_Stopped \<Rightarrow>
                   and_then (publish_restart_failure mg record (ob_exit_code observation))
                     (\<lambda>_. throw start_error)
               | ES_Failed \<Rightarrow>
                   and_then (publish_restart_failure mg record (ob_exit_code observation))
                     (\<lambda>_. throw start_error)
               | _ \<Rightarrow> throw start_error))
        | Inl (MgrNotFound _) \<Rightarrow>
            and_then (publish_restart_failure mg record None) (\<lambda>_. throw start_error)
        | Inl _ \<Rightarrow> throw start_error)))"

definition finish_restart_start ::
    "('b, 'j) manager \<Rightarrow> box_record \<Rightarrow> ('b, execution_lease) act" where
  "finish_restart_start mg record =
     and_then (lift (record_execution_id record)) (\<lambda>i.
     and_then (attempt (host_call (be_start mg record))) (\<lambda>started.
       (case started of
          Inr handle \<Rightarrow>
            and_then (lift (handle_validate handle i)) (\<lambda>_.
              complete_restart_with_handle mg record handle)
        | Inl e \<Rightarrow> resolve_restart_start_error mg record e)))"

definition confirm_restart_kill ::
    "('b, 'j) manager \<Rightarrow> box_record \<Rightarrow> u64 option \<Rightarrow> ('b, unit) act" where
  "confirm_restart_kill mg record stop_timeout_secs =
     and_then (attempt (host_call (be_stop_for_restart mg record stop_timeout_secs))) (\<lambda>result.
       (case result of
          Inr _ \<Rightarrow> ret ()
        | Inl (MgrNotFound _) \<Rightarrow> ret ()
        | Inl e \<Rightarrow>
            and_then (attempt (host_call (be_inspect mg record))) (\<lambda>inspected.
              if (case inspected of
                    Inl (MgrNotFound _) \<Rightarrow> True
                  | Inr observation \<Rightarrow> ob_state observation \<in> {ES_Stopped, ES_Failed}
                  | Inl _ \<Rightarrow> False)
              then ret () else throw e)))"

definition finish_restart_stop ::
    "('b, 'j) manager \<Rightarrow> box_record \<Rightarrow> ('b, execution_lease) act" where
  "finish_restart_stop mg record =
     and_then (lift (restart_intent_of record)) (\<lambda>intent.
     and_then (only_if (ri_source_state intent \<in> {Running, Paused})
         (confirm_restart_kill mg record (ri_stop_timeout_secs intent))) (\<lambda>_.
     and_then (release_execution_resources mg record) (\<lambda>_.
     and_then (lift (record_execution_id record)) (\<lambda>i.
     and_then (attempt (mgr_transition mg record RestartStopping RestartStarting RestartAdvance))
       (\<lambda>result.
       (case result of
          Inr starting \<Rightarrow> finish_restart_start mg starting
        | Inl (MgrConflict _ _) \<Rightarrow>
            and_then (mgr_require mg i) (\<lambda>current.
            and_then (lift (completed_restart_result current (ri_source_generation intent)
                (ri_operation_id intent) (intent_options intent))) (\<lambda>completed.
              (case completed of
                 Some completed_result \<Rightarrow> lift completed_result
               | None \<Rightarrow>
                   and_then (lift (require_matching_restart current (ri_source_generation intent)
                       (ri_operation_id intent) (intent_options intent))) (\<lambda>_.
                   and_then (lift (support_managed_state current)) (\<lambda>state.
                     if state \<noteq> RestartStarting then
                       throw (Unavailable (''restart teardown for '' @ execution_id_str i @
                         '' is owned by another caller''))
                     else finish_restart_start mg current)))))
        | Inl e \<Rightarrow> throw e))))))"

definition continue_restart ::
    "('b, 'j) manager \<Rightarrow> box_record \<Rightarrow> ('b, execution_lease) act" where
  "continue_restart mg record =
     and_then (lift (support_managed_state record)) (\<lambda>state.
       if state = RestartStopping then finish_restart_stop mg record
       else if state = RestartStarting then finish_restart_start mg record
       else throw (Internal (''restart continuation reached state '' @ as_status state @ '' for '' @
              rec_id record)))"

definition resume_restart :: "('b, 'j) manager \<Rightarrow> box_record \<Rightarrow> ('b, execution_lease) act" where
  "resume_restart mg record =
     and_then (lift (restart_intent_of record)) (\<lambda>_. continue_restart mg record)"

definition claim_restart ::
    "('b, 'j) manager \<Rightarrow> box_record \<Rightarrow> managed_execution_state \<Rightarrow> execution_generation \<Rightarrow>
     operation_id \<Rightarrow> restart_execution_options \<Rightarrow> ('b, execution_lease) act" where
  "claim_restart mg record state expected_generation operation_id options =
     and_then (lift (record_execution_id record)) (\<lambda>i.
     and_then (lift (require_generation record i expected_generation)) (\<lambda>_.
     and_then (lift (ensure_restart_generation_available i expected_generation)) (\<lambda>_.
     and_then (lift (ensure_restart_timeout_valid i
         (case restart_stop_timeout_secs options of
            None \<Rightarrow> rec_stop_timeout record | Some timeout \<Rightarrow> Some timeout))) (\<lambda>_.
     and_then (attempt (mgr_transition mg record state RestartStopping
         (RestartClaim operation_id options))) (\<lambda>claim.
       (case claim of
          Inr claimed \<Rightarrow> continue_restart mg claimed
        | Inl (MgrConflict _ _) \<Rightarrow>
            and_then (mgr_require mg i) (\<lambda>current.
            and_then (lift (completed_restart_result current expected_generation operation_id
                options)) (\<lambda>completed.
              (case completed of
                 Some completed_result \<Rightarrow> lift completed_result
               | None \<Rightarrow>
                   and_then (lift (require_matching_restart current expected_generation
                       operation_id options)) (\<lambda>_. continue_restart mg current))))
        | Inl e \<Rightarrow> throw e))))))"

definition restart_record ::
    "('b, 'j) manager \<Rightarrow> box_record \<Rightarrow> execution_generation \<Rightarrow> operation_id \<Rightarrow>
     restart_execution_options \<Rightarrow> ('b, execution_lease) act" where
  "restart_record mg record0 expected_generation operation_id options =
     and_then (lift (validate_record_health record0)) (\<lambda>_.
     and_then (stabilize_snapshot mg record0) (\<lambda>record.
     and_then (lift (completed_restart_result record expected_generation operation_id options))
       (\<lambda>completed.
       (case completed of
          Some completed_result \<Rightarrow> lift completed_result
        | None \<Rightarrow>
            if (case rec_managed_execution record of
                  None \<Rightarrow> False | Some metadata \<Rightarrow> me_operation_id metadata = operation_id)
            then
              and_then (lift (record_execution_id record)) (\<lambda>i.
                throw (MgrConflict i (''operation '' @ operation_id_str operation_id @
                  '' is already the execution creation identity'')))
            else
              and_then (lift (support_managed_state record)) (\<lambda>state.
                if state \<in> {RestartStopping, RestartStarting} then
                  and_then (lift (require_matching_restart record expected_generation operation_id
                      options)) (\<lambda>_. continue_restart mg record)
                else if state \<in> {Created, Running, Paused, Stopped, Failed} then
                  claim_restart mg record state expected_generation operation_id options
                else
                  and_then (lift (record_execution_id record)) (\<lambda>i.
                    throw (MgrConflict i (''cannot restart execution in state '' @
                      as_status state))))))))"

end
