(* ===== verification/Local_Api.thy ===== *)
theory Local_Api
  imports Local_Operations
begin

text \<open>
  Observation and recovery (\<open>recovery.rs\<close>), removal (\<open>remove.rs\<close>) and the \<open>ExecutionManager\<close>
  implementation of the local manager (\<open>api.rs\<close>), with the trait's provided \<open>create_and_start\<close>
  (\<open>core/src/traits/execution.rs\<close>).
\<close>

section \<open>Observation (\<open>recovery.rs\<close>)\<close>

text \<open>The backend no longer knows the execution.\<close>

definition observe_absent ::
    "('b, 'j) manager \<Rightarrow> box_record \<Rightarrow> managed_execution_state \<Rightarrow>
     ('b, box_record \<times> execution_state) act" where
  "observe_absent mg record internal =
     (if internal \<in> {Starting, RestartStopping, RestartStarting} then ret (record, ES_Creating)
      else
        let terminal = (if internal = Killing then Stopped else Failed) in
        and_then (release_execution_resources mg record) (\<lambda>_.
        and_then (mgr_transition mg record internal terminal (Terminal None)) (\<lambda>record'.
          ret (record', if terminal = Stopped then ES_Stopped else ES_Failed))))"

text \<open>The backend reported a state; the cases are in the order of the source.\<close>

definition observe_present ::
    "('b, 'j) manager \<Rightarrow> box_record \<Rightarrow> execution_id \<Rightarrow> managed_execution_state \<Rightarrow>
     local_execution_observation \<Rightarrow> ('b, box_record \<times> execution_state) act" where
  "observe_present mg record i internal observation =
     (let state = ob_state observation in
      if internal = Starting \<and> state = ES_Running then
        and_then (lift (required_handle observation i)) (\<lambda>handle.
        and_then (complete_with_handle mg record internal Running handle) (\<lambda>record'.
          ret (record', ES_Running)))
      else if internal = Starting \<and> state = ES_Creating then ret (record, ES_Creating)
      else if internal = Pausing \<and> state = ES_Paused then
        and_then (lift (required_handle observation i)) (\<lambda>handle.
        and_then (complete_with_handle mg record internal Paused handle) (\<lambda>record'.
          ret (record', ES_Paused)))
      else if internal = Pausing \<and> state \<in> {ES_Running, ES_Creating} then ret (record, ES_Running)
      else if internal = Resuming \<and> state = ES_Running then
        and_then (lift (required_handle observation i)) (\<lambda>handle.
        and_then (complete_with_handle mg record internal Running handle) (\<lambda>record'.
          ret (record', ES_Running)))
      else if internal = Resuming \<and> state \<in> {ES_Paused, ES_Creating} then ret (record, ES_Paused)
      else if internal = Killing \<and> state \<in> {ES_Running, ES_Paused, ES_Creating} then
        ret (record, state)
      else if internal = RestartStopping \<and> state \<in> {ES_Running, ES_Paused} then
        ret (record, state)
      else if internal = RestartStopping then ret (record, ES_Creating)
      else if internal = RestartStarting \<and> state = ES_Running then
        and_then (lift (required_handle observation i)) (\<lambda>handle.
        and_then (complete_restart_with_handle mg record handle) (\<lambda>_.
        and_then (mgr_require mg i) (\<lambda>current. ret (current, ES_Running))))
      else if internal = RestartStarting \<and> state \<in> {ES_Created, ES_Creating} then
        ret (record, ES_Creating)
      else if internal = RestartStarting \<and> state \<in> {ES_Stopped, ES_Failed} then
        and_then (mgr_transition mg record RestartStarting Failed
          (RestartFailedUpd (ob_exit_code observation))) (\<lambda>record'. ret (record', ES_Failed))
      else if internal = Running \<and> state = ES_Running then ret (record, ES_Running)
      else if internal = Paused \<and> state = ES_Paused then ret (record, ES_Paused)
      else if state \<in> {ES_Stopped, ES_Failed} then
        let target = (if state = ES_Stopped then Stopped else Failed) in
        and_then (release_execution_resources mg record) (\<lambda>_.
        and_then (mgr_transition mg record internal target (Terminal (ob_exit_code observation)))
          (\<lambda>record'. ret (record', state)))
      else throw (Internal (''persisted state '' @ as_status internal @
             '' disagrees with backend state '' @ debug_execution_state state @ '' for '' @
             execution_id_str i)))"

definition observe_backend ::
    "('b, 'j) manager \<Rightarrow> box_record \<Rightarrow> managed_execution_state \<Rightarrow>
     ('b, box_record \<times> execution_state) act" where
  "observe_backend mg record internal =
     and_then (lift (record_execution_id record)) (\<lambda>i.
     and_then (attempt (host_call (be_inspect mg record))) (\<lambda>inspected.
       (case inspected of
          Inr observation \<Rightarrow>
            and_then (lift (observation_validate observation i)) (\<lambda>_.
              observe_present mg record i internal observation)
        | Inl (MgrNotFound _) \<Rightarrow> observe_absent mg record internal
        | Inl e \<Rightarrow> throw e)))"

text \<open>The states the manager answers for without asking the backend.\<close>

definition observe_settled ::
    "('b, 'j) manager \<Rightarrow> box_record \<Rightarrow> managed_execution_state \<Rightarrow>
     ('b, box_record \<times> execution_state) act" where
  "observe_settled mg record internal =
     (if internal \<in> {Creating, Created} then ret (record, ES_Created)
      else if internal = Stopped then ret (record, ES_Stopped)
      else if internal = Failed then ret (record, ES_Failed)
      else if internal = Removing then
        and_then (lift (record_execution_id record)) (\<lambda>i.
          throw (MgrConflict i ''execution removal is in progress''))
      else if internal = RestartStopping then
        and_then (lift (record_execution_id record)) (\<lambda>i.
        and_then (lift (pending_restart_source_state record i)) (\<lambda>source_state.
          if source_state \<in> {Created, Stopped, Failed} then ret (record, ES_Creating)
          else observe_backend mg record internal))
      else observe_backend mg record internal)"

definition observe_record ::
    "('b, 'j) manager \<Rightarrow> box_record \<Rightarrow> ('b, box_record \<times> execution_state) act" where
  "observe_record mg record =
     and_then (lift (support_managed_state record)) (\<lambda>internal.
       if internal = Pausing then
         and_then (lift (record_execution_id record)) (\<lambda>i.
         and_then (lift (pending_pause_policy record i)) (\<lambda>keep_memory.
           if \<not> keep_memory then
             and_then (finish_pause mg record) (\<lambda>_.
             and_then (mgr_require mg i) (\<lambda>current. ret (current, ES_Paused)))
           else observe_settled mg record internal))
       else if internal = Resuming then
         and_then (lift (record_execution_id record)) (\<lambda>i.
         and_then (lift (paused_with_memory record i)) (\<lambda>memory.
           if \<not> memory then
             and_then (finish_resume mg record) (\<lambda>_.
             and_then (mgr_require mg i) (\<lambda>current. ret (current, ES_Running)))
           else observe_settled mg record internal))
       else if internal = Paused then
         and_then (lift (record_execution_id record)) (\<lambda>i.
         and_then (lift (paused_with_memory record i)) (\<lambda>memory.
           if \<not> memory then ret (record, ES_Paused)
           else observe_settled mg record internal))
       else observe_settled mg record internal)"

definition recover_start ::
    "('b, 'j) manager \<Rightarrow> box_record \<Rightarrow> ('b, reconcile_outcome) act" where
  "recover_start mg record =
     and_then (lift (support_managed_state record)) (\<lambda>state.
       if state = Starting then
         and_then (attempt (host_call (be_inspect mg record))) (\<lambda>inspected.
           (case inspected of
              Inl (MgrNotFound _) \<Rightarrow>
                and_then (mgr_transition mg record Starting Created UpdNone) (\<lambda>created.
                and_then (claim_and_start mg created Created) (\<lambda>lease. ret (Ready lease)))
            | Inr observation \<Rightarrow>
                and_then (lift (record_execution_id record)) (\<lambda>i.
                and_then (lift (observation_validate observation i)) (\<lambda>_.
                  if ob_state observation = ES_Running then
                    and_then (lift (required_handle observation i)) (\<lambda>handle.
                    and_then (complete_with_handle mg record Starting Running handle) (\<lambda>running.
                    and_then (lift (lease_from_record running)) (\<lambda>lease. ret (Ready lease))))
                  else if ob_state observation = ES_Creating then ret RO_Creating
                  else
                    and_then (mgr_transition mg record Starting Failed
                      (Terminal (ob_exit_code observation))) (\<lambda>failed.
                      lift (outcome_from_record failed ES_Failed))))
            | Inl e \<Rightarrow> throw e))
       else and_then (claim_and_start mg record Created) (\<lambda>lease. ret (Ready lease)))"

section \<open>Removal (\<open>remove.rs\<close>)\<close>

definition mgr_finish_remove :: "('b, 'j) manager \<Rightarrow> box_record \<Rightarrow> ('b, bool) act" where
  "mgr_finish_remove mg record =
     and_then (lift (record_execution_id record)) (\<lambda>i.
     and_then (lift (record_generation record i)) (\<lambda>expected_generation.
     and_then (release_execution_resources mg record) (\<lambda>_.
     and_then (host_call (fs_cleanup_paths mg record)) (\<lambda>_.
       store_call mg (\<lambda>flt d. finish_remove flt i expected_generation d)))))"

definition remove_execution ::
    "('b, 'j) manager \<Rightarrow> execution_id \<Rightarrow> execution_generation \<Rightarrow> ('b, bool) act" where
  "remove_execution mg i expected_generation =
     and_then (lifecycle_lock mg (execution_id_str i)) (\<lambda>_.
     and_then (store_call mg (\<lambda>flt d. begin_remove flt i expected_generation d)) (\<lambda>claimed.
       (case claimed of
          None \<Rightarrow> ret False
        | Some record \<Rightarrow> mgr_finish_remove mg record)))"

section \<open>The manager's interface (\<open>api.rs\<close>)\<close>

definition api_create ::
    "('b, 'j) manager \<Rightarrow> create_execution_request \<Rightarrow> operation_id \<Rightarrow>
     ('b, execution_reservation) act" where
  "api_create mg request operation_id w =
     and_then (lift (execution_id_new (mg_uuid mg (w_tick w)))) (\<lambda>i.
     and_then (lift (build_managed_record (mg_home_dir mg) i operation_id request
         (mg_now mg (w_tick w)))) (\<lambda>record.
     and_then (mgr_reserve mg record) (\<lambda>reservation.
       lift (reservation_from_record (reservation_record reservation))))) w"

definition api_start ::
    "('b, 'j) manager \<Rightarrow> execution_id \<Rightarrow> execution_generation \<Rightarrow> ('b, execution_lease) act" where
  "api_start mg i expected_generation =
     and_then (lifecycle_lock mg (execution_id_str i)) (\<lambda>_.
     and_then (mgr_require mg i) (\<lambda>record.
     and_then (lift (validate_record_health record)) (\<lambda>_.
     and_then (lift (require_generation record i expected_generation)) (\<lambda>_.
       ensure_started mg record))))"

definition create_and_start ::
    "('b, 'j) manager \<Rightarrow> create_execution_request \<Rightarrow> operation_id \<Rightarrow> ('b, execution_lease) act" where
  "create_and_start mg request operation_id =
     and_then (api_create mg request operation_id) (\<lambda>reservation.
       api_start mg (rsv_execution_id reservation) (rsv_generation reservation))"

definition api_inspect :: "('b, 'j) manager \<Rightarrow> execution_id \<Rightarrow> ('b, execution_status) act" where
  "api_inspect mg i =
     and_then (lifecycle_lock mg (execution_id_str i)) (\<lambda>_.
     and_then (mgr_require mg i) (\<lambda>record0.
     and_then (stabilize_snapshot mg record0) (\<lambda>record.
     and_then (observe_record mg record) (\<lambda>(record', state).
       lift (status_from_record record' state)))))"

definition create_filesystem_snapshot ::
    "('b, 'j) manager \<Rightarrow> execution_id \<Rightarrow> execution_generation \<Rightarrow> execution_snapshot_id \<Rightarrow>
     ('b, execution_snapshot) act" where
  "create_filesystem_snapshot mg i expected_generation snapshot_id =
     and_then (lifecycle_lock mg (execution_id_str i)) (\<lambda>_.
       create_snapshot mg i expected_generation snapshot_id)"

definition api_pause ::
    "('b, 'j) manager \<Rightarrow> execution_id \<Rightarrow> execution_generation \<Rightarrow> bool \<Rightarrow>
     ('b, execution_lease) act" where
  "api_pause mg i expected_generation keep_memory =
     and_then (lifecycle_lock mg (execution_id_str i)) (\<lambda>_.
     and_then (mgr_require mg i) (\<lambda>record0.
     and_then (stabilize_snapshot mg record0) (\<lambda>record.
     and_then (lift (require_generation record i expected_generation)) (\<lambda>_.
     and_then (lift (support_managed_state record)) (\<lambda>state.
       if state \<noteq> Running then throw (state_conflict record i ''pause'')
       else
         and_then (mgr_transition mg record Running Pausing (PauseClaim keep_memory)) (\<lambda>claimed.
           finish_pause mg claimed))))))"

definition api_resume ::
    "('b, 'j) manager \<Rightarrow> execution_id \<Rightarrow> execution_generation \<Rightarrow> ('b, execution_lease) act" where
  "api_resume mg i expected_generation =
     and_then (lifecycle_lock mg (execution_id_str i)) (\<lambda>_.
     and_then (mgr_require mg i) (\<lambda>record0.
     and_then (stabilize_snapshot mg record0) (\<lambda>record.
     and_then (lift (require_generation record i expected_generation)) (\<lambda>_.
     and_then (lift (support_managed_state record)) (\<lambda>state.
       if state \<noteq> Paused then throw (state_conflict record i ''resume'')
       else
         and_then (mgr_transition mg record Paused Resuming UpdNone) (\<lambda>claimed.
           finish_resume mg claimed))))))"

definition restart_with_options ::
    "('b, 'j) manager \<Rightarrow> execution_id \<Rightarrow> execution_generation \<Rightarrow> operation_id \<Rightarrow>
     restart_execution_options \<Rightarrow> ('b, execution_lease) act" where
  "restart_with_options mg i expected_generation operation_id options =
     and_then (lifecycle_lock mg (execution_id_str i)) (\<lambda>_.
     and_then (mgr_require mg i) (\<lambda>record.
     and_then (lift (validate_record_health record)) (\<lambda>_.
       restart_record mg record expected_generation operation_id options)))"

definition kill_with_options ::
    "('b, 'j) manager \<Rightarrow> execution_id \<Rightarrow> execution_generation \<Rightarrow> kill_execution_options \<Rightarrow>
     ('b, kill_outcome) act" where
  "kill_with_options mg i expected_generation options =
     and_then (lift (validate_kill_options options)) (\<lambda>_.
     and_then (lifecycle_lock mg (execution_id_str i)) (\<lambda>_.
     and_then (mgr_require mg i) (\<lambda>record0.
     and_then (stabilize_snapshot mg record0) (\<lambda>record.
     and_then (lift (require_generation record i expected_generation)) (\<lambda>_.
     and_then (lift (support_managed_state record)) (\<lambda>state.
       if is_terminal state then ret AlreadyStopped
       else if state \<in> {RestartStopping, RestartStarting} then
         throw (state_conflict record i ''kill'')
       else
         and_then (if state = Killing then ret record
                   else mgr_transition mg record state Killing (KillClaim options)) (\<lambda>claimed.
           finish_kill mg claimed)))))))"

definition api_kill ::
    "('b, 'j) manager \<Rightarrow> execution_id \<Rightarrow> execution_generation \<Rightarrow> ('b, kill_outcome) act" where
  "api_kill mg i expected_generation =
     kill_with_options mg i expected_generation \<lparr>kill_signal = None, kill_timeout_secs = None\<rparr>"

definition reconcile_record ::
    "('b, 'j) manager \<Rightarrow> box_record \<Rightarrow> ('b, reconcile_outcome) act" where
  "reconcile_record mg record =
     and_then (lift (validate_record_health record)) (\<lambda>_.
     and_then (lift (support_managed_state record)) (\<lambda>internal.
       if internal \<in> {Creating, Created} then
         and_then (lift (reservation_from_record record)) (\<lambda>reservation.
           ret (RO_Created reservation))
       else if internal = Starting then recover_start mg record
       else if internal = Pausing then
         and_then (observe_record mg record) (\<lambda>(record', state).
         and_then (lift (support_managed_state record')) (\<lambda>internal'.
           if internal' = Pausing \<and> state = ES_Running then
             and_then (finish_pause mg record') (\<lambda>lease. ret (Ready lease))
           else lift (outcome_from_record record' state)))
       else if internal = Resuming then
         and_then (observe_record mg record) (\<lambda>(record', state).
         and_then (lift (support_managed_state record')) (\<lambda>internal'.
           if internal' = Resuming \<and> state = ES_Paused then
             and_then (finish_resume mg record') (\<lambda>lease. ret (Ready lease))
           else lift (outcome_from_record record' state)))
       else if internal = Snapshotting then
         and_then (recover_snapshot mg record) (\<lambda>lease. ret (Ready lease))
       else if internal = Killing then
         and_then (finish_kill mg record) (\<lambda>_. ret RO_Failed)
       else if internal = Removing then
         and_then (mgr_finish_remove mg record) (\<lambda>_. ret Absent)
       else if internal \<in> {RestartStopping, RestartStarting} then
         and_then (resume_restart mg record) (\<lambda>lease. ret (Ready lease))
       else
         and_then (observe_record mg record) (\<lambda>(record', state).
           lift (outcome_from_record record' state))))"

definition api_reconcile ::
    "('b, 'j) manager \<Rightarrow> operation_id \<Rightarrow> ('b, reconcile_outcome) act" where
  "api_reconcile mg operation_id =
     and_then (mgr_get_by_operation mg operation_id) (\<lambda>initial.
       (case initial of
          None \<Rightarrow> ret Absent
        | Some initial_record \<Rightarrow>
            and_then (lifecycle_lock mg (rec_id initial_record)) (\<lambda>_.
            and_then (mgr_get_by_operation mg operation_id) (\<lambda>again.
              (case again of
                 None \<Rightarrow> ret Absent
               | Some record \<Rightarrow>
                   if rec_id record \<noteq> rec_id initial_record then
                     throw (Unavailable (''operation '' @ operation_id_str operation_id @
                       '' changed execution identity while waiting for its lifecycle lock''))
                   else reconcile_record mg record)))))"

end
