(* ===== verification/Manager_Relation.thy ===== *)
theory Manager_Relation
  imports Local_Api
begin

text \<open>
  How the operations of the manager change a world. The locale \<open>manager_relation\<close> is the interface
  between the operations and the calls they are made of: a reflexive and transitive relation that
  every store call, host call and lock keeps is kept by every operation. Its interpretation on the
  repository's step relation says that the manager changes the state file only through the
  repository's operations, so the invariants of the repository hold for the manager.
\<close>

locale manager_relation =
  fixes mg :: "('b, 'j) manager"
    and R :: "'b world \<Rightarrow> 'b world \<Rightarrow> bool"
  assumes R_refl: "R w w"
    and R_trans: "R w w' \<Longrightarrow> R w' w'' \<Longrightarrow> R w w''"
    and R_host: "R w (w\<lparr>w_backend := b, w_resources := rw\<rparr>)"
    and R_tick: "R w (w\<lparr>w_tick := Suc (w_tick w)\<rparr>)"
    and R_read: "R w (w\<lparr>w_disk := mg_interfere mg (w_tick w) (w_disk w), w_tick := Suc (w_tick w)\<rparr>)"
    and R_reserve: "R w (snd (store_call mg (\<lambda>flt d. reserve (mg_to_value mg) flt rec d) w))"
    and R_transition: "R w (snd (store_call mg
      (\<lambda>flt d. transition_with (mg_to_value mg) flt i g s t u d) w))"
    and R_begin_remove: "R w (snd (store_call mg (\<lambda>flt d. begin_remove flt i g d) w))"
    and R_finish_remove: "R w (snd (store_call mg (\<lambda>flt d. finish_remove flt i g d) w))"
begin

definition keeps :: "('b, 'a) act \<Rightarrow> bool" where
  "keeps m \<longleftrightarrow> (\<forall>w. R w (snd (m w)))"

lemma keepsD: "keeps m \<Longrightarrow> m w = (r, w') \<Longrightarrow> R w w'"
  unfolding keeps_def by (metis snd_conv)

lemma keeps_ret: "keeps (ret x)"
  by (simp add: keeps_def R_refl)

lemma keeps_throw: "keeps (throw e)"
  by (simp add: keeps_def R_refl)

lemma keeps_lift: "keeps (lift r)"
  by (cases r) (simp_all add: keeps_ret keeps_throw)

lemma keeps_and_then:
  assumes "keeps m" and "\<And>x. keeps (k x)"
  shows "keeps (and_then m k)"
  unfolding keeps_def
proof
  fix w
  obtain r w' where m: "m w = (r, w')" by (cases "m w")
  have step: "R w w'" using keepsD [OF assms(1) m] .
  show "R w (snd (and_then m k w))"
  proof (cases r)
    case (Inl e)
    with m step show ?thesis by (simp add: and_then_def)
  next
    case (Inr x)
    have "R w' (snd (k x w'))" using assms(2) by (simp add: keeps_def)
    with m Inr step show ?thesis by (auto simp: and_then_def intro: R_trans)
  qed
qed

lemma keeps_attempt:
  assumes "keeps m"
  shows "keeps (attempt m)"
  unfolding keeps_def
proof
  fix w
  obtain r w' where "m w = (r, w')" by (cases "m w")
  with keepsD [OF assms this] show "R w (snd (attempt m w))" by (simp add: attempt_def)
qed

lemma keeps_ok_option: "keeps m \<Longrightarrow> keeps (ok_option m)"
  unfolding ok_option_def by (intro keeps_and_then keeps_attempt keeps_ret)

lemma keeps_only_if: "keeps m \<Longrightarrow> keeps (only_if c m)"
  by (simp add: only_if_def keeps_ret)

lemma keeps_host_call: "keeps (host_call f)"
  by (simp add: keeps_def host_call_def Let_def split_beta R_host)

lemma keeps_release: "keeps (release_execution_resources mg record)"
  unfolding keeps_def
proof
  fix w :: "'b world"
  obtain r rw where "release_resources (home_stores (mg_home_dir mg))
      (mg_resource_faults mg (w_tick w)) record (w_resources w) = (r, rw)" by fastforce
  then have "snd (release_execution_resources mg record w) =
      (w\<lparr>w_backend := w_backend w, w_resources := rw\<rparr>)\<lparr>w_tick := Suc (w_tick w)\<rparr>"
    by (simp add: release_execution_resources_def)
  moreover have "R w (w\<lparr>w_backend := w_backend w, w_resources := rw\<rparr>)" by (rule R_host)
  ultimately show "R w (snd (release_execution_resources mg record w))"
    using R_tick [of "w\<lparr>w_backend := w_backend w, w_resources := rw\<rparr>"] R_trans by simp
qed

lemma keeps_lock: "keeps (lifecycle_lock mg i)"
  by (auto simp: keeps_def lifecycle_lock_def R_refl R_tick split: sum.splits option.splits)

lemma keeps_get: "keeps (mgr_get mg i)"
  by (simp add: keeps_def mgr_get_def store_call_def Let_def R_read)

lemma keeps_get_by_operation: "keeps (mgr_get_by_operation mg oid)"
  by (simp add: keeps_def mgr_get_by_operation_def store_call_def Let_def R_read)

lemma keeps_require: "keeps (mgr_require mg i)"
  unfolding mgr_require_def by (intro keeps_and_then keeps_get keeps_lift)

lemma keeps_store_reserve: "keeps (store_call mg (\<lambda>flt d. reserve (mg_to_value mg) flt rec d))"
  by (simp add: keeps_def R_reserve)

lemma keeps_store_begin_remove: "keeps (store_call mg (\<lambda>flt d. begin_remove flt i g d))"
  by (simp add: keeps_def R_begin_remove)

lemma keeps_store_finish_remove: "keeps (store_call mg (\<lambda>flt d. finish_remove flt i g d))"
  by (simp add: keeps_def R_finish_remove)

lemma keeps_transition: "keeps (mgr_transition mg record s t u)"
proof -
  have "keeps (\<lambda>w. store_call mg (\<lambda>flt d. transition_with (mg_to_value mg) flt i g s t
      (apply_update (mg_now mg (w_tick w)) s u) d) w)" for i g
    unfolding keeps_def by (intro allI R_transition)
  then show ?thesis
    unfolding mgr_transition_def by (intro keeps_and_then keeps_lift)
qed

lemmas keeps_base =
  keeps_ret keeps_throw keeps_lift keeps_and_then keeps_attempt keeps_ok_option keeps_only_if
  keeps_host_call keeps_release keeps_lock keeps_get keeps_get_by_operation keeps_require
  keeps_store_reserve keeps_store_begin_remove keeps_store_finish_remove keeps_transition

lemma keeps_case_sum:
  "(\<And>e. keeps (f e)) \<Longrightarrow> (\<And>x. keeps (g x)) \<Longrightarrow> keeps (case r of Inl e \<Rightarrow> f e | Inr x \<Rightarrow> g x)"
  by (cases r) simp_all

lemma keeps_case_option:
  "keeps n \<Longrightarrow> (\<And>x. keeps (f x)) \<Longrightarrow> keeps (case r of None \<Rightarrow> n | Some x \<Rightarrow> f x)"
  by (cases r) simp_all

lemma keeps_case_prod: "(\<And>a b. keeps (f a b)) \<Longrightarrow> keeps (case p of (a, b) \<Rightarrow> f a b)"
  by (cases p) simp

lemma keeps_case_error:
  "(\<And>m. keeps (f1 m)) \<Longrightarrow> (\<And>i. keeps (f2 i)) \<Longrightarrow> (\<And>i m. keeps (f3 i m)) \<Longrightarrow>
   (\<And>m. keeps (f4 m)) \<Longrightarrow> (\<And>m. keeps (f5 m)) \<Longrightarrow>
     keeps (case e of InvalidRequest m \<Rightarrow> f1 m | MgrNotFound i \<Rightarrow> f2 i
       | MgrConflict i m \<Rightarrow> f3 i m | Unavailable m \<Rightarrow> f4 m | Internal m \<Rightarrow> f5 m)"
  by (cases e) simp_all

lemma keeps_case_state:
  "keeps c1 \<Longrightarrow> keeps c2 \<Longrightarrow> keeps c3 \<Longrightarrow> keeps c4 \<Longrightarrow> keeps c5 \<Longrightarrow> keeps c6 \<Longrightarrow>
     keeps (case s of ES_Created \<Rightarrow> c1 | ES_Creating \<Rightarrow> c2 | ES_Running \<Rightarrow> c3
       | ES_Paused \<Rightarrow> c4 | ES_Stopped \<Rightarrow> c5 | ES_Failed \<Rightarrow> c6)"
  by (cases s) simp_all

lemma keeps_if: "keeps a \<Longrightarrow> keeps b \<Longrightarrow> keeps (if c then a else b)"
  by simp

lemmas keeps_rules = keeps_base keeps_case_sum keeps_case_option keeps_case_prod keeps_case_error
  keeps_case_state keeps_if

lemma keeps_reserve: "keeps (mgr_reserve mg record)"
  unfolding mgr_reserve_def Let_def by (intro keeps_rules)

lemma keeps_complete_transition: "keeps (complete_transition mg record s t u)"
  unfolding complete_transition_def by (intro keeps_rules)

lemma keeps_complete_with_handle: "keeps (complete_with_handle mg record s t h)"
  unfolding complete_with_handle_def by (rule keeps_complete_transition)

lemmas keeps_store_rules = keeps_rules keeps_reserve keeps_complete_transition
  keeps_complete_with_handle

lemma keeps_start_ops:
  "keeps (resolve_start_error mg record e)"
  "keeps (ensure_started_after_lost_claim mg record)"
  unfolding resolve_start_error_def ensure_started_after_lost_claim_def
  by (intro keeps_store_rules)+

lemma keeps_claim_and_start: "keeps (claim_and_start mg record s)"
  unfolding claim_and_start_def by (intro keeps_store_rules keeps_start_ops)

lemma keeps_ensure_started: "keeps (ensure_started mg record)"
  unfolding ensure_started_def by (intro keeps_store_rules keeps_claim_and_start)

lemma keeps_pause_ops:
  "keeps (finish_cold_pause mg record)"
  "keeps (resolve_pause_error mg record)"
  unfolding finish_cold_pause_def resolve_pause_error_def by (intro keeps_store_rules)+

lemma keeps_finish_pause: "keeps (finish_pause mg record)"
  unfolding finish_pause_def by (intro keeps_store_rules keeps_pause_ops)

lemma keeps_rollback_cold_resume: "keeps (rollback_cold_resume mg record)"
  unfolding rollback_cold_resume_def by (intro keeps_store_rules)

lemma keeps_resolve_cold_resume_error: "keeps (resolve_cold_resume_error mg record e)"
  unfolding resolve_cold_resume_error_def by (intro keeps_store_rules keeps_rollback_cold_resume)

lemma keeps_cold_resume_start: "keeps (cold_resume_start mg record)"
  unfolding cold_resume_start_def by (intro keeps_store_rules keeps_resolve_cold_resume_error)

lemma keeps_resume_ops:
  "keeps (finish_cold_resume mg record)"
  "keeps (resolve_resume_error mg record)"
  unfolding finish_cold_resume_def resolve_resume_error_def
  by (intro keeps_store_rules keeps_cold_resume_start)+

lemma keeps_finish_resume: "keeps (finish_resume mg record)"
  unfolding finish_resume_def by (intro keeps_store_rules keeps_resume_ops)

lemma keeps_resolve_kill_error: "keeps (resolve_kill_error mg record)"
  unfolding resolve_kill_error_def Let_def by (intro keeps_store_rules)

lemma keeps_finish_kill: "keeps (finish_kill mg record)"
  unfolding finish_kill_def by (intro keeps_store_rules keeps_resolve_kill_error)

lemma keeps_snapshot_host_ops:
  "keeps (pause_for_snapshot mg record i)"
  "keeps (resume_for_snapshot mg record)"
  unfolding pause_for_snapshot_def resume_for_snapshot_def by (intro keeps_store_rules)+

lemma keeps_snapshot_parts:
  "keeps (restore_snapshot_source_state mg record s h)"
  "keeps (drive_cold_paused_snapshot mg record sid)"
  "keeps (quiesce_for_snapshot mg record i s ob h)"
  unfolding restore_snapshot_source_state_def drive_cold_paused_snapshot_def
    quiesce_for_snapshot_def
  by (intro keeps_store_rules keeps_snapshot_host_ops)+

lemma keeps_drive_snapshot: "keeps (drive_snapshot mg record)"
  unfolding drive_snapshot_def by (intro keeps_store_rules keeps_snapshot_parts)

lemma keeps_snapshot_ops:
  "keeps (stabilize_snapshot mg record)"
  "keeps (recover_snapshot mg record)"
  "keeps (create_snapshot mg i g sid)"
  unfolding stabilize_snapshot_def recover_snapshot_def create_snapshot_def
  by (intro keeps_store_rules keeps_drive_snapshot)+

lemma keeps_complete_restart_with_handle: "keeps (complete_restart_with_handle mg record h)"
  unfolding complete_restart_with_handle_def by (intro keeps_store_rules)

lemma keeps_publish_restart_failure: "keeps (publish_restart_failure mg record c)"
  unfolding publish_restart_failure_def by (intro keeps_store_rules)

lemma keeps_resolve_restart_start_error: "keeps (resolve_restart_start_error mg record e)"
  unfolding resolve_restart_start_error_def
  by (intro keeps_store_rules keeps_complete_restart_with_handle keeps_publish_restart_failure)

lemma keeps_finish_restart_start: "keeps (finish_restart_start mg record)"
  unfolding finish_restart_start_def
  by (intro keeps_store_rules keeps_complete_restart_with_handle
      keeps_resolve_restart_start_error)

lemma keeps_confirm_restart_kill: "keeps (confirm_restart_kill mg record t)"
  unfolding confirm_restart_kill_def by (intro keeps_store_rules)

lemma keeps_finish_restart_stop: "keeps (finish_restart_stop mg record)"
  unfolding finish_restart_stop_def
  by (intro keeps_store_rules keeps_confirm_restart_kill keeps_finish_restart_start)

lemma keeps_continue_restart: "keeps (continue_restart mg record)"
  unfolding continue_restart_def
  by (intro keeps_store_rules keeps_finish_restart_stop keeps_finish_restart_start)

lemma keeps_restart_ops:
  "keeps (resume_restart mg record)"
  "keeps (claim_restart mg record s g oid opts)"
  unfolding resume_restart_def claim_restart_def
  by (intro keeps_store_rules keeps_continue_restart)+

lemma keeps_restart_record: "keeps (restart_record mg record g oid opts)"
  unfolding restart_record_def
  by (intro keeps_store_rules keeps_snapshot_ops keeps_continue_restart keeps_restart_ops)

lemma keeps_observe_parts:
  "keeps (observe_absent mg record s)"
  "keeps (observe_present mg record i s ob)"
  unfolding observe_absent_def observe_present_def Let_def
  by (intro keeps_store_rules keeps_complete_restart_with_handle)+

lemma keeps_observe_backend: "keeps (observe_backend mg record s)"
  unfolding observe_backend_def by (intro keeps_store_rules keeps_observe_parts)

lemma keeps_observe_settled: "keeps (observe_settled mg record s)"
  unfolding observe_settled_def by (intro keeps_store_rules keeps_observe_backend)

lemma keeps_observe_record: "keeps (observe_record mg record)"
  unfolding observe_record_def
  by (intro keeps_store_rules keeps_observe_settled keeps_finish_pause keeps_finish_resume)

lemma keeps_recover_start: "keeps (recover_start mg record)"
  unfolding recover_start_def by (intro keeps_store_rules keeps_claim_and_start)

lemma keeps_finish_remove: "keeps (mgr_finish_remove mg record)"
  unfolding mgr_finish_remove_def by (intro keeps_store_rules)

lemma keeps_remove_execution: "keeps (remove_execution mg i g)"
  unfolding remove_execution_def by (intro keeps_store_rules keeps_finish_remove)

lemma keeps_create: "keeps (api_create mg request oid)"
  unfolding keeps_def
proof
  fix w
  have "keeps (and_then (lift (execution_id_new u)) (\<lambda>i.
     and_then (lift (build_managed_record (mg_home_dir mg) i oid request n)) (\<lambda>record.
     and_then (mgr_reserve mg record) (\<lambda>reservation.
       lift (reservation_from_record (reservation_record reservation))))))" for u n
    by (intro keeps_store_rules)
  then show "R w (snd (api_create mg request oid w))"
    by (simp add: keeps_def api_create_def)
qed

lemma keeps_start: "keeps (api_start mg i g)"
  unfolding api_start_def by (intro keeps_store_rules keeps_ensure_started)

lemma keeps_create_and_start: "keeps (create_and_start mg request oid)"
  unfolding create_and_start_def by (intro keeps_store_rules keeps_create keeps_start)

lemma keeps_inspect: "keeps (api_inspect mg i)"
  unfolding api_inspect_def by (intro keeps_store_rules keeps_snapshot_ops keeps_observe_record)

lemma keeps_create_filesystem_snapshot: "keeps (create_filesystem_snapshot mg i g sid)"
  unfolding create_filesystem_snapshot_def by (intro keeps_store_rules keeps_snapshot_ops)

lemma keeps_pause: "keeps (api_pause mg i g k)"
  unfolding api_pause_def by (intro keeps_store_rules keeps_snapshot_ops keeps_finish_pause)

lemma keeps_resume: "keeps (api_resume mg i g)"
  unfolding api_resume_def by (intro keeps_store_rules keeps_snapshot_ops keeps_finish_resume)

lemma keeps_restart: "keeps (restart_with_options mg i g oid opts)"
  unfolding restart_with_options_def by (intro keeps_store_rules keeps_restart_record)

lemma keeps_kill: "keeps (kill_with_options mg i g opts)"
  unfolding kill_with_options_def by (intro keeps_store_rules keeps_snapshot_ops keeps_finish_kill)

lemma keeps_reconcile_record: "keeps (reconcile_record mg record)"
  unfolding reconcile_record_def
  by (intro keeps_store_rules keeps_recover_start keeps_observe_record keeps_finish_pause
      keeps_finish_resume keeps_snapshot_ops keeps_finish_kill keeps_finish_remove
      keeps_restart_ops)

lemma keeps_reconcile: "keeps (api_reconcile mg oid)"
  unfolding api_reconcile_def by (intro keeps_store_rules keeps_reconcile_record)

end

end
