(* ===== verification/Manager_Facts.thy ===== *)
theory Manager_Facts
  imports Manager_Relation
begin

text \<open>
  What the manager's operations do to the state file. The first part runs any sequence of requests
  and places its effect within the repository's step relation. The second part evaluates
  operations in a calm environment, one without faults and without other processes writing the
  file meanwhile.
\<close>

section \<open>Requests\<close>

datatype manager_request =
    ReqCreate create_execution_request operation_id
  | ReqStart execution_id execution_generation
  | ReqCreateAndStart create_execution_request operation_id
  | ReqInspect execution_id
  | ReqSnapshot execution_id execution_generation execution_snapshot_id
  | ReqPause execution_id execution_generation bool
  | ReqResume execution_id execution_generation
  | ReqRestart execution_id execution_generation operation_id restart_execution_options
  | ReqKill execution_id execution_generation kill_execution_options
  | ReqRemove execution_id execution_generation
  | ReqReconcile operation_id

text \<open>The world after a request; its answer is dropped.\<close>

definition perform :: "('b, 'j) manager \<Rightarrow> manager_request \<Rightarrow> 'b world \<Rightarrow> 'b world" where
  "perform mg request w =
     (case request of
        ReqCreate req oid \<Rightarrow> snd (api_create mg req oid w)
      | ReqStart i g \<Rightarrow> snd (api_start mg i g w)
      | ReqCreateAndStart req oid \<Rightarrow> snd (create_and_start mg req oid w)
      | ReqInspect i \<Rightarrow> snd (api_inspect mg i w)
      | ReqSnapshot i g sid \<Rightarrow> snd (create_filesystem_snapshot mg i g sid w)
      | ReqPause i g keep \<Rightarrow> snd (api_pause mg i g keep w)
      | ReqResume i g \<Rightarrow> snd (api_resume mg i g w)
      | ReqRestart i g oid opts \<Rightarrow> snd (restart_with_options mg i g oid opts w)
      | ReqKill i g opts \<Rightarrow> snd (kill_with_options mg i g opts w)
      | ReqRemove i g \<Rightarrow> snd (remove_execution mg i g w)
      | ReqReconcile oid \<Rightarrow> snd (api_reconcile mg oid w))"

fun perform_all :: "('b, 'j) manager \<Rightarrow> manager_request list \<Rightarrow> 'b world \<Rightarrow> 'b world" where
  "perform_all mg [] w = w"
| "perform_all mg (request # requests) w = perform_all mg requests (perform mg request w)"

context manager_relation
begin

lemma perform_keeps: "R w (perform mg request w)"
  using keeps_create keeps_start keeps_create_and_start keeps_inspect
    keeps_create_filesystem_snapshot keeps_pause keeps_resume keeps_restart keeps_kill
    keeps_remove_execution keeps_reconcile
  by (cases request) (simp_all add: perform_def keeps_def)

lemma perform_all_keeps: "R w (perform_all mg requests w)"
proof (induction requests arbitrary: w)
  case Nil
  then show ?case by (simp add: R_refl)
next
  case (Cons request requests)
  show ?case using R_trans [OF perform_keeps Cons.IH] by simp
qed

end

section \<open>The manager within the repository\<close>

definition disk_step ::
    "('b, 'j) manager \<Rightarrow> box_record list disk \<Rightarrow> box_record list disk \<Rightarrow> bool" where
  "disk_step mg d d' \<longleftrightarrow> managed_step (mg_to_value mg) d d' \<or> (\<exists>n. d' = mg_interfere mg n d)"

definition disk_steps ::
    "('b, 'j) manager \<Rightarrow> 'b world \<Rightarrow> 'b world \<Rightarrow> bool" where
  "disk_steps mg w w' \<longleftrightarrow> (disk_step mg)\<^sup>*\<^sup>* (w_disk w) (w_disk w')"

lemma store_call_disk_steps:
  assumes "\<And>flt d r d'. operation flt d = (r, d') \<Longrightarrow> managed_step (mg_to_value mg) d d'"
  shows "disk_steps mg w (snd (store_call mg operation w))"
proof -
  let ?d = "mg_interfere mg (w_tick w) (w_disk w)"
  obtain r d' where op: "operation (mg_faults mg (w_tick w)) ?d = (r, d')" by fastforce
  have "disk_step mg (w_disk w) ?d" "disk_step mg ?d d'"
    using assms [OF op] by (auto simp: disk_step_def)
  then have "(disk_step mg)\<^sup>*\<^sup>* (w_disk w) d'" by simp
  then show ?thesis using op by (simp add: disk_steps_def store_call_def)
qed

interpretation mgr_disk: manager_relation mg "disk_steps mg"
proof unfold_locales
  show "disk_steps mg w w" for w :: "'a world"
    by (simp add: disk_steps_def)
  show "disk_steps mg w w''" if "disk_steps mg w w'" "disk_steps mg w' w''" for w w' w'' :: "'a world"
    using that by (simp add: disk_steps_def)
  show "disk_steps mg w (w\<lparr>w_backend := b, w_resources := rw\<rparr>)" for w :: "'a world" and b rw
    by (simp add: disk_steps_def)
  show "disk_steps mg w (w\<lparr>w_tick := Suc (w_tick w)\<rparr>)" for w :: "'a world"
    by (simp add: disk_steps_def)
  show "disk_steps mg w
      (w\<lparr>w_disk := mg_interfere mg (w_tick w) (w_disk w), w_tick := Suc (w_tick w)\<rparr>)"
    for w :: "'a world"
    by (auto simp: disk_steps_def disk_step_def intro!: r_into_rtranclp)
  show "disk_steps mg w (snd (store_call mg (\<lambda>flt d. reserve (mg_to_value mg) flt rec d) w))"
    for w :: "'a world" and rec
    by (rule store_call_disk_steps) (rule StepReserve)
  show "disk_steps mg w (snd (store_call mg
      (\<lambda>flt d. transition_with (mg_to_value mg) flt i g s t u d) w))"
    for w :: "'a world" and i g s t u
    by (rule store_call_disk_steps) (rule StepTransition)
  show "disk_steps mg w (snd (store_call mg (\<lambda>flt d. begin_remove flt i g d) w))"
    for w :: "'a world" and i g
    by (rule store_call_disk_steps) (rule StepBeginRemove)
  show "disk_steps mg w (snd (store_call mg (\<lambda>flt d. finish_remove flt i g d) w))"
    for w :: "'a world" and i g
    by (rule store_call_disk_steps) (rule StepFinishRemove)
qed

lemma disk_steps_inv:
  assumes "(disk_step mg)\<^sup>*\<^sup>* d d'" and "repository_inv d"
    and "\<And>n d. repository_inv d \<Longrightarrow> repository_inv (mg_interfere mg n d)"
  shows "repository_inv d'"
  using assms(1)
proof (induction rule: rtranclp_induct)
  case base
  then show ?case by (rule assms(2))
next
  case (step y z)
  then show ?case by (auto simp: disk_step_def intro: assms(3) dest: managed_step_keeps)
qed

section \<open>A calm environment\<close>

definition calm :: "('b, 'j) manager \<Rightarrow> bool" where
  "calm mg \<longleftrightarrow>
     (\<forall>n. mg_faults mg n = no_faults) \<and> (\<forall>n d. mg_interfere mg n d = d) \<and>
     (\<forall>n. mg_lock_fault mg n = None) \<and> (\<forall>req. \<exists>v. mg_to_value mg req = Inr v)"

text \<open>The next world after a call that changed nothing but the counter.\<close>

abbreviation ticked :: "'b world \<Rightarrow> 'b world" where
  "ticked w \<equiv> w\<lparr>w_tick := Suc (w_tick w)\<rparr>"

text \<open>The record stored under an identifier.\<close>

definition stored :: "'b world \<Rightarrow> string \<Rightarrow> box_record option" where
  "stored w j = Option.bind (strict_view (w_disk w)) (\<lambda>rs. find_by_id rs j)"

lemma calm_lock:
  assumes "calm mg" and "validate_lock_id j = Inr ()"
  shows "lifecycle_lock mg j w = (Inr (), ticked w)"
  using assms by (simp add: calm_def lifecycle_lock_def)

lemma load_readonly_calm: "strict_view d = Some rs \<Longrightarrow> load_readonly no_faults d = Inr rs"
  using load_strict_faultless [of no_faults d rs ReturnError False]
  by (simp add: load_readonly_def no_faults_def)

lemma calm_require:
  assumes "calm mg" and "stored w (execution_id_str i) = Some r"
    and "rec_managed_execution r \<noteq> None"
  shows "mgr_require mg i w = (Inr r, ticked w)"
proof -
  from assms(2) obtain rs where rs: "strict_view (w_disk w) = Some rs"
    "find_by_id rs (execution_id_str i) = Some r"
    by (auto simp: stored_def split: bind_splits)
  have "get_managed no_faults i (w_disk w) = Inr (Some r)"
    using rs assms(3) by (simp add: get_managed_def load_readonly_calm)
  then show ?thesis
    using assms(1) by (simp add: mgr_require_def mgr_get_def store_call_def calm_def and_then_def)
qed

section \<open>Transitions in a calm environment\<close>

lemmas record_updates = update_metadata_def set_pending_def apply_handle_def initialize_health_def
  apply_start_handle_def apply_restart_handle_def clear_live_runtime_def
  clear_live_runtime_for_cold_pause_def

lemma apply_update_id [simp]: "rec_id (apply_update now s u r) = rec_id r"
  by (cases u) (simp_all add: apply_update_def record_updates)

text \<open>No update of the manager touches the creation identity or the restart history.\<close>

lemma apply_update_metadata:
  assumes "rec_managed_execution r = Some m"
  obtains um where "rec_managed_execution (apply_update now s u r) = Some um"
    "me_operation_id um = me_operation_id m" "me_request um = me_request m"
    "me_plan um = me_plan m" "me_last_restart um = me_last_restart m"
    "me_generation um = me_generation m"
  using assms by (cases u) (auto simp: apply_update_def record_updates)

text \<open>The record after a transition that is not the end of a restart.\<close>

definition moved ::
    "managed_execution_state \<Rightarrow> execution_generation \<Rightarrow> managed_execution_operation option \<Rightarrow>
     box_record \<Rightarrow> box_record" where
  "moved t g p r =
     (update_metadata (\<lambda>m. m\<lparr>me_generation := g, me_pending_operation := p\<rparr>) r)
       \<lparr>rec_status := as_status t\<rparr>"

lemma metadata_validate_cong:
  assumes "me_request m' = me_request m" and "me_plan m' = me_plan m"
    and "me_last_restart m' = me_last_restart m"
  shows "metadata_validate m' = metadata_validate m"
  using assms by (simp add: metadata_validate_def cong: if_cong)

lemma valid_records_update:
  assumes "valid_records rs" and "find_by_id rs j = Some r" and "rec_id r' = j"
    and "rec_managed_execution r = Some m" and "rec_managed_execution r' = Some m'"
    and "me_operation_id m' = me_operation_id m" and "metadata_validate m' = Inr ()"
    and "managed_state r' = Inr (Some t)"
  shows "valid_records (update_by_id rs j (\<lambda>_. r'))"
proof -
  from assms(2) obtain pre post where split: "rs = pre @ r # post"
    "update_by_id rs j (\<lambda>_. r') = pre @ r' # post"
    using update_first_split [of "\<lambda>x. rec_id x = j" rs r]
    by (auto simp: find_by_id_def update_by_id_def)
  have "rec_id r = j" using find_by_id_SomeD [OF assms(2)] by simp
  with assms split show ?thesis
    by (auto simp: valid_records_iff valid_managed_record_def)
qed

text \<open>A record in the store of a world, with its state and metadata.\<close>

definition in_state ::
    "'b world \<Rightarrow> box_record \<Rightarrow> managed_execution_state \<Rightarrow> managed_execution_metadata \<Rightarrow> bool" where
  "in_state w r s m \<longleftrightarrow>
     stored w (rec_id r) = Some r \<and> rec_managed_execution r = Some m \<and>
     managed_state r = Inr (Some s)"

lemma in_stateD:
  assumes "in_state w r s m"
  obtains rs where "strict_view (w_disk w) = Some rs" "find_by_id rs (rec_id r) = Some r"
    "rec_managed_execution r = Some m" "managed_state r = Inr (Some s)" "valid_records rs"
    "metadata_validate m = Inr ()" "record_execution_id r = Inr (ExecutionId (rec_id r))"
proof -
  from assms obtain rs where rs: "strict_view (w_disk w) = Some rs"
    "find_by_id rs (rec_id r) = Some r" "rec_managed_execution r = Some m"
    "managed_state r = Inr (Some s)"
    by (auto simp: in_state_def stored_def split: bind_splits)
  have v: "valid_records rs" using strict_view_Some_valid [OF rs(1)] .
  have "valid_managed_record r"
    using v find_by_id_SomeD [OF rs(2)] by (simp add: valid_records_iff)
  then have "metadata_validate m = Inr ()" "trim (rec_id r) \<noteq> []"
    using rs(3) by (auto simp: valid_managed_record_def)
  then show ?thesis
    using that rs v by (simp add: record_execution_id_def execution_id_new_def)
qed

text \<open>The general case: \<open>c\<close> is the metadata after the completion of a restart was recorded.\<close>

lemma calm_move_completing:
  assumes "calm mg" and "in_state w r s m"
    and "transition_generation (ExecutionId (rec_id r)) s t (me_generation m) = Inr h"
    and "rec_managed_execution (apply_update (mg_now mg (w_tick w)) s u r) = Some um"
    and "record_completion (ExecutionId (rec_id r)) s t h (um\<lparr>me_generation := h\<rparr>) = Inr c"
    and "next_pending (ExecutionId (rec_id r)) t (me_pending_operation c) = Inr p"
    and "validate_pending_operation t (c\<lparr>me_pending_operation := p\<rparr>) = Inr ()"
    and "metadata_validate (c\<lparr>me_pending_operation := p\<rparr>) = Inr ()"
    and "r' = (apply_update (mg_now mg (w_tick w)) s u r)\<lparr>rec_status := as_status t,
      rec_managed_execution := Some (c\<lparr>me_pending_operation := p\<rparr>)\<rparr>"
  shows "\<exists>w'. mgr_transition mg r s t u w = (Inr r', w') \<and>
    in_state w' r' t (c\<lparr>me_pending_operation := p\<rparr>) \<and>
    w_backend w' = w_backend w \<and> w_resources w' = w_resources w"
proof -
  let ?i = "ExecutionId (rec_id r)"
  let ?u = "apply_update (mg_now mg (w_tick w)) s u"
  let ?m = "c\<lparr>me_pending_operation := p\<rparr>"
  obtain rs where rs: "strict_view (w_disk w) = Some rs" "find_by_id rs (rec_id r) = Some r"
    "rec_managed_execution r = Some m" "managed_state r = Inr (Some s)" "valid_records rs"
    "metadata_validate m = Inr ()" "record_execution_id r = Inr ?i"
    by (rule in_stateD [OF assms(2)]) blast
  have um: "me_operation_id um = me_operation_id m" "me_request um = me_request m"
    "me_plan um = me_plan m"
    using apply_update_metadata [OF rs(3), of "mg_now mg (w_tick w)" s u] assms(4)
    by (metis option.inject)+
  note c = record_completion_keeps [OF assms(5)]
  obtain v where v: "mg_to_value mg (me_request m) = Inr v"
    using assms(1) unfolding calm_def by blast
  have r': "rec_managed_execution r' = Some ?m" "rec_id r' = rec_id r" "rec_status r' = as_status t"
    using assms(9) by simp_all
  have st: "managed_state r' = Inr (Some t)"
    using r' assms(7) by (simp add: managed_state_Some_iff)
  have ci: "same_creation_intent (mg_to_value mg) um m = Inr True"
    using v um by (simp add: same_creation_intent_True)
  have tr: "transition_record (mg_to_value mg) ?i (me_generation m) s t ?u r = Inr r'"
    using assms(3-6,9) rs(3,4) um(1) ci
    by (simp add: transition_record_def require_managed_state_def require_metadata_def Let_def)
  have body: "transition_body (mg_to_value mg) ?i (me_generation m) s t ?u rs =
      Inr (r', update_by_id rs (rec_id r) (\<lambda>_. r'))"
    using rs(2) tr by (simp add: transition_body_def)
  have "valid_records (update_by_id rs (rec_id r) (\<lambda>_. r'))"
    by (rule valid_records_update [OF rs(5,2) r'(2) rs(3) r'(1) _ assms(8) st])
      (simp add: um c)
  from transact_faultless
    [where f = "transition_body (mg_to_value mg) ?i (me_generation m) s t ?u" and from_io = StoreIo,
      OF rs(1) body this]
  obtain d' where
    d': "transact StoreIo no_faults (transition_body (mg_to_value mg) ?i (me_generation m) s t ?u)
        (w_disk w) = (Inr r', d')"
    "strict_view d' = Some (update_by_id rs (rec_id r) (\<lambda>_. r'))" by blast
  let ?w = "w\<lparr>w_disk := d', w_tick := Suc (w_tick w)\<rparr>"
  have "mgr_transition mg r s t u w = (Inr r', ?w)"
    using assms(1) rs(3,7) d'(1)
    by (simp add: mgr_transition_def record_generation_def store_call_def transition_with_def
        calm_def)
  moreover have "in_state ?w r' t ?m"
    using d'(2) find_by_id_update [OF rs(2) r'(2)] r' st
    by (simp add: in_state_def stored_def)
  ultimately show ?thesis by auto
qed

lemma calm_move:
  assumes "calm mg" and "in_state w r s m" and "s \<noteq> RestartStarting"
    and "transition_generation (ExecutionId (rec_id r)) s t (me_generation m) = Inr h"
    and "rec_managed_execution (apply_update (mg_now mg (w_tick w)) s u r) = Some um"
    and "next_pending (ExecutionId (rec_id r)) t (me_pending_operation um) = Inr p"
    and "validate_pending_operation t (um\<lparr>me_generation := h, me_pending_operation := p\<rparr>) = Inr ()"
  shows "\<exists>w'. mgr_transition mg r s t u w =
      (Inr (moved t h p (apply_update (mg_now mg (w_tick w)) s u r)), w') \<and>
    in_state w' (moved t h p (apply_update (mg_now mg (w_tick w)) s u r)) t
      (um\<lparr>me_generation := h, me_pending_operation := p\<rparr>) \<and>
    w_backend w' = w_backend w \<and> w_resources w' = w_resources w"
proof (rule calm_move_completing [OF assms(1,2,4,5)])
  have rs: "rec_managed_execution r = Some m" "metadata_validate m = Inr ()"
    by (rule in_stateD [OF assms(2)], blast)+
  have "me_request um = me_request m" "me_plan um = me_plan m"
    "me_last_restart um = me_last_restart m"
    using apply_update_metadata [OF rs(1), of "mg_now mg (w_tick w)" s u] assms(5)
    by (metis option.inject)+
  then show "metadata_validate (um\<lparr>me_generation := h, me_pending_operation := p\<rparr>) = Inr ()"
    using metadata_validate_cong [of "um\<lparr>me_generation := h, me_pending_operation := p\<rparr>" m] rs(2)
    by simp
  show "record_completion (ExecutionId (rec_id r)) s t h (um\<lparr>me_generation := h\<rparr>) =
      Inr (um\<lparr>me_generation := h\<rparr>)"
    using assms(3) by (simp add: record_completion_def)
qed (use assms in \<open>simp_all add: moved_def update_metadata_def\<close>)

section \<open>Evaluating operations\<close>

lemma support_managed_state_Inr [simp]:
  "support_managed_state r = Inr s \<longleftrightarrow> managed_state r = Inr (Some s)"
  by (auto simp: support_managed_state_def result_simps)

lemma validate_record_health_Inr [simp]: "validate_record_health r = Inr ()"
  by (simp add: validate_record_health_def validate_effective_health_check_def
      validate_health_policy_def split: option.splits)

lemma in_state_ticked [simp]: "in_state (ticked w) r s m \<longleftrightarrow> in_state w r s m"
  by (simp add: in_state_def stored_def)

lemma in_state_host [simp]:
  "in_state (w\<lparr>w_backend := b, w_resources := rw\<rparr>) r s m \<longleftrightarrow> in_state w r s m"
  by (simp add: in_state_def stored_def)

lemma calm_require_in_state:
  assumes "calm mg" and "in_state w r s m" and "execution_id_str i = rec_id r"
  shows "mgr_require mg i w = (Inr r, ticked w)"
  using calm_require [of mg w i r] assms by (simp add: in_state_def)

lemma in_state_execution_id:
  "in_state w r s m \<Longrightarrow> record_execution_id r = Inr (ExecutionId (rec_id r))"
  by (erule in_stateD)

lemma in_state_generation:
  "in_state w r s m \<Longrightarrow> record_generation r i = Inr (me_generation m)"
  by (simp add: in_state_def record_generation_def)

lemma in_state_support: "in_state w r s m \<Longrightarrow> support_managed_state r = Inr s"
  by (simp add: in_state_def)

lemma in_state_require_generation:
  "in_state w r s m \<Longrightarrow> require_generation r i (me_generation m) = Inr ()"
  by (simp add: require_generation_def in_state_generation)

lemma in_state_pending:
  assumes "in_state w r s m"
  shows "validate_pending_operation s m = Inr ()"
proof -
  from assms have "managed_state r = Inr (Some s)" "rec_managed_execution r = Some m"
    by (simp_all add: in_state_def)
  then show ?thesis by (auto simp: managed_state_Some_iff)
qed

lemmas in_state_simps = in_state_execution_id in_state_generation in_state_support
  in_state_require_generation

lemma complete_transition_Inr:
  assumes "mgr_transition mg r s t u w = (Inr r', w')" and "in_state w r s m"
    and "completion_generation (ExecutionId (rec_id r)) s t (me_generation m) = Inr g"
  shows "complete_transition mg r s t u w = (Inr r', w')"
  using assms
  by (simp add: complete_transition_def in_state_simps and_then_attempt)

lemma lease_of:
  assumes "in_state w r s m" and "rec_started_at r = Some t"
  shows "lease_from_record r = Inr \<lparr>lease_execution_id = ExecutionId (rec_id r),
     lease_generation = me_generation m, lease_plan = me_plan m,
     lease_resources = cfg_resources (req_config (me_request m)), lease_started_at = t\<rparr>"
  using assms in_state_execution_id [OF assms(1)]
  by (simp add: lease_from_record_def record_metadata_def in_state_def)

lemma stabilize_not_snapshotting:
  "in_state w r s m \<Longrightarrow> s \<noteq> Snapshotting \<Longrightarrow> stabilize_snapshot mg r = ret r"
  by (simp add: stabilize_snapshot_def in_state_simps fun_eq_iff)

lemma moved_apply_handle:
  "rec_started_at (moved t g p (apply_handle h r)) = Some (hd_started_at h)"
  "rec_started_at (moved t g p (apply_start_handle h r)) = Some (hd_started_at h)"
  by (simp_all add: moved_def record_updates)

lemma moved_id [simp]: "rec_id (moved t g p r) = rec_id r"
  by (simp add: moved_def update_metadata_def)

lemma handle_id [simp]:
  "rec_id (apply_handle h r) = rec_id r"
  "rec_id (apply_start_handle h r) = rec_id r"
  "rec_id (apply_restart_handle h r) = rec_id r"
  by (simp_all add: record_updates)

text \<open>What the side conditions of a move unfold to.\<close>

lemmas move_simps = apply_update_def record_updates moved_def transition_generation_Inr
  legal_transition_def increments_generation_def next_pending_def validate_pending_iff
  pending_consistent_def validate_restart_operation_def validate_snapshot_operation_def
  validate_kill_operation_def valid_cold_pause_state_def

text \<open>Starting a created execution: the claim, the backend's start and the completion.\<close>

lemma claim_and_start_ok:
  assumes "calm mg" and "in_state w r Created m"
    and "be_start mg (moved Starting (me_generation m) (Some OpStart) r) (w_backend w, w_resources w) =
      (Inr h, b', rw')"
    and "handle_validate h (ExecutionId (rec_id r)) = Inr ()"
  shows "\<exists>w' r' m' lease. claim_and_start mg r Created w = (Inr lease, w') \<and>
    lease_execution_id lease = ExecutionId (rec_id r) \<and> lease_generation lease = me_generation m \<and>
    lease_started_at lease = hd_started_at h \<and>
    in_state w' r' Running m' \<and> rec_id r' = rec_id r \<and> me_generation m' = me_generation m \<and>
    w_backend w' = b' \<and> w_resources w' = rw'"
proof -
  let ?i = "ExecutionId (rec_id r)" and ?g = "me_generation m"
  let ?r1 = "moved Starting ?g (Some OpStart) r"
  let ?m1 = "m\<lparr>me_generation := ?g, me_pending_operation := Some OpStart\<rparr>"
  have mem: "me_paused_with_memory m"
    using in_state_pending [OF assms(2)] by (auto simp: validate_pending_iff valid_cold_pause_state_def)
  have r: "rec_managed_execution r = Some m" using assms(2) by (simp add: in_state_def)
  obtain w1 where w1: "mgr_transition mg r Created Starting UpdNone w = (Inr ?r1, w1)"
    "in_state w1 ?r1 Starting ?m1" "w_backend w1 = w_backend w" "w_resources w1 = w_resources w"
    using calm_move [OF assms(1,2), of Starting ?g UpdNone m "Some OpStart"] r mem
    by (auto simp: apply_update_def transition_generation_Inr legal_transition_def
        increments_generation_def next_pending_def validate_pending_iff pending_consistent_def
        validate_restart_operation_def validate_snapshot_operation_def
        validate_kill_operation_def)
  let ?w2 = "w1\<lparr>w_backend := b', w_resources := rw'\<rparr>"
  have start: "host_call (be_start mg ?r1) w1 = (Inr h, ?w2)"
    using assms(3) w1(3,4) by (simp add: host_call_def)
  have s2: "in_state ?w2 ?r1 Starting ?m1" using w1(2) by simp
  let ?u = "apply_start_handle h ?r1"
  obtain w3 m3 where w3: "mgr_transition mg ?r1 Starting Running (StartHandle h) ?w2 =
      (Inr (moved Running ?g None ?u), w3)"
    "in_state w3 (moved Running ?g None ?u) Running m3" "me_generation m3 = ?g"
    "w_backend w3 = b'" "w_resources w3 = rw'"
    using calm_move [OF assms(1) s2, of Running ?g "StartHandle h"
        "?m1\<lparr>me_finished_at := None, me_paused_with_memory := True\<rparr>" None] r
    by (auto simp: apply_update_def record_updates moved_def transition_generation_Inr
        legal_transition_def increments_generation_def next_pending_def validate_pending_iff
        pending_consistent_def validate_restart_operation_def validate_snapshot_operation_def
        validate_kill_operation_def)
  have done3: "complete_with_handle mg ?r1 Starting Running h ?w2 =
      (Inr (moved Running ?g None ?u), w3)"
    using complete_transition_Inr [OF w3(1) s2, of ?g]
    by (simp add: complete_with_handle_def completion_generation_def)
  have "claim_and_start mg r Created w = lift (lease_from_record (moved Running ?g None ?u)) w3"
    using w1(1) start done3 assms(4) in_state_execution_id [OF s2]
    by (simp add: claim_and_start_def and_then_attempt and_then_Inr)
  then show ?thesis
    using lease_of [OF w3(2) moved_apply_handle(2)] w3(2-5)
    by (intro exI [of _ w3] exI [of _ "moved Running ?g None ?u"] exI [of _ m3]) auto
qed

lemma start_created:
  assumes "calm mg" and "in_state w r Created m" and "validate_lock_id (rec_id r) = Inr ()"
    and "be_start mg (moved Starting (me_generation m) (Some OpStart) r) (w_backend w, w_resources w) =
      (Inr h, b', rw')"
    and "handle_validate h (ExecutionId (rec_id r)) = Inr ()"
  shows "\<exists>w' r' m' lease. api_start mg (ExecutionId (rec_id r)) (me_generation m) w = (Inr lease, w') \<and>
    lease_execution_id lease = ExecutionId (rec_id r) \<and> lease_generation lease = me_generation m \<and>
    lease_started_at lease = hd_started_at h \<and>
    in_state w' r' Running m' \<and> rec_id r' = rec_id r \<and> me_generation m' = me_generation m \<and>
    w_backend w' = b' \<and> w_resources w' = rw'"
proof -
  let ?w = "ticked (ticked w)"
  have s: "in_state ?w r Created m" using assms(2) by (simp add: in_state_def stored_def)
  have "api_start mg (ExecutionId (rec_id r)) (me_generation m) w = claim_and_start mg r Created ?w"
    using calm_require_in_state [OF assms(1), of "ticked w" r Created m "ExecutionId (rec_id r)"]
      assms(2)
    by (simp add: api_start_def and_then_Inr [OF calm_lock [OF assms(1,3)]] and_then_Inr
        in_state_simps ensure_started_def)
  moreover have "w_backend ?w = w_backend w" "w_resources ?w = w_resources w" by simp_all
  ultimately show ?thesis using claim_and_start_ok [OF assms(1) s _ assms(5)] assms(4) by simp
qed

end
