(* ===== verification/Lifecycle.thy ===== *)
theory Lifecycle
  imports Manager_Facts
begin

text \<open>
  The results of the manager's operations in a calm environment: pause and resume with memory, the
  filesystem-only pause, kill, restart, and the refusal of stale callers.
\<close>

section \<open>Pause and resume\<close>

definition next_gen :: "execution_generation \<Rightarrow> execution_generation" where
  "next_gen g = ExecutionGeneration (generation_get g + 1)"

lemma completion_generation_next:
  assumes "unat (generation_get g) + 1 < 2 ^ 64"
    and "(s, t) = (Pausing, Paused) \<or> (s, t) = (Resuming, Running)"
  shows "completion_generation i s t g = Inr (next_gen g)"
  using assms word_succ_nonzero [of "generation_get g"]
  by (auto simp: completion_generation_def checked_add_def execution_generation_new_def
      next_gen_def)

text \<open>The record a pause request hands to the backend.\<close>

definition pausing_record :: "bool \<Rightarrow> box_record \<Rightarrow> managed_execution_metadata \<Rightarrow> box_record" where
  "pausing_record keep r m =
     moved Pausing (me_generation m) (Some (OpPause keep)) (set_pending (\<lambda>_. OpPause keep) r)"

lemma claim_pause:
  assumes "calm mg" and "in_state w r Running m"
  shows "\<exists>w'. mgr_transition mg r Running Pausing (PauseClaim keep) w =
      (Inr (pausing_record keep r m), w') \<and>
    in_state w' (pausing_record keep r m) Pausing (m\<lparr>me_pending_operation := Some (OpPause keep)\<rparr>) \<and>
    w_backend w' = w_backend w \<and> w_resources w' = w_resources w"
proof -
  have r: "rec_managed_execution r = Some m" using assms(2) by (simp add: in_state_def)
  have mem: "me_paused_with_memory m"
    using in_state_pending [OF assms(2)] by (auto simp: validate_pending_iff valid_cold_pause_state_def)
  have same: "m\<lparr>me_pending_operation := Some (OpPause keep), me_generation := me_generation m,
      me_pending_operation := Some (OpPause keep)\<rparr> = m\<lparr>me_pending_operation := Some (OpPause keep)\<rparr>"
    by simp
  show ?thesis
    using calm_move [OF assms, of Pausing "me_generation m" "PauseClaim keep"
        "m\<lparr>me_pending_operation := Some (OpPause keep)\<rparr>" "Some (OpPause keep)"] r mem
    unfolding pausing_record_def same
    by (simp add: apply_update_def set_pending_def update_metadata_def transition_generation_Inr
        legal_transition_def increments_generation_def next_pending_def validate_pending_iff
        pending_consistent_def validate_restart_operation_def validate_snapshot_operation_def
        validate_kill_operation_def)
qed

lemma pause_enters:
  assumes "calm mg" and "in_state w r Running m" and "validate_lock_id (rec_id r) = Inr ()"
  shows "\<exists>w'. api_pause mg (ExecutionId (rec_id r)) (me_generation m) keep w =
      finish_pause mg (pausing_record keep r m) w' \<and>
    in_state w' (pausing_record keep r m) Pausing (m\<lparr>me_pending_operation := Some (OpPause keep)\<rparr>) \<and>
    w_backend w' = w_backend w \<and> w_resources w' = w_resources w"
proof -
  let ?w = "ticked (ticked w)"
  have s: "in_state ?w r Running m" using assms(2) by (simp add: in_state_def stored_def)
  obtain w' where w': "mgr_transition mg r Running Pausing (PauseClaim keep) ?w =
      (Inr (pausing_record keep r m), w')"
    "in_state w' (pausing_record keep r m) Pausing (m\<lparr>me_pending_operation := Some (OpPause keep)\<rparr>)"
    "w_backend w' = w_backend ?w" "w_resources w' = w_resources ?w"
    using claim_pause [OF assms(1) s, of keep] by blast
  have "api_pause mg (ExecutionId (rec_id r)) (me_generation m) keep w =
      finish_pause mg (pausing_record keep r m) w'"
    using calm_require_in_state [OF assms(1), of "ticked w" r Running m "ExecutionId (rec_id r)"]
      assms(2) w'(1)
    by (simp add: api_pause_def and_then_Inr [OF calm_lock [OF assms(1,3)]] and_then_Inr
        in_state_simps stabilize_not_snapshotting)
  with w' show ?thesis by auto
qed

text \<open>A pause with memory raises the generation by one and leaves the execution paused.\<close>

lemma pause_running:
  assumes "calm mg" and "in_state w r Running m" and "validate_lock_id (rec_id r) = Inr ()"
    and "unat (generation_get (me_generation m)) + 1 < 2 ^ 64"
    and "be_pause mg (pausing_record True r m) True (w_backend w, w_resources w) = (Inr h, b', rw')"
    and "handle_validate h (ExecutionId (rec_id r)) = Inr ()"
  shows "\<exists>w' r' m' lease. api_pause mg (ExecutionId (rec_id r)) (me_generation m) True w =
      (Inr lease, w') \<and>
    lease_execution_id lease = ExecutionId (rec_id r) \<and>
    lease_generation lease = next_gen (me_generation m) \<and>
    in_state w' r' Paused m' \<and> rec_id r' = rec_id r \<and>
    me_generation m' = next_gen (me_generation m) \<and> me_paused_with_memory m' \<and>
    w_backend w' = b' \<and> w_resources w' = rw'"
proof -
  let ?i = "ExecutionId (rec_id r)" and ?r1 = "pausing_record True r m"
  let ?m1 = "m\<lparr>me_pending_operation := Some (OpPause True)\<rparr>"
  let ?g = "next_gen (me_generation m)"
  obtain w1 where w1: "api_pause mg ?i (me_generation m) True w = finish_pause mg ?r1 w1"
    "in_state w1 ?r1 Pausing ?m1" "w_backend w1 = w_backend w" "w_resources w1 = w_resources w"
    using pause_enters [OF assms(1-3)] by blast
  have i1: "rec_id ?r1 = rec_id r" by (simp add: pausing_record_def record_updates)
  let ?w2 = "w1\<lparr>w_backend := b', w_resources := rw'\<rparr>"
  have call: "host_call (be_pause mg ?r1 True) w1 = (Inr h, ?w2)"
    using assms(5) w1(3,4) by (simp add: host_call_def)
  have s2: "in_state ?w2 ?r1 Pausing ?m1" using w1(2) by simp
  have m1: "rec_managed_execution ?r1 = Some ?m1" using w1(2) by (simp add: in_state_def)
  let ?u = "apply_handle h ?r1"
  let ?um = "?m1\<lparr>me_finished_at := None, me_paused_with_memory := True\<rparr>"
  obtain w3 where w3: "mgr_transition mg ?r1 Pausing Paused (UpdHandle h) ?w2 =
      (Inr (moved Paused ?g None ?u), w3)"
    "in_state w3 (moved Paused ?g None ?u) Paused (?um\<lparr>me_generation := ?g, me_pending_operation := None\<rparr>)"
    "w_backend w3 = b'" "w_resources w3 = rw'"
    using calm_move [OF assms(1) s2, of Paused ?g "UpdHandle h" ?um None] m1 assms(4)
    by (auto simp: move_simps next_gen_def)
  have "complete_with_handle mg ?r1 Pausing Paused h ?w2 = (Inr (moved Paused ?g None ?u), w3)"
    using complete_transition_Inr [OF w3(1) s2, of ?g] assms(4)
    by (simp add: complete_with_handle_def completion_generation_next)
  then have "finish_pause mg ?r1 w1 = lift (lease_from_record (moved Paused ?g None ?u)) w3"
    using call assms(6) i1 m1 in_state_execution_id [OF w1(2)]
    by (simp add: finish_pause_def pending_pause_policy_def record_pending_def and_then_attempt
        and_then_Inr)
  then show ?thesis
    using lease_of [OF w3(2) moved_apply_handle(1)] w3(2-4) w1(1) i1
    by (intro exI [of _ w3] exI [of _ "moved Paused ?g None ?u"]
        exI [of _ "?um\<lparr>me_generation := ?g, me_pending_operation := None\<rparr>"]) auto
qed

definition resuming_record :: "box_record \<Rightarrow> managed_execution_metadata \<Rightarrow> box_record" where
  "resuming_record r m = moved Resuming (me_generation m) (Some OpResume) r"

text \<open>Resuming an execution paused with memory raises the generation by one again.\<close>

lemma resume_paused:
  assumes "calm mg" and "in_state w r Paused m" and "validate_lock_id (rec_id r) = Inr ()"
    and "me_paused_with_memory m" and "unat (generation_get (me_generation m)) + 1 < 2 ^ 64"
    and "be_resume mg (resuming_record r m) (w_backend w, w_resources w) = (Inr h, b', rw')"
    and "handle_validate h (ExecutionId (rec_id r)) = Inr ()"
  shows "\<exists>w' r' m' lease. api_resume mg (ExecutionId (rec_id r)) (me_generation m) w = (Inr lease, w') \<and>
    lease_execution_id lease = ExecutionId (rec_id r) \<and>
    lease_generation lease = next_gen (me_generation m) \<and>
    in_state w' r' Running m' \<and> rec_id r' = rec_id r \<and>
    me_generation m' = next_gen (me_generation m) \<and> w_backend w' = b' \<and> w_resources w' = rw'"
proof -
  let ?i = "ExecutionId (rec_id r)" and ?r1 = "resuming_record r m"
  let ?m1 = "m\<lparr>me_pending_operation := Some OpResume\<rparr>"
  let ?g = "next_gen (me_generation m)" and ?w = "ticked (ticked w)"
  have s: "in_state ?w r Paused m" using assms(2) by (simp add: in_state_def stored_def)
  have r: "rec_managed_execution r = Some m" using assms(2) by (simp add: in_state_def)
  obtain w1 where w1: "mgr_transition mg r Paused Resuming UpdNone ?w = (Inr ?r1, w1)"
    "in_state w1 ?r1 Resuming ?m1" "w_backend w1 = w_backend w" "w_resources w1 = w_resources w"
    using calm_move [OF assms(1) s, of Resuming "me_generation m" UpdNone m "Some OpResume"] r
      assms(4)
    by (auto simp: move_simps resuming_record_def)
  have i1: "rec_id ?r1 = rec_id r" by (simp add: resuming_record_def)
  have enter: "api_resume mg ?i (me_generation m) w = finish_resume mg ?r1 w1"
    using calm_require_in_state [OF assms(1), of "ticked w" r Paused m ?i] assms(2) w1(1)
    by (simp add: api_resume_def and_then_Inr [OF calm_lock [OF assms(1,3)]] and_then_Inr
        in_state_simps stabilize_not_snapshotting)
  let ?w2 = "w1\<lparr>w_backend := b', w_resources := rw'\<rparr>"
  have call: "host_call (be_resume mg ?r1) w1 = (Inr h, ?w2)"
    using assms(6) w1(3,4) by (simp add: host_call_def)
  have s2: "in_state ?w2 ?r1 Resuming ?m1" using w1(2) by simp
  have m1: "rec_managed_execution ?r1 = Some ?m1" using w1(2) by (simp add: in_state_def)
  let ?u = "apply_handle h ?r1"
  let ?um = "?m1\<lparr>me_finished_at := None, me_paused_with_memory := True\<rparr>"
  obtain w3 where w3: "mgr_transition mg ?r1 Resuming Running (UpdHandle h) ?w2 =
      (Inr (moved Running ?g None ?u), w3)"
    "in_state w3 (moved Running ?g None ?u) Running (?um\<lparr>me_generation := ?g, me_pending_operation := None\<rparr>)"
    "w_backend w3 = b'" "w_resources w3 = rw'"
    using calm_move [OF assms(1) s2, of Running ?g "UpdHandle h" ?um None] m1 assms(5)
    by (auto simp: move_simps next_gen_def)
  have "complete_with_handle mg ?r1 Resuming Running h ?w2 = (Inr (moved Running ?g None ?u), w3)"
    using complete_transition_Inr [OF w3(1) s2, of ?g] assms(5)
    by (simp add: complete_with_handle_def completion_generation_next)
  then have "finish_resume mg ?r1 w1 = lift (lease_from_record (moved Running ?g None ?u)) w3"
    using call assms(4,7) i1 m1 in_state_execution_id [OF w1(2)]
    by (simp add: finish_resume_def paused_with_memory_def and_then_attempt and_then_Inr)
  then show ?thesis
    using lease_of [OF w3(2) moved_apply_handle(1)] w3(2-4) enter i1
    by (intro exI [of _ w3] exI [of _ "moved Running ?g None ?u"]
        exI [of _ "?um\<lparr>me_generation := ?g, me_pending_operation := None\<rparr>"]) auto
qed

section \<open>Kill\<close>

lemma release_ok:
  assumes "release_resources (home_stores (mg_home_dir mg)) (mg_resource_faults mg (w_tick w)) r
      (w_resources w) = (Inr (), rw)"
  shows "release_execution_resources mg r w = (Inr (), (ticked w)\<lparr>w_resources := rw\<rparr>)"
  using assms by (simp add: release_execution_resources_def)

definition killing_record :: "kill_execution_options \<Rightarrow> box_record \<Rightarrow> managed_execution_metadata \<Rightarrow> box_record" where
  "killing_record opts r m =
     moved Killing (me_generation m) (Some (OpKill (kill_signal opts) (kill_timeout_secs opts)))
       (set_pending (\<lambda>_. OpKill (kill_signal opts) (kill_timeout_secs opts)) r)"

lemma claim_kill:
  assumes "calm mg" and "in_state w r s m" and "legal_transition s Killing"
    and "validate_kill_options opts = Inr ()"
  shows "\<exists>w'. mgr_transition mg r s Killing (KillClaim opts) w = (Inr (killing_record opts r m), w') \<and>
    in_state w' (killing_record opts r m) Killing
      (m\<lparr>me_pending_operation := Some (OpKill (kill_signal opts) (kill_timeout_secs opts))\<rparr>) \<and>
    w_backend w' = w_backend w \<and> w_resources w' = w_resources w"
proof -
  let ?op = "OpKill (kill_signal opts) (kill_timeout_secs opts)"
  have r: "rec_managed_execution r = Some m" using assms(2) by (simp add: in_state_def)
  have s: "s \<noteq> RestartStarting" using assms(3) by (auto simp: legal_transition_def)
  have same: "m\<lparr>me_pending_operation := Some ?op, me_generation := me_generation m,
      me_pending_operation := Some ?op\<rparr> = m\<lparr>me_pending_operation := Some ?op\<rparr>" by simp
  have v: "validate_kill_operation (m\<lparr>me_pending_operation := Some ?op\<rparr>) = Inr ()"
    using assms(4)
    by (auto simp: validate_kill_operation_def validate_kill_options_def result_simps
        checked_mul_None_iff not_le split: if_splits option.splits)
  have g: "transition_generation i s Killing (me_generation m) = Inr (me_generation m)" for i
    using assms(3) by (simp add: transition_generation_Inr increments_generation_def)
  show ?thesis
    using calm_move [OF assms(1,2) s g, of "KillClaim opts" "m\<lparr>me_pending_operation := Some ?op\<rparr>" "Some ?op"] r v
    unfolding killing_record_def same
    by (simp add: apply_update_def set_pending_def update_metadata_def next_pending_def
        validate_pending_iff pending_consistent_def validate_restart_operation_def
        validate_snapshot_operation_def valid_cold_pause_state_def)
qed

lemma finish_kill_ok:
  assumes "calm mg" and "in_state w r Killing m" and "me_pending_operation m = Some (OpKill sig t)"
    and "be_kill mg (kill_record \<lparr>kill_signal = sig, kill_timeout_secs = t\<rparr> r) (w_backend w, w_resources w) =
      (answer, b', rw')"
    and "answer = Inr outcome \<or> (\<exists>i. answer = Inl (MgrNotFound i)) \<and> outcome = AlreadyStopped"
    and "release_resources (home_stores (mg_home_dir mg)) (mg_resource_faults mg (w_tick w)) r rw' =
      (Inr (), rw'')"
  shows "\<exists>w' r' m'. finish_kill mg r w = (Inr outcome, w') \<and> in_state w' r' Stopped m' \<and>
    rec_id r' = rec_id r \<and> me_generation m' = me_generation m \<and> rec_stopped_by_user r' \<and>
    rec_pid r' = None \<and> w_backend w' = b' \<and> w_resources w' = rw''"
proof -
  let ?w1 = "w\<lparr>w_backend := b', w_resources := rw'\<rparr>"
  let ?w2 = "(ticked ?w1)\<lparr>w_resources := rw''\<rparr>"
  have r: "rec_managed_execution r = Some m" using assms(2) by (simp add: in_state_def)
  have call: "host_call (be_kill mg (kill_record \<lparr>kill_signal = sig, kill_timeout_secs = t\<rparr> r)) w = (answer, ?w1)"
    using assms(4) by (simp add: host_call_def)
  have rel: "release_execution_resources mg r ?w1 = (Inr (), ?w2)"
    using release_ok [of mg ?w1 r rw''] assms(6) by simp
  have s2: "in_state ?w2 r Killing m" using assms(2) by (simp add: in_state_def stored_def)
  let ?now = "mg_now mg (w_tick ?w2)"
  let ?u = "(clear_live_runtime ?now None r)\<lparr>rec_stopped_by_user := True\<rparr>"
  let ?um = "m\<lparr>me_finished_at := Some ?now, me_paused_with_memory := True\<rparr>"
  obtain w3 where w3: "mgr_transition mg r Killing Stopped (KillTerminal None) ?w2 =
      (Inr (moved Stopped (me_generation m) None ?u), w3)"
    "in_state w3 (moved Stopped (me_generation m) None ?u) Stopped
      (?um\<lparr>me_generation := me_generation m, me_pending_operation := None\<rparr>)"
    "w_backend w3 = b'" "w_resources w3 = rw''"
    using calm_move [OF assms(1) s2, of Stopped "me_generation m" "KillTerminal None" ?um None] r
    by (auto simp: move_simps)
  have "finish_kill mg r w = (Inr outcome, w3)"
    using assms(3,5) call rel w3(1) r in_state_execution_id [OF assms(2)]
    by (auto simp: finish_kill_def pending_kill_options_def record_pending_def and_then_attempt
        and_then_Inr)
  then show ?thesis
    using w3(2-4)
    by (intro exI [of _ w3] exI [of _ "moved Stopped (me_generation m) None ?u"]
        exI [of _ "?um\<lparr>me_generation := me_generation m, me_pending_operation := None\<rparr>"])
      (simp add: moved_def record_updates)
qed

text \<open>
  Entering an operation: the lock, the lookup and, outside a snapshot, the checks before the
  operation's own branch.
\<close>

lemma kill_live:
  assumes "calm mg" and "in_state w r s m" and "validate_lock_id (rec_id r) = Inr ()"
    and "legal_transition s Killing" and "validate_kill_options opts = Inr ()"
    and "be_kill mg (kill_record opts (killing_record opts r m)) (w_backend w, w_resources w) =
      (answer, b', rw')"
    and "answer = Inr outcome \<or> (\<exists>i. answer = Inl (MgrNotFound i)) \<and> outcome = AlreadyStopped"
    and "\<And>n. release_resources (home_stores (mg_home_dir mg)) (mg_resource_faults mg n)
      (killing_record opts r m) rw' = (Inr (), rw'')"
  shows "\<exists>w' r' m'. kill_with_options mg (ExecutionId (rec_id r)) (me_generation m) opts w =
      (Inr outcome, w') \<and> in_state w' r' Stopped m' \<and> rec_id r' = rec_id r \<and>
    me_generation m' = me_generation m \<and> rec_stopped_by_user r' \<and> rec_pid r' = None \<and>
    w_backend w' = b' \<and> w_resources w' = rw''"
proof -
  let ?w = "ticked (ticked w)" and ?r = "killing_record opts r m"
  let ?m = "m\<lparr>me_pending_operation := Some (OpKill (kill_signal opts) (kill_timeout_secs opts))\<rparr>"
  have s: "in_state ?w r s m" using assms(2) by (simp add: in_state_def stored_def)
  have live: "s \<noteq> Snapshotting" "\<not> is_terminal s" "s \<notin> {RestartStopping, RestartStarting}" "s \<noteq> Killing"
    using assms(4) by (auto simp: legal_transition_def is_terminal_def)
  obtain w1 where w1: "mgr_transition mg r s Killing (KillClaim opts) ?w = (Inr ?r, w1)"
    "in_state w1 ?r Killing ?m" "w_backend w1 = w_backend w" "w_resources w1 = w_resources w"
    using claim_kill [OF assms(1) s assms(4,5)] by auto
  have id1: "rec_id ?r = rec_id r" by (simp add: killing_record_def record_updates)
  have opts: "\<lparr>kill_signal = kill_signal opts, kill_timeout_secs = kill_timeout_secs opts\<rparr> = opts"
    by simp
  have "kill_with_options mg (ExecutionId (rec_id r)) (me_generation m) opts w = finish_kill mg ?r w1"
    using calm_require_in_state [OF assms(1), of "ticked w" r s m "ExecutionId (rec_id r)"] assms(2,5)
      live w1(1)
    by (simp add: kill_with_options_def and_then_Inr [OF calm_lock [OF assms(1,3)]] and_then_Inr
        in_state_simps stabilize_not_snapshotting)
  then show ?thesis
    using finish_kill_ok [OF assms(1) w1(2), of "kill_signal opts" "kill_timeout_secs opts" answer b' rw'
        outcome rw''] assms(6,7,8) w1(3,4) id1
    unfolding opts by auto
qed

lemma kill_settled:
  assumes "calm mg" and "in_state w r s m" and "is_terminal s"
    and "validate_lock_id (rec_id r) = Inr ()" and "validate_kill_options opts = Inr ()"
  shows "kill_with_options mg (ExecutionId (rec_id r)) (me_generation m) opts w =
    (Inr AlreadyStopped, ticked (ticked w))"
proof -
  have "s \<noteq> Snapshotting" using assms(3) by (auto simp: is_terminal_def)
  then show ?thesis
    using calm_require_in_state [OF assms(1), of "ticked w" r s m "ExecutionId (rec_id r)"] assms(2,3,5)
    by (simp add: kill_with_options_def and_then_Inr [OF calm_lock [OF assms(1,4)]] and_then_Inr
        in_state_simps stabilize_not_snapshotting)
qed

section \<open>Stale callers\<close>

lemma stale_generation:
  assumes "in_state w r s m" and "g \<noteq> me_generation m"
  shows "\<exists>msg. require_generation r i g = Inl (MgrConflict i msg)"
  using assms by (simp add: require_generation_def in_state_generation)

lemma stale_begin_remove:
  assumes "calm mg" and "in_state w r s m" and "g \<noteq> me_generation m"
  shows "\<exists>msg. store_call mg (\<lambda>flt d. begin_remove flt (ExecutionId (rec_id r)) g d) w =
    (Inl (MgrConflict (ExecutionId (rec_id r)) msg), ticked w)"
proof -
  obtain rs where rs: "strict_view (w_disk w) = Some rs" "find_by_id rs (rec_id r) = Some r"
    "rec_managed_execution r = Some m" "managed_state r = Inr (Some s)"
    by (rule in_stateD [OF assms(2)]) blast
  obtain msg where "begin_remove_body (ExecutionId (rec_id r)) g rs =
      Inl (StoreConflict (ExecutionId (rec_id r)) msg)"
    using rs assms(3)
    by (auto simp: begin_remove_body_def begin_remove_record_def require_managed_state_def
        require_metadata_def)
  from transact_refused [where f = "begin_remove_body (ExecutionId (rec_id r)) g" and from_io = StoreIo,
      OF rs(1) this]
  show ?thesis using assms(1)
    by (simp add: store_call_def begin_remove_def calm_def map_store_error_def)
qed

lemmas entering = and_then_Inr and_then_Inl in_state_simps stabilize_not_snapshotting

lemma stale_refused:
  assumes "calm mg" and "in_state w r s m" and "validate_lock_id (rec_id r) = Inr ()"
    and "g \<noteq> me_generation m" and "validate_kill_options opts = Inr ()"
  shows "\<exists>msg. api_start mg (ExecutionId (rec_id r)) g w =
      (Inl (MgrConflict (ExecutionId (rec_id r)) msg), ticked (ticked w))"
    and "\<exists>msg. create_filesystem_snapshot mg (ExecutionId (rec_id r)) g sid w =
      (Inl (MgrConflict (ExecutionId (rec_id r)) msg), ticked (ticked w))"
    and "\<exists>msg. remove_execution mg (ExecutionId (rec_id r)) g w =
      (Inl (MgrConflict (ExecutionId (rec_id r)) msg), ticked (ticked w))"
    and "s \<noteq> Snapshotting \<Longrightarrow> \<exists>msg. api_pause mg (ExecutionId (rec_id r)) g keep w =
      (Inl (MgrConflict (ExecutionId (rec_id r)) msg), ticked (ticked w))"
    and "s \<noteq> Snapshotting \<Longrightarrow> \<exists>msg. api_resume mg (ExecutionId (rec_id r)) g w =
      (Inl (MgrConflict (ExecutionId (rec_id r)) msg), ticked (ticked w))"
    and "s \<noteq> Snapshotting \<Longrightarrow> \<exists>msg. kill_with_options mg (ExecutionId (rec_id r)) g opts w =
      (Inl (MgrConflict (ExecutionId (rec_id r)) msg), ticked (ticked w))"
proof -
  let ?i = "ExecutionId (rec_id r)"
  have s1: "in_state (ticked w) r s m" using assms(2) by simp
  obtain msg where stale: "require_generation r ?i g = Inl (MgrConflict ?i msg)"
    using stale_generation [OF assms(2,4)] by blast
  have lock: "lifecycle_lock mg (execution_id_str ?i) w = (Inr (), ticked w)"
    using calm_lock [OF assms(1,3)] by simp
  have require: "mgr_require mg ?i (ticked w) = (Inr r, ticked (ticked w))"
    using calm_require_in_state [OF assms(1) s1] by simp
  note enter = and_then_Inr [where m = "lifecycle_lock mg (rec_id r)" and w = w, OF lock [simplified]]
    and_then_Inr [where m = "mgr_require mg ?i" and w = "ticked w", OF require] stale
  show "\<exists>msg. api_start mg ?i g w = (Inl (MgrConflict ?i msg), ticked (ticked w))"
    by (simp add: api_start_def enter)
  show "\<exists>msg. create_filesystem_snapshot mg ?i g sid w = (Inl (MgrConflict ?i msg), ticked (ticked w))"
    by (simp add: create_filesystem_snapshot_def create_snapshot_def enter)
  show "\<exists>msg. remove_execution mg ?i g w = (Inl (MgrConflict ?i msg), ticked (ticked w))"
    using stale_begin_remove [OF assms(1) s1 assms(4)]
    by (auto simp: remove_execution_def enter and_then_Inl)
  show "\<exists>msg. api_pause mg ?i g keep w = (Inl (MgrConflict ?i msg), ticked (ticked w))"
    if "s \<noteq> Snapshotting"
    by (simp add: api_pause_def enter stabilize_not_snapshotting [OF assms(2) that])
  show "\<exists>msg. api_resume mg ?i g w = (Inl (MgrConflict ?i msg), ticked (ticked w))"
    if "s \<noteq> Snapshotting"
    by (simp add: api_resume_def enter stabilize_not_snapshotting [OF assms(2) that])
  show "\<exists>msg. kill_with_options mg ?i g opts w = (Inl (MgrConflict ?i msg), ticked (ticked w))"
    if "s \<noteq> Snapshotting"
    using assms(5)
    by (simp add: kill_with_options_def enter stabilize_not_snapshotting [OF assms(2) that])
qed

section \<open>Filesystem-only pause\<close>

text \<open>A cold pause stops the backend, releases the resources and keeps no memory.\<close>

lemma cold_pause_running:
  assumes "calm mg" and "in_state w r Running m" and "validate_lock_id (rec_id r) = Inr ()"
    and "unat (generation_get (me_generation m)) + 1 < 2 ^ 64" and "rec_started_at r = Some t0"
    and "be_stop_for_restart mg (pausing_record False r m) (rec_stop_timeout r)
      (w_backend w, w_resources w) = (Inr outcome, b', rw')"
    and "\<And>n. release_resources (home_stores (mg_home_dir mg)) (mg_resource_faults mg n)
      (pausing_record False r m) rw' = (Inr (), rw'')"
  shows "\<exists>w' r' m' lease. api_pause mg (ExecutionId (rec_id r)) (me_generation m) False w =
      (Inr lease, w') \<and> lease_generation lease = next_gen (me_generation m) \<and>
    in_state w' r' Paused m' \<and> rec_id r' = rec_id r \<and> rec_pid r' = None \<and>
    me_generation m' = next_gen (me_generation m) \<and> \<not> me_paused_with_memory m' \<and>
    w_backend w' = b' \<and> w_resources w' = rw''"
proof -
  let ?i = "ExecutionId (rec_id r)" and ?r1 = "pausing_record False r m"
  let ?m1 = "m\<lparr>me_pending_operation := Some (OpPause False)\<rparr>"
  let ?g = "next_gen (me_generation m)"
  obtain w1 where w1: "api_pause mg ?i (me_generation m) False w = finish_pause mg ?r1 w1"
    "in_state w1 ?r1 Pausing ?m1" "w_backend w1 = w_backend w" "w_resources w1 = w_resources w"
    using pause_enters [OF assms(1-3)] by blast
  have f1: "rec_id ?r1 = rec_id r" "rec_stop_timeout ?r1 = rec_stop_timeout r"
    "rec_started_at ?r1 = Some t0"
    using assms(5) by (simp_all add: pausing_record_def moved_def record_updates)
  have m1: "rec_managed_execution ?r1 = Some ?m1" using w1(2) by (simp add: in_state_def)
  let ?w2 = "w1\<lparr>w_backend := b', w_resources := rw'\<rparr>"
  let ?w3 = "(ticked ?w2)\<lparr>w_resources := rw''\<rparr>"
  have call: "host_call (be_stop_for_restart mg ?r1 (rec_stop_timeout ?r1)) w1 = (Inr outcome, ?w2)"
    using assms(6) w1(3,4) f1(2) by (simp add: host_call_def)
  have rel: "release_execution_resources mg ?r1 ?w2 = (Inr (), ?w3)"
    using release_ok [of mg ?w2 ?r1 rw''] assms(7) by simp
  have s3: "in_state ?w3 ?r1 Pausing ?m1" using w1(2) by (simp add: in_state_def stored_def)
  let ?u = "clear_live_runtime_for_cold_pause ?r1"
  let ?um = "?m1\<lparr>me_finished_at := None, me_paused_with_memory := False\<rparr>"
  let ?m4 = "?um\<lparr>me_generation := ?g, me_pending_operation := None\<rparr>"
  obtain w4 where w4: "mgr_transition mg ?r1 Pausing Paused ColdPause ?w3 =
      (Inr (moved Paused ?g None ?u), w4)"
    "in_state w4 (moved Paused ?g None ?u) Paused ?m4" "w_backend w4 = b'" "w_resources w4 = rw''"
    using calm_move [OF assms(1) s3, of Paused ?g ColdPause ?um None] m1 assms(4)
    by (auto simp: move_simps next_gen_def)
  have "complete_transition mg ?r1 Pausing Paused ColdPause ?w3 = (Inr (moved Paused ?g None ?u), w4)"
    using complete_transition_Inr [OF w4(1) s3, of ?g] assms(4) by (simp add: completion_generation_next)
  then have fin: "finish_pause mg ?r1 w1 = lift (lease_from_record (moved Paused ?g None ?u)) w4"
    using call rel m1 in_state_execution_id [OF w1(2)]
    by (simp add: finish_pause_def finish_cold_pause_def pending_pause_policy_def record_pending_def
        and_then_attempt and_then_Inr)
  have "rec_started_at (moved Paused ?g None ?u) = Some t0" "rec_pid (moved Paused ?g None ?u) = None"
    using f1(3) by (simp_all add: moved_def record_updates)
  then show ?thesis
    using lease_of [OF w4(2)] w4(2-4) w1(1) f1(1) fin
    by (intro exI [of _ w4] exI [of _ "moved Paused ?g None ?u"] exI [of _ ?m4])
      (auto simp: record_updates)
qed

section \<open>Restart\<close>

definition restart_claimed ::
    "managed_execution_state \<Rightarrow> operation_id \<Rightarrow> restart_execution_options \<Rightarrow> box_record \<Rightarrow>
     managed_execution_metadata \<Rightarrow> box_record" where
  "restart_claimed s oid opts r m =
     (let op = OpRestart oid (me_generation m) s (restart_stop_timeout_secs opts)
      in moved RestartStopping (me_generation m) (Some op) (set_pending (\<lambda>_. op) r))"

text \<open>The record a restart hands to the backend's start.\<close>

definition restart_ready ::
    "datetime \<Rightarrow> managed_execution_state \<Rightarrow> operation_id \<Rightarrow> restart_execution_options \<Rightarrow> box_record \<Rightarrow>
     managed_execution_metadata \<Rightarrow> box_record" where
  "restart_ready now s oid opts r m =
     moved RestartStarting (next_gen (me_generation m))
       (Some (OpRestart oid (me_generation m) s (restart_stop_timeout_secs opts)))
       (clear_live_runtime now None (restart_claimed s oid opts r m))"

lemma claim_restart_move:
  assumes "calm mg" and "in_state w r s m" and "s \<in> {Running, Stopped, Failed, Created}"
    and "validate_stop_timeout (restart_stop_timeout_secs opts) = Inr ()"
  shows "\<exists>w'. mgr_transition mg r s RestartStopping (RestartClaim oid opts) w =
      (Inr (restart_claimed s oid opts r m), w') \<and>
    in_state w' (restart_claimed s oid opts r m) RestartStopping (m\<lparr>me_pending_operation :=
      Some (OpRestart oid (me_generation m) s (restart_stop_timeout_secs opts))\<rparr>) \<and>
    w_backend w' = w_backend w \<and> w_resources w' = w_resources w"
proof -
  let ?op = "OpRestart oid (me_generation m) s (restart_stop_timeout_secs opts)"
  have r: "rec_managed_execution r = Some m" using assms(2) by (simp add: in_state_def)
  have mem: "me_paused_with_memory m"
    using in_state_pending [OF assms(2)] assms(3)
    by (auto simp: validate_pending_iff valid_cold_pause_state_def)
  have up: "set_pending (\<lambda>metadata. OpRestart oid (me_generation metadata) s (restart_stop_timeout_secs opts)) r =
      set_pending (\<lambda>_. ?op) r"
    using r by (simp add: set_pending_def update_metadata_def)
  have same: "m\<lparr>me_pending_operation := Some ?op, me_generation := me_generation m,
      me_pending_operation := Some ?op\<rparr> = m\<lparr>me_pending_operation := Some ?op\<rparr>" by simp
  have s: "s \<noteq> RestartStarting" using assms(3) by auto
  have g: "transition_generation i s RestartStopping (me_generation m) = Inr (me_generation m)" for i
    using assms(3) by (auto simp: transition_generation_Inr increments_generation_def legal_transition_def)
  show ?thesis
    using calm_move [OF assms(1,2) s g, of "RestartClaim oid opts"
        "m\<lparr>me_pending_operation := Some ?op\<rparr>" "Some ?op"] r mem assms(3,4)
    unfolding restart_claimed_def Let_def same
    by (auto simp: apply_update_def up set_pending_def update_metadata_def next_pending_def
        validate_pending_iff pending_consistent_def validate_restart_operation_def
        validate_snapshot_operation_def validate_kill_operation_def)
qed

lemma restart_claimed_fields:
  "rec_id (restart_claimed s oid opts r m) = rec_id r"
  "rec_id (restart_ready now s oid opts r m) = rec_id r"
  by (simp_all add: restart_claimed_def restart_ready_def record_updates Let_def)

text \<open>From the claim to the starting state: stop the old runtime, release, advance.\<close>

lemma restart_stop_phase:
  assumes "calm mg" and "in_state w (restart_claimed s oid opts r m) RestartStopping (m\<lparr>me_pending_operation :=
      Some (OpRestart oid (me_generation m) s (restart_stop_timeout_secs opts))\<rparr>)"
    and "s \<in> {Running, Stopped, Failed, Created}"
    and "validate_stop_timeout (restart_stop_timeout_secs opts) = Inr ()"
    and "unat (generation_get (me_generation m)) + 1 < 2 ^ 64"
    and "if s = Running
      then be_stop_for_restart mg (restart_claimed s oid opts r m) (restart_stop_timeout_secs opts)
        (w_backend w, w_resources w) = (Inr outcome, b1, rw1)
      else b1 = w_backend w \<and> rw1 = w_resources w"
    and "\<And>n. release_resources (home_stores (mg_home_dir mg)) (mg_resource_faults mg n)
      (restart_claimed s oid opts r m) rw1 = (Inr (), rw2)"
  shows "\<exists>now w' m'. finish_restart_stop mg (restart_claimed s oid opts r m) w =
      finish_restart_start mg (restart_ready now s oid opts r m) w' \<and>
    in_state w' (restart_ready now s oid opts r m) RestartStarting m' \<and>
    me_generation m' = next_gen (me_generation m) \<and>
    me_pending_operation m' = Some (OpRestart oid (me_generation m) s (restart_stop_timeout_secs opts)) \<and>
    w_backend w' = b1 \<and> w_resources w' = rw2"
proof -
  let ?op = "OpRestart oid (me_generation m) s (restart_stop_timeout_secs opts)"
  let ?r1 = "restart_claimed s oid opts r m" and ?m1 = "m\<lparr>me_pending_operation := Some ?op\<rparr>"
  let ?w1 = "w\<lparr>w_backend := b1, w_resources := rw1\<rparr>"
  let ?w2 = "(ticked ?w1)\<lparr>w_resources := rw2\<rparr>" and ?g = "next_gen (me_generation m)"
  let ?now = "mg_now mg (w_tick ?w2)"
  have m1: "rec_managed_execution ?r1 = Some ?m1" using assms(2) by (simp add: in_state_def)
  have intent: "restart_intent_of ?r1 = Inr \<lparr>ri_operation_id = oid, ri_source_generation = me_generation m,
      ri_source_state = s, ri_stop_timeout_secs = restart_stop_timeout_secs opts\<rparr>"
    using m1 in_state_execution_id [OF assms(2)] by (simp add: restart_intent_of_def record_pending_def)
  have stop: "only_if (s \<in> {Running, Paused})
      (confirm_restart_kill mg ?r1 (restart_stop_timeout_secs opts)) w = (Inr (), ?w1)"
    using assms(3,6)
    by (auto simp: only_if_def confirm_restart_kill_def host_call_def and_then_attempt split: if_splits)
  have rel: "release_execution_resources mg ?r1 ?w1 = (Inr (), ?w2)"
    using release_ok [of mg ?w1 ?r1 rw2] assms(7) by simp
  have s2: "in_state ?w2 ?r1 RestartStopping ?m1" using assms(2) by (simp add: in_state_def stored_def)
  let ?um = "?m1\<lparr>me_finished_at := Some ?now, me_paused_with_memory := True\<rparr>"
  let ?m3 = "?um\<lparr>me_generation := ?g, me_pending_operation := Some ?op\<rparr>"
  have gen: "transition_generation i RestartStopping RestartStarting (me_generation ?m1) = Inr ?g" for i
    using assms(5)
    by (simp add: transition_generation_Inr legal_transition_def increments_generation_def next_gen_def)
  have "next_generation (me_generation m) = Inr ?g"
    using assms(5) by (simp add: next_generation_iff next_gen_def)
  then have valid: "validate_pending_operation RestartStarting ?m3 = Inr ()"
    using assms(3,4)
    by (auto simp: validate_pending_iff pending_consistent_def validate_restart_operation_def
        validate_snapshot_operation_def validate_kill_operation_def)
  obtain w3 where w3: "mgr_transition mg ?r1 RestartStopping RestartStarting RestartAdvance ?w2 =
      (Inr (restart_ready ?now s oid opts r m), w3)"
    "in_state w3 (restart_ready ?now s oid opts r m) RestartStarting ?m3"
    "w_backend w3 = b1" "w_resources w3 = rw2"
    using calm_move [OF assms(1) s2 _ gen, of RestartAdvance ?um "Some ?op"] m1 valid
    by (auto simp: apply_update_def record_updates next_pending_def restart_ready_def)
  have "finish_restart_stop mg ?r1 w = finish_restart_start mg (restart_ready ?now s oid opts r m) w3"
    using stop rel w3(1) intent in_state_execution_id [OF assms(2)]
    by (simp add: finish_restart_stop_def and_then_Inr and_then_attempt)
  with w3 show ?thesis
    by (intro exI [of _ ?now] exI [of _ w3] exI [of _ ?m3]) simp
qed

text \<open>The two ends of a restart: the completion is recorded and nothing stays pending.\<close>

lemma restart_completes:
  assumes "calm mg" and "in_state w r RestartStarting m"
    and "me_pending_operation m = Some (OpRestart oid g0 s timeout)"
    and "next_generation g0 = Inr (me_generation m)" and "validate_stop_timeout timeout = Inr ()"
    and "t \<in> {Running, Failed}"
    and "rec_managed_execution (apply_update (mg_now mg (w_tick w)) RestartStarting u r) = Some um"
    and "me_pending_operation um = me_pending_operation m" and "me_paused_with_memory um"
  shows "\<exists>w' r' m'. mgr_transition mg r RestartStarting t u w = (Inr r', w') \<and>
    in_state w' r' t m' \<and> rec_id r' = rec_id r \<and> me_generation m' = me_generation m \<and>
    rec_started_at r' = rec_started_at (apply_update (mg_now mg (w_tick w)) RestartStarting u r) \<and>
    me_operation_id m' = me_operation_id m \<and>
    me_last_restart m' = Some \<lparr>mrc_operation_id = oid, mrc_source_generation = g0,
      mrc_target_generation = me_generation m,
      mrc_outcome = (if t = Running then RestartRunning else RestartFailed),
      mrc_stop_timeout_secs = timeout\<rparr> \<and>
    w_backend w' = w_backend w \<and> w_resources w' = w_resources w"
proof -
  let ?i = "ExecutionId (rec_id r)" and ?g = "me_generation m" and ?now = "mg_now mg (w_tick w)"
  let ?done = "\<lparr>mrc_operation_id = oid, mrc_source_generation = g0, mrc_target_generation = ?g,
    mrc_outcome = (if t = Running then RestartRunning else RestartFailed), mrc_stop_timeout_secs = timeout\<rparr>"
  let ?c = "um\<lparr>me_generation := ?g, me_last_restart := Some ?done\<rparr>"
  let ?m2 = "?c\<lparr>me_pending_operation := None\<rparr>"
  let ?r2 = "(apply_update ?now RestartStarting u r)\<lparr>rec_status := as_status t, rec_managed_execution := Some ?m2\<rparr>"
  have r: "rec_managed_execution r = Some m" using assms(2) by (simp add: in_state_def)
  have um: "me_operation_id um = me_operation_id m" "me_request um = me_request m" "me_plan um = me_plan m"
    using apply_update_metadata [OF r, of ?now RestartStarting u] assms(7) by (metis option.inject)+
  have gen: "transition_generation ?i RestartStarting t ?g = Inr ?g"
    using assms(6) by (auto simp: transition_generation_Inr legal_transition_def increments_generation_def)
  have c: "record_completion ?i RestartStarting t ?g (um\<lparr>me_generation := ?g\<rparr>) = Inr ?c"
    using assms(3,6,8) by (auto simp: record_completion_def)
  have p: "next_pending ?i t (me_pending_operation ?c) = Inr None"
    using assms(6) by (auto simp: next_pending_def)
  have valid: "validate_pending_operation t ?m2 = Inr ()"
    using assms(6,9) by (auto simp: move_simps)
  have "metadata_validate m = Inr ()" by (rule in_stateD [OF assms(2)])
  then have meta: "metadata_validate ?m2 = Inr ()"
    using assms(4,5) um by (auto simp: metadata_validate_def result_simps split: if_splits option.splits)
  show ?thesis
    using calm_move_completing [OF assms(1,2) gen assms(7) c p valid meta refl] um(1) by fastforce
qed

text \<open>The backend's start completes the restart and records it.\<close>

lemma restart_start_phase:
  assumes "calm mg" and "in_state w r RestartStarting m"
    and "me_pending_operation m = Some (OpRestart oid g0 s timeout)" and "me_generation m = next_gen g0"
    and "unat (generation_get g0) + 1 < 2 ^ 64" and "validate_stop_timeout timeout = Inr ()"
    and "be_start mg r (w_backend w, w_resources w) = (Inr h, b', rw')"
    and "handle_validate h (ExecutionId (rec_id r)) = Inr ()"
  shows "\<exists>w' r' m' lease. finish_restart_start mg r w = (Inr lease, w') \<and>
    lease_from_record r' = Inr lease \<and> lease_generation lease = me_generation m \<and>
    in_state w' r' Running m' \<and> rec_id r' = rec_id r \<and> me_generation m' = me_generation m \<and>
    me_operation_id m' = me_operation_id m \<and>
    me_last_restart m' = Some \<lparr>mrc_operation_id = oid, mrc_source_generation = g0,
      mrc_target_generation = me_generation m, mrc_outcome = RestartRunning,
      mrc_stop_timeout_secs = timeout\<rparr> \<and>
    w_backend w' = b' \<and> w_resources w' = rw'"
proof -
  let ?i = "ExecutionId (rec_id r)" and ?g = "me_generation m"
  let ?w1 = "w\<lparr>w_backend := b', w_resources := rw'\<rparr>"
  have r: "rec_managed_execution r = Some m" using assms(2) by (simp add: in_state_def)
  have call: "host_call (be_start mg r) w = (Inr h, ?w1)" using assms(7) by (simp add: host_call_def)
  have s1: "in_state ?w1 r RestartStarting m" using assms(2) by simp
  have gen: "next_generation g0 = Inr ?g" using assms(4,5) by (simp add: next_generation_iff next_gen_def)
  obtain w2 r2 m2 where w2: "mgr_transition mg r RestartStarting Running (RestartHandle h) ?w1 = (Inr r2, w2)"
    "in_state w2 r2 Running m2" "rec_id r2 = rec_id r" "me_generation m2 = ?g"
    "rec_started_at r2 = Some (hd_started_at h)" "me_operation_id m2 = me_operation_id m"
    "me_last_restart m2 = Some \<lparr>mrc_operation_id = oid, mrc_source_generation = g0,
      mrc_target_generation = ?g, mrc_outcome = RestartRunning, mrc_stop_timeout_secs = timeout\<rparr>"
    "w_backend w2 = b'" "w_resources w2 = rw'"
    using restart_completes [OF assms(1) s1 assms(3) gen assms(6), of Running "RestartHandle h"] r
    by (auto simp: apply_update_def record_updates)
  have intent: "\<exists>x. restart_intent_of r = Inr x"
    using r assms(3) in_state_execution_id [OF assms(2)]
    by (simp add: restart_intent_of_def record_pending_def)
  have run: "finish_restart_start mg r w = lift (lease_from_record r2) w2"
    using call w2(1) assms(8) intent in_state_execution_id [OF assms(2)]
    by (auto simp: finish_restart_start_def complete_restart_with_handle_def and_then_attempt and_then_Inr)
  show ?thesis
    using run lease_of [OF w2(2,5)] w2(2-)
    by (intro exI [of _ w2] exI [of _ r2] exI [of _ m2]) auto
qed

lemma restart_ok:
  assumes "calm mg" and "in_state w r s m" and "validate_lock_id (rec_id r) = Inr ()"
    and "s \<in> {Running, Stopped, Failed, Created}"
    and "unat (generation_get (me_generation m)) + 1 < 2 ^ 64" and "oid \<noteq> me_operation_id m"
    and "\<And>c. me_last_restart m = Some c \<Longrightarrow> mrc_operation_id c \<noteq> oid"
    and "validate_stop_timeout (restart_stop_timeout_secs opts) = Inr ()"
    and "validate_stop_timeout (rec_stop_timeout r) = Inr ()"
    and "if s = Running
      then be_stop_for_restart mg (restart_claimed s oid opts r m) (restart_stop_timeout_secs opts)
        (w_backend w, w_resources w) = (Inr outcome, b1, rw1)
      else b1 = w_backend w \<and> rw1 = w_resources w"
    and "\<And>n. release_resources (home_stores (mg_home_dir mg)) (mg_resource_faults mg n)
      (restart_claimed s oid opts r m) rw1 = (Inr (), rw2)"
    and "\<And>now. be_start mg (restart_ready now s oid opts r m) (b1, rw2) = (Inr h, b3, rw3)"
    and "handle_validate h (ExecutionId (rec_id r)) = Inr ()"
  shows "\<exists>w' r' m' lease. restart_with_options mg (ExecutionId (rec_id r)) (me_generation m) oid opts w =
      (Inr lease, w') \<and> lease_from_record r' = Inr lease \<and>
    lease_generation lease = next_gen (me_generation m) \<and>
    in_state w' r' Running m' \<and> rec_id r' = rec_id r \<and> me_generation m' = next_gen (me_generation m) \<and>
    me_last_restart m' = Some \<lparr>mrc_operation_id = oid, mrc_source_generation = me_generation m,
      mrc_target_generation = next_gen (me_generation m), mrc_outcome = RestartRunning,
      mrc_stop_timeout_secs = restart_stop_timeout_secs opts\<rparr> \<and>
    w_backend w' = b3 \<and> w_resources w' = rw3"
proof -
  let ?i = "ExecutionId (rec_id r)" and ?w = "ticked (ticked w)"
  let ?r1 = "restart_claimed s oid opts r m"
  have r: "rec_managed_execution r = Some m" using assms(2) by (simp add: in_state_def)
  have s: "in_state ?w r s m" using assms(2) by (simp add: in_state_def stored_def)
  obtain w1 where w1: "mgr_transition mg r s RestartStopping (RestartClaim oid opts) ?w = (Inr ?r1, w1)"
    "in_state w1 ?r1 RestartStopping (m\<lparr>me_pending_operation :=
       Some (OpRestart oid (me_generation m) s (restart_stop_timeout_secs opts))\<rparr>)"
    "w_backend w1 = w_backend w" "w_resources w1 = w_resources w"
    using claim_restart_move [OF assms(1) s assms(4,8)] by auto
  have none: "completed_restart_result r (me_generation m) oid opts = Inr None"
    using r assms(7) in_state_execution_id [OF assms(2)]
    by (cases "me_last_restart m") (auto simp: completed_restart_result_def)
  have timeout: "ensure_restart_timeout_valid ?i
      (case restart_stop_timeout_secs opts of None \<Rightarrow> rec_stop_timeout r | Some t \<Rightarrow> Some t) = Inr ()"
    using assms(8,9)
    by (auto simp: ensure_restart_timeout_valid_def result_simps checked_mul_None_iff not_le
        split: option.splits)
  have avail: "ensure_restart_generation_available ?i (me_generation m) = Inr ()"
    using assms(5) by (simp add: ensure_restart_generation_available_def checked_add_def)
  have "s \<noteq> Snapshotting" using assms(4) by auto
  then have enter: "restart_with_options mg ?i (me_generation m) oid opts w = finish_restart_stop mg ?r1 w1"
    using calm_require_in_state [OF assms(1), of "ticked w" r s m ?i] assms(2,4,6) r none timeout avail w1
    by (auto simp: restart_with_options_def restart_record_def claim_restart_def continue_restart_def
        and_then_Inr [where m = "lifecycle_lock mg (rec_id r)" and w = w, OF calm_lock [OF assms(1,3)]]
        and_then_Inr and_then_attempt in_state_simps stabilize_not_snapshotting)
  have stop: "if s = Running
      then be_stop_for_restart mg ?r1 (restart_stop_timeout_secs opts)
        (w_backend w1, w_resources w1) = (Inr outcome, b1, rw1)
      else b1 = w_backend w1 \<and> rw1 = w_resources w1"
    using assms(10) unfolding w1(3,4) .
  obtain now w2 m2 where w2: "finish_restart_stop mg ?r1 w1 =
      finish_restart_start mg (restart_ready now s oid opts r m) w2"
    "in_state w2 (restart_ready now s oid opts r m) RestartStarting m2"
    "me_generation m2 = next_gen (me_generation m)"
    "me_pending_operation m2 = Some (OpRestart oid (me_generation m) s (restart_stop_timeout_secs opts))"
    "w_backend w2 = b1" "w_resources w2 = rw2"
    using restart_stop_phase [OF assms(1) w1(2) assms(4,8,5) stop assms(11)] by blast
  show ?thesis
    using restart_start_phase [OF assms(1) w2(2,4,3) assms(5,8), of h b3 rw3] assms(12,13) w2 enter
    by (simp add: restart_claimed_fields) blast
qed

lemma restart_retry:
  assumes "calm mg" and "in_state w r Running m" and "validate_lock_id (rec_id r) = Inr ()"
    and "me_last_restart m = Some \<lparr>mrc_operation_id = oid, mrc_source_generation = g,
      mrc_target_generation = me_generation m, mrc_outcome = RestartRunning,
      mrc_stop_timeout_secs = restart_stop_timeout_secs opts\<rparr>"
  shows "restart_with_options mg (ExecutionId (rec_id r)) g oid opts w =
    (lease_from_record r, ticked (ticked w))"
proof -
  have r: "rec_managed_execution r = Some m" using assms(2) by (simp add: in_state_def)
  have sup: "support_managed_state r = Inr Running" by (rule in_state_support [OF assms(2)])
  have "completed_restart_result r g oid opts = Inr (Some (lease_from_record r))"
    using r assms(4) in_state_execution_id [OF assms(2)] in_state_generation [OF assms(2)]
    by (simp add: completed_restart_result_def sup del: support_managed_state_Inr)
  then show ?thesis
    using calm_require_in_state [OF assms(1), of "ticked w" r Running m "ExecutionId (rec_id r)"] assms(2)
    by (simp add: restart_with_options_def restart_record_def lift_def
        and_then_Inr [where m = "lifecycle_lock mg (rec_id r)" and w = w, OF calm_lock [OF assms(1,3)]]
        and_then_Inr in_state_simps stabilize_not_snapshotting)
qed

end
