(* ===== verification/Manager_Correctness.thy ===== *)
theory Manager_Correctness
  imports Lifecycle
begin

text \<open>
  The properties of the local execution manager: its place within the repository, the results of
  the lifecycle operations in a calm environment, and three recovery paths that do not do what the
  paths beside them do.
\<close>

section \<open>A manager for the examples\<close>

text \<open>A backend that always succeeds and keeps no state.\<close>

definition sample_handle :: local_execution_handle where
  "sample_handle = \<lparr>hd_started_at = 7, hd_pid = Some 42, hd_pid_start_time = None,
     hd_exec_socket_path = ''/b/x1/s'', hd_console_log = ''/b/x1/l'', hd_anonymous_volumes = []\<rparr>"

definition answers :: "execution_manager_error + 'a \<Rightarrow> ('b, 'a) host_op" where
  "answers r host = (r, host)"

definition sample_manager ::
    "execution_manager_error + local_execution_observation \<Rightarrow> (unit, create_execution_request) manager" where
  "sample_manager inspected =
     \<lparr>mg_home_dir = ''/h'', mg_to_value = Inr, mg_faults = \<lambda>_. no_faults, mg_interfere = \<lambda>_ d. d,
      mg_now = \<lambda>_. 9, mg_uuid = \<lambda>_. ''u'', mg_lock_fault = \<lambda>_. None,
      mg_resource_faults = \<lambda>_. no_resource_faults,
      be_start = \<lambda>_. answers (Inr sample_handle), be_inspect = \<lambda>_. answers inspected,
      be_pause = \<lambda>_ _. answers (Inr sample_handle), be_resume = \<lambda>_. answers (Inr sample_handle),
      be_prepare_quiescent_rootfs = \<lambda>_. answers (Inr ()),
      be_cleanup_quiescent_rootfs = \<lambda>_. answers (Inr ()),
      be_stop_for_restart = \<lambda>_ _. answers (Inr Killed), be_kill = \<lambda>_. answers (Inr Killed),
      fs_capture = \<lambda>_ _. answers (Inr 0), fs_load_snapshot = \<lambda>_. answers (Inr None),
      fs_restorable = \<lambda>_. answers (Inl (Internal [])), fs_cleanup_paths = \<lambda>_. answers (Inr ())\<rparr>"

definition sample_world ::
    "managed_execution_state \<Rightarrow> managed_execution_metadata \<Rightarrow> resource_world \<Rightarrow> unit world" where
  "sample_world s m rw = \<lparr>w_disk = sample_disk [sample_record s m], w_resources = rw,
     w_backend = (), w_tick = 0\<rparr>"

lemma sample_calm: "calm (sample_manager x)"
  by (simp add: calm_def sample_manager_def)

lemma sample_in_state:
  assumes "validate_pending_operation s m = Inr ()" and "metadata_validate m = Inr ()"
  shows "in_state (sample_world s m rw) (sample_record s m) s m"
  using sample_view [OF assms] sample_find assms(1)
  by (simp add: in_state_def stored_def sample_world_def sample_record_state)

lemma sample_lock: "validate_lock_id ''x1'' = Inr ()"
  by code_simp

lemma sample_handle_valid: "handle_validate sample_handle i = Inr ()"
  by (simp add: handle_validate_def sample_handle_def)

text \<open>With no named volume and no named network there is nothing to release.\<close>

lemma release_nothing:
  assumes "rec_volume_names r = []" and "record_network_name r = None"
  shows "release_resources st flt r rw = (Inr (), rw)"
  using assms by (simp add: release_resources_def)

lemma sample_release_detaches:
  assumes "rec_volume_names r = [''data'']" and "record_network_name r = None" and "rec_id r = ''x1''"
  shows "\<exists>rw. release_resources (home_stores ''/h'') no_resource_faults r sample_resources = (Inr (), rw) \<and>
    map_of (volume_view (rw_volumes rw)) ''data'' = Some (detach ''x1'' (attach ''x1'' sample_volume_config))"
proof -
  obtain b w1 where w1: "volume_modify (rs_volumes (home_stores ''/h'')) no_volume_faults ''data''
      (detach ''x1'') (rw_volumes sample_resources) = (Inr b, w1)"
    "map_of (volume_view w1) = at_names {''data''} (detach ''x1'')
       (map_of (volume_view (rw_volumes sample_resources)))"
    using volume_modify_faultless [of no_volume_faults] no_volume_faults_map by blast
  have "map_of (volume_view (rw_volumes sample_resources)) ''data'' =
      Some (attach ''x1'' sample_volume_config)"
    by (simp add: sample_resources_def volume_view_def map_view_def sample_disk_def)
  with w1 assms show ?thesis
    by (simp add: release_resources_def no_resource_faults_def at_names_def)
qed

section \<open>The manager within the repository\<close>


text \<open>
  The manager keeps the repository loadable. If the other writers keep the repository's
  invariant (the file is durable, a strict load succeeds and every record is a managed one with
  valid metadata under its own identifiers), so does every sequence of requests to the manager,
  whatever faults occur and whatever the backend answers.
\<close>

lemma manager_keeps_repository:
  assumes "repository_inv (w_disk w)"
    and "\<And>n d. repository_inv d \<Longrightarrow> repository_inv (mg_interfere mg n d)"
  shows "repository_inv (w_disk (perform_all mg requests w))"
proof -
  have "(disk_step mg)\<^sup>*\<^sup>* (w_disk w) (w_disk (perform_all mg requests w))"
    using mgr_disk.perform_all_keeps [of mg w requests] by (simp add: disk_steps_def)
  then show ?thesis using disk_steps_inv assms by blast
qed


lemma manager_keeps_repository_witness:
  "repository_inv (w_disk (perform_all (sample_manager (Inl (Internal [])))
     [ReqPause (ExecutionId ''x1'') (ExecutionGeneration 3) True, ReqInspect (ExecutionId ''x1'')]
     (sample_world Running (sample_metadata 3 None) empty_resources)))"
proof (rule manager_keeps_repository)
  have "strict_view (sample_disk [sample_record Running (sample_metadata 3 None)]) =
      Some [sample_record Running (sample_metadata 3 None)]" by (rule sample_running_view)
  then show "repository_inv (w_disk (sample_world Running (sample_metadata 3 None) empty_resources))"
    by (simp add: repository_inv_def owned_records_def sample_world_def sample_disk_synced)
qed (simp add: sample_manager_def)

section \<open>Lifecycle operations\<close>

lemma unat_next_gen:
  assumes "unat (generation_get g) + 1 < 2 ^ 64"
  shows "unat (generation_get (next_gen g)) = unat (generation_get g) + 1"
  using assms unat_add_lem [of "generation_get g" 1] by (simp add: next_gen_def)

lemma sample_fields:
  "me_generation (sample_metadata g p) = ExecutionGeneration g"
  "me_operation_id (sample_metadata g p) = OperationId ''op''"
  "me_last_restart (sample_metadata g p) = None" "me_paused_with_memory (sample_metadata g p)"
  "me_pending_operation (sample_metadata g p) = p"
  by (simp_all add: sample_metadata_def)

text \<open>
  Starting a created execution. With a calm environment and a backend that starts it, the call
  answers a lease of the same generation with the backend's start time, and leaves the record
  running under the same identifier and generation.
\<close>

lemma start_runs:
  assumes "calm mg" and "in_state w r Created m" and "validate_lock_id (rec_id r) = Inr ()"
    and "be_start mg (moved Starting (me_generation m) (Some OpStart) r) (w_backend w, w_resources w) =
      (Inr h, b', rw')"
    and "handle_validate h (ExecutionId (rec_id r)) = Inr ()"
  shows "\<exists>w' r' m' lease. api_start mg (ExecutionId (rec_id r)) (me_generation m) w = (Inr lease, w') \<and>
    lease_execution_id lease = ExecutionId (rec_id r) \<and> lease_generation lease = me_generation m \<and>
    lease_started_at lease = hd_started_at h \<and>
    in_state w' r' Running m' \<and> rec_id r' = rec_id r \<and> me_generation m' = me_generation m \<and>
    w_backend w' = b' \<and> w_resources w' = rw'"
  using start_created [OF assms] .

lemma start_runs_witness:
  "\<exists>w' lease. api_start (sample_manager (Inl (Internal []))) (ExecutionId ''x1'') (ExecutionGeneration 1)
      (sample_world Created (sample_metadata 1 None) empty_resources) = (Inr lease, w') \<and>
    lease_generation lease = ExecutionGeneration 1 \<and> lease_started_at lease = 7"
  using start_runs [OF sample_calm [of "Inl (Internal [])"]
      sample_in_state [OF sample_created sample_metadata_valid, of 1 empty_resources]]
    sample_lock sample_handle_valid [of "ExecutionId ''x1''"]
  by (fastforce simp: sample_fields sample_manager_def answers_def sample_handle_def)

text \<open>
  C28: pause and resume. Pausing a running execution with its memory and resuming it with the
  generation of the pause's lease brings it back to running; the generation grows by one at each of
  the two, so that neither of the earlier leases is current afterwards.
\<close>

theorem pause_resume_round_trip:
  assumes "calm mg" and "in_state w r Running m" and "validate_lock_id (rec_id r) = Inr ()"
    and "unat (generation_get (me_generation m)) + 2 < 2 ^ 64"
    and "\<And>r' host. \<exists>h host'. be_pause mg r' True host = (Inr h, host') \<and>
      handle_validate h (ExecutionId (rec_id r')) = Inr ()"
    and "\<And>r' host. \<exists>h host'. be_resume mg r' host = (Inr h, host') \<and>
      handle_validate h (ExecutionId (rec_id r')) = Inr ()"
  shows "\<exists>paused w1 lease w2 r2 m2. api_pause mg (ExecutionId (rec_id r)) (me_generation m) True w =
      (Inr paused, w1) \<and>
    api_resume mg (ExecutionId (rec_id r)) (lease_generation paused) w1 = (Inr lease, w2) \<and>
    in_state w2 r2 Running m2 \<and> rec_id r2 = rec_id r \<and> me_generation m2 = lease_generation lease \<and>
    unat (generation_get (lease_generation paused)) = unat (generation_get (me_generation m)) + 1 \<and>
    unat (generation_get (lease_generation lease)) = unat (generation_get (me_generation m)) + 2"
proof -
  let ?i = "ExecutionId (rec_id r)"
  have g1: "unat (generation_get (next_gen (me_generation m))) = unat (generation_get (me_generation m)) + 1"
    using assms(4) by (simp add: unat_next_gen)
  have g2: "unat (generation_get (next_gen (next_gen (me_generation m)))) =
      unat (generation_get (me_generation m)) + 2"
    using assms(4) g1 by (simp add: unat_next_gen)
  have ids: "rec_id (pausing_record True r m) = rec_id r"
    by (simp add: pausing_record_def record_updates)
  obtain h b1 rw1 where "be_pause mg (pausing_record True r m) True (w_backend w, w_resources w) = (Inr h, b1, rw1)"
    "handle_validate h ?i = Inr ()"
    using assms(5) [of "pausing_record True r m" "(w_backend w, w_resources w)"] ids by auto
  from pause_running [OF assms(1-3) _ this] assms(4)
  obtain w1 r1 m1 paused where w1: "api_pause mg ?i (me_generation m) True w = (Inr paused, w1)"
    "lease_generation paused = next_gen (me_generation m)" "in_state w1 r1 Paused m1" "rec_id r1 = rec_id r"
    "me_generation m1 = next_gen (me_generation m)" "me_paused_with_memory m1"
    by auto
  have i1: "rec_id (resuming_record r1 m1) = rec_id r" using w1(4) by (simp add: resuming_record_def)
  obtain h' b2 rw2 where "be_resume mg (resuming_record r1 m1) (w_backend w1, w_resources w1) = (Inr h', b2, rw2)"
    "handle_validate h' (ExecutionId (rec_id r1)) = Inr ()"
    using assms(6) [of "resuming_record r1 m1" "(w_backend w1, w_resources w1)"] i1 w1(4) by auto
  from resume_paused [OF assms(1) w1(3) _ w1(6) _ this] assms(3,4) w1(4,5) g1
  obtain w2 r2 m2 lease where "api_resume mg ?i (next_gen (me_generation m)) w1 = (Inr lease, w2)"
    "lease_generation lease = next_gen (next_gen (me_generation m))" "in_state w2 r2 Running m2"
    "rec_id r2 = rec_id r" "me_generation m2 = next_gen (next_gen (me_generation m))"
    by auto
  with w1(1,2) g1 g2 show ?thesis by auto
qed

theorem pause_resume_round_trip_witness:
  "\<exists>paused w1 lease w2. api_pause (sample_manager (Inl (Internal []))) (ExecutionId ''x1'')
      (ExecutionGeneration 3) True (sample_world Running (sample_metadata 3 None) empty_resources) =
      (Inr paused, w1) \<and>
    api_resume (sample_manager (Inl (Internal []))) (ExecutionId ''x1'') (lease_generation paused) w1 =
      (Inr lease, w2) \<and> unat (generation_get (lease_generation lease)) = 5"
  using pause_resume_round_trip [OF sample_calm [of "Inl (Internal [])"]
      sample_in_state [OF sample_running sample_metadata_valid, of 3 empty_resources]]
    sample_lock sample_handle_valid
  by (fastforce simp: sample_fields sample_manager_def answers_def)

text \<open>
  a filesystem-only pause. The backend is stopped, the execution's shared resources are
  released, and the record is paused without memory and without a process under the next
  generation.
\<close>

lemma cold_pause_releases:
  assumes "calm mg" and "in_state w r Running m" and "validate_lock_id (rec_id r) = Inr ()"
    and "unat (generation_get (me_generation m)) + 1 < 2 ^ 64" and "rec_started_at r = Some t0"
    and "be_stop_for_restart mg (pausing_record False r m) (rec_stop_timeout r)
      (w_backend w, w_resources w) = (Inr outcome, b', rw')"
    and "\<And>n. release_resources (home_stores (mg_home_dir mg)) (mg_resource_faults mg n)
      (pausing_record False r m) rw' = (Inr (), rw'')"
  shows "\<exists>w' r' m' lease. api_pause mg (ExecutionId (rec_id r)) (me_generation m) False w =
      (Inr lease, w') \<and> lease_generation lease = next_gen (me_generation m) \<and>
    in_state w' r' Paused m' \<and> rec_id r' = rec_id r \<and> rec_pid r' = None \<and>
    me_generation m' = next_gen (me_generation m) \<and> \<not> me_paused_with_memory m' \<and>
    w_backend w' = b' \<and> w_resources w' = rw''"
  using cold_pause_running [OF assms] .

lemma sample_release_fields:
  "rec_volume_names (sample_record s m) = [''data'']" "record_network_name (sample_record s m) = None"
  "rec_stop_timeout (sample_record s m) = None"
  by (simp_all add: sample_record_def record_network_name_def)

lemma moved_release_fields:
  "rec_volume_names (moved t g p r) = rec_volume_names r"
  "record_network_name (moved t g p r) = record_network_name r"
  "rec_volume_names (set_pending f r) = rec_volume_names r"
  "record_network_name (set_pending f r) = record_network_name r"
  "rec_id (set_pending f r) = rec_id r"
  by (simp_all add: moved_def set_pending_def update_metadata_def record_network_name_def
      split: option.splits)

lemma cold_pause_releases_witness:
  "\<exists>w' lease c. api_pause (sample_manager (Inl (Internal []))) (ExecutionId ''x1'') (ExecutionGeneration 3)
      False (sample_world Running (sample_metadata 3 None) sample_resources) = (Inr lease, w') \<and>
    lease_generation lease = ExecutionGeneration 4 \<and>
    map_of (volume_view (rw_volumes (w_resources w'))) ''data'' = Some c \<and> vol_in_use_by c = []"
proof -
  let ?m = "sample_metadata 3 None" and ?mg = "sample_manager (Inl (Internal []))"
  obtain rw where rw: "release_resources (home_stores ''/h'') no_resource_faults
      (pausing_record False (sample_record Running ?m) ?m) sample_resources = (Inr (), rw)"
    "map_of (volume_view (rw_volumes rw)) ''data'' = Some (detach ''x1'' (attach ''x1'' sample_volume_config))"
    using sample_release_detaches [of "pausing_record False (sample_record Running ?m) ?m"]
    by (auto simp: pausing_record_def moved_release_fields sample_release_fields)
  have "\<exists>w' r' m' lease. api_pause ?mg (ExecutionId (rec_id (sample_record Running ?m))) (me_generation ?m) False
        (sample_world Running ?m sample_resources) = (Inr lease, w') \<and>
      lease_generation lease = next_gen (me_generation ?m) \<and>
      in_state w' r' Paused m' \<and> rec_id r' = rec_id (sample_record Running ?m) \<and> rec_pid r' = None \<and>
      me_generation m' = next_gen (me_generation ?m) \<and> \<not> me_paused_with_memory m' \<and>
      w_backend w' = () \<and> w_resources w' = rw"
    by (rule cold_pause_releases [OF sample_calm sample_in_state [OF sample_running sample_metadata_valid]])
      (use rw(1) in \<open>simp_all add: sample_lock sample_fields sample_release_fields sample_manager_def
        answers_def sample_world_def\<close>)
  then show ?thesis using rw(2)
    by (auto simp: sample_fields next_gen_def detach_def attach_def sample_volume_config_def)
qed

text \<open>
  C27: killing a live execution. From every state that a kill may claim, the call answers the
  backend's outcome (already stopped when the backend no longer knows the execution), the shared
  resources are released, and the record is stopped, marked as stopped by the user, with no process
  and the same generation.
\<close>

theorem kill_stops:
  assumes "calm mg" and "in_state w r s m" and "validate_lock_id (rec_id r) = Inr ()"
    and "legal_transition s Killing" and "validate_kill_options opts = Inr ()"
    and "be_kill mg (kill_record opts (killing_record opts r m)) (w_backend w, w_resources w) =
      (answer, b', rw')"
    and "answer = Inr outcome \<or> (\<exists>i. answer = Inl (MgrNotFound i)) \<and> outcome = AlreadyStopped"
    and "\<And>n. release_resources (home_stores (mg_home_dir mg)) (mg_resource_faults mg n)
      (killing_record opts r m) rw' = (Inr (), rw'')"
  shows "\<exists>w' r' m'. kill_with_options mg (ExecutionId (rec_id r)) (me_generation m) opts w =
      (Inr outcome, w') \<and> in_state w' r' Stopped m' \<and> rec_id r' = rec_id r \<and>
    me_generation m' = me_generation m \<and> rec_stopped_by_user r' \<and> rec_pid r' = None \<and>
    w_backend w' = b' \<and> w_resources w' = rw''"
  using kill_live [OF assms] .

theorem kill_stops_witness:
  "\<exists>w' r' m' c. api_kill (sample_manager (Inl (Internal []))) (ExecutionId ''x1'') (ExecutionGeneration 3)
      (sample_world Running (sample_metadata 3 None) sample_resources) = (Inr Killed, w') \<and>
    in_state w' r' Stopped m' \<and> rec_stopped_by_user r' \<and>
    map_of (volume_view (rw_volumes (w_resources w'))) ''data'' = Some c \<and> vol_in_use_by c = []"
proof -
  let ?m = "sample_metadata 3 None" and ?mg = "sample_manager (Inl (Internal []))"
  let ?opts = "\<lparr>kill_signal = None, kill_timeout_secs = None\<rparr> :: kill_execution_options"
  obtain rw where rw: "release_resources (home_stores ''/h'') no_resource_faults
      (killing_record ?opts (sample_record Running ?m) ?m) sample_resources = (Inr (), rw)"
    "map_of (volume_view (rw_volumes rw)) ''data'' = Some (detach ''x1'' (attach ''x1'' sample_volume_config))"
    using sample_release_detaches [of "killing_record ?opts (sample_record Running ?m) ?m"]
    by (auto simp: killing_record_def moved_release_fields sample_release_fields)
  have "\<exists>w' r' m'. kill_with_options ?mg (ExecutionId (rec_id (sample_record Running ?m))) (me_generation ?m)
        ?opts (sample_world Running ?m sample_resources) = (Inr Killed, w') \<and> in_state w' r' Stopped m' \<and>
      rec_id r' = rec_id (sample_record Running ?m) \<and> me_generation m' = me_generation ?m \<and>
      rec_stopped_by_user r' \<and> rec_pid r' = None \<and> w_backend w' = () \<and> w_resources w' = rw"
    by (rule kill_stops [OF sample_calm sample_in_state [OF sample_running sample_metadata_valid], where answer = "Inr Killed"])
      (use rw(1) in \<open>simp_all add: sample_lock sample_fields sample_manager_def answers_def sample_world_def
        legal_transition_def validate_kill_options_def\<close>)
  moreover have "vol_in_use_by (detach ''x1'' (attach ''x1'' sample_volume_config)) = []"
    by (simp add: detach_def attach_def sample_volume_config_def)
  ultimately show ?thesis using rw(2) unfolding api_kill_def sample_fields sample_record_fields by blast
qed

text \<open>
  Killing a settled execution is a no-op. For a stopped or failed execution the call answers
  that it is already stopped, and the state file, the shared resources and the backend are as
  before.
\<close>

lemma kill_idempotent:
  assumes "calm mg" and "in_state w r s m" and "is_terminal s"
    and "validate_lock_id (rec_id r) = Inr ()" and "validate_kill_options opts = Inr ()"
  shows "kill_with_options mg (ExecutionId (rec_id r)) (me_generation m) opts w =
    (Inr AlreadyStopped, ticked (ticked w))"
  using kill_settled [OF assms] .

lemma sample_stopped: "validate_pending_operation Stopped (sample_metadata g None) = Inr ()"
  by (simp add: validate_pending_iff pending_consistent_def validate_restart_operation_def
      validate_snapshot_operation_def validate_kill_operation_def sample_metadata_def)

lemma kill_idempotent_witness:
  "w_disk (snd (api_kill (sample_manager (Inl (Internal []))) (ExecutionId ''x1'') (ExecutionGeneration 3)
      (sample_world Stopped (sample_metadata 3 None) empty_resources))) =
    sample_disk [sample_record Stopped (sample_metadata 3 None)]"
  using kill_idempotent [OF sample_calm [of "Inl (Internal [])"]
      sample_in_state [OF sample_stopped sample_metadata_valid, of 3 empty_resources]] sample_lock
  by (simp add: sample_fields api_kill_def is_terminal_def validate_kill_options_def sample_world_def)

section \<open>Stale callers and repeated restarts\<close>

text \<open>
  C7: a stale caller is refused. A start, pause, resume, kill, snapshot or removal that names
  another generation than the current one answers a conflict, and neither the state file nor the
  shared resources nor the backend change. (An execution in a snapshot is driven out of it first.)
\<close>

theorem stale_callers_refused:
  assumes "calm mg" and "in_state w r s m" and "s \<noteq> Snapshotting"
    and "validate_lock_id (rec_id r) = Inr ()" and "g \<noteq> me_generation m"
    and "validate_kill_options opts = Inr ()"
  shows "(\<exists>msg. api_start mg (ExecutionId (rec_id r)) g w =
        (Inl (MgrConflict (ExecutionId (rec_id r)) msg), ticked (ticked w))) \<and>
    (\<exists>msg. api_pause mg (ExecutionId (rec_id r)) g keep w =
        (Inl (MgrConflict (ExecutionId (rec_id r)) msg), ticked (ticked w))) \<and>
    (\<exists>msg. api_resume mg (ExecutionId (rec_id r)) g w =
        (Inl (MgrConflict (ExecutionId (rec_id r)) msg), ticked (ticked w))) \<and>
    (\<exists>msg. kill_with_options mg (ExecutionId (rec_id r)) g opts w =
        (Inl (MgrConflict (ExecutionId (rec_id r)) msg), ticked (ticked w))) \<and>
    (\<exists>msg. create_filesystem_snapshot mg (ExecutionId (rec_id r)) g sid w =
        (Inl (MgrConflict (ExecutionId (rec_id r)) msg), ticked (ticked w))) \<and>
    (\<exists>msg. remove_execution mg (ExecutionId (rec_id r)) g w =
        (Inl (MgrConflict (ExecutionId (rec_id r)) msg), ticked (ticked w)))"
  using stale_refused [OF assms(1,2,4,5,6)] assms(3) by simp

theorem stale_callers_refused_witness:
  "\<exists>msg. api_kill (sample_manager (Inl (Internal []))) (ExecutionId ''x1'') (ExecutionGeneration 2)
      (sample_world Running (sample_metadata 3 None) empty_resources) =
    (Inl (MgrConflict (ExecutionId ''x1'') msg),
     ticked (ticked (sample_world Running (sample_metadata 3 None) empty_resources)))"
  using stale_callers_refused [OF sample_calm [of "Inl (Internal [])"]
      sample_in_state [OF sample_running sample_metadata_valid, of 3 empty_resources], of "ExecutionGeneration 2"]
    sample_lock
  by (simp add: sample_fields api_kill_def validate_kill_options_def)

text \<open>
  C6: a restart takes effect once. Restarting a created, running, stopped or failed execution under
  a fresh operation stops the old runtime, releases the shared resources, starts the new runtime
  and leaves the record running under the next generation with the completed restart recorded; the
  same request repeated afterwards answers the same lease and calls neither the backend nor the
  resource stores.
\<close>

theorem restart_takes_effect_once:
  assumes "calm mg" and "in_state w r s m" and "validate_lock_id (rec_id r) = Inr ()"
    and "s \<in> {Running, Stopped, Failed, Created}"
    and "unat (generation_get (me_generation m)) + 1 < 2 ^ 64" and "oid \<noteq> me_operation_id m"
    and "\<And>c. me_last_restart m = Some c \<Longrightarrow> mrc_operation_id c \<noteq> oid"
    and "validate_stop_timeout (restart_stop_timeout_secs opts) = Inr ()"
    and "validate_stop_timeout (rec_stop_timeout r) = Inr ()"
    and "if s = Running
      then be_stop_for_restart mg (restart_claimed s oid opts r m) (restart_stop_timeout_secs opts)
        (w_backend w, w_resources w) = (Inr outcome, b1, rw1)
      else b1 = w_backend w \<and> rw1 = w_resources w"
    and "\<And>n. release_resources (home_stores (mg_home_dir mg)) (mg_resource_faults mg n)
      (restart_claimed s oid opts r m) rw1 = (Inr (), rw2)"
    and "\<And>now. be_start mg (restart_ready now s oid opts r m) (b1, rw2) = (Inr h, b3, rw3)"
    and "handle_validate h (ExecutionId (rec_id r)) = Inr ()"
  shows "\<exists>w' r' m' lease. restart_with_options mg (ExecutionId (rec_id r)) (me_generation m) oid opts w =
      (Inr lease, w') \<and>
    lease_generation lease = next_gen (me_generation m) \<and>
    in_state w' r' Running m' \<and> rec_id r' = rec_id r \<and> me_generation m' = next_gen (me_generation m) \<and>
    w_backend w' = b3 \<and> w_resources w' = rw3 \<and>
    restart_with_options mg (ExecutionId (rec_id r)) (me_generation m) oid opts w' =
      (Inr lease, ticked (ticked w'))"
proof -
  from restart_ok [OF assms] obtain w' r' m' lease
    where w': "restart_with_options mg (ExecutionId (rec_id r)) (me_generation m) oid opts w = (Inr lease, w')"
      "lease_from_record r' = Inr lease" "lease_generation lease = next_gen (me_generation m)"
      "in_state w' r' Running m'" "rec_id r' = rec_id r" "me_generation m' = next_gen (me_generation m)"
      "me_last_restart m' = Some \<lparr>mrc_operation_id = oid, mrc_source_generation = me_generation m,
        mrc_target_generation = next_gen (me_generation m), mrc_outcome = RestartRunning,
        mrc_stop_timeout_secs = restart_stop_timeout_secs opts\<rparr>"
      "w_backend w' = b3" "w_resources w' = rw3"
    by blast
  have "restart_with_options mg (ExecutionId (rec_id r')) (me_generation m) oid opts w' =
      (lease_from_record r', ticked (ticked w'))"
    by (rule restart_retry [OF assms(1) w'(4)]) (use assms(3) w' in simp_all)
  with w' show ?thesis by auto
qed

theorem restart_takes_effect_once_witness:
  "\<exists>w' lease. restart_with_options (sample_manager (Inl (Internal []))) (ExecutionId ''x1'')
      (ExecutionGeneration 3) (OperationId ''again'') \<lparr>restart_stop_timeout_secs = None\<rparr>
      (sample_world Running (sample_metadata 3 None) sample_resources) = (Inr lease, w') \<and>
    lease_generation lease = ExecutionGeneration 4 \<and>
    restart_with_options (sample_manager (Inl (Internal []))) (ExecutionId ''x1'')
      (ExecutionGeneration 3) (OperationId ''again'') \<lparr>restart_stop_timeout_secs = None\<rparr> w' =
      (Inr lease, ticked (ticked w'))"
proof -
  let ?m = "sample_metadata 3 None" and ?mg = "sample_manager (Inl (Internal []))"
  let ?opts = "\<lparr>restart_stop_timeout_secs = None\<rparr>" and ?o = "OperationId ''again''"
  let ?r1 = "restart_claimed Running ?o ?opts (sample_record Running ?m) ?m"
  obtain rw where rw: "release_resources (home_stores ''/h'') no_resource_faults ?r1 sample_resources = (Inr (), rw)"
    using sample_release_detaches [of ?r1]
    by (auto simp: restart_claimed_def moved_release_fields sample_release_fields Let_def)
  have "\<exists>w' r' m' lease. restart_with_options ?mg (ExecutionId (rec_id (sample_record Running ?m)))
        (me_generation ?m) ?o ?opts (sample_world Running ?m sample_resources) = (Inr lease, w') \<and>
      lease_generation lease = next_gen (me_generation ?m) \<and>
      in_state w' r' Running m' \<and> rec_id r' = rec_id (sample_record Running ?m) \<and>
      me_generation m' = next_gen (me_generation ?m) \<and> w_backend w' = () \<and> w_resources w' = rw \<and>
      restart_with_options ?mg (ExecutionId (rec_id (sample_record Running ?m))) (me_generation ?m) ?o ?opts w' =
        (Inr lease, ticked (ticked w'))"
    by (rule restart_takes_effect_once
        [OF sample_calm sample_in_state [OF sample_running sample_metadata_valid], where outcome = Killed
          and ?b1.0 = "()" and ?rw1.0 = sample_resources and ?rw2.0 = rw and h = sample_handle])
      (use rw in \<open>simp_all add: sample_lock sample_fields sample_manager_def answers_def sample_world_def
        sample_release_fields sample_handle_valid validate_stop_timeout_def\<close>)
  then show ?thesis by (auto simp: sample_fields next_gen_def)
qed

section \<open>Recovery paths\<close>

text \<open>The requests that concern one execution.\<close>

fun addresses :: "execution_id \<Rightarrow> operation_id \<Rightarrow> manager_request \<Rightarrow> bool" where
  "addresses i oid (ReqStart j g) \<longleftrightarrow> j = i"
| "addresses i oid (ReqInspect j) \<longleftrightarrow> j = i"
| "addresses i oid (ReqSnapshot j g sid) \<longleftrightarrow> j = i"
| "addresses i oid (ReqPause j g keep) \<longleftrightarrow> j = i"
| "addresses i oid (ReqResume j g) \<longleftrightarrow> j = i"
| "addresses i oid (ReqRestart j g oid' opts) \<longleftrightarrow> j = i"
| "addresses i oid (ReqKill j g opts) \<longleftrightarrow> j = i"
| "addresses i oid (ReqRemove j g) \<longleftrightarrow> j = i"
| "addresses i oid (ReqReconcile oid') \<longleftrightarrow> oid' = oid"
| "addresses i oid _ \<longleftrightarrow> False"

lemma calm_get_by_operation:
  assumes "calm mg" and "in_state w r s m"
  shows "mgr_get_by_operation mg (me_operation_id m) w = (Inr (Some r), ticked w)"
proof -
  obtain rs where rs: "strict_view (w_disk w) = Some rs" "find_by_id rs (rec_id r) = Some r"
    "rec_managed_execution r = Some m" "valid_records rs"
    by (rule in_stateD [OF assms(2)]) blast
  have "find_by_operation_id rs (me_operation_id m) = Some r"
    using find_filter [OF valid_records_filter_operation [OF rs(4)]] find_by_id_SomeD [OF rs(2)] rs(3)
    by (simp add: find_by_operation_id_def has_operation_id_def)
  then show ?thesis
    using assms(1) rs(1)
    by (simp add: mgr_get_by_operation_def store_call_def calm_def get_by_operation_id_def load_readonly_calm)
qed

lemma snapshotting_not_removable:
  assumes "calm mg" and "in_state w r Snapshotting m"
  shows "\<exists>e. store_call mg (\<lambda>flt d. begin_remove flt (ExecutionId (rec_id r)) g d) w = (Inl e, ticked w)"
proof -
  obtain rs where rs: "strict_view (w_disk w) = Some rs" "find_by_id rs (rec_id r) = Some r"
    "rec_managed_execution r = Some m" "managed_state r = Inr (Some Snapshotting)"
    by (rule in_stateD [OF assms(2)]) blast
  obtain e where "begin_remove_body (ExecutionId (rec_id r)) g rs = Inl e"
    using rs
    by (cases "me_generation m = g") (auto simp: begin_remove_body_def begin_remove_record_def
        require_managed_state_def require_metadata_def)
  from transact_refused [where f = "begin_remove_body (ExecutionId (rec_id r)) g" and from_io = StoreIo,
      OF rs(1) this]
  show ?thesis using assms(1) by (simp add: store_call_def begin_remove_def calm_def)
qed

lemma in_state_tick [simp]: "in_state (w\<lparr>w_tick := n\<rparr>) r s m \<longleftrightarrow> in_state w r s m"
  by (simp add: in_state_def stored_def)

lemma and_then_Pair [simp]: "and_then (Pair (Inr x)) k = k x"
  by (simp add: and_then_def fun_eq_iff)

lemma in_state_snapshot_id:
  assumes "in_state w r s m"
  shows "snapshot_execution_id r = Inr (ExecutionId (rec_id r))"
  using in_state_execution_id [OF assms]
  by (cases "execution_id_new (rec_id r)")
    (simp_all add: snapshot_execution_id_def record_execution_id_def map_err_def)

text \<open>A snapshot in progress whose backend lost the execution: driving it changes nothing.\<close>

lemma lost_snapshot_drive:
  assumes "in_state w r Snapshotting m" and "me_paused_with_memory m"
    and "\<And>host. be_inspect mg r host = (Inl e, host)"
  shows "drive_snapshot mg r w = (Inl e, w)"
proof -
  have r: "rec_managed_execution r = Some m" using assms(1) by (simp add: in_state_def)
  from in_state_pending [OF assms(1)] obtain sid src where op: "me_pending_operation m = Some (OpSnapshot sid src)"
    and src: "src \<in> {Running, Paused}"
    by (auto simp: validate_pending_iff pending_consistent_def validate_snapshot_operation_def
        split: option.splits managed_execution_operation.splits if_splits)
  have call: "host_call (be_inspect mg r) w = (Inl e, w)" using assms(3) by (simp add: host_call_def)
  show ?thesis
    using r op src in_state_snapshot_id [OF assms(1)] assms(2) call
    by (auto simp: drive_snapshot_def snapshot_operation_def record_pending_def paused_with_memory_def
        and_then_Inl)
qed

lemma lost_snapshot_step:
  assumes "calm mg" and "in_state w r Snapshotting m" and "me_paused_with_memory m"
    and "validate_lock_id (rec_id r) = Inr ()"
    and lost: "\<And>host. be_inspect mg r host = (Inl e, host)"
    and "addresses (ExecutionId (rec_id r)) (me_operation_id m) request"
  shows "\<exists>n. perform mg request w = w\<lparr>w_tick := n\<rparr>"
proof -
  let ?i = "ExecutionId (rec_id r)" and ?w1 = "ticked w" and ?w2 = "ticked (ticked w)"
  have sup: "support_managed_state r = Inr Snapshotting" by (rule in_state_support [OF assms(2)])
  have drive: "drive_snapshot mg r (w\<lparr>w_tick := n\<rparr>) = (Inl e, w\<lparr>w_tick := n\<rparr>)" for n
    by (rule lost_snapshot_drive [OF _ assms(3) lost]) (simp add: assms(2))
  have stable: "stabilize_snapshot mg r (w\<lparr>w_tick := n\<rparr>) = (Inl e, w\<lparr>w_tick := n\<rparr>)" for n
    using sup drive in_state_snapshot_id [OF assms(2)]
    by (simp add: stabilize_snapshot_def and_then_Inl del: support_managed_state_Inr)
  have req: "mgr_require mg ?i (w\<lparr>w_tick := n\<rparr>) = (Inr r, w\<lparr>w_tick := Suc n\<rparr>)" for n
    using calm_require_in_state [OF assms(1), of "w\<lparr>w_tick := n\<rparr>"] assms(2) by simp
  have op: "mgr_get_by_operation mg (me_operation_id m) (w\<lparr>w_tick := n\<rparr>) = (Inr (Some r), w\<lparr>w_tick := Suc n\<rparr>)" for n
    using calm_get_by_operation [OF assms(1), of "w\<lparr>w_tick := n\<rparr>"] assms(2) by simp
  have op0: "mgr_get_by_operation mg (me_operation_id m) w = (Inr (Some r), ticked w)"
    by (rule calm_get_by_operation [OF assms(1,2)])
  have lock: "lifecycle_lock mg (rec_id r) x = (Inr (), ticked x)" for x :: "'a world"
    by (rule calm_lock [OF assms(1,4)])
  note runs = and_then_Inr [where m = "lifecycle_lock mg (rec_id r)", OF lock]
    and_then_Inr [where m = "mgr_require mg ?i", OF req]
    and_then_Inr [where m = "mgr_get_by_operation mg (me_operation_id m)", OF op]
    and_then_Inr [where m = "mgr_get_by_operation mg (me_operation_id m)", OF op0]
    and_then_Inl [where m = "stabilize_snapshot mg r", OF stable]
    and_then_Inl [where m = "drive_snapshot mg r", OF drive]
  show ?thesis
  proof (cases request)
    case (ReqStart j g)
    then show ?thesis using assms(6) sup in_state_execution_id [OF assms(2)]
      by (cases "require_generation r ?i g")
        (auto simp: perform_def api_start_def ensure_started_def runs simp del: support_managed_state_Inr)
  next
    case (ReqSnapshot j g sid)
    then show ?thesis using assms(6) sup
      by (cases "require_generation r ?i g"; cases "snapshot_operation r")
        (auto simp: perform_def create_filesystem_snapshot_def create_snapshot_def runs drive
          simp del: support_managed_state_Inr)
  next
    case (ReqKill j g opts)
    moreover have "w = w\<lparr>w_tick := w_tick w\<rparr>" by simp
    ultimately show ?thesis using assms(6)
      by (cases "validate_kill_options opts")
        (auto simp: perform_def kill_with_options_def runs simp del: world.surjective intro: exI [of _ "w_tick w"])
  next
    case (ReqRemove j g)
    obtain e' where "store_call mg (\<lambda>flt d. begin_remove flt ?i g d) ?w1 = (Inl e', ?w2)"
      using snapshotting_not_removable [OF assms(1), of ?w1 r m g] assms(2) by auto
    with ReqRemove assms(6) show ?thesis by (auto simp: perform_def remove_execution_def runs and_then_Inl)
  next
    case (ReqReconcile oid)
    have "recover_snapshot mg r (w\<lparr>w_tick := n\<rparr>) = (Inl e, w\<lparr>w_tick := n\<rparr>)" for n
      by (simp add: recover_snapshot_def runs)
    with ReqReconcile show ?thesis using assms(6) sup
      by (auto simp: perform_def api_reconcile_def reconcile_record_def runs and_then_Inl
          simp del: support_managed_state_Inr)
  qed (use assms(6) in \<open>auto simp: perform_def api_inspect_def api_pause_def api_resume_def
      restart_with_options_def restart_record_def runs\<close>)
qed

lemma lost_snapshot_stays:
  assumes "calm mg" and "me_paused_with_memory m" and "validate_lock_id (rec_id r) = Inr ()"
    and "\<And>host. be_inspect mg r host = (Inl e, host)"
  shows "in_state w r Snapshotting m \<Longrightarrow>
    list_all (addresses (ExecutionId (rec_id r)) (me_operation_id m)) requests \<Longrightarrow>
    in_state (perform_all mg requests w) r Snapshotting m"
proof (induction requests arbitrary: w)
  case Nil
  then show ?case by simp
next
  case (Cons request requests)
  obtain n where "perform mg request w = w\<lparr>w_tick := n\<rparr>"
    using lost_snapshot_step [OF assms(1) Cons.prems(1) assms(2,3,4)] Cons.prems(2) by auto
  with Cons show ?case by simp
qed

text \<open>
  a lost execution stays in its snapshot. When the runtime disappears during a filesystem
  snapshot of an execution with memory (the backend answers that it does not know the execution),
  no sequence of requests on that execution, and no reconciliation, brings the record out of the
  snapshotting state: it can be neither killed, restarted, inspected nor removed.
\<close>

lemma lost_snapshot_is_stuck:
  assumes "calm mg" and "in_state w r Snapshotting m" and "me_paused_with_memory m"
    and "validate_lock_id (rec_id r) = Inr ()"
    and "\<And>host. be_inspect mg r host = (Inl (MgrNotFound (ExecutionId (rec_id r))), host)"
    and "list_all (addresses (ExecutionId (rec_id r)) (me_operation_id m)) requests"
  shows "in_state (perform_all mg requests w) r Snapshotting m"
  using lost_snapshot_stays [OF assms(1,3,4,5,2,6)] .

lemma sample_snapshotting:
  "validate_pending_operation Snapshotting
     (sample_metadata g (Some (OpSnapshot (ExecutionSnapshotId ''s'') Running))) = Inr ()"
  by (simp add: validate_pending_iff pending_consistent_def validate_restart_operation_def
      validate_snapshot_operation_def validate_kill_operation_def sample_metadata_def result_simps)

lemma lost_snapshot_is_stuck_witness:
  "\<exists>r m. in_state (perform_all (sample_manager (Inl (MgrNotFound (ExecutionId ''x1''))))
     [ReqInspect (ExecutionId ''x1''),
      ReqKill (ExecutionId ''x1'') (ExecutionGeneration 3) \<lparr>kill_signal = None, kill_timeout_secs = None\<rparr>,
      ReqRemove (ExecutionId ''x1'') (ExecutionGeneration 3), ReqReconcile (OperationId ''op'')]
     (sample_world Snapshotting
       (sample_metadata 3 (Some (OpSnapshot (ExecutionSnapshotId ''s'') Running))) empty_resources))
     r Snapshotting m"
  by (intro exI, rule lost_snapshot_is_stuck [OF sample_calm sample_in_state [OF sample_snapshotting
        sample_metadata_valid]])
    (simp_all add: sample_lock sample_fields sample_manager_def answers_def)

lemma status_of:
  assumes "in_state w r s m"
  shows "status_from_record r state = Inr \<lparr>st_execution_id = ExecutionId (rec_id r),
    st_generation = me_generation m, st_state = state, st_plan = me_plan m\<rparr>"
  using assms in_state_execution_id [OF assms]
  by (simp add: status_from_record_def record_metadata_def in_state_def)

lemma observed_killing:
  assumes "calm mg" and "in_state w r Killing m" and "validate_lock_id (rec_id r) = Inr ()"
    and "be_inspect mg r (w_backend w, w_resources w) = (Inl (MgrNotFound j), b', rw')"
    and "\<And>n. release_resources (home_stores (mg_home_dir mg)) (mg_resource_faults mg n) r rw' =
      (Inr (), rw'')"
  shows "\<exists>w' r' m' status. api_inspect mg (ExecutionId (rec_id r)) w = (Inr status, w') \<and>
    st_state status = ES_Stopped \<and> in_state w' r' Stopped m' \<and> rec_id r' = rec_id r \<and>
    rec_stopped_by_user r' = rec_stopped_by_user r \<and> w_resources w' = rw''"
proof -
  let ?i = "ExecutionId (rec_id r)" and ?w0 = "ticked (ticked w)"
  let ?w1 = "?w0\<lparr>w_backend := b', w_resources := rw'\<rparr>"
  let ?w2 = "(ticked ?w1)\<lparr>w_resources := rw''\<rparr>"
  have r: "rec_managed_execution r = Some m" using assms(2) by (simp add: in_state_def)
  have call: "host_call (be_inspect mg r) ?w0 = (Inl (MgrNotFound j), ?w1)"
    using assms(4) by (simp add: host_call_def)
  have rel: "release_execution_resources mg r ?w1 = (Inr (), ?w2)"
    using release_ok [of mg ?w1 r rw''] assms(5) by simp
  have s2: "in_state ?w2 r Killing m" using assms(2) by (simp add: in_state_def stored_def)
  let ?now = "mg_now mg (w_tick ?w2)"
  let ?um = "m\<lparr>me_finished_at := Some ?now, me_paused_with_memory := True\<rparr>"
  let ?r3 = "moved Stopped (me_generation m) None (clear_live_runtime ?now None r)"
  obtain w3 m3 where w3: "mgr_transition mg r Killing Stopped (Terminal None) ?w2 = (Inr ?r3, w3)"
    "in_state w3 ?r3 Stopped m3" "w_resources w3 = rw''"
    using calm_move [OF assms(1) s2, of Stopped "me_generation m" "Terminal None" ?um None] r
    by (auto simp: move_simps)
  have st: "support_managed_state r = Inr Killing" by (rule in_state_support [OF assms(2)])
  have "observe_record mg r ?w0 = (Inr (?r3, ES_Stopped), w3)"
    using st call rel w3(1) in_state_execution_id [OF assms(2)]
    by (simp add: observe_record_def observe_settled_def observe_backend_def observe_absent_def
        and_then_attempt and_then_Inr del: support_managed_state_Inr)
  then have "api_inspect mg ?i w = (status_from_record ?r3 ES_Stopped, w3)"
    using calm_require_in_state [OF assms(1), of "ticked w" r Killing m ?i] assms(2)
    by (simp add: api_inspect_def and_then_Inr [OF calm_lock [OF assms(1,3)]] and_then_Inr
        stabilize_not_snapshotting lift_def)
  with w3 show ?thesis
    using status_of [OF w3(2)]
    by (intro exI [of _ w3] exI [of _ ?r3] exI [of _ m3]) (auto simp: moved_def record_updates)
qed

text \<open>
  an inspection can end a kill without its mark. When a kill was claimed and the runtime is
  gone, inspecting the execution publishes it as stopped and releases its resources, but leaves the
  record's mark of having been stopped by the user as it was; the kill itself would have set it.
\<close>

lemma observed_kill_loses_mark:
  assumes "calm mg" and "in_state w r Killing m" and "validate_lock_id (rec_id r) = Inr ()"
    and "be_inspect mg r (w_backend w, w_resources w) = (Inl (MgrNotFound j), b', rw')"
    and "\<And>n. release_resources (home_stores (mg_home_dir mg)) (mg_resource_faults mg n) r rw' =
      (Inr (), rw'')"
  shows "\<exists>w' r' m' status. api_inspect mg (ExecutionId (rec_id r)) w = (Inr status, w') \<and>
    st_state status = ES_Stopped \<and> in_state w' r' Stopped m' \<and> rec_id r' = rec_id r \<and>
    rec_stopped_by_user r' = rec_stopped_by_user r \<and> w_resources w' = rw''"
  using observed_killing [OF assms] .

lemma observed_kill_loses_mark_witness:
  "\<exists>w' r' m' status. api_inspect (sample_manager (Inl (MgrNotFound (ExecutionId ''x1'')))) (ExecutionId ''x1'')
      (sample_world Killing (sample_metadata 3 (Some (OpKill None None))) sample_resources) = (Inr status, w') \<and>
    in_state w' r' Stopped m' \<and> \<not> rec_stopped_by_user r'"
proof -
  let ?m = "sample_metadata 3 (Some (OpKill None None))"
  let ?mg = "sample_manager (Inl (MgrNotFound (ExecutionId ''x1'')))"
  obtain rw where rw: "release_resources (home_stores ''/h'') no_resource_faults (sample_record Killing ?m)
      sample_resources = (Inr (), rw)"
    using sample_release_detaches [of "sample_record Killing ?m"] by (auto simp: sample_release_fields)
  have "\<exists>w' r' m' status. api_inspect ?mg (ExecutionId (rec_id (sample_record Killing ?m)))
        (sample_world Killing ?m sample_resources) = (Inr status, w') \<and>
      st_state status = ES_Stopped \<and> in_state w' r' Stopped m' \<and> rec_id r' = rec_id (sample_record Killing ?m) \<and>
      rec_stopped_by_user r' = rec_stopped_by_user (sample_record Killing ?m) \<and> w_resources w' = rw"
    by (rule observed_kill_loses_mark
        [OF sample_calm sample_in_state [OF sample_killing sample_metadata_valid]])
      (use rw in \<open>simp_all add: sample_lock sample_manager_def answers_def sample_world_def\<close>)
  then show ?thesis by (auto simp: sample_record_def)
qed

lemma observed_restart_failure:
  assumes "calm mg" and "in_state w r RestartStarting m" and "validate_lock_id (rec_id r) = Inr ()"
    and "be_inspect mg r (w_backend w, w_resources w) =
      (Inr \<lparr>ob_state = ES_Stopped, ob_handle = None, ob_exit_code = code\<rparr>, b', rw')"
  shows "\<exists>w' r' m' status. api_inspect mg (ExecutionId (rec_id r)) w = (Inr status, w') \<and>
    st_state status = ES_Failed \<and> in_state w' r' Failed m' \<and> rec_id r' = rec_id r \<and> w_resources w' = rw'"
proof -
  let ?i = "ExecutionId (rec_id r)" and ?g = "me_generation m"
  let ?w1 = "(ticked (ticked w))\<lparr>w_backend := b', w_resources := rw'\<rparr>"
  have r: "rec_managed_execution r = Some m" using assms(2) by (simp add: in_state_def)
  have s1: "in_state ?w1 r RestartStarting m" using assms(2) by (simp add: in_state_def stored_def)
  have call: "host_call (be_inspect mg r) (ticked (ticked w)) =
      (Inr \<lparr>ob_state = ES_Stopped, ob_handle = None, ob_exit_code = code\<rparr>, ?w1)"
    using assms(4) by (simp add: host_call_def)
  from in_state_pending [OF assms(2)] obtain oid g0 s t where
    op: "me_pending_operation m = Some (OpRestart oid g0 s t)" "next_generation g0 = Inr ?g"
      "validate_stop_timeout t = Inr ()"
    by (auto simp: validate_pending_iff pending_consistent_def validate_restart_operation_def result_simps
        split: option.splits managed_execution_operation.splits if_splits)
  obtain w2 r2 m2 where w2: "mgr_transition mg r RestartStarting Failed (RestartFailedUpd code) ?w1 = (Inr r2, w2)"
    "in_state w2 r2 Failed m2" "rec_id r2 = rec_id r" "w_resources w2 = rw'"
    using restart_completes [OF assms(1) s1 op, of Failed "RestartFailedUpd code"] r
    by (auto simp: apply_update_def record_updates)
  have st: "support_managed_state r = Inr RestartStarting" by (rule in_state_support [OF assms(2)])
  have "observe_record mg r (ticked (ticked w)) = (Inr (r2, ES_Failed), w2)"
    using st call w2(1) in_state_execution_id [OF assms(2)]
    by (simp add: observe_record_def observe_settled_def observe_backend_def observe_present_def
        observation_validate_def and_then_attempt and_then_Inr del: support_managed_state_Inr)
  then have "api_inspect mg ?i w = (status_from_record r2 ES_Failed, w2)"
    using calm_require_in_state [OF assms(1), of "ticked w" r RestartStarting m ?i] assms(2)
    by (simp add: api_inspect_def and_then_Inr [OF calm_lock [OF assms(1,3)]] and_then_Inr
        stabilize_not_snapshotting lift_def)
  with w2 show ?thesis using status_of [OF w2(2)] by auto
qed

text \<open>
  an observed restart failure keeps its resources. When the runtime that a restart was starting
  is found stopped, inspecting the execution publishes the restart as failed and leaves the shared
  resources as they are; the restart's own failure path releases them first.
\<close>

lemma observed_restart_failure_keeps_resources:
  assumes "calm mg" and "in_state w r RestartStarting m" and "validate_lock_id (rec_id r) = Inr ()"
    and "be_inspect mg r (w_backend w, w_resources w) =
      (Inr \<lparr>ob_state = ES_Stopped, ob_handle = None, ob_exit_code = code\<rparr>, b', rw')"
  shows "\<exists>w' r' m' status. api_inspect mg (ExecutionId (rec_id r)) w = (Inr status, w') \<and>
    st_state status = ES_Failed \<and> in_state w' r' Failed m' \<and> rec_id r' = rec_id r \<and> w_resources w' = rw'"
  using observed_restart_failure [OF assms] .

lemma sample_restarting:
  "validate_pending_operation RestartStarting (sample_metadata 4
     (Some (OpRestart (OperationId ''r'') (ExecutionGeneration 3) Running None))) = Inr ()"
  by (simp add: validate_pending_iff pending_consistent_def validate_restart_operation_def
      validate_snapshot_operation_def validate_kill_operation_def sample_metadata_def result_simps)

lemma observed_restart_failure_keeps_resources_witness:
  "\<exists>w' r' m' status c. api_inspect (sample_manager
        (Inr \<lparr>ob_state = ES_Stopped, ob_handle = None, ob_exit_code = Some 1\<rparr>)) (ExecutionId ''x1'')
      (sample_world RestartStarting (sample_metadata 4
        (Some (OpRestart (OperationId ''r'') (ExecutionGeneration 3) Running None))) sample_resources) =
      (Inr status, w') \<and>
    in_state w' r' Failed m' \<and>
    map_of (volume_view (rw_volumes (w_resources w'))) ''data'' = Some c \<and> vol_in_use_by c = [''x1'']"
proof -
  let ?m = "sample_metadata 4 (Some (OpRestart (OperationId ''r'') (ExecutionGeneration 3) Running None))"
  let ?ob = "\<lparr>ob_state = ES_Stopped, ob_handle = None, ob_exit_code = Some 1\<rparr>"
  have "\<exists>w' r' m' status. api_inspect (sample_manager (Inr ?ob))
        (ExecutionId (rec_id (sample_record RestartStarting ?m)))
        (sample_world RestartStarting ?m sample_resources) = (Inr status, w') \<and>
      st_state status = ES_Failed \<and> in_state w' r' Failed m' \<and>
      rec_id r' = rec_id (sample_record RestartStarting ?m) \<and> w_resources w' = sample_resources"
    by (rule observed_restart_failure_keeps_resources
        [OF sample_calm sample_in_state [OF sample_restarting sample_metadata_valid]])
      (simp_all add: sample_lock sample_manager_def answers_def sample_world_def)
  moreover have "map_of (volume_view (rw_volumes sample_resources)) ''data'' =
      Some (attach ''x1'' sample_volume_config)"
    by (simp add: sample_resources_def volume_view_def map_view_def sample_disk_def)
  moreover have "vol_in_use_by (attach ''x1'' sample_volume_config) = [''x1'']"
    by (simp add: attach_def sample_volume_config_def)
  ultimately show ?thesis unfolding sample_record_fields by metis
qed

end
