(* ===== verification/Compose.thy ===== *)
theory Compose
  imports Box_Config "HOL-Library.List_Lexorder" "HOL-Library.Char_ord"
begin

text \<open>
  Compose projects (\<open>core/src/compose.rs\<close>): the parsed project types, the conversions of their
  flexible fields, and the order in which services start. A hash map is an association list with
  distinct keys; strings are ordered bytewise, as Rust orders them. The parsers of YAML and ACL
  documents are not modelled.
\<close>

section \<open>Types\<close>

datatype string_or_list = SolEmpty | SolSingle string | SolList "string list"
datatype env_vars = EnvEmpty | EnvMap "(string \<times> string) list" | EnvList "string list"

record depends_on_condition =
  dc_condition :: string

datatype depends_on =
    DependsEmpty
  | DependsList "string list"
  | DependsMap "(string \<times> depends_on_condition) list"

record service_network_config =
  snc_aliases :: "string list"

datatype service_networks =
    SnEmpty
  | SnList "string list"
  | SnMap "(string \<times> service_network_config option) list"

datatype labels = LabelsEmpty | LabelsMap "(string \<times> string) list" | LabelsList "string list"
datatype dns_config = DnsEmpty | DnsSingle string | DnsList "string list"

record healthcheck_config =
  hc_test :: string_or_list
  hc_disable :: bool
  hc_interval :: "string option"
  hc_timeout :: "string option"
  hc_retries :: "u32 option"
  hc_start_period :: "string option"

record volume_declaration =
  vd_driver :: "string option"

record network_declaration =
  nd_driver :: "string option"

record service_config =
  svc_image :: "string option"
  svc_entrypoint :: "string_or_list option"
  svc_command :: "string_or_list option"
  svc_environment :: env_vars
  svc_env_file :: string_or_list
  svc_ports :: "string list"
  svc_volumes :: "string list"
  svc_depends_on :: depends_on
  svc_networks :: service_networks
  svc_cpus :: "u32 option"
  svc_mem_limit :: "string option"
  svc_restart :: "string option"
  svc_dns :: dns_config
  svc_tmpfs :: string_or_list
  svc_cap_add :: "string list"
  svc_cap_drop :: "string list"
  svc_privileged :: bool
  svc_labels :: labels
  svc_healthcheck :: "healthcheck_config option"
  svc_working_dir :: "string option"
  svc_hostname :: "string option"
  svc_extra_hosts :: string_or_list

definition default_service :: service_config where
  "default_service =
     \<lparr>svc_image = None, svc_entrypoint = None, svc_command = None, svc_environment = EnvEmpty,
      svc_env_file = SolEmpty, svc_ports = [], svc_volumes = [], svc_depends_on = DependsEmpty,
      svc_networks = SnEmpty, svc_cpus = None, svc_mem_limit = None, svc_restart = None,
      svc_dns = DnsEmpty, svc_tmpfs = SolEmpty, svc_cap_add = [], svc_cap_drop = [],
      svc_privileged = False, svc_labels = LabelsEmpty, svc_healthcheck = None,
      svc_working_dir = None, svc_hostname = None, svc_extra_hosts = SolEmpty\<rparr>"

record compose_config =
  cc_version :: "string option"
  cc_services :: "(string \<times> service_config) list"
  cc_volumes :: "(string \<times> volume_declaration option) list"
  cc_networks :: "(string \<times> network_declaration option) list"

section \<open>Conversions\<close>

text \<open>\<open>split_whitespace\<close>: the maximal pieces without white space.\<close>

function split_whitespace_from :: "string \<Rightarrow> string \<Rightarrow> string list" where
  "split_whitespace_from piece s =
     (if s = [] then (if piece = [] then [] else [rev piece])
      else if ws_len s = 0 then split_whitespace_from (hd s # piece) (tl s)
      else (if piece = [] then [] else [rev piece]) @ split_whitespace_from [] (drop (ws_len s) s))"
  by pat_completeness auto
termination
  by (relation "measure (\<lambda>(piece, s). length s)") auto

declare split_whitespace_from.simps [simp del]

definition split_whitespace :: "string \<Rightarrow> string list" where
  "split_whitespace s = split_whitespace_from [] s"

definition sol_to_vec :: "string_or_list \<Rightarrow> string list" where
  "sol_to_vec v =
     (case v of SolEmpty \<Rightarrow> [] | SolSingle s \<Rightarrow> split_whitespace s | SolList xs \<Rightarrow> xs)"

definition sol_is_empty :: "string_or_list \<Rightarrow> bool" where
  "sol_is_empty v \<longleftrightarrow>
     (case v of SolEmpty \<Rightarrow> True | SolSingle s \<Rightarrow> s = [] | SolList xs \<Rightarrow> xs = [])"

definition env_to_pairs :: "env_vars \<Rightarrow> (string \<times> string) list" where
  "env_to_pairs v =
     (case v of
        EnvEmpty \<Rightarrow> []
      | EnvMap m \<Rightarrow> sort_key fst m
      | EnvList xs \<Rightarrow> List.map_filter (split_once CHR ''='') xs)"

definition depends_services :: "depends_on \<Rightarrow> string list" where
  "depends_services v =
     (case v of DependsEmpty \<Rightarrow> [] | DependsList xs \<Rightarrow> xs | DependsMap m \<Rightarrow> sort (map fst m))"

definition network_names :: "service_networks \<Rightarrow> string list" where
  "network_names v =
     (case v of SnEmpty \<Rightarrow> [] | SnList xs \<Rightarrow> xs | SnMap m \<Rightarrow> sort (map fst m))"

text \<open>Collected into a hash map: a later entry of a key replaces an earlier one.\<close>

definition labels_to_map :: "labels \<Rightarrow> string \<rightharpoonup> string" where
  "labels_to_map v =
     (case v of
        LabelsEmpty \<Rightarrow> Map.empty
      | LabelsMap m \<Rightarrow> map_of m
      | LabelsList xs \<Rightarrow>
          map_of (rev (map (\<lambda>entry. case split_once CHR ''='' entry of
            None \<Rightarrow> (entry, []) | Some kv \<Rightarrow> kv) xs)))"

definition dns_to_vec :: "dns_config \<Rightarrow> string list" where
  "dns_to_vec v = (case v of DnsEmpty \<Rightarrow> [] | DnsSingle s \<Rightarrow> [s] | DnsList xs \<Rightarrow> xs)"

section \<open>Start order\<close>

text \<open>
  The depth-first visit. A service is unvisited, in progress (1) or done (2). The nested results
  make the termination argument depend on a partial property: a visit never unmarks a service.
\<close>

type_synonym visit_marks = "string \<rightharpoonup> u8"

definition cycle_error :: "string \<Rightarrow> string" where
  "cycle_error name = ''Dependency cycle detected involving service '' @ sq name"

definition undefined_error :: "string \<Rightarrow> string \<Rightarrow> string" where
  "undefined_error name dep =
     ''Service '' @ sq name @ '' depends on '' @ sq dep @ '' which is not defined''"

function topo_visit ::
    "(string \<times> service_config) list \<Rightarrow> string \<Rightarrow> visit_marks \<Rightarrow> string list \<Rightarrow>
     string + visit_marks \<times> string list"
and topo_visit_deps ::
    "(string \<times> service_config) list \<Rightarrow> string \<Rightarrow> string list \<Rightarrow> visit_marks \<Rightarrow> string list \<Rightarrow>
     string + visit_marks \<times> string list"
where
  "topo_visit services name state order =
     (if state name = Some 1 then Inl (cycle_error name)
      else if state name = Some 2 then Inr (state, order)
      else
        (case map_of services name of
           None \<Rightarrow> Inr (state(name \<mapsto> 2), order @ [name])
         | Some svc \<Rightarrow>
             (case topo_visit_deps services name (depends_services (svc_depends_on svc))
                     (state(name \<mapsto> 1)) order of
                Inl e \<Rightarrow> Inl e
              | Inr (state', order') \<Rightarrow> Inr (state'(name \<mapsto> 2), order' @ [name]))))"
| "topo_visit_deps services name [] state order = Inr (state, order)"
| "topo_visit_deps services name (dep # deps) state order =
     (if map_of services dep = None then Inl (undefined_error name dep)
      else
        (case topo_visit services dep state order of
           Inl e \<Rightarrow> Inl e
         | Inr (state', order') \<Rightarrow> topo_visit_deps services name deps state' order'))"
  by pat_completeness auto

definition marked :: "visit_marks \<Rightarrow> string set" where
  "marked state = {n. state n = Some 1 \<or> state n = Some 2}"

definition unmarked_services :: "(string \<times> service_config) list \<Rightarrow> visit_marks \<Rightarrow> nat" where
  "unmarked_services services state = card (fst ` set services - marked state)"

lemma marked_upd: "marked (state(n \<mapsto> 1)) = insert n (marked state)"
  "marked (state(n \<mapsto> 2)) = insert n (marked state)"
  by (auto simp: marked_def)

lemma topo_visit_marks:
  "topo_visit_topo_visit_deps_dom (Inl (services, name, state, order)) \<Longrightarrow>
     topo_visit services name state order = Inr (state', order') \<Longrightarrow> marked state \<subseteq> marked state'"
  "topo_visit_topo_visit_deps_dom (Inr (services, name, deps, state, order)) \<Longrightarrow>
     topo_visit_deps services name deps state order = Inr (state', order') \<Longrightarrow>
     marked state \<subseteq> marked state'"
proof (induction services name state order and services name deps state order
    arbitrary: state' order' and state' order' rule: topo_visit_topo_visit_deps.pinduct)
  case (1 services name state order)
  show ?case
  proof (cases "map_of services name")
    case None
    with 1 show ?thesis
      by (auto simp: topo_visit.psimps marked_upd split: if_splits)
  next
    case (Some svc)
    show ?thesis
    proof (cases "state name = Some 1 \<or> state name = Some 2")
      case True
      with 1 show ?thesis by (auto simp: topo_visit.psimps split: if_splits)
    next
      case False
      with 1(1,3) Some obtain st where
        st: "topo_visit_deps services name (depends_services (svc_depends_on svc)) (state(name \<mapsto> 1)) order =
          Inr st" "state' = (fst st)(name \<mapsto> 2)"
        by (auto simp: topo_visit.psimps split: sum.splits prod.splits)
      have "marked (state(name \<mapsto> 1)) \<subseteq> marked (fst st)"
        using 1(2) [of svc "fst st" "snd st"] False Some st(1) by (simp add: fun_upd_def)
      then show ?thesis unfolding st(2) marked_upd by auto
    qed
  qed
next
  case (2 services name state order)
  then show ?case by (simp add: topo_visit_deps.psimps)
next
  case (3 services name dep deps state order)
  then show ?case
    by (auto simp: topo_visit_deps.psimps split: if_splits sum.splits prod.splits) blast
qed

lemma unmarked_less:
  assumes "map_of services name = Some svc" and "name \<notin> marked state"
  shows "unmarked_services services (state(name \<mapsto> 1)) < unmarked_services services state"
proof -
  have "name \<in> fst ` set services" using map_of_SomeD [OF assms(1)] by force
  then show ?thesis
    using assms(2) unfolding unmarked_services_def marked_upd
    by (intro psubset_card_mono) auto
qed

lemma unmarked_mono:
  "marked state \<subseteq> marked state' \<Longrightarrow> unmarked_services services state' \<le> unmarked_services services state"
  unfolding unmarked_services_def by (intro card_mono) auto

termination topo_visit
proof (relation "measures
    [\<lambda>x. case x of Inl (services, name, state, order) \<Rightarrow> unmarked_services services state
        | Inr (services, name, deps, state, order) \<Rightarrow> unmarked_services services state,
     \<lambda>x. case x of Inl _ \<Rightarrow> 0 | Inr (services, name, deps, state, order) \<Rightarrow> length deps]", goal_cases)
  case 1
  then show ?case by simp
next
  case (2 services name state order svc)
  then show ?case using unmarked_less [of services name svc state] by (simp add: marked_def)
next
  case (3 services name dep deps state order)
  then show ?case by simp
next
  case (4 services name dep deps state order p state' order')
  then show ?case
    using topo_visit_marks(1) [of services dep state order state' order']
      unmarked_mono [of state state' services]
    by (auto simp: le_less)
qed

fun topo_visit_all ::
    "(string \<times> service_config) list \<Rightarrow> string list \<Rightarrow> visit_marks \<Rightarrow> string list \<Rightarrow>
     string + string list" where
  "topo_visit_all services [] state order = Inr order"
| "topo_visit_all services (name # names) state order =
     (if state name = None then
        (case topo_visit services name state order of
           Inl e \<Rightarrow> Inl e
         | Inr (state', order') \<Rightarrow> topo_visit_all services names state' order')
      else topo_visit_all services names state order)"

definition service_order :: "compose_config \<Rightarrow> string + string list" where
  "service_order self =
     topo_visit_all (cc_services self) (sort (map fst (cc_services self))) Map.empty []"

declare topo_visit.simps [simp del]

section \<open>What a start order is\<close>

definition dependencies :: "(string \<times> service_config) list \<Rightarrow> string \<Rightarrow> string list" where
  "dependencies services name =
     (case map_of services name of
        None \<Rightarrow> [] | Some svc \<Rightarrow> depends_services (svc_depends_on svc))"

definition needs :: "(string \<times> service_config) list \<Rightarrow> (string \<times> string) set" where
  "needs services = {(name, dep). dep \<in> set (dependencies services name)}"

text \<open>Every service of the list comes after the services it depends on.\<close>

fun starts_after :: "(string \<times> service_config) list \<Rightarrow> string list \<Rightarrow> string list \<Rightarrow> bool" where
  "starts_after services seen [] \<longleftrightarrow> True"
| "starts_after services seen (name # names) \<longleftrightarrow>
     set (dependencies services name) \<subseteq> set seen \<and> starts_after services (name # seen) names"

text \<open>What the two error texts say.\<close>

definition order_error :: "(string \<times> service_config) list \<Rightarrow> string \<Rightarrow> bool" where
  "order_error services e \<longleftrightarrow>
     (\<exists>name \<in> fst ` set services. e = cycle_error name \<and> (name, name) \<in> (needs services)\<^sup>+) \<or>
     (\<exists>name \<in> fst ` set services. \<exists>dep \<in> set (dependencies services name).
        e = undefined_error name dep \<and> dep \<notin> fst ` set services)"

lemma starts_after_snoc:
  "starts_after services seen (names @ [name]) \<longleftrightarrow>
     starts_after services seen names \<and> set (dependencies services name) \<subseteq> set seen \<union> set names"
  by (induction names arbitrary: seen) auto

definition visit_inv :: "(string \<times> service_config) list \<Rightarrow> visit_marks \<Rightarrow> string list \<Rightarrow> bool" where
  "visit_inv services state order \<longleftrightarrow>
     (\<forall>n. state n \<in> {None, Some 1, Some 2}) \<and> set order = {n. state n = Some 2} \<and>
     distinct order \<and> starts_after services [] order \<and> set order \<subseteq> fst ` set services"

text \<open>What a visit does: the services in progress stay, the visited ones are ordered.\<close>

definition visit_ok ::
    "(string \<times> service_config) list \<Rightarrow> visit_marks \<Rightarrow> string list \<Rightarrow> string list \<Rightarrow>
     string + visit_marks \<times> string list \<Rightarrow> bool" where
  "visit_ok services state order wanted result \<longleftrightarrow>
     (case result of
        Inl e \<Rightarrow> order_error services e
      | Inr (state', order') \<Rightarrow>
          visit_inv services state' order' \<and> (\<forall>n. state' n = Some 1 \<longleftrightarrow> state n = Some 1) \<and>
          set order \<union> set wanted \<subseteq> set order')"

lemma visit_done:
  assumes "visit_inv services (state(name \<mapsto> 1)) order" and "state name \<noteq> Some 1"
    and "map_of services name = Some svc"
    and "visit_ok services (state(name \<mapsto> 1)) order (depends_services (svc_depends_on svc)) (Inr (state', order'))"
  shows "visit_ok services state order [name] (Inr (state'(name \<mapsto> 2), order' @ [name]))"
proof -
  have inv: "visit_inv services state' order'" and ones: "\<And>n. state' n = Some 1 \<longleftrightarrow> (state(name \<mapsto> 1)) n = Some 1"
    and sub: "set order \<union> set (dependencies services name) \<subseteq> set order'"
    using assms(3,4) by (auto simp: visit_ok_def dependencies_def)
  have "state' name = Some 1" using ones [of name] by simp
  then have "name \<notin> set order'" using inv by (auto simp: visit_inv_def)
  moreover have "name \<in> fst ` set services" using map_of_SomeD [OF assms(3)] by force
  ultimately have "visit_inv services (state'(name \<mapsto> 2)) (order' @ [name])"
    using inv sub by (auto simp: visit_inv_def starts_after_snoc)
  then show ?thesis using ones sub assms(2) by (auto simp: visit_ok_def)
qed

lemma topo_visit_ok:
  "name \<in> fst ` set services \<Longrightarrow> visit_inv services state order \<Longrightarrow>
     (\<And>n. state n = Some 1 \<Longrightarrow> (n, name) \<in> (needs services)\<^sup>+) \<Longrightarrow>
     visit_ok services state order [name] (topo_visit services name state order)"
  "name \<in> fst ` set services \<Longrightarrow> visit_inv services state order \<Longrightarrow>
     set deps \<subseteq> set (dependencies services name) \<Longrightarrow>
     (\<And>n. state n = Some 1 \<Longrightarrow> (n, name) \<in> (needs services)\<^sup>*) \<Longrightarrow>
     visit_ok services state order deps (topo_visit_deps services name deps state order)"
proof (induction services name state order and services name deps state order
    rule: topo_visit_topo_visit_deps.induct)
  case (1 services name state order)
  then obtain svc where svc: "map_of services name = Some svc"
    by (cases "map_of services name") (auto simp: map_of_eq_None_iff)
  consider "state name = Some 1" | "state name = Some 2" | "state name \<noteq> Some 1" "state name \<noteq> Some 2" by blast
  then show ?case
  proof cases
    case 1
    with "1.prems" show ?thesis by (auto simp: topo_visit.simps visit_ok_def order_error_def)
  next
    case 2
    with "1.prems" show ?thesis by (auto simp: topo_visit.simps visit_ok_def visit_inv_def)
  next
    case 3
    let ?st = "state(name \<mapsto> 1)" and ?deps = "depends_services (svc_depends_on svc)"
    have inv: "visit_inv services ?st order" using "1.prems"(2) 3 by (auto simp: visit_inv_def)
    have "visit_ok services ?st order ?deps (topo_visit_deps services name ?deps ?st order)"
    proof (rule "1.IH" [OF 3 svc "1.prems"(1) inv])
      show "set ?deps \<subseteq> set (dependencies services name)" using svc by (simp add: dependencies_def)
      show "(n, name) \<in> (needs services)\<^sup>*" if "?st n = Some 1" for n
        using that "1.prems"(3) [of n] by (auto split: if_splits)
    qed
    then show ?thesis
      using visit_done [OF inv 3(1) svc] 3 svc
      by (auto simp: topo_visit.simps visit_ok_def [of _ _ _ _ "Inl _"] split: sum.splits prod.splits)
  qed
next
  case (2 services name state order)
  then show ?case by (simp add: visit_ok_def)
next
  case (3 services name dep deps state order)
  show ?case
  proof (cases "map_of services dep = None")
    case True
    with 3 show ?thesis by (auto simp: visit_ok_def order_error_def map_of_eq_None_iff)
  next
    case False
    then have dep: "dep \<in> fst ` set services" by (auto simp: map_of_eq_None_iff)
    have edge: "(name, dep) \<in> needs services" using "3.prems"(3) by (simp add: needs_def)
    have one: "visit_ok services state order [dep] (topo_visit services dep state order)"
      using "3.IH"(1) [OF False dep "3.prems"(2)] "3.prems"(4) edge by (meson rtrancl_into_trancl1)
    show ?thesis
    proof (cases "topo_visit services dep state order")
      case (Inl e)
      with one False show ?thesis by (auto simp: visit_ok_def)
    next
      case (Inr p)
      obtain state' order' where p: "p = (state', order')" by fastforce
      have "visit_ok services state' order' deps (topo_visit_deps services name deps state' order')"
        using "3.IH"(2) [OF False Inr p [symmetric]] "3.prems" one Inr p by (auto simp: visit_ok_def)
      with one Inr p False show ?thesis
        by (auto simp: visit_ok_def split: sum.splits)
    qed
  qed
qed

lemma topo_visit_all_ok:
  assumes "set names \<subseteq> fst ` set services" and "visit_inv services state order"
    and "\<And>n. state n \<noteq> Some 1"
  shows "case topo_visit_all services names state order of
      Inl e \<Rightarrow> order_error services e
    | Inr order' \<Rightarrow> distinct order' \<and> starts_after services [] order' \<and>
        set order \<union> set names \<subseteq> set order' \<and> set order' \<subseteq> fst ` set services"
  using assms
proof (induction services names state order rule: topo_visit_all.induct)
  case (1 services state order)
  then show ?case by (auto simp: visit_inv_def)
next
  case (2 services name names state order)
  show ?case
  proof (cases "state name = None")
    case True
    have ok: "visit_ok services state order [name] (topo_visit services name state order)"
      by (rule topo_visit_ok(1)) (use "2.prems" in auto)
    show ?thesis
    proof (cases "topo_visit services name state order")
      case (Inl e)
      with ok True show ?thesis by (simp add: visit_ok_def)
    next
      case (Inr p)
      obtain state' order' where p: "p = (state', order')" by fastforce
      with "2.IH"(1) [OF True Inr p [symmetric]] "2.prems" ok Inr True show ?thesis
        by (auto simp: visit_ok_def split: sum.splits)
    qed
  next
    case False
    have "state name \<in> {None, Some 1, Some 2}"
      using "2.prems"(2) unfolding visit_inv_def by simp
    with False "2.prems"(3) [of name] have "state name = Some 2" by (metis insert_iff singletonD)
    then have name: "name \<in> set order" using "2.prems"(2) unfolding visit_inv_def by simp
    have "set names \<subseteq> fst ` set services" using "2.prems"(1) by simp
    from "2.IH"(2) [OF False this "2.prems"(2,3)] False name show ?thesis
      by (auto split: sum.splits)
  qed
qed

text \<open>An order in which everything starts after its dependencies rules out cycles.\<close>

lemma starts_after_before:
  assumes "starts_after services seen order" and "name \<in> set order" and "dep \<in> set (dependencies services name)"
  shows "dep \<in> set seen \<union> set (takeWhile (\<lambda>n. n \<noteq> name) order)"
  using assms
proof (induction order arbitrary: seen)
  case Nil
  then show ?case by simp
next
  case (Cons a order)
  then show ?case using Cons.IH [of "a # seen"] by (cases "a = name") auto
qed

lemma takeWhile_before:
  "d \<in> set (takeWhile (\<lambda>x. x \<noteq> n) xs) \<Longrightarrow>
     length (takeWhile (\<lambda>x. x \<noteq> d) xs) < length (takeWhile (\<lambda>x. x \<noteq> n) xs)"
  by (induction xs) (auto split: if_splits)

lemma starts_after_step:
  assumes "starts_after services [] order" and "fst ` set services \<subseteq> set order"
    and "(name, dep) \<in> needs services"
  shows "length (takeWhile (\<lambda>x. x \<noteq> dep) order) < length (takeWhile (\<lambda>x. x \<noteq> name) order)"
proof -
  have dep: "dep \<in> set (dependencies services name)" using assms(3) by (simp add: needs_def)
  then have "name \<in> fst ` set services"
    by (cases "map_of services name") (auto simp: dependencies_def dest: map_of_SomeD intro: rev_image_eqI)
  then have "dep \<in> set (takeWhile (\<lambda>x. x \<noteq> name) order)"
    using starts_after_before [OF assms(1) _ dep] assms(2) by auto
  then show ?thesis by (rule takeWhile_before)
qed

lemma starts_after_acyclic:
  assumes "starts_after services [] order" and "fst ` set services \<subseteq> set order"
  shows "acyclic (needs services)"
proof -
  have "(needs services)\<inverse> \<subseteq> measure (\<lambda>n. length (takeWhile (\<lambda>x. x \<noteq> n) order))"
    using starts_after_step [OF assms] by (auto simp: in_measure)
  then have "wf ((needs services)\<inverse>)" by (rule wf_subset [OF wf_measure])
  then show ?thesis using wf_acyclic by fastforce
qed

lemma starts_after_closed:
  assumes "starts_after services [] order" and "set order \<subseteq> fst ` set services" and "name \<in> set order"
  shows "set (dependencies services name) \<subseteq> fst ` set services"
  using starts_after_before [OF assms(1,3)] assms(2) by (auto dest!: set_takeWhileD)

lemma service_order_ok:
  "case service_order cfg of
      Inr order \<Rightarrow> distinct order \<and> set order = fst ` set (cc_services cfg) \<and>
        starts_after (cc_services cfg) [] order
    | Inl e \<Rightarrow> order_error (cc_services cfg) e"
proof -
  have "visit_inv (cc_services cfg) Map.empty []" by (simp add: visit_inv_def)
  from topo_visit_all_ok [OF _ this, of "sort (map fst (cc_services cfg))"]
  show ?thesis unfolding service_order_def by (auto split: sum.splits)
qed

section \<open>Properties\<close>

text \<open>
  C21: the start order is a correct and complete topological sort. When the order is computed, every
  service is in it once, after all the services it depends on; an order is computed exactly when
  every dependency is a defined service and no service needs itself through a chain of
  dependencies; and an error names a service on such a cycle or an undefined dependency. The visit
  always ends, on cyclic projects too.
\<close>

theorem service_order_exact:
  "(case service_order cfg of
      Inr order \<Rightarrow> distinct order \<and> set order = fst ` set (cc_services cfg) \<and>
        starts_after (cc_services cfg) [] order
    | Inl e \<Rightarrow> order_error (cc_services cfg) e) \<and>
   ((\<exists>order. service_order cfg = Inr order) \<longleftrightarrow>
      acyclic (needs (cc_services cfg)) \<and> snd ` needs (cc_services cfg) \<subseteq> fst ` set (cc_services cfg))"
proof -
  let ?s = "cc_services cfg"
  have res: "case service_order cfg of
      Inr order \<Rightarrow> distinct order \<and> set order = fst ` set ?s \<and> starts_after ?s [] order
    | Inl e \<Rightarrow> order_error ?s e"
    by (rule service_order_ok)
  moreover have "acyclic (needs ?s) \<and> snd ` needs ?s \<subseteq> fst ` set ?s" if "service_order cfg = Inr order" for order
  proof -
    have o: "set order = fst ` set ?s" "starts_after ?s [] order" using res that by auto
    have "dep \<in> fst ` set ?s" if "(name, dep) \<in> needs ?s" for name dep
    proof -
      have "name \<in> set order" using that o(1)
        by (cases "map_of ?s name") (auto simp: needs_def dependencies_def dest: map_of_SomeD intro: rev_image_eqI)
      then show ?thesis using starts_after_closed [OF o(2)] that o(1) by (auto simp: needs_def)
    qed
    then show ?thesis using starts_after_acyclic [OF o(2)] o(1) by auto
  qed
  moreover have "\<not> (acyclic (needs ?s) \<and> snd ` needs ?s \<subseteq> fst ` set ?s)" if "service_order cfg = Inl e" for e
  proof -
    have "order_error ?s e" using res that by simp
    then consider name where "(name, name) \<in> (needs ?s)\<^sup>+"
      | name dep where "(name, dep) \<in> needs ?s" "dep \<notin> fst ` set ?s"
      unfolding order_error_def needs_def by blast
    then show ?thesis
    proof cases
      case 1
      then show ?thesis by (auto simp: acyclic_def)
    next
      case 2
      then show ?thesis by (metis image_eqI snd_conv subsetD)
    qed
  qed
  ultimately show ?thesis by (cases "service_order cfg") auto
qed

end
