(* ===== verification/Oci_Reference.thy ===== *)
theory Oci_Reference
  imports Box_Config
begin

text \<open>
  Image references (\<open>runtime/src/oci/reference.rs\<close>): parsing into registry, repository, tag and
  digest with the defaults of Docker Hub, and the full textual form.
\<close>

section \<open>Model\<close>

text \<open>The text before and after the last occurrence of a character (\<open>rfind\<close> and two slices).\<close>

definition rsplit_once :: "char \<Rightarrow> string \<Rightarrow> (string \<times> string) option" where
  "rsplit_once d s = map_option (\<lambda>(a, b). (rev b, rev a)) (split_once d (rev s))"

record image_reference =
  ir_registry :: string
  ir_repository :: string
  ir_tag :: "string option"
  ir_digest :: "string option"

definition DEFAULT_REGISTRY :: string where
  "DEFAULT_REGISTRY = ''docker.io''"

definition DEFAULT_TAG :: string where
  "DEFAULT_TAG = ''latest''"

definition split_registry_repository :: "string \<Rightarrow> box_error + string \<times> string" where
  "split_registry_repository name =
     (let default = (DEFAULT_REGISTRY,
            if CHR ''/'' \<in> set name then name else ''library/'' @ name) in
      case split_once CHR ''/'' name of
        None \<Rightarrow> Inr default
      | Some (first, repo) \<Rightarrow>
          if CHR ''.'' \<in> set first \<or> CHR '':'' \<in> set first \<or> first = ''localhost'' then
            if repo = [] then Inl (OciImageError (''Empty repository in reference '' @ sq name))
            else Inr (first, repo)
          else Inr default)"

text \<open>The split into name and tag; both branches of the source (with and without digest) agree.\<close>

definition split_name_tag :: "string \<Rightarrow> string \<times> string option" where
  "split_name_tag name_tag =
     (case rsplit_once CHR ''/'' name_tag of
        Some (before, after_slash) \<Rightarrow>
          (case rsplit_once CHR '':'' after_slash of
             Some (name, tag) \<Rightarrow> (before @ ''/'' @ name, Some tag)
           | None \<Rightarrow> (name_tag, None))
      | None \<Rightarrow>
          (case rsplit_once CHR '':'' name_tag of
             Some (name, tag) \<Rightarrow> (name, Some tag)
           | None \<Rightarrow> (name_tag, None)))"

definition split_digest :: "string \<Rightarrow> box_error + string \<times> string option" where
  "split_digest reference =
     (case rsplit_once CHR ''@'' reference of
        Some (name_tag, digest_part) \<Rightarrow>
          if CHR '':'' \<notin> set digest_part then
            Inl (OciImageError (''Invalid digest format in reference '' @ sq reference @
              '': expected algorithm:hex''))
          else Inr (name_tag, Some digest_part)
      | None \<Rightarrow> Inr (reference, None))"

definition parse_reference :: "string \<Rightarrow> box_error + image_reference" where
  "parse_reference text =
     (let reference = trim text in
      if reference = [] then Inl (OciImageError ''Empty image reference'')
      else
        rbind (split_digest reference) (\<lambda>(name_tag, digest).
          let (name, tag) = split_name_tag name_tag in
          rbind (split_registry_repository name) (\<lambda>(registry, repository).
            Inr \<lparr>ir_registry = registry, ir_repository = repository,
                 ir_tag = (if tag = None \<and> digest = None then Some DEFAULT_TAG else tag),
                 ir_digest = digest\<rparr>)))"

definition full_reference :: "image_reference \<Rightarrow> string" where
  "full_reference self =
     ir_registry self @ ''/'' @ ir_repository self @
     (case ir_tag self of None \<Rightarrow> [] | Some tag \<Rightarrow> '':'' @ tag) @
     (case ir_digest self of None \<Rightarrow> [] | Some digest \<Rightarrow> ''@'' @ digest)"

section \<open>Facts\<close>

lemma rsplit_once_None: "rsplit_once d s = None \<longleftrightarrow> d \<notin> set s"
  by (simp add: rsplit_once_def split_once_None_iff)

lemma rsplit_once_Some: "rsplit_once d s = Some (a, b) \<longleftrightarrow> s = a @ d # b \<and> d \<notin> set b"
proof
  assume "rsplit_once d s = Some (a, b)"
  then have "split_once d (rev s) = Some (rev b, rev a)"
    by (auto simp: rsplit_once_def)
  from split_once_SomeD [OF this] have "rev (rev s) = rev (rev b @ d # rev a)" "d \<notin> set b" by auto
  then show "s = a @ d # b \<and> d \<notin> set b" by simp
next
  assume s: "s = a @ d # b \<and> d \<notin> set b"
  have "split_once d (xs @ d # ys) = Some (xs, ys)" if "d \<notin> set xs" for xs ys
    using that by (induction xs) auto
  from this [of "rev b" "rev a"] s show "rsplit_once d s = Some (a, b)"
    by (simp add: rsplit_once_def)
qed

lemma split_once_Some: "split_once d s = Some (a, b) \<longleftrightarrow> s = a @ d # b \<and> d \<notin> set a"
proof
  show "s = a @ d # b \<and> d \<notin> set a \<Longrightarrow> split_once d s = Some (a, b)"
    by (induction a arbitrary: s) auto
qed (rule split_once_SomeD)

subsection \<open>Trimming\<close>

text \<open>Text that ends where a trimmed text does, after a slash, ends in no white space either.\<close>

lemma ws_len_rev_append:
  "ws_len_rev x = 0 \<Longrightarrow> x \<noteq> [] \<Longrightarrow> ws_len_rev (x @ CHR ''/'' # y) = 0"
  by (cases x rule: ws_len_rev.cases; cases y) (auto simp: ws1_def ws2_def ws3_def split: if_splits)

lemma ws_len_docker: "ws_len (''docker.io/'' @ s) = 0"
  by (simp add: ws1_def ws2_def ws3_def)

lemma ws_len_rev_latest: "ws_len_rev (rev (s @ '':latest'')) = 0"
  by (simp add: ws1_def ws2_def ws3_def)

subsection \<open>Splitting\<close>

definition last_component :: "string \<Rightarrow> string" where
  "last_component s = (case rsplit_once CHR ''/'' s of None \<Rightarrow> s | Some (before, after_slash) \<Rightarrow> after_slash)"

lemma rsplit_once_append:
  "d \<notin> set b \<Longrightarrow> rsplit_once d (a @ d # b) = Some (a, b)"
  by (simp add: rsplit_once_Some)

lemma split_name_tag_untagged:
  "split_name_tag s = (name, None) \<longleftrightarrow> name = s \<and> CHR '':'' \<notin> set (last_component s)"
  unfolding rsplit_once_None [symmetric]
  by (auto simp: split_name_tag_def last_component_def split: option.splits)

lemma split_name_tag_tagged:
  "split_name_tag s = (name, Some tag) \<longleftrightarrow>
     s = name @ '':'' @ tag \<and> CHR '':'' \<notin> set tag \<and> CHR ''/'' \<notin> set tag"
proof
  assume "split_name_tag s = (name, Some tag)"
  then show "s = name @ '':'' @ tag \<and> CHR '':'' \<notin> set tag \<and> CHR ''/'' \<notin> set tag"
    by (auto simp: split_name_tag_def rsplit_once_Some rsplit_once_None split: option.splits)
next
  assume s: "s = name @ '':'' @ tag \<and> CHR '':'' \<notin> set tag \<and> CHR ''/'' \<notin> set tag"
  show "split_name_tag s = (name, Some tag)"
  proof (cases "rsplit_once CHR ''/'' name")
    case None
    with s have "rsplit_once CHR ''/'' s = None" by (simp add: rsplit_once_None)
    then show ?thesis using s rsplit_once_append [of "CHR '':''" tag name] by (simp add: split_name_tag_def)
  next
    case (Some p)
    then obtain before after where name: "name = before @ ''/'' @ after" "CHR ''/'' \<notin> set after"
      by (cases p) (auto simp: rsplit_once_Some)
    have "rsplit_once CHR ''/'' s = Some (before, after @ '':'' @ tag)"
      using s name rsplit_once_append [of "CHR ''/''" "after @ '':'' @ tag" before] by simp
    then show ?thesis
      using s name rsplit_once_append [of "CHR '':''" tag after] by (simp add: split_name_tag_def)
  qed
qed

lemma last_component_slash: "last_component (a @ ''/'' @ b) = last_component b"
proof (cases "rsplit_once CHR ''/'' b")
  case None
  then have "rsplit_once CHR ''/'' (a @ ''/'' @ b) = Some (a, b)"
    using rsplit_once_append [of "CHR ''/''" b a] by (simp add: rsplit_once_None)
  with None show ?thesis by (simp add: last_component_def)
next
  case (Some p)
  then obtain x y where "b = x @ ''/'' @ y" "CHR ''/'' \<notin> set y" by (cases p) (auto simp: rsplit_once_Some)
  then show ?thesis
    using rsplit_once_append [of "CHR ''/''" y x] rsplit_once_append [of "CHR ''/''" y "a @ ''/'' @ x"]
    by (simp add: last_component_def)
qed

text \<open>The full name of a parsed name: its parts, and that it splits back into them.\<close>

lemma split_registry_Inr:
  assumes "split_registry_repository name = Inr (registry, repo)"
  shows "split_registry_repository (registry @ ''/'' @ repo) = Inr (registry, repo) \<and>
    last_component (registry @ ''/'' @ repo) = last_component name \<and>
    (registry @ ''/'' @ repo = name \<or>
     (\<exists>p \<in> {''docker.io'', ''docker.io/library''}. registry @ ''/'' @ repo = p @ ''/'' @ name)) \<and> repo \<noteq> []"
proof -
  have hub: "split_registry_repository (''docker.io'' @ ''/'' @ x) = Inr (''docker.io'', x)" if "x \<noteq> []" for x
  proof -
    have "split_once CHR ''/'' (''docker.io'' @ ''/'' @ x) = Some (''docker.io'', x)"
      by (simp add: split_once_Some)
    then show ?thesis using that by (simp add: split_registry_repository_def)
  qed
  consider first where "split_once CHR ''/'' name = Some (first, repo)" "registry = first" "repo \<noteq> []"
      "CHR ''.'' \<in> set first \<or> CHR '':'' \<in> set first \<or> first = ''localhost''"
    | "registry = ''docker.io''" "repo = (if CHR ''/'' \<in> set name then name else ''library/'' @ name)"
    using assms
    by (auto simp: split_registry_repository_def DEFAULT_REGISTRY_def Let_def split: option.splits if_splits)
  then show ?thesis
  proof cases
    case 1
    then have "registry @ ''/'' @ repo = name" by (simp add: split_once_Some)
    with 1 assms show ?thesis by simp
  next
    case 2
    then have "repo \<noteq> []" by auto
    moreover have "registry @ ''/'' @ repo = (if CHR ''/'' \<in> set name then ''docker.io'' else ''docker.io/library'') @ ''/'' @ name"
      using 2 by simp
    moreover have "last_component (registry @ ''/'' @ repo) = last_component name"
      using last_component_slash [of "if CHR ''/'' \<in> set name then ''docker.io'' else ''docker.io/library''" name]
        calculation(2) by simp
    ultimately show ?thesis using hub [of repo] 2(1) by auto
  qed
qed

section \<open>Properties\<close>

definition tag_text :: "string option \<Rightarrow> string" where
  "tag_text tag = (case tag of None \<Rightarrow> [] | Some t \<Rightarrow> '':'' @ t)"

definition digest_text :: "string option \<Rightarrow> string" where
  "digest_text digest = (case digest of None \<Rightarrow> [] | Some d \<Rightarrow> ''@'' @ d)"

lemma split_digest_Inr:
  assumes "split_digest s = Inr (name_tag, digest)"
  shows "s = name_tag @ digest_text digest \<and>
    (case digest of None \<Rightarrow> CHR ''@'' \<notin> set s | Some d \<Rightarrow> CHR ''@'' \<notin> set d \<and> CHR '':'' \<in> set d)"
  using assms
  by (cases "rsplit_once CHR ''@'' s")
    (auto simp: split_digest_def rsplit_once_None rsplit_once_Some digest_text_def split: if_splits)

lemma split_digest_text:
  assumes "case digest of None \<Rightarrow> CHR ''@'' \<notin> set name_tag | Some d \<Rightarrow> CHR ''@'' \<notin> set d \<and> CHR '':'' \<in> set d"
  shows "split_digest (name_tag @ digest_text digest) = Inr (name_tag, digest)"
proof (cases digest)
  case None
  with assms have "rsplit_once CHR ''@'' name_tag = None" by (simp add: rsplit_once_None)
  with None show ?thesis by (simp add: split_digest_def digest_text_def)
next
  case (Some d)
  with assms rsplit_once_append [of "CHR ''@''" d name_tag] show ?thesis
    by (simp add: split_digest_def digest_text_def)
qed

lemma split_name_tag_text:
  assumes "case tag of None \<Rightarrow> CHR '':'' \<notin> set (last_component name)
    | Some t \<Rightarrow> CHR '':'' \<notin> set t \<and> CHR ''/'' \<notin> set t"
  shows "split_name_tag (name @ tag_text tag) = (name, tag)"
  using assms split_name_tag_untagged [of name name] split_name_tag_tagged [of "name @ tag_text tag" name]
  by (cases tag) (auto simp: tag_text_def)

lemma split_name_tag_parts:
  assumes "split_name_tag s = (name, tag)"
  shows "s = name @ tag_text tag \<and> (case tag of None \<Rightarrow> CHR '':'' \<notin> set (last_component name)
    | Some t \<Rightarrow> CHR '':'' \<notin> set t \<and> CHR ''/'' \<notin> set t)"
  using assms split_name_tag_untagged [of s name] split_name_tag_tagged [of s name]
  by (cases tag) (auto simp: tag_text_def)

lemma ws_len_colon: "ws_len s = 0 \<Longrightarrow> s \<noteq> [] \<Longrightarrow> ws_len (s @ CHR '':'' # t) = 0"
  by (cases s rule: ws_len.cases; cases t) (auto simp: ws1_def ws2_def ws3_def split: if_splits)

text \<open>The full form of what a trimmed reference parses to has no white space at its ends.\<close>

lemma full_reference_edges:
  assumes "ws_len s = 0" and "ws_len_rev (rev s) = 0" and "s \<noteq> []"
    and "x = s \<or> (\<exists>p \<in> {''docker.io'', ''docker.io/library''}. x = p @ ''/'' @ s)"
    and "y = x \<or> y = x @ '':latest''"
  shows "trim y = y"
proof (rule trim_unchanged)
  have x: "x \<noteq> []" "ws_len x = 0" "ws_len_rev (rev x) = 0"
    using assms(1-4) ws_len_docker [of s] ws_len_docker [of "''library/'' @ s"]
      ws_len_rev_append [of "rev s" "rev ''docker.io''"] ws_len_rev_append [of "rev s" "rev ''docker.io/library''"]
    by auto
  then show "ws_len y = 0" using assms(5) ws_len_colon [of x "''latest''"] by auto
  show "ws_len_rev (rev y) = 0" using assms(5) x ws_len_rev_latest [of x] by auto
qed

text \<open>
  C33: an image reference round trips through its full form. Whatever a reference parses to, with
  the default registry, the \<open>library/\<close> prefix and the default tag filled in, its full textual form
  parses back to the same registry, repository, tag and digest.
\<close>

theorem reference_round_trip:
  assumes "parse_reference text = Inr r"
  shows "parse_reference (full_reference r) = Inr r"
proof -
  let ?s = "trim text"
  from assms obtain name_tag digest where s1: "?s \<noteq> []" "split_digest ?s = Inr (name_tag, digest)"
    by (auto simp: parse_reference_def Let_def [of "trim text"] result_simps split: if_splits)
  obtain name tag where s2: "split_name_tag name_tag = (name, tag)" by fastforce
  from assms s1 s2 obtain registry repo where s3: "split_registry_repository name = Inr (registry, repo)"
    and r: "r = \<lparr>ir_registry = registry, ir_repository = repo,
      ir_tag = (if tag = None \<and> digest = None then Some DEFAULT_TAG else tag), ir_digest = digest\<rparr>"
    by (auto simp: parse_reference_def result_simps)
  note s = s1 s2 s3
  let ?full = "registry @ ''/'' @ repo" and ?tag = "if tag = None \<and> digest = None then Some DEFAULT_TAG else tag"
  note d = split_digest_Inr [OF s(2)] and t = split_name_tag_parts [OF s(3)] and n = split_registry_Inr [OF s(4)]
  have full: "full_reference r = ?full @ tag_text ?tag @ digest_text digest"
    by (simp add: r full_reference_def tag_text_def digest_text_def split: option.splits)
  have tag: "split_name_tag (?full @ tag_text ?tag) = (?full, ?tag)"
    by (rule split_name_tag_text) (use t n in \<open>auto simp: DEFAULT_TAG_def split: option.splits\<close>)
  from n consider "?full = [] @ name" | "?full = ''docker.io/'' @ name" | "?full = ''docker.io/library/'' @ name"
    by auto
  then obtain q where q: "?full = q @ name" "CHR ''@'' \<notin> set q" by cases auto
  then have at: "CHR ''@'' \<in> set ?full \<longleftrightarrow> CHR ''@'' \<in> set name" by (metis Un_iff set_append)
  have dig: "split_digest ((?full @ tag_text ?tag) @ digest_text digest) = Inr (?full @ tag_text ?tag, digest)"
    by (rule split_digest_text)
      (use d t at in \<open>auto simp: DEFAULT_TAG_def tag_text_def digest_text_def split: option.splits\<close>)
  have "full_reference r = ?full @ tag_text tag @ digest_text digest \<or>
      full_reference r = (?full @ tag_text tag @ digest_text digest) @ '':latest''"
    unfolding full by (auto simp: tag_text_def digest_text_def DEFAULT_TAG_def split: option.splits)
  moreover have "?full @ tag_text tag @ digest_text digest = ?s \<or>
      (\<exists>p \<in> {''docker.io'', ''docker.io/library''}. ?full @ tag_text tag @ digest_text digest = p @ ''/'' @ ?s)"
    using d t n by auto
  ultimately have trim: "trim (full_reference r) = full_reference r"
    using full_reference_edges [OF trim_edges s(1)] by blast
  have "full_reference r \<noteq> []" using full by simp
  moreover have "split_digest (full_reference r) = Inr (?full @ tag_text ?tag, digest)" using dig full by simp
  moreover have "split_registry_repository ?full = Inr (registry, repo)" using n by blast
  ultimately have "parse_reference (full_reference r) = Inr \<lparr>ir_registry = registry, ir_repository = repo,
      ir_tag = (if ?tag = None \<and> digest = None then Some DEFAULT_TAG else ?tag), ir_digest = digest\<rparr>"
    using trim tag by (simp only: parse_reference_def Let_def rbind_Inr prod.case if_False)
  then show ?thesis unfolding r by auto
qed

theorem reference_round_trip_witness:
  "full_reference \<lparr>ir_registry = ''docker.io'', ir_repository = ''library/nginx'',
       ir_tag = Some ''latest'', ir_digest = None\<rparr> = ''docker.io/library/nginx:latest'' \<and>
   parse_reference ''docker.io/library/nginx:latest'' =
     Inr \<lparr>ir_registry = ''docker.io'', ir_repository = ''library/nginx'', ir_tag = Some ''latest'',
       ir_digest = None\<rparr>"
proof -
  let ?r = "\<lparr>ir_registry = ''docker.io'', ir_repository = ''library/nginx'',
       ir_tag = Some ''latest'', ir_digest = None\<rparr>"
  have f: "full_reference ?r = ''docker.io/library/nginx:latest''" by (simp add: full_reference_def)
  have "parse_reference ''nginx'' = Inr ?r" by code_simp
  from reference_round_trip [OF this] f show ?thesis by simp
qed

end
