(* ===== verification/Text_Num.thy ===== *)
theory Text_Num
  imports Net_Addr
begin

text \<open>
  Unsigned decimal numbers of any width: Rust's \<open>str::parse\<close> for \<open>u16\<close>, \<open>u32\<close> and \<open>u64\<close> (an
  optional plus sign, then digits, refused on overflow; the callers drop the error's text), and
  that it reads back what the formatter prints.
\<close>

fun digits_value :: "nat \<Rightarrow> nat \<Rightarrow> string \<Rightarrow> nat option" where
  "digits_value bound acc [] = Some acc"
| "digits_value bound acc (c # s) =
     (if \<not> is_digit c then None
      else if bound \<le> acc * 10 + digit_val c then None
      else digits_value bound (acc * 10 + digit_val c) s)"

definition parse_uint :: "string \<Rightarrow> 'a::len word option" where
  "parse_uint s =
     (case s of
        [] \<Rightarrow> None
      | c # t \<Rightarrow>
          if (c = CHR ''+'' \<or> c = CHR ''-'') \<and> t = [] then None
          else map_option of_nat (digits_value (2 ^ LENGTH('a)) 0 (if c = CHR ''+'' then t else s)))"

lemma digits_value_snoc:
  assumes "k < 10" and "digits_value bound acc s = Some n" and "n * 10 + k < bound"
  shows "digits_value bound acc (s @ [digit k]) = Some (n * 10 + k)"
  using assms digit_facts [OF assms(1)] by (induction s arbitrary: acc) (auto split: if_splits)

lemma digits_value_show: "n < bound \<Longrightarrow> digits_value bound 0 (show_nat n) = Some n"
proof (induction n rule: show_nat.induct)
  case (1 n)
  show ?case
  proof (cases "n < 10")
    case True
    with 1 digit_facts [OF True] show ?thesis by (simp add: show_nat.simps [of n])
  next
    case False
    have k: "n mod 10 < 10" by simp
    have "digits_value bound 0 (show_nat (n div 10)) = Some (n div 10)"
      using 1 False by simp
    moreover have "n div 10 * 10 + n mod 10 = n" by simp
    ultimately show ?thesis
      using digits_value_snoc [OF k, of bound 0 "show_nat (n div 10)" "n div 10"] 1(2) False
      by (simp add: show_nat.simps [of n])
  qed
qed

lemma show_nat_digits: "c \<in> set (show_nat n) \<Longrightarrow> is_digit c"
proof (induction n rule: show_nat.induct)
  case (1 n)
  then show ?case
    using digit_facts(1) [of n] digit_facts(1) [of "n mod 10"]
    by (subst (asm) (2) show_nat.simps) (auto split: if_splits)
qed

lemma show_nat_not_Nil [simp]: "show_nat n \<noteq> []"
  by (subst show_nat.simps) simp

lemma not_digit: "\<not> is_digit CHR ''+''" "\<not> is_digit CHR ''-''" "\<not> is_digit CHR ''/''" "\<not> is_digit CHR '':''"
  by (simp_all add: is_digit_def)

lemma show_word_chars:
  "CHR ''/'' \<notin> set (show_word w)" "CHR '':'' \<notin> set (show_word w)" "CHR ''-'' \<notin> set (show_word w)"
  "show_word w \<noteq> []"
  using show_nat_digits [of _ "unat w"] not_digit by (auto simp: show_word_def)

lemma parse_uint_show [simp]: "parse_uint (show_word w) = Some w"
proof -
  obtain c t where s: "show_word w = c # t" by (metis list.exhaust show_word_chars(4))
  then have "is_digit c" using show_nat_digits [of c "unat w"] by (simp add: show_word_def)
  then have "c \<noteq> CHR ''+''" "c \<noteq> CHR ''-''" using not_digit by auto
  moreover have "digits_value (2 ^ LENGTH('a)) 0 (show_word w) = Some (unat w)"
    using digits_value_show [OF unat_bound [of w]] by (simp add: show_word_def)
  ultimately show ?thesis by (simp add: parse_uint_def s del: digits_value.simps)
qed

end
