(* ===== verification/Ports_Env.thy ===== *)
theory Ports_Env
  imports Text_Num
begin

text \<open>
  Published ports (\<open>core/src/port.rs\<close>) and environment variables (\<open>core/src/env.rs\<close>). Reading an
  env file and the process environment is I/O: the functions take the content and a lookup.
\<close>

section \<open>Ports\<close>

datatype port_protocol = Tcp

definition port_protocol_as_str :: "port_protocol \<Rightarrow> string" where
  "port_protocol_as_str p = (case p of Tcp \<Rightarrow> ''tcp'')"

record port_mapping =
  pm_host_port :: u16
  pm_guest_port :: u16
  pm_protocol :: port_protocol

definition runtime_entry :: "port_mapping \<Rightarrow> string" where
  "runtime_entry self = show_word (pm_host_port self) @ '':'' @ show_word (pm_guest_port self)"

definition parse_port :: "string \<Rightarrow> string \<Rightarrow> string \<Rightarrow> bool \<Rightarrow> string + u16" where
  "parse_port input value label allow_zero =
     (if value = [] then
        Inl (''Invalid port mapping '' @ sq input @ '': '' @ label @ '' port must not be empty'')
      else if CHR ''-'' \<in> set value then
        Inl (''Invalid port mapping '' @ sq input @ '': '' @ label @ '' port ranges are not supported'')
      else
        (case parse_uint value of
           None \<Rightarrow> Inl (''Invalid port mapping '' @ sq input @ '': '' @ label @ '' port '' @ sq value @
             '' must be 0..=65535'')
         | Some port \<Rightarrow>
             if port = 0 \<and> \<not> allow_zero then
               Inl (''Invalid port mapping '' @ sq input @ '': guest port must be 1..=65535'')
             else Inr port))"

definition parse_port_protocol :: "string \<Rightarrow> string list \<Rightarrow> string + port_protocol" where
  "parse_port_protocol input after =
     (case after of
        [] \<Rightarrow> Inr Tcp
      | value # rest \<Rightarrow>
          if eq_ignore_ascii_case value ''tcp'' then Inr Tcp
          else if value = [] then
            Inl (''Invalid port mapping '' @ sq input @ '': protocol must not be empty'')
          else Inl (''Unsupported port mapping protocol '' @ sq value @ '' in '' @ sq input @
                 ''; only TCP is supported''))"

definition parse_port_mapping :: "string \<Rightarrow> string + port_mapping" where
  "parse_port_mapping text =
     (let input = trim text in
      if input = [] then Inl ''Invalid port mapping: value must not be empty''
      else
        let pieces = split_on CHR ''/'' input in
        rbind (parse_port_protocol input (tl pieces)) (\<lambda>protocol.
          if length pieces > 2 then
            Inl (''Invalid port mapping '' @ sq input @ '': expected host_port:guest_port[/tcp]'')
          else
            (case split_on CHR '':'' (hd pieces) of
               [host, guest] \<Rightarrow>
                 rbind (parse_port input host ''host'' True) (\<lambda>host_port.
                 rbind (parse_port input guest ''guest'' False) (\<lambda>guest_port.
                   Inr \<lparr>pm_host_port = host_port, pm_guest_port = guest_port, pm_protocol = protocol\<rparr>))
             | _ \<Rightarrow>
                 Inl (''Invalid port mapping '' @ sq input @ '': expected host_port:guest_port[/tcp]; '' @
                   ''bind-specific host IPs, single-port shorthand, and port ranges are not supported''))))"

definition port_mapping_tcp :: "u16 \<Rightarrow> u16 \<Rightarrow> string + port_mapping" where
  "port_mapping_tcp host_port guest_port =
     parse_port_mapping (show_word host_port @ '':'' @ show_word guest_port)"

text \<open>Collecting results stops at the first error.\<close>

fun collect_results :: "('a \<Rightarrow> 'e + 'b) \<Rightarrow> 'a list \<Rightarrow> 'e + 'b list" where
  "collect_results f [] = Inr []"
| "collect_results f (x # xs) =
     rbind (f x) (\<lambda>y. rbind (collect_results f xs) (\<lambda>ys. Inr (y # ys)))"

definition normalize_port_maps :: "string list \<Rightarrow> string + string list" where
  "normalize_port_maps entries =
     collect_results (\<lambda>entry. rbind (parse_port_mapping entry) (\<lambda>m. Inr (runtime_entry m))) entries"

section \<open>Environment variables\<close>

definition parse_env_var :: "string \<Rightarrow> string + string \<times> string" where
  "parse_env_var var =
     ok_or (''Invalid environment variable (expected KEY=VALUE): '' @ var) (split_once CHR ''='' var)"

definition parse_env_vars :: "string list \<Rightarrow> string + (string \<times> string) list" where
  "parse_env_vars vars = collect_results parse_env_var vars"

definition parse_runtime_env_var :: "(string \<rightharpoonup> string) \<Rightarrow> string \<Rightarrow> string \<times> string" where
  "parse_runtime_env_var host_env var =
     (case split_once CHR ''='' var of
        Some kv \<Rightarrow> kv
      | None \<Rightarrow> (var, case host_env var of None \<Rightarrow> [] | Some value \<Rightarrow> value))"

definition parse_runtime_env_vars ::
    "(string \<rightharpoonup> string) \<Rightarrow> string list \<Rightarrow> (string \<times> string) list" where
  "parse_runtime_env_vars host_env vars = map (parse_runtime_env_var host_env) vars"

text \<open>
  \<open>str::lines\<close>: pieces between line feeds, without a last empty piece and without a carriage
  return before the line feed.
\<close>

definition strip_cr :: "string \<Rightarrow> string" where
  "strip_cr s = (if s \<noteq> [] \<and> last s = CHR 0x0D then butlast s else s)"

definition str_lines :: "string \<Rightarrow> string list" where
  "str_lines s =
     (let pieces = split_on CHR 0x0A s;
          ended = map strip_cr (butlast pieces)
      in if last pieces = [] then ended else ended @ [last pieces])"

definition parse_env_line :: "string \<Rightarrow> (string \<times> string) option" where
  "parse_env_line line =
     (if trim_start line = [] \<or> strip_prefix ''#'' (trim_start line) \<noteq> None then None
      else
        let line' = strip_cr line in
        (case split_once CHR ''='' line' of
           Some (key, value) \<Rightarrow> Some (trim key, value)
         | None \<Rightarrow> Some (trim line', [])))"

definition parse_env_file_content :: "string \<Rightarrow> (string \<times> string) list" where
  "parse_env_file_content content = List.map_filter parse_env_line (str_lines content)"

fun merge_env_pairs ::
    "(string \<times> string) list \<Rightarrow> (string \<times> string) list \<Rightarrow> (string \<times> string) list" where
  "merge_env_pairs base [] = base"
| "merge_env_pairs base ((key, value) # overrides) =
     merge_env_pairs
       (if find (\<lambda>(k, _). k = key) base \<noteq> None
        then update_first (\<lambda>(k, _). k = key) (\<lambda>(k, _). (k, value)) base
        else base @ [(key, value)])
       overrides"

section \<open>Facts\<close>

lemma find_key: "find (\<lambda>(k, _). k = key) base = None \<longleftrightarrow> key \<notin> fst ` set base"
  by (force simp: find_None_iff)

lemma update_first_keys:
  "map fst (update_first (\<lambda>(k, _). k = key) (\<lambda>(k, _). (k, value)) base) = map fst base"
  by (rule map_update_first) auto

lemma map_of_update_first:
  "key \<in> fst ` set base \<Longrightarrow>
     map_of (update_first (\<lambda>(k, _). k = key) (\<lambda>(k, _). (k, v)) base) x =
       (if x = key then Some v else map_of base x)"
proof (induction base)
  case (Cons p base)
  show ?case
  proof (cases "fst p = key")
    case True
    then show ?thesis by (cases p) simp
  next
    case False
    then have "key \<in> fst ` set base" using Cons.prems by auto
    with Cons.IH False show ?thesis by (cases p; cases "x = key") auto
  qed
qed simp

lemma map_of_snoc_new:
  "key \<notin> fst ` set base \<Longrightarrow>
     map_of (base @ [(key, v)]) x = (if x = key then Some v else map_of base x)"
  by (induction base) auto

text \<open>One override: in place when the key is there, at the end otherwise.\<close>

lemma merge_step:
  fixes base :: "(string \<times> string) list" and key v :: string
  defines "merged \<equiv> (if find (\<lambda>(k, _). k = key) base \<noteq> None
        then update_first (\<lambda>(k, _). k = key) (\<lambda>(k, _). (k, v)) base else base @ [(key, v)])"
  shows "map_of merged x = (if x = key then Some v else map_of base x)"
    and "\<exists>new. map fst merged = map fst base @ new"
    and "distinct (map fst base) \<Longrightarrow> distinct (map fst merged)"
proof -
  have m: "merged = (if key \<in> fst ` set base
      then update_first (\<lambda>(k, _). k = key) (\<lambda>(k, _). (k, v)) base else base @ [(key, v)])"
    unfolding merged_def find_key by simp
  then show "map_of merged x = (if x = key then Some v else map_of base x)"
    using map_of_update_first [of key base v] map_of_snoc_new [of key base v]
    by (cases "key \<in> fst ` set base") simp_all
  show "\<exists>new. map fst merged = map fst base @ new" "distinct (map fst base) \<Longrightarrow> distinct (map fst merged)"
    using m update_first_keys [of key v base] by auto
qed

lemma merge_env_facts:
  "map_of (merge_env_pairs base ov) x = (map_of base ++ map_of (rev ov)) x"
  "\<exists>new. map fst (merge_env_pairs base ov) = map fst base @ new"
  "distinct (map fst base) \<Longrightarrow> distinct (map fst (merge_env_pairs base ov))"
proof (induction base ov rule: merge_env_pairs.induct)
  case (2 base key v ov)
  note step = merge_step [where key = key and base = base and v = v]
  {
    case 1
    show ?case using "2.IH"(1) step(1) [of x] by (auto simp: map_add_def split: option.splits)
  next
    case 2
    show ?case using "2.IH"(2) step(2) by auto
  next
    case 3
    then show ?case using "2.IH"(3) step(3) by auto
  }
qed simp_all

lemma ws_len_digit:
  assumes "is_digit c"
  shows "ws_len (c # s) = 0" "ws_len_rev (c # s) = 0"
proof -
  have c: "48 \<le> (of_char c :: nat)" "(of_char c :: nat) \<le> 57" using assms by (simp_all add: is_digit_def Let_def)
  then have "\<not> ws1 (of_char c)" "\<not> ws2 (of_char c) x" "\<not> ws3 (of_char c) x y" "\<not> ws2 x (of_char c)"
    "\<not> ws3 x y (of_char c)" for x y
    by (auto simp: ws1_def ws2_def ws3_def)
  then show "ws_len (c # s) = 0" "ws_len_rev (c # s) = 0"
    by (cases "c # s" rule: ws_len.cases; simp)+
qed

lemma runtime_entry_split:
  "split_on CHR ''/'' (runtime_entry m) = [runtime_entry m]"
  "split_on CHR '':'' (runtime_entry m) = [show_word (pm_host_port m), show_word (pm_guest_port m)]"
  using split_on_append_sep [of "CHR '':''" "show_word (pm_host_port m)" "show_word (pm_guest_port m)"]
  by (simp_all add: runtime_entry_def split_on_no_sep show_word_chars)

lemma runtime_entry_trimmed: "trim (runtime_entry m) = runtime_entry m"
proof (rule trim_unchanged)
  obtain c t where h: "show_word (pm_host_port m) = c # t" by (metis list.exhaust show_word_chars(4))
  have "is_digit c" using h show_nat_digits [of c "unat (pm_host_port m)"] by (simp add: show_word_def)
  then show "ws_len (runtime_entry m) = 0" using ws_len_digit(1) by (simp add: runtime_entry_def h)
  obtain d u where g: "show_word (pm_guest_port m) = u @ [d]" by (metis rev_exhaust show_word_chars(4))
  have "is_digit d" using g show_nat_digits [of d "unat (pm_guest_port m)"] by (simp add: show_word_def)
  then show "ws_len_rev (rev (runtime_entry m)) = 0" using ws_len_digit(2) by (simp add: runtime_entry_def g)
qed

lemma parse_port_show:
  "parse_port input (show_word p) label zero = (if p = 0 \<and> \<not> zero
     then Inl (''Invalid port mapping '' @ sq input @ '': guest port must be 1..=65535'') else Inr p)"
  by (simp add: parse_port_def show_word_chars)

section \<open>Properties\<close>

text \<open>
  published ports round trip. What a port mapping parses to has a guest port from 1 to 65535,
  and its normalized runtime entry parses back to the same mapping; so normalizing a list of
  mappings twice gives the same entries as normalizing it once.
\<close>

lemma port_mapping_round_trip:
  assumes "parse_port_mapping text = Inr m"
  shows "parse_port_mapping (runtime_entry m) = Inr m \<and> 1 \<le> unat (pm_guest_port m)"
proof -
  have g: "pm_guest_port m \<noteq> 0"
    using assms
    by (auto simp: parse_port_mapping_def parse_port_def Let_def result_simps
        split: if_splits list.splits option.splits)
  have "pm_protocol m = Tcp" by (cases "pm_protocol m")
  moreover have "runtime_entry m \<noteq> []" by (simp add: runtime_entry_def)
  ultimately have "parse_port_mapping (runtime_entry m) = Inr m"
    using g by (simp add: parse_port_mapping_def runtime_entry_trimmed runtime_entry_split
        parse_port_protocol_def parse_port_show)
  moreover have "unat (pm_guest_port m) \<noteq> 0" using g by (simp add: unat_eq_0)
  ultimately show ?thesis by simp
qed

lemma port_mapping_round_trip_witness:
  "parse_port_mapping '' 8080:80/TCP '' = Inr \<lparr>pm_host_port = 8080, pm_guest_port = 80, pm_protocol = Tcp\<rparr> \<and>
   parse_port_mapping (runtime_entry \<lparr>pm_host_port = 8080, pm_guest_port = 80, pm_protocol = Tcp\<rparr>) =
     Inr \<lparr>pm_host_port = 8080, pm_guest_port = 80, pm_protocol = Tcp\<rparr>"
proof -
  have "trim '' 8080:80/TCP '' = ''8080:80/TCP''" "eq_ignore_ascii_case ''TCP'' ''tcp''" by code_simp+
  then have "parse_port_mapping '' 8080:80/TCP '' =
      Inr \<lparr>pm_host_port = 8080, pm_guest_port = 80, pm_protocol = Tcp\<rparr>"
    by (simp add: parse_port_mapping_def parse_port_protocol_def
        parse_port_def parse_uint_def is_digit_def digit_val_def)
  then show ?thesis using port_mapping_round_trip by blast
qed

text \<open>
  Merging environments. After a merge every variable has the value of its last override, or its
  old value when it is not overridden; the variables that were there keep their places, new ones
  follow, and no variable is listed twice if none was.
\<close>

lemma merge_env_exact:
  "map_of (merge_env_pairs base overrides) = map_of base ++ map_of (rev overrides) \<and>
   map fst (take (length base) (merge_env_pairs base overrides)) = map fst base \<and>
   (distinct (map fst base) \<longrightarrow> distinct (map fst (merge_env_pairs base overrides)))"
proof -
  obtain new where "map fst (merge_env_pairs base overrides) = map fst base @ new"
    using merge_env_facts(2) by blast
  then have "map fst (take (length base) (merge_env_pairs base overrides)) = map fst base"
    by (metis append_eq_conv_conj length_map take_map)
  then show ?thesis using merge_env_facts(1,3) by blast
qed

lemma merge_env_exact_witness:
  "map_of (merge_env_pairs [(''A'', ''1'')] [(''B'', ''2''), (''A'', ''3'')]) ''A'' = Some ''3'' \<and>
   distinct (map fst (merge_env_pairs [(''A'', ''1'')] [(''B'', ''2''), (''A'', ''3'')]))"
  using merge_env_exact [of "[(''A'', ''1'')]" "[(''B'', ''2''), (''A'', ''3'')]"] by simp

end
