(* ===== verification/State_File.thy ===== *)
theory State_File
  imports Box_State Text_Num
begin

text \<open>
  The command line's view of the state file (\<open>cli/src/state/policy.rs\<close>, \<open>cli/src/state/file.rs\<close>):
  restart policies, the sweep that marks boxes with a dead process, and its persistence under the
  state lock. What the host contributes is a record of parameters: whether a process is alive, the
  exit code a box left behind, and whether the teardown of a box's host resources succeeds.
\<close>

section \<open>Restart policies\<close>

record cli_host =
  ch_process_alive :: "u32 \<Rightarrow> u64 option \<Rightarrow> bool"
  ch_persisted_exit_code :: "string \<Rightarrow> i32 option"
  ch_cleanup_stopped_box :: "box_record \<Rightarrow> box_error + unit"
  ch_cleanup_removed_box :: "box_record \<Rightarrow> box_error + unit"

definition is_record_pid_live :: "cli_host \<Rightarrow> box_record \<Rightarrow> bool" where
  "is_record_pid_live host record \<longleftrightarrow>
     (case rec_pid record of
        None \<Rightarrow> False
      | Some pid \<Rightarrow> ch_process_alive host pid (rec_pid_start_time record))"

definition exited_on_failure :: "box_record \<Rightarrow> bool" where
  "exited_on_failure record \<longleftrightarrow> rec_exit_code record \<noteq> Some 0"

definition within_restart_limit :: "box_record \<Rightarrow> bool" where
  "within_restart_limit record \<longleftrightarrow>
     (if rec_max_restart_count record > 0
      then rec_restart_count record < rec_max_restart_count record else True)"

definition should_restart :: "box_record \<Rightarrow> bool" where
  "should_restart record =
     (let policy = rec_restart_policy record in
      case strip_prefix ''on-failure:'' policy of
        Some max_str \<Rightarrow>
          (case parse_uint max_str of
             Some limit \<Rightarrow> \<not> rec_stopped_by_user record \<and> exited_on_failure record \<and>
               rec_restart_count record < limit
           | None \<Rightarrow> False)
      | None \<Rightarrow>
          if policy = ''always'' then within_restart_limit record
          else if policy = ''on-failure'' then
            if rec_stopped_by_user record then False
            else if \<not> exited_on_failure record then False
            else within_restart_limit record
          else if policy = ''unless-stopped'' then
            if rec_stopped_by_user record then False else within_restart_limit record
          else False)"

definition validate_restart_policy :: "string \<Rightarrow> string + unit" where
  "validate_restart_policy policy =
     (if policy \<in> {''no'', ''always'', ''on-failure'', ''unless-stopped''} then Inr ()
      else
        (case strip_prefix ''on-failure:'' policy of
           Some max_str \<Rightarrow>
             (case (parse_uint max_str :: u32 option) of
                Some _ \<Rightarrow> Inr ()
              | None \<Rightarrow> Inl (''Invalid restart policy '' @ sq policy @ '': expected '' @
                  sq ''on-failure:N'' @ '' where N is a positive integer''))
         | None \<Rightarrow> Inl (''Invalid restart policy '' @ sq policy @
             '': must be one of: no, always, on-failure, on-failure:N, unless-stopped'')))"

definition parse_restart_policy :: "string \<Rightarrow> string + string \<times> u32" where
  "parse_restart_policy policy =
     rbind (validate_restart_policy policy) (\<lambda>_.
       (case strip_prefix ''on-failure:'' policy of
          Some max_str \<Rightarrow>
            (case parse_uint max_str of
               Some limit \<Rightarrow> Inr (''on-failure'', limit)
             | None \<Rightarrow> Inl (''Invalid restart count: '' @ max_str))
        | None \<Rightarrow> Inr (policy, 0)))"

section \<open>Reconciliation\<close>

record reconcile_result =
  rr_changed :: bool
  rr_stopped :: "box_record list"
  rr_removed :: "box_record list"
  rr_restart_candidates :: "string list"

definition mark_dead :: "cli_host \<Rightarrow> box_record \<Rightarrow> box_record" where
  "mark_dead host record =
     record\<lparr>rec_exit_code := (case rec_exit_code record of
              None \<Rightarrow> ch_persisted_exit_code host (rec_box_dir record) | Some code \<Rightarrow> Some code),
            rec_status := ''dead'', rec_pid := None, rec_health_status := ''none'',
            rec_health_retries := 0\<rparr>"

fun reconcile_loop ::
    "cli_host \<Rightarrow> box_record list \<Rightarrow> reconcile_result \<Rightarrow> box_record list \<times> reconcile_result" where
  "reconcile_loop host [] out = ([], out)"
| "reconcile_loop host (record # records) out =
     (if rec_status record \<noteq> ''running'' \<and> rec_status record \<noteq> ''paused'' then
        apfst (\<lambda>rs. record # rs) (reconcile_loop host records out)
      else if is_record_pid_live host record then
        apfst (\<lambda>rs. record # rs) (reconcile_loop host records out)
      else
        let dead = mark_dead host record in
        apfst (\<lambda>rs. dead # rs)
          (if rec_auto_remove dead then
             reconcile_loop host records
               (out\<lparr>rr_changed := True, rr_removed := rr_removed out @ [dead]\<rparr>)
           else
             reconcile_loop host records
               (out\<lparr>rr_changed := True, rr_stopped := rr_stopped out @ [dead],
                    rr_restart_candidates := rr_restart_candidates out @
                      (if should_restart dead then [rec_id dead] else [])\<rparr>)))"

definition reconcile :: "cli_host \<Rightarrow> box_record list \<Rightarrow> box_record list \<times> reconcile_result" where
  "reconcile host records =
     (let (scanned, out) = reconcile_loop host records
            \<lparr>rr_changed = False, rr_stopped = [], rr_removed = [], rr_restart_candidates = []\<rparr>
      in if rr_removed out \<noteq> [] then
           (filter (\<lambda>record. \<not> list_ex (\<lambda>r. rec_id r = rec_id record) (rr_removed out)) scanned,
            out\<lparr>rr_changed := True\<rparr>)
         else (scanned, out))"

fun try_each :: "('a \<Rightarrow> box_error + unit) \<Rightarrow> 'a list \<Rightarrow> io_error + unit" where
  "try_each f [] = Inr ()"
| "try_each f (x # xs) =
     (case f x of
        Inl e \<Rightarrow> Inl (IoError IoOther (box_error_to_string e))
      | Inr _ \<Rightarrow> try_each f xs)"

definition flush_body :: "cli_host \<Rightarrow> box_record list \<Rightarrow> io_error + unit \<times> box_record list" where
  "flush_body host records =
     (let (records', outcome) = reconcile host records in
      if rr_changed outcome then
        rbind (try_each (ch_cleanup_stopped_box host) (rr_stopped outcome)) (\<lambda>_.
        rbind (try_each (ch_cleanup_removed_box host) (rr_removed outcome)) (\<lambda>_.
          Inr ((), records')))
      else Inr ((), records'))"

definition flush_reconcile ::
    "cli_host \<Rightarrow> store_faults \<Rightarrow> box_record list disk \<Rightarrow> (io_error + unit) \<times> box_record list disk" where
  "flush_reconcile host flt d = modify_or_quarantine (\<lambda>e. e) flt (flush_body host) d"

definition state_load ::
    "cli_host \<Rightarrow> store_faults \<Rightarrow> store_faults \<Rightarrow> box_record list disk \<Rightarrow>
     (io_error + box_record list) \<times> box_record list disk" where
  "state_load host flt flush_flt d =
     (case load_or_quarantine flt d of
        (Inl e, d1) \<Rightarrow> (Inl e, d1)
      | (Inr records, d1) \<Rightarrow>
          (let (records', outcome) = reconcile host records
           in (Inr records', if rr_changed outcome then snd (flush_reconcile host flush_flt d1) else d1)))"

definition add_record ::
    "store_faults \<Rightarrow> box_record \<Rightarrow> box_record list disk \<Rightarrow> (io_error + unit) \<times> box_record list disk" where
  "add_record flt record d =
     modify_or_quarantine (\<lambda>e. e) flt (\<lambda>records. Inr ((), records @ [record])) d"

definition remove_record ::
    "store_faults \<Rightarrow> string \<Rightarrow> box_record list disk \<Rightarrow> (io_error + bool) \<times> box_record list disk" where
  "remove_record flt i d =
     modify_or_quarantine (\<lambda>e. e) flt (\<lambda>records. Inr (remove_by_id records i)) d"

text \<open>
  An in-memory handle is its list of records: \<open>save\<close>, \<open>add\<close> and \<open>remove\<close> write that list over the
  file, while \<open>add_record\<close> and \<open>remove_record\<close> read the file afresh under the lock.
\<close>

definition state_add ::
    "store_faults \<Rightarrow> box_record list \<Rightarrow> box_record \<Rightarrow> box_record list disk \<Rightarrow>
     (io_error + unit) \<times> box_record list \<times> box_record list disk" where
  "state_add flt records record d =
     (case save flt (records @ [record]) d of (res, d') \<Rightarrow> (res, records @ [record], d'))"

definition state_remove ::
    "store_faults \<Rightarrow> box_record list \<Rightarrow> string \<Rightarrow> box_record list disk \<Rightarrow>
     (io_error + bool) \<times> box_record list \<times> box_record list disk" where
  "state_remove flt records i d =
     (case remove_by_id records i of
        (True, records') \<Rightarrow>
          (case save flt records' d of
             (Inl e, d') \<Rightarrow> (Inl e, records', d')
           | (Inr _, d') \<Rightarrow> (Inr True, records', d'))
      | (False, records') \<Rightarrow> (Inr False, records', d))"

definition pending_restarts :: "box_record list \<Rightarrow> string list" where
  "pending_restarts records =
     map rec_id (filter (\<lambda>r. rec_status r = ''dead'' \<and> should_restart r) records)"

definition find_by_label :: "box_record list \<Rightarrow> string \<Rightarrow> string \<Rightarrow> box_record list" where
  "find_by_label records key label =
     filter (\<lambda>r. case rec_labels r key of None \<Rightarrow> False | Some v \<Rightarrow> v = label) records"

section \<open>What a sweep does\<close>

text \<open>A box that the file calls live and whose process is gone.\<close>

definition lost :: "cli_host \<Rightarrow> box_record \<Rightarrow> bool" where
  "lost host record \<longleftrightarrow>
     (rec_status record = ''running'' \<or> rec_status record = ''paused'') \<and> \<not> is_record_pid_live host record"

definition swept :: "cli_host \<Rightarrow> box_record \<Rightarrow> box_record" where
  "swept host record = (if lost host record then mark_dead host record else record)"

lemma mark_dead_fields [simp]:
  "rec_id (mark_dead host r) = rec_id r" "rec_auto_remove (mark_dead host r) = rec_auto_remove r"
  "rec_status (mark_dead host r) = ''dead''" "rec_pid (mark_dead host r) = None"
  "rec_managed_execution (mark_dead host r) = rec_managed_execution r"
  by (simp_all add: mark_dead_def)

lemma reconcile_loop_spec:
  "reconcile_loop host records out =
     (let dead = map (mark_dead host) (filter (lost host) records)
      in (map (swept host) records,
          out\<lparr>rr_changed := rr_changed out \<or> dead \<noteq> [],
              rr_stopped := rr_stopped out @ filter (\<lambda>r. \<not> rec_auto_remove r) dead,
              rr_removed := rr_removed out @ filter rec_auto_remove dead,
              rr_restart_candidates := rr_restart_candidates out @
                map rec_id (filter should_restart (filter (\<lambda>r. \<not> rec_auto_remove r) dead))\<rparr>))"
proof (induction host records out rule: reconcile_loop.induct)
  case (1 host out)
  then show ?case by simp
next
  case (2 host r rs out)
  show ?case
  proof (cases "lost host r")
    case False
    then have skip: "reconcile_loop host (r # rs) out = apfst (\<lambda>rs. r # rs) (reconcile_loop host rs out)"
      by (auto simp: lost_def)
    show ?thesis
    proof (cases "rec_status r = ''running'' \<or> rec_status r = ''paused''")
      case True
      with False "2.IH"(2) show ?thesis unfolding skip by (simp add: lost_def swept_def Let_def)
    next
      case other: False
      with False "2.IH"(1) show ?thesis unfolding skip by (simp add: swept_def Let_def)
    qed
  next
    case True
    then have l: "\<not> (rec_status r \<noteq> ''running'' \<and> rec_status r \<noteq> ''paused'')" "\<not> is_record_pid_live host r"
      by (auto simp: lost_def)
    note step = reconcile_loop.simps(2) [of host r rs out, unfolded if_not_P [OF l(1)] if_not_P [OF l(2)]]
    show ?thesis
    proof (cases "rec_auto_remove r")
      case auto: True
      with True "2.IH"(3) [OF l refl] show ?thesis unfolding step by (simp add: swept_def Let_def)
    next
      case False
      with True "2.IH"(4) [OF l refl] show ?thesis unfolding step by (simp add: swept_def Let_def)
    qed
  qed
qed

lemma reconcile_spec:
  "reconcile host records =
     (let dead = map (mark_dead host) (filter (lost host) records);
          removed = filter rec_auto_remove dead;
          stopped = filter (\<lambda>r. \<not> rec_auto_remove r) dead
      in (filter (\<lambda>r. rec_id r \<notin> rec_id ` set removed) (map (swept host) records),
          \<lparr>rr_changed = dead \<noteq> [], rr_stopped = stopped, rr_removed = removed,
           rr_restart_candidates = map rec_id (filter should_restart stopped)\<rparr>))"
proof -
  have ex: "(\<not> list_ex (\<lambda>r. rec_id r = rec_id x) rs) \<longleftrightarrow> rec_id x \<notin> rec_id ` set rs"
    for x :: box_record and rs :: "box_record list"
    by (force simp: list_ex_iff image_iff)
  let ?rem = "filter rec_auto_remove (map (mark_dead host) (filter (lost host) records))"
  show ?thesis
  proof (cases "?rem = []")
    case True
    then show ?thesis unfolding reconcile_def reconcile_loop_spec Let_def prod.case ex
      by (simp del: filter_filter set_filter)
  next
    case False
    moreover from False have "map (mark_dead host) (filter (lost host) records) \<noteq> []" by auto
    ultimately show ?thesis unfolding reconcile_def reconcile_loop_spec Let_def prod.case ex by simp
  qed
qed

section \<open>Properties\<close>

text \<open>
  C22: the sweep is the reference definition. For every list of records the loop with its
  accumulators computes this: the boxes whose process is gone are marked dead in place, those of
  them that are to be removed automatically disappear with every record of the same identifier, the
  others are handed to the teardown in order, and the restart candidates are those that their policy
  wants restarted.
\<close>

theorem reconcile_exact:
  "reconcile host records =
     (let dead = map (mark_dead host) (filter (lost host) records);
          removed = filter rec_auto_remove dead;
          stopped = filter (\<lambda>r. \<not> rec_auto_remove r) dead
      in (filter (\<lambda>r. rec_id r \<notin> rec_id ` set removed) (map (swept host) records),
          \<lparr>rr_changed = dead \<noteq> [], rr_stopped = stopped, rr_removed = removed,
           rr_restart_candidates = map rec_id (filter should_restart stopped)\<rparr>))"
  by (rule reconcile_spec)

text \<open>
  A dead box is torn down once. A sweep over the records that a sweep left finds nothing to
  change: no record is marked, torn down or removed a second time, as long as no process comes
  back to life.
\<close>

lemma reconcile_once:
  "reconcile host (fst (reconcile host records)) =
     (fst (reconcile host records),
      \<lparr>rr_changed = False, rr_stopped = [], rr_removed = [], rr_restart_candidates = []\<rparr>)"
proof -
  let ?rs = "fst (reconcile host records)"
  have "\<not> lost host (swept host r)" for r by (auto simp: lost_def swept_def)
  then have none: "filter (lost host) ?rs = []"
    by (auto simp: reconcile_spec Let_def filter_empty_conv)
  have "map (swept host) ?rs = ?rs"
    using none by (intro map_idI) (auto simp: swept_def filter_empty_conv)
  with none show ?thesis by (subst reconcile_spec) (simp add: Let_def)
qed

text \<open>
  automatic restarts respect the user and the limit. A box that is to be restarted has a
  restarting policy; unless the policy is \<open>always\<close>, the user has not stopped it; with an
  \<open>on-failure\<close> policy its exit code is not 0; and the number of restarts is below every positive
  limit in force, the record's or the policy's own.
\<close>

lemma restart_respects_policy:
  assumes "should_restart r"
  shows "(rec_restart_policy r \<noteq> ''always'' \<longrightarrow> \<not> rec_stopped_by_user r) \<and>
    (\<forall>n. strip_prefix ''on-failure'' (rec_restart_policy r) = Some n \<longrightarrow> rec_exit_code r \<noteq> Some 0) \<and>
    (\<forall>n limit. strip_prefix ''on-failure:'' (rec_restart_policy r) = Some n \<longrightarrow>
       parse_uint n = Some limit \<longrightarrow> rec_restart_count r < limit) \<and>
    (rec_restart_policy r \<in> {''always'', ''on-failure'', ''unless-stopped''} \<longrightarrow>
       0 < rec_max_restart_count r \<longrightarrow> rec_restart_count r < rec_max_restart_count r)"
  using assms
  by (auto simp: should_restart_def Let_def within_restart_limit_def exited_on_failure_def
      strip_prefix_Some split: option.splits if_splits)

lemma restart_respects_policy_witness:
  "should_restart ((sample_record Failed (sample_metadata 3 None))
      \<lparr>rec_restart_policy := ''on-failure:3'', rec_restart_count := 2, rec_exit_code := Some 1\<rparr>) \<and>
   (2 :: u32) < 3"
proof -
  let ?r = "(sample_record Failed (sample_metadata 3 None))
      \<lparr>rec_restart_policy := ''on-failure:3'', rec_restart_count := 2, rec_exit_code := Some 1\<rparr>"
  have "parse_uint ''3'' = Some (3 :: u32)" by (simp add: parse_uint_def is_digit_def digit_val_def)
  then have "should_restart ?r"
    by (simp add: should_restart_def exited_on_failure_def sample_record_def)
  from restart_respects_policy [OF this] this show ?thesis by simp
qed

text \<open>
  \<open>on-failure:0\<close> restarts without limit. The text is accepted, and the pair it is parsed into
  makes a failed box restart whatever its restart count, while the documentation of the policy
  promises at most N restarts, and a record with the text itself is never restarted.
\<close>

lemma on_failure_zero_unlimited:
  assumes "parse_restart_policy ''on-failure:0'' = Inr (policy, limit)"
    and "\<not> rec_stopped_by_user r" and "rec_exit_code r \<noteq> Some 0"
  shows "should_restart (r\<lparr>rec_restart_policy := policy, rec_max_restart_count := limit, rec_restart_count := n\<rparr>) \<and>
    \<not> should_restart (r\<lparr>rec_restart_policy := ''on-failure:0'', rec_restart_count := n\<rparr>)"
proof -
  have "parse_uint ''0'' = Some (0 :: u32)" by (simp add: parse_uint_def is_digit_def digit_val_def)
  then have "policy = ''on-failure''" "limit = 0"
    "\<not> should_restart (r\<lparr>rec_restart_policy := ''on-failure:0'', rec_restart_count := n\<rparr>)"
    using assms(1) by (simp_all add: parse_restart_policy_def validate_restart_policy_def should_restart_def)
  then show ?thesis
    using assms(2,3) by (simp add: should_restart_def exited_on_failure_def within_restart_limit_def)
qed

lemma on_failure_zero_unlimited_witness:
  "\<exists>policy limit. parse_restart_policy ''on-failure:0'' = Inr (policy, limit) \<and>
     should_restart ((sample_record Failed (sample_metadata 3 None))
       \<lparr>rec_exit_code := Some 1, rec_restart_policy := policy, rec_max_restart_count := limit,
        rec_restart_count := 1000\<rparr>)"
proof -
  have "parse_uint ''0'' = Some (0 :: u32)" by (simp add: parse_uint_def is_digit_def digit_val_def)
  then have "parse_restart_policy ''on-failure:0'' = Inr (''on-failure'', 0)"
    by (simp add: parse_restart_policy_def validate_restart_policy_def)
  with on_failure_zero_unlimited [OF this, of "(sample_record Failed (sample_metadata 3 None))\<lparr>rec_exit_code := Some 1\<rparr>" 1000]
  show ?thesis by (auto simp: sample_record_def)
qed

section \<open>Filesystem-only pauses\<close>

text \<open>A paused execution without memory has no process, so a sweep takes it for dead.\<close>

definition cold_paused :: "box_record \<Rightarrow> bool" where
  "cold_paused r \<longleftrightarrow> rec_status r = ''paused'' \<and> rec_pid r = None \<and>
     (\<exists>m. rec_managed_execution r = Some m \<and> \<not> me_paused_with_memory m)"

lemma cold_paused_swept_invalid:
  assumes "cold_paused r"
  shows "\<not> valid_managed_record (mark_dead host r)"
  using assms
  by (auto simp: cold_paused_def valid_managed_record_def managed_state_def from_status_def
      validate_pending_iff valid_cold_pause_state_def result_simps)

lemma reconcile_keeps_lost:
  assumes "r \<in> set records" and "lost host r" and "distinct (map rec_id records)" and "\<not> rec_auto_remove r"
  shows "mark_dead host r \<in> set (fst (reconcile host records))"
proof -
  let ?rem = "filter rec_auto_remove (map (mark_dead host) (filter (lost host) records))"
  have "rec_id r \<notin> rec_id ` set ?rem"
  proof
    assume "rec_id r \<in> rec_id ` set ?rem"
    then obtain y where y: "y \<in> set records" "rec_auto_remove y" "rec_id y = rec_id r" by auto
    with distinct_map_unique [OF assms(3) y(1) assms(1) y(3)] assms(4) show False by simp
  qed
  moreover have "swept host r = mark_dead host r" using assms(2) by (simp add: swept_def)
  with assms(1) have "mark_dead host r \<in> set (map (swept host) records)" by (metis image_eqI set_map)
  ultimately have "mark_dead host r \<in> {x \<in> set (map (swept host) records). rec_id x \<notin> rec_id ` set ?rem}"
    by (simp only: mem_Collect_eq mark_dead_fields simp_thms)
  then show ?thesis unfolding reconcile_spec Let_def fst_conv set_filter [symmetric] .
qed

text \<open>
  a filesystem-only pause blocks the sweep. While the file has a managed execution that is paused
  without memory and is not to be removed automatically, persisting a sweep always fails, whatever
  the host and the faults, and leaves the records as they were: no dead box is recorded as dead, and
  the teardown of all of them runs again at every load. An execution that is to be removed
  automatically is dropped from the file although it is only paused.
\<close>

lemma cold_pause_blocks_sweep:
  assumes "recovering_view d = Some records" and "r \<in> set records" and "cold_paused r"
    and "distinct (map rec_id records)" and "flush_reconcile host flt d = (res, d')"
  shows "if rec_auto_remove r
    then res = Inr () \<longrightarrow> (\<exists>records'. recovering_view d' = Some records' \<and> rec_id r \<notin> rec_id ` set records')
    else (\<exists>e. res = Inl e) \<and> recovering_view d' = Some records"
proof -
  have lost: "lost host r" using assms(3) by (simp add: lost_def cold_paused_def is_record_pid_live_def)
  show ?thesis
  proof (cases res)
    case (Inl e)
    then show ?thesis
      using modify_or_quarantine_Inl [of "\<lambda>e. e" flt "flush_body host" d e d'] assms(1,5)
      by (simp add: flush_reconcile_def)
  next
    case (Inr u)
    with modify_or_quarantine_Inr [of "\<lambda>e. e" flt "flush_body host" d u d'] assms(1,5)
    obtain records' where v: "flush_body host records = Inr (u, records')" "valid_records records'"
      "recovering_view d' = Some records'"
      by (auto simp: flush_reconcile_def)
    have r': "records' = fst (reconcile host records)"
      using v(1) by (auto simp: flush_body_def result_simps split: prod.splits if_splits)
    show ?thesis
    proof (cases "rec_auto_remove r")
      case True
      have "rec_id r \<notin> rec_id ` set records'"
        using True lost assms(2) unfolding r' by (force simp: reconcile_spec Let_def image_iff)
      with True v(3) show ?thesis by auto
    next
      case False
      then have "mark_dead host r \<in> set records'" using reconcile_keeps_lost [OF assms(2) lost assms(4)] r' by blast
      then show ?thesis using cold_paused_swept_invalid [OF assms(3)] v(2) by (auto simp: valid_records_iff)
    qed
  qed
qed

definition sample_host :: cli_host where
  "sample_host =
     \<lparr>ch_process_alive = (\<lambda>_ _. False), ch_persisted_exit_code = (\<lambda>_. Some 1),
      ch_cleanup_stopped_box = (\<lambda>_. Inr ()), ch_cleanup_removed_box = (\<lambda>_. Inr ())\<rparr>"

definition sample_cold_pause :: box_record where
  "sample_cold_pause =
     sample_record Paused ((sample_metadata 3 None)\<lparr>me_paused_with_memory := False\<rparr>)"

lemma cold_pause_blocks_sweep_witness:
  "\<exists>e d'. flush_reconcile sample_host no_faults (sample_disk [sample_cold_pause]) = (Inl e, d') \<and>
     recovering_view d' = Some [sample_cold_pause]"
proof -
  let ?m = "(sample_metadata 3 None)\<lparr>me_paused_with_memory := False\<rparr>"
  have "me_last_restart ?m = me_last_restart (sample_metadata 3 None)"
    "me_request ?m = me_request (sample_metadata 3 None)" "me_plan ?m = me_plan (sample_metadata 3 None)" by simp_all
  then have "metadata_validate ?m = metadata_validate (sample_metadata 3 None)"
    unfolding metadata_validate_def by (simp only:)
  then have "metadata_validate ?m = Inr ()" by (simp add: sample_metadata_valid)
  moreover have "trim ''x1'' \<noteq> []" by code_simp
  ultimately have "valid_managed_record sample_cold_pause"
    by (simp add: valid_managed_record_def managed_state_def sample_cold_pause_def sample_record_def
        sample_metadata_def from_status_def as_status_def validate_pending_iff valid_cold_pause_state_def result_simps
        pending_consistent_def validate_restart_operation_def validate_snapshot_operation_def
        validate_kill_operation_def)
  then have "validate_managed_records [sample_cold_pause] = Inr ()"
    by (simp add: valid_records_iff sample_cold_pause_def sample_record_def flip: valid_records_def)
  then have "recovering_view (sample_disk [sample_cold_pause]) = Some [sample_cold_pause]"
    by (simp add: recovering_view_def strict_view_def sample_disk_def parse_records_def)
  moreover have "cold_paused sample_cold_pause" "\<not> rec_auto_remove sample_cold_pause"
    by (simp_all add: cold_paused_def sample_cold_pause_def sample_record_def as_status_def)
  moreover obtain res d' where "flush_reconcile sample_host no_faults (sample_disk [sample_cold_pause]) = (res, d')"
    by fastforce
  ultimately show ?thesis
    using cold_pause_blocks_sweep [of "sample_disk [sample_cold_pause]" "[sample_cold_pause]" sample_cold_pause
        sample_host no_faults res d'] by auto
qed

end
