(* ===== verification/Async_Task.thy ===== *)
theory Async_Task
  imports Box_Prelude
begin

text \<open>
  Asynchronous handlers over shared state. A task is a Rust future: it is done, or it waits at an
  \<open>.await\<close> point, where it may be blocked (\<open>None\<close>: a lock is held) or runs to its next await point
  (the new state and the rest of the task). A configuration is the shared state and the tasks
  accepted so far, each identified by its position; the executor interleaves their steps in any
  order and may accept a further task at any time. Dropping a future half way (a cancelled request)
  is not modelled.

  The second part is a rely/guarantee rule for configurations of any number of tasks: each task
  may assume of the others what every one of them is shown to do.
\<close>

section \<open>Tasks\<close>

datatype ('s, 'a) task = Done 'a | Await "'s \<Rightarrow> ('s \<times> ('s, 'a) task) option"

primrec task_bind :: "('s, 'a) task \<Rightarrow> ('a \<Rightarrow> ('s, 'b) task) \<Rightarrow> ('s, 'b) task" where
  "task_bind (Done x) k = k x"
| "task_bind (Await f) k = Await (map_option (map_prod id (\<lambda>t. task_bind t k)) \<circ> f)"

definition task_act :: "('s \<Rightarrow> 'a \<times> 's) \<Rightarrow> ('s, 'a) task" where
  "task_act f = Await (\<lambda>s. case f s of (x, s') \<Rightarrow> Some (s', Done x))"

definition task_read :: "('s \<Rightarrow> 'a) \<Rightarrow> ('s, 'a) task" where
  "task_read g = task_act (\<lambda>s. (g s, s))"

definition task_write :: "('s \<Rightarrow> 's) \<Rightarrow> ('s, unit) task" where
  "task_write g = task_act (\<lambda>s. ((), g s))"

text \<open>A step that is enabled in some states only.\<close>

definition task_guarded :: "('s \<Rightarrow> bool) \<Rightarrow> ('s \<Rightarrow> 's) \<Rightarrow> ('s, unit) task" where
  "task_guarded b g = Await (\<lambda>s. if b s then Some (g s, Done ()) else None)"

text \<open>A step on a resource that may be taken: it waits while \<open>b\<close> fails.\<close>

definition task_when :: "('s \<Rightarrow> bool) \<Rightarrow> ('s \<Rightarrow> 'a \<times> 's) \<Rightarrow> ('s, 'a) task" where
  "task_when b f = Await (\<lambda>s. if b s then (case f s of (x, s') \<Rightarrow> Some (s', Done x)) else None)"

text \<open>The \<open>?\<close> operator inside a handler.\<close>

definition task_try :: "('s, 'e + 'a) task \<Rightarrow> ('a \<Rightarrow> ('s, 'e + 'b) task) \<Rightarrow> ('s, 'e + 'b) task" where
  "task_try t k = task_bind t (\<lambda>r. case r of Inl e \<Rightarrow> Done (Inl e) | Inr x \<Rightarrow> k x)"

primrec task_each :: "('a \<Rightarrow> ('s, unit) task) \<Rightarrow> 'a list \<Rightarrow> ('s, unit) task" where
  "task_each f [] = Done ()"
| "task_each f (x # xs) = task_bind (f x) (\<lambda>_. task_each f xs)"

section \<open>Configurations\<close>

inductive task_step ::
    "(nat \<Rightarrow> ('s, 'a) task set) \<Rightarrow> 's \<times> ('s, 'a) task list \<Rightarrow> 's \<times> ('s, 'a) task list \<Rightarrow> bool"
  for accepted :: "nat \<Rightarrow> ('s, 'a) task set" where
  accept: "t \<in> accepted (length ts) \<Longrightarrow> task_step accepted (s, ts) (s, ts @ [t])"
| poll: "i < length ts \<Longrightarrow> ts ! i = Await f \<Longrightarrow> f s = Some (s', t') \<Longrightarrow>
    task_step accepted (s, ts) (s', ts[i := t'])"

inductive task_run ::
    "(nat \<Rightarrow> ('s, 'a) task set) \<Rightarrow> 's \<Rightarrow> 's \<times> ('s, 'a) task list \<Rightarrow> bool"
  for accepted :: "nat \<Rightarrow> ('s, 'a) task set" and s0 :: 's where
  start: "task_run accepted s0 (s0, [])"
| step: "task_run accepted s0 c \<Longrightarrow> task_step accepted c c' \<Longrightarrow> task_run accepted s0 c'"

inductive_cases task_step_cases: "task_step accepted (s, ts) c"

section \<open>A task on its own\<close>

text \<open>\<open>advances t s t' s'\<close>: without interruption, \<open>t\<close> comes from \<open>s\<close> to \<open>s'\<close>, where \<open>t'\<close> is left.\<close>

inductive advances :: "('s, 'a) task \<Rightarrow> 's \<Rightarrow> ('s, 'a) task \<Rightarrow> 's \<Rightarrow> bool" where
  adv_refl: "advances t s t s"
| adv_step: "f s = Some (s', t) \<Longrightarrow> advances t s' t' s'' \<Longrightarrow> advances (Await f) s t' s''"

named_theorems advances_intros \<open>how tasks advance\<close>

lemma advances_Done [advances_intros]: "advances (Done x) s (Done x) s"
  by (rule adv_refl)

lemma advances_within:
  "advances t s t' s' \<Longrightarrow> advances (task_bind t g) s (task_bind t' g) s'"
  by (induction rule: advances.induct) (auto intro: adv_refl adv_step)

lemma advances_trans: "advances t s t' s' \<Longrightarrow> advances t' s' t'' s'' \<Longrightarrow> advances t s t'' s''"
  by (induction rule: advances.induct) (auto intro: adv_step)

lemma advances_bind [advances_intros]:
  "advances t s (Done x) s' \<Longrightarrow> advances (g x) s' t'' s'' \<Longrightarrow> advances (task_bind t g) s t'' s''"
  using advances_within [of t s "Done x" s' g] advances_trans [of "task_bind t g" s "g x" s' t'' s''] by simp

lemma advances_act [advances_intros]: "f s = (x, s') \<Longrightarrow> advances (task_act f) s (Done x) s'"
  by (auto simp: task_act_def intro!: adv_step adv_refl)

lemma advances_read [advances_intros]: "advances (task_read g) s (Done (g s)) s"
  unfolding task_read_def by (rule advances_act) simp

lemma advances_write [advances_intros]: "advances (task_write g) s (Done ()) (g s)"
  unfolding task_write_def by (rule advances_act) simp

lemma advances_guarded [advances_intros]: "b s \<Longrightarrow> advances (task_guarded b g) s (Done ()) (g s)"
  by (auto simp: task_guarded_def intro!: adv_step adv_refl)

lemma advances_when [advances_intros]: "b s \<Longrightarrow> f s = (x, s') \<Longrightarrow> advances (task_when b f) s (Done x) s'"
  by (auto simp: task_when_def intro!: adv_step adv_refl)

lemma advances_try [advances_intros]:
  "advances t s (Done (Inr x)) s' \<Longrightarrow> advances (g x) s' t'' s'' \<Longrightarrow> advances (task_try t g) s t'' s''"
  unfolding task_try_def by (erule advances_bind) simp

lemma run_accept: "task_run accepted s0 (s, ts) \<Longrightarrow> t \<in> accepted (length ts) \<Longrightarrow> task_run accepted s0 (s, ts @ [t])"
  by (erule task_run.step) (rule task_step.accept)

lemma run_advance:
  "advances t s t' s' \<Longrightarrow> task_run accepted s0 (s, ts) \<Longrightarrow> i < length ts \<Longrightarrow> ts ! i = t \<Longrightarrow>
     task_run accepted s0 (s', ts[i := t'])"
proof (induction arbitrary: ts rule: advances.induct)
  case (adv_refl t s)
  then show ?case by (auto simp: list_update_same_conv)
next
  case (adv_step f s s' t t' s'')
  then have "task_run accepted s0 (s', ts[i := t])" by (auto intro: task_run.step task_step.poll)
  from adv_step.IH [OF this] adv_step.prems show ?case by simp
qed

section \<open>Executing a schedule\<close>

text \<open>Runs that exhibit a behaviour are computed: a schedule accepts tasks and polls them.\<close>

primrec run_task :: "nat \<Rightarrow> ('s, 'a) task \<Rightarrow> 's \<Rightarrow> ('s, 'a) task \<times> 's" where
  "run_task 0 t s = (t, s)"
| "run_task (Suc n) t s =
     (case t of
        Done x \<Rightarrow> (t, s)
      | Await f \<Rightarrow> (case f s of None \<Rightarrow> (t, s) | Some (s', t') \<Rightarrow> run_task n t' s'))"

datatype ('s, 'a) event = Accept "('s, 'a) task" | Poll nat nat

fun run_event :: "'s \<times> ('s, 'a) task list \<Rightarrow> ('s, 'a) event \<Rightarrow> 's \<times> ('s, 'a) task list" where
  "run_event (s, ts) (Accept t) = (s, ts @ [t])"
| "run_event (s, ts) (Poll i n) = (case run_task n (ts ! i) s of (t, s') \<Rightarrow> (s', ts[i := t]))"

fun schedulable :: "(nat \<Rightarrow> ('s, 'a) task set) \<Rightarrow> nat \<Rightarrow> ('s, 'a) event list \<Rightarrow> bool" where
  "schedulable accepted n [] \<longleftrightarrow> True"
| "schedulable accepted n (Accept t # es) \<longleftrightarrow> t \<in> accepted n \<and> schedulable accepted (Suc n) es"
| "schedulable accepted n (Poll i _ # es) \<longleftrightarrow> i < n \<and> schedulable accepted n es"

lemma run_task_advances: "run_task n t s = (t', s') \<Longrightarrow> advances t s t' s'"
  by (induction n arbitrary: t s)
     (auto intro: adv_refl adv_step split: task.splits option.splits prod.splits)

lemma schedule_run:
  "task_run accepted s0 c \<Longrightarrow> schedulable accepted (length (snd c)) es \<Longrightarrow>
     task_run accepted s0 (foldl run_event c es)"
proof (induction es arbitrary: c)
  case (Cons e es)
  obtain s ts where c: "c = (s, ts)" by force
  show ?case
  proof (cases e)
    case (Accept t)
    with Cons.prems have "task_run accepted s0 (s, ts @ [t])" by (auto simp: c intro: run_accept)
    with Cons Accept show ?thesis by (simp add: c)
  next
    case (Poll i n)
    obtain t' s' where r: "run_task n (ts ! i) s = (t', s')" by force
    with Cons.prems Poll have "task_run accepted s0 (s', ts[i := t'])"
      by (auto simp: c intro: run_advance [OF run_task_advances])
    with Cons Poll r show ?thesis by (simp add: c)
  qed
qed simp

section \<open>Rely and guarantee\<close>

text \<open>
  \<open>task_safe good rely guar blocked post t s\<close>: from \<open>s\<close> on, whatever the others do within \<open>rely\<close>,
  every step of \<open>t\<close> keeps the invariant and stays within \<open>guar\<close>, \<open>t\<close> waits only where \<open>blocked\<close>
  allows it, and the result satisfies \<open>post\<close>.
\<close>

inductive task_safe ::
    "('s \<Rightarrow> bool) \<Rightarrow> ('s \<Rightarrow> 's \<Rightarrow> bool) \<Rightarrow> ('s \<Rightarrow> 's \<Rightarrow> bool) \<Rightarrow> ('s \<Rightarrow> bool) \<Rightarrow> ('a \<Rightarrow> 's \<Rightarrow> bool) \<Rightarrow>
       ('s, 'a) task \<Rightarrow> 's \<Rightarrow> bool"
  for good rely guar blocked post where
  done_safe: "(\<And>s'. rely s s' \<Longrightarrow> good s' \<Longrightarrow> post x s') \<Longrightarrow> task_safe good rely guar blocked post (Done x) s"
| await_safe: "(\<And>s' s'' t. rely s s' \<Longrightarrow> good s' \<Longrightarrow> f s' = Some (s'', t) \<Longrightarrow>
      good s'' \<and> guar s' s'' \<and> task_safe good rely guar blocked post t s'') \<Longrightarrow>
    (\<And>s'. rely s s' \<Longrightarrow> good s' \<Longrightarrow> f s' = None \<Longrightarrow> blocked s') \<Longrightarrow>
    task_safe good rely guar blocked post (Await f) s"

inductive_cases task_safe_DoneE: "task_safe good rely guar blocked post (Done x) s"
inductive_cases task_safe_AwaitE: "task_safe good rely guar blocked post (Await f) s"

locale rely_guarantee =
  fixes good :: "'s \<Rightarrow> bool" and rely guar :: "nat \<Rightarrow> 's \<Rightarrow> 's \<Rightarrow> bool" and blocked :: "nat \<Rightarrow> 's \<Rightarrow> bool"
  assumes rely_refl: "rely k s s"
    and rely_trans: "rely k s s' \<Longrightarrow> rely k s' s'' \<Longrightarrow> rely k s s''"
    and guar_rely: "i \<noteq> k \<Longrightarrow> good s \<Longrightarrow> good s' \<Longrightarrow> guar i s s' \<Longrightarrow> rely k s s'"
begin

text \<open>The rules are stated for triples, whose assertions no other task can falsify.\<close>

definition triple :: "nat \<Rightarrow> ('s \<Rightarrow> bool) \<Rightarrow> ('s, 'a) task \<Rightarrow> ('a \<Rightarrow> 's \<Rightarrow> bool) \<Rightarrow> bool" where
  "triple k P t Q \<longleftrightarrow>
     (\<forall>s. good s \<longrightarrow> P s \<longrightarrow> task_safe good (rely k) (guar k) (blocked k) Q t s)"

definition unaffected :: "nat \<Rightarrow> ('s \<Rightarrow> bool) \<Rightarrow> bool" where
  "unaffected k P \<longleftrightarrow> (\<forall>s s'. P s \<longrightarrow> rely k s s' \<longrightarrow> P s')"

lemma safe_later:
  assumes "task_safe good (rely k) (guar k) (blocked k) post t s" and "rely k s s'"
  shows "task_safe good (rely k) (guar k) (blocked k) post t s'"
  using assms
proof (cases t)
  case (Done x)
  with assms show ?thesis by (auto elim!: task_safe_DoneE intro!: done_safe intro: rely_trans)
next
  case (Await f)
  have later: "rely k s s''" if "rely k s' s''" for s'' using assms(2) that by (rule rely_trans)
  show ?thesis unfolding Await
    by (rule task_safe_AwaitE [OF assms(1) [unfolded Await]]) (rule await_safe; use later in blast)
qed

lemma safe_step:
  assumes "task_safe good (rely k) (guar k) (blocked k) post (Await f) s" and "good s" and "f s = Some (s', t)"
  shows "good s' \<and> guar k s s' \<and> task_safe good (rely k) (guar k) (blocked k) post t s'"
  using assms(1) by (rule task_safe_AwaitE) (use assms(2,3) rely_refl in blast)

lemma safe_wait:
  assumes "task_safe good (rely k) (guar k) (blocked k) post (Await f) s" and "good s" and "f s = None"
  shows "blocked k s"
  using assms(1) by (rule task_safe_AwaitE) (use assms(2,3) rely_refl in blast)

lemma safe_result:
  assumes "task_safe good (rely k) (guar k) (blocked k) post (Done x) s" and "good s"
  shows "post x s"
  using assms(1) by (rule task_safe_DoneE) (use assms(2) rely_refl in blast)

lemma safe_bind:
  assumes "task_safe good (rely k) (guar k) (blocked k) mid t s"
    and "\<And>x s'. good s' \<Longrightarrow> mid x s' \<Longrightarrow> task_safe good (rely k) (guar k) (blocked k) post (g x) s'"
  shows "task_safe good (rely k) (guar k) (blocked k) post (task_bind t g) s"
  using assms(1)
proof (induction rule: task_safe.induct)
  case (done_safe s x)
  have safe: "task_safe good (rely k) (guar k) (blocked k) post (g x) s'" if "rely k s s'" "good s'" for s'
    using assms(2) done_safe that by blast
  show ?case
  proof (cases "g x")
    case (Done y)
    then have "post y s'" if "rely k s s'" "good s'" for s' using safe [OF that] that(2) by (auto intro: safe_result)
    then show ?thesis using Done by (auto intro: task_safe.done_safe)
  next
    case (Await f)
    then have f: "task_safe good (rely k) (guar k) (blocked k) post (Await f) s'" if "rely k s s'" "good s'" for s'
      using safe [OF that] by simp
    have "task_safe good (rely k) (guar k) (blocked k) post (Await f) s"
    proof (rule task_safe.await_safe)
      fix s' s'' t assume "rely k s s'" "good s'" "f s' = Some (s'', t)"
      with safe_step [OF f] show "good s'' \<and> guar k s' s'' \<and> task_safe good (rely k) (guar k) (blocked k) post t s''" by blast
    next
      fix s' assume "rely k s s'" "good s'" "f s' = None"
      with safe_wait [OF f] show "blocked k s'" by blast
    qed
    then show ?thesis using Await by simp
  qed
next
  case (await_safe s f)
  show ?case unfolding task_bind.simps
    by (rule task_safe.await_safe) (use await_safe in \<open>auto simp del: split_paired_All\<close>)
qed

lemma triple_bind:
  "triple k P t M \<Longrightarrow> (\<And>x. triple k (M x) (g x) Q) \<Longrightarrow> triple k P (task_bind t g) Q"
  unfolding triple_def by (blast intro: safe_bind)

lemma triple_Done: "unaffected k (Q x) \<Longrightarrow> (\<And>s. P s \<Longrightarrow> Q x s) \<Longrightarrow> triple k P (Done x) Q"
  unfolding triple_def unaffected_def by (blast intro: done_safe)

lemma triple_Await:
  assumes "unaffected k P"
    and "\<And>s s' t. good s \<Longrightarrow> P s \<Longrightarrow> f s = Some (s', t) \<Longrightarrow>
      good s' \<and> guar k s s' \<and> task_safe good (rely k) (guar k) (blocked k) Q t s'"
    and "\<And>s. good s \<Longrightarrow> P s \<Longrightarrow> f s = None \<Longrightarrow> blocked k s"
  shows "triple k P (Await f) Q"
  using assms unfolding triple_def unaffected_def by (blast intro: await_safe)

lemma triple_act:
  assumes "unaffected k P" and "\<And>x. unaffected k (Q x)"
    and "\<And>s. good s \<Longrightarrow> P s \<Longrightarrow> good (snd (f s)) \<and> guar k s (snd (f s)) \<and> Q (fst (f s)) (snd (f s))"
  shows "triple k P (task_act f :: ('s, 'a) task) Q"
  unfolding task_act_def
proof (rule triple_Await [OF assms(1)])
  fix s s' :: 's and t :: "('s, 'a) task"
  assume "good s" "P s" "(case f s of (x, s') \<Rightarrow> Some (s', Done x)) = Some (s', t)"
  with assms(2,3) show "good s' \<and> guar k s s' \<and> task_safe good (rely k) (guar k) (blocked k) Q t s'"
    unfolding unaffected_def by (fastforce intro!: done_safe split: prod.splits)
qed (simp split: prod.splits)

lemma triple_guarded:
  assumes "unaffected k P" and "unaffected k (Q ())"
    and "\<And>s. good s \<Longrightarrow> P s \<Longrightarrow> b s \<Longrightarrow> good (g s) \<and> guar k s (g s) \<and> Q () (g s)"
    and "\<And>s. good s \<Longrightarrow> P s \<Longrightarrow> \<not> b s \<Longrightarrow> blocked k s"
  shows "triple k P (task_guarded b g) Q"
  unfolding task_guarded_def
proof (rule triple_Await [OF assms(1)])
  fix s s' :: 's and t :: "('s, unit) task"
  assume "good s" "P s" "(if b s then Some (g s, Done ()) else None) = Some (s', t)"
  with assms(2,3) show "good s' \<and> guar k s s' \<and> task_safe good (rely k) (guar k) (blocked k) Q t s'"
    unfolding unaffected_def by (auto intro!: done_safe split: if_splits)
next
  fix s assume "good s" "P s" "(if b s then Some (g s, Done ()) else None) = None"
  with assms(4) show "blocked k s" by (auto split: if_splits)
qed

lemma triple_when:
  assumes "unaffected k P" and "\<And>x. unaffected k (Q x)"
    and "\<And>s. good s \<Longrightarrow> P s \<Longrightarrow> b s \<Longrightarrow> good (snd (f s)) \<and> guar k s (snd (f s)) \<and> Q (fst (f s)) (snd (f s))"
    and "\<And>s. good s \<Longrightarrow> P s \<Longrightarrow> \<not> b s \<Longrightarrow> blocked k s"
  shows "triple k P (task_when b f :: ('s, 'a) task) Q"
  unfolding task_when_def
proof (rule triple_Await [OF assms(1)])
  fix s s' :: 's and t :: "('s, 'a) task"
  assume "good s" "P s" "(if b s then case f s of (x, s') \<Rightarrow> Some (s', Done x) else None) = Some (s', t)"
  with assms(2,3) show "good s' \<and> guar k s s' \<and> task_safe good (rely k) (guar k) (blocked k) Q t s'"
    unfolding unaffected_def by (fastforce intro!: done_safe split: prod.splits if_splits)
next
  fix s assume "good s" "P s" "(if b s then case f s of (x, s') \<Rightarrow> Some (s', Done x) else None) = None"
  with assms(4) show "blocked k s" by (auto split: if_splits prod.splits)
qed

lemma safe_weaken:
  assumes "task_safe good (rely k) (guar k) (blocked k) post t s" and "\<And>x s'. good s' \<Longrightarrow> post x s' \<Longrightarrow> post' x s'"
  shows "task_safe good (rely k) (guar k) (blocked k) post' t s"
  using assms(1)
proof (induction rule: task_safe.induct)
  case (done_safe s x)
  with assms(2) show ?case by (auto intro: task_safe.done_safe)
next
  case (await_safe s f)
  then show ?case by (blast intro: task_safe.await_safe)
qed

lemma triple_weaken:
  "triple k P t Q \<Longrightarrow> (\<And>s. P' s \<Longrightarrow> P s) \<Longrightarrow> (\<And>x s. Q x s \<Longrightarrow> Q' x s) \<Longrightarrow> triple k P' t Q'"
  unfolding triple_def by (blast intro: safe_weaken)

lemma triple_option:
  "(x = None \<Longrightarrow> triple k P t Q) \<Longrightarrow> (\<And>v. x = Some v \<Longrightarrow> triple k P (u v) Q) \<Longrightarrow>
     triple k P (case x of None \<Rightarrow> t | Some v \<Rightarrow> u v) Q"
  by (cases x) auto

lemma triple_if:
  "(b \<Longrightarrow> triple k P t Q) \<Longrightarrow> (\<not> b \<Longrightarrow> triple k P u Q) \<Longrightarrow> triple k P (if b then t else u) Q"
  by simp

lemma stable_conj: "unaffected k P \<Longrightarrow> unaffected k Q \<Longrightarrow> unaffected k (\<lambda>s. P s \<and> Q s)"
  by (auto simp: unaffected_def)

lemma stable_const: "unaffected k (\<lambda>_. b)"
  by (simp add: unaffected_def)

lemma unaffected_if: "unaffected k P \<Longrightarrow> unaffected k Q \<Longrightarrow> unaffected k (\<lambda>s. if b then P s else Q s)"
  by (simp add: unaffected_def)

text \<open>
  Every task of a run is safe, and the invariant holds. A task that is accepted must be safe in
  every state that satisfies the invariant and \<open>fresh k\<close>, which no step of an earlier task can falsify.
\<close>

definition tasks_safe :: "(nat \<Rightarrow> 'a \<Rightarrow> 's \<Rightarrow> bool) \<Rightarrow> 's \<times> ('s, 'a) task list \<Rightarrow> bool" where
  "tasks_safe post c \<longleftrightarrow> good (fst c) \<and>
     (\<forall>i < length (snd c). task_safe good (rely i) (guar i) (blocked i) (post i) (snd c ! i) (fst c))"

lemma tasks_safe_poll:
  assumes "tasks_safe post (s, ts)" and "i < length ts" and "ts ! i = Await f" and "f s = Some (s', t')"
  shows "tasks_safe post (s', ts[i := t']) \<and> guar i s s'"
proof -
  have "task_safe good (rely i) (guar i) (blocked i) (post i) (Await f) s" and good: "good s"
    using assms unfolding tasks_safe_def by force+
  then have t': "good s'" "guar i s s'" "task_safe good (rely i) (guar i) (blocked i) (post i) t' s'"
    using safe_step [of i "post i" f s s' t'] assms(4) by blast+
  have "task_safe good (rely j) (guar j) (blocked j) (post j) (ts[i := t'] ! j) s'" if "j < length ts" for j
  proof (cases "j = i")
    case True
    with t'(3) assms(2) show ?thesis by simp
  next
    case False
    then have "rely j s s'" using guar_rely [of i j] good t' by blast
    with False that assms(1) show ?thesis by (auto simp: tasks_safe_def intro: safe_later)
  qed
  with t' show ?thesis by (simp add: tasks_safe_def)
qed

lemma run_safe:
  assumes "task_run accepted s0 c" and "good s0" and "fresh 0 s0"
    and "\<And>k t s. t \<in> accepted k \<Longrightarrow> good s \<Longrightarrow> fresh k s \<Longrightarrow>
      task_safe good (rely k) (guar k) (blocked k) (post k) t s"
    and "\<And>k s. fresh k s \<Longrightarrow> fresh (Suc k) s"
    and "\<And>i k s s'. i < k \<Longrightarrow> fresh k s \<Longrightarrow> guar i s s' \<Longrightarrow> fresh k s'"
  shows "tasks_safe post c \<and> fresh (length (snd c)) (fst c)"
  using assms(1)
proof (induction rule: task_run.induct)
  case start
  with assms(2,3) show ?case by (simp add: tasks_safe_def)
next
  case (step c c')
  obtain s ts where c: "c = (s, ts)" by force
  from step.hyps(2) show ?case unfolding c
  proof (cases rule: task_step.cases)
    case (accept t)
    with step.IH assms(4,5) show ?thesis
      by (auto simp: c tasks_safe_def nth_append less_Suc_eq)
  next
    case (poll i f s' t')
    with step.IH tasks_safe_poll [of post s ts i f s' t'] assms(6) [of i "length ts" s s']
    show ?thesis by (simp add: c)
  qed
qed

end

section \<open>Lock order\<close>

text \<open>
  A task may wait for a lock that another task holds if the lock ranks above every lock that it
  holds itself, or for work that the executor has not picked up. Tasks that wait in this way only,
  and end without a lock, are never stuck together.
\<close>

definition waits :: "('s \<Rightarrow> 'l \<Rightarrow> nat option) \<Rightarrow> ('l \<Rightarrow> nat) \<Rightarrow> ('s \<Rightarrow> bool) \<Rightarrow> nat \<Rightarrow> 's \<Rightarrow> bool" where
  "waits owner rank queued k s \<longleftrightarrow> queued s \<or>
     (\<exists>l j. owner s l = Some j \<and> j \<noteq> k \<and> (\<forall>l'. owner s l' = Some k \<longrightarrow> rank l' < rank l))"

locale lock_order = rely_guarantee good rely guar "waits owner rank queued"
  for good :: "'s \<Rightarrow> bool" and rely guar :: "nat \<Rightarrow> 's \<Rightarrow> 's \<Rightarrow> bool"
    and owner :: "'s \<Rightarrow> 'l \<Rightarrow> nat option" and rank :: "'l \<Rightarrow> nat" and queued :: "'s \<Rightarrow> bool" +
  fixes levels :: nat
  assumes ranked: "rank l < levels"
begin

lemma never_stuck:
  assumes safe: "tasks_safe post (s, ts)"
    and ended: "\<And>i x l. post i x s \<Longrightarrow> owner s l \<noteq> Some i"
    and owners: "\<And>l j. owner s l = Some j \<Longrightarrow> j < length ts"
    and i: "i < length ts" "ts ! i = Await f"
  shows "queued s \<or> (\<exists>j g s' t. j < length ts \<and> ts ! j = Await g \<and> g s = Some (s', t))"
proof (rule ccontr)
  assume stuck: "\<not> ?thesis"
  have good: "good s" and each: "\<And>j. j < length ts \<Longrightarrow>
      task_safe good (rely j) (guar j) (waits owner rank queued j) (post j) (ts ! j) s"
    using safe by (simp_all add: tasks_safe_def)
  have wait: "\<exists>l j'. owner s l = Some j' \<and> (\<forall>l'. owner s l' = Some j \<longrightarrow> rank l' < rank l)"
    if "j < length ts" "ts ! j = Await g" for j g
  proof -
    have "g s = None" using stuck that by (cases "g s") auto
    with each [OF that(1)] that(2) good have "waits owner rank queued j s" by (auto intro: safe_wait)
    with stuck show ?thesis by (auto simp: waits_def)
  qed
  have held: "\<exists>l' j'. owner s l' = Some j' \<and> rank l < rank l'" if l: "owner s l = Some j" for l j
  proof (cases "ts ! j")
    case (Done x)
    with each [OF owners [OF l]] good have "post j x s" by (auto intro: safe_result)
    with ended l show ?thesis by blast
  next
    case (Await g)
    with wait [OF owners [OF l]] l show ?thesis by blast
  qed
  have "\<exists>l j. owner s l = Some j \<and> n \<le> rank l" for n
  proof (induction n)
    case 0
    from wait [OF i] show ?case by blast
  next
    case (Suc n)
    with held show ?case by (metis Suc_le_eq le_less_trans)
  qed
  then show False using ranked by (meson leD)
qed

end

end
