(* ===== verification/Cri_Store.thy ===== *)
theory Cri_Store
  imports Async_Task Durable_File "HOL-Library.AList"
begin

text \<open>
  The state of the CRI server: containers (\<open>cri/src/container.rs\<close>), pod sandboxes
  (\<open>cri/src/sandbox.rs\<close>), the state file (\<open>cri/src/state.rs\<close>) and the store that writes both to it
  after every mutation (\<open>cri/src/persistent_store.rs\<close>).

  A \<open>HashMap\<close> of the store is an association list in some order; one that is only looked up is a map.
  Every method of an in-memory store holds its lock without awaiting, so it is one step. A method of
  the persistent store is a task: the step on the memory, then the await points of \<open>persist\<close> (the
  lock, the two reads and the write).
\<close>

section \<open>Containers\<close>

datatype container_state = CtCreated | CtRunning | CtExited

record container_mount =
  cm_container_path :: string
  cm_host_path :: string
  cm_readonly :: bool
  cm_selinux_relabel :: bool
  cm_propagation :: i32

record container =
  ct_id :: string
  ct_sandbox_id :: string
  ct_name :: string
  ct_attempt :: u32
  ct_image_ref :: string
  ct_resolved_image_digest :: string
  ct_resolved_image_path :: string
  ct_command :: "string list"
  ct_args :: "string list"
  ct_env :: "(string \<times> string) list"
  ct_working_dir :: string
  ct_user :: "string option"
  ct_stdin :: bool
  ct_stdin_once :: bool
  ct_tty :: bool
  ct_mounts :: "container_mount list"
  ct_state :: container_state
  ct_created_at :: i64
  ct_started_at :: i64
  ct_finished_at :: i64
  ct_exit_code :: i32
  ct_oom_killed :: bool
  ct_labels :: "string \<rightharpoonup> string"
  ct_annotations :: "string \<rightharpoonup> string"
  ct_log_path :: string
  ct_rootfs_path :: string
  ct_rootfs_guest_path :: string

definition status_image_ref :: "container \<Rightarrow> string" where
  "status_image_ref c =
     (if ct_resolved_image_digest c = [] then ct_image_ref c else ct_resolved_image_digest c)"

record exec_request =
  er_request_id :: "string option"
  er_cmd :: "string list"
  er_timeout_ns :: u64
  er_env :: "string list"
  er_working_dir :: "string option"
  er_rootfs :: "string option"
  er_stdin :: "u8 list option"
  er_stdin_streaming :: bool
  er_user :: "string option"
  er_streaming :: bool

definition to_exec_request :: "container \<Rightarrow> u64 \<Rightarrow> string + exec_request" where
  "to_exec_request c timeout_ns =
     (let cmd = ct_command c @ ct_args c in
      if cmd = [] then
        Inl ''resolved container command is empty; set CRI command/args or use an image with ENTRYPOINT/CMD''
      else Inr
        \<lparr>er_request_id = None, er_cmd = cmd, er_timeout_ns = timeout_ns,
         er_env = map (\<lambda>(key, v). key @ ''='' @ v) (ct_env c),
         er_working_dir = (if ct_working_dir c = [] then None else Some (ct_working_dir c)),
         er_rootfs = (if ct_rootfs_guest_path c = [] then None else Some (ct_rootfs_guest_path c)),
         er_stdin = None, er_stdin_streaming = ct_stdin c, er_user = ct_user c, er_streaming = False\<rparr>)"

type_synonym container_store = "(string \<times> container) list"

definition ct_add :: "container \<Rightarrow> container_store \<Rightarrow> container_store" where
  "ct_add c store = AList.update (ct_id c) c store"

definition ct_get :: "string \<Rightarrow> container_store \<Rightarrow> container option" where
  "ct_get i store = map_of store i"

definition ct_remove :: "string \<Rightarrow> container_store \<Rightarrow> container option \<times> container_store" where
  "ct_remove i store = (map_of store i, AList.delete i store)"

definition labels_match :: "(string \<times> string) list option \<Rightarrow> (string \<rightharpoonup> string) \<Rightarrow> bool" where
  "labels_match label_filter labels \<longleftrightarrow>
     (case label_filter of
        None \<Rightarrow> True
      | Some wanted \<Rightarrow> list_all (\<lambda>(key, v). labels key = Some v) wanted)"

definition ct_list ::
    "string option \<Rightarrow> (string \<times> string) list option \<Rightarrow> container_store \<Rightarrow> container list" where
  "ct_list sandbox_id label_filter store =
     filter (\<lambda>c. (case sandbox_id of None \<Rightarrow> True | Some sid \<Rightarrow> ct_sandbox_id c = sid) \<and>
       labels_match label_filter (ct_labels c)) (map snd store)"

text \<open>\<open>get_mut\<close>: change the entry under a key, and say whether it was changed.\<close>

definition with_entry ::
    "string \<Rightarrow> ('v \<Rightarrow> bool) \<Rightarrow> ('v \<Rightarrow> 'v) \<Rightarrow> (string \<times> 'v) list \<Rightarrow> bool \<times> (string \<times> 'v) list" where
  "with_entry i ok f store =
     (case map_of store i of
        None \<Rightarrow> (False, store)
      | Some v \<Rightarrow> if ok v then (True, AList.update i (f v) store) else (False, store))"

definition ct_update_state :: "string \<Rightarrow> container_state \<Rightarrow> container_store \<Rightarrow> bool \<times> container_store" where
  "ct_update_state i st = with_entry i (\<lambda>_. True) (\<lambda>c. c\<lparr>ct_state := st\<rparr>)"

definition mark_started :: "string \<Rightarrow> i64 \<Rightarrow> container_store \<Rightarrow> bool \<times> container_store" where
  "mark_started i started_at =
     with_entry i (\<lambda>_. True) (\<lambda>c. c\<lparr>ct_state := CtRunning, ct_started_at := started_at\<rparr>)"

definition mark_started_if_created :: "string \<Rightarrow> i64 \<Rightarrow> container_store \<Rightarrow> bool \<times> container_store" where
  "mark_started_if_created i started_at =
     with_entry i (\<lambda>c. ct_state c = CtCreated)
       (\<lambda>c. c\<lparr>ct_state := CtRunning, ct_started_at := started_at\<rparr>)"

definition mark_exited :: "string \<Rightarrow> i64 \<Rightarrow> i32 \<Rightarrow> container_store \<Rightarrow> bool \<times> container_store" where
  "mark_exited i finished_at exit_code =
     with_entry i (\<lambda>_. True)
       (\<lambda>c. c\<lparr>ct_state := CtExited, ct_finished_at := finished_at, ct_exit_code := exit_code\<rparr>)"

definition mark_exited_if_running ::
    "string \<Rightarrow> i64 \<Rightarrow> i32 \<Rightarrow> bool \<Rightarrow> container_store \<Rightarrow> bool \<times> container_store" where
  "mark_exited_if_running i finished_at exit_code oom_killed =
     with_entry i (\<lambda>c. ct_state c = CtRunning)
       (\<lambda>c. c\<lparr>ct_state := CtExited, ct_finished_at := finished_at, ct_exit_code := exit_code,
              ct_oom_killed := oom_killed\<rparr>)"

fun ct_remove_all :: "string list \<Rightarrow> container_store \<Rightarrow> container list \<times> container_store" where
  "ct_remove_all [] store = ([], store)"
| "ct_remove_all (i # is) store =
     (let (removed, store1) = ct_remove i store;
          (rest, store2) = ct_remove_all is store1
      in ((case removed of None \<Rightarrow> rest | Some c \<Rightarrow> c # rest), store2))"

definition remove_by_sandbox :: "string \<Rightarrow> container_store \<Rightarrow> container list \<times> container_store" where
  "remove_by_sandbox sandbox_id store =
     ct_remove_all (map ct_id (filter (\<lambda>c. ct_sandbox_id c = sandbox_id) (map snd store))) store"

section \<open>Pod sandboxes\<close>

datatype sandbox_state = SbReady | SbNotReady | SbRemoved

record sandbox_dns =
  sd_servers :: "string list"
  sd_searches :: "string list"
  sd_options :: "string list"

record pod_sandbox =
  ps_id :: string
  ps_name :: string
  ps_namespace :: string
  ps_uid :: string
  ps_attempt :: u32
  ps_state :: sandbox_state
  ps_created_at :: i64
  ps_labels :: "string \<rightharpoonup> string"
  ps_annotations :: "string \<rightharpoonup> string"
  ps_log_directory :: string
  ps_runtime_handler :: string
  ps_network_ip :: string
  ps_additional_ips :: "string list"
  ps_dns :: sandbox_dns
  ps_container_ports :: "i32 list"

type_synonym sandbox_store = "(string \<times> pod_sandbox) list"

definition sb_add :: "pod_sandbox \<Rightarrow> sandbox_store \<Rightarrow> sandbox_store" where
  "sb_add sb store = AList.update (ps_id sb) sb store"

definition sb_get :: "string \<Rightarrow> sandbox_store \<Rightarrow> pod_sandbox option" where
  "sb_get i store = map_of store i"

definition sb_remove :: "string \<Rightarrow> sandbox_store \<Rightarrow> pod_sandbox option \<times> sandbox_store" where
  "sb_remove i store = (map_of store i, AList.delete i store)"

definition sb_list :: "(string \<times> string) list option \<Rightarrow> sandbox_store \<Rightarrow> pod_sandbox list" where
  "sb_list label_filter store = filter (\<lambda>sb. labels_match label_filter (ps_labels sb)) (map snd store)"

definition sb_update_state :: "string \<Rightarrow> sandbox_state \<Rightarrow> sandbox_store \<Rightarrow> bool \<times> sandbox_store" where
  "sb_update_state i st = with_entry i (\<lambda>_. True) (\<lambda>sb. sb\<lparr>ps_state := st\<rparr>)"

section \<open>The state file\<close>

record persisted_state =
  pst_sandboxes :: "pod_sandbox list"
  pst_containers :: "container list"

definition empty_state :: persisted_state where
  "empty_state = \<lparr>pst_sandboxes = [], pst_containers = []\<rparr>"

type_synonym cri_disk = "persisted_state disk"

record save_faults =
  svf_create_dir :: "io_error option"
  svf_serialize :: "io_error option"
  svf_write :: write_faults

definition no_save_faults :: save_faults where
  "no_save_faults = \<lparr>svf_create_dir = None, svf_serialize = None, svf_write = no_write_faults\<rparr>"

definition json_save :: "save_faults \<Rightarrow> persisted_state \<Rightarrow> cri_disk \<Rightarrow> (io_error + unit) \<times> cri_disk" where
  "json_save flt st d =
     (case svf_create_dir flt of
        Some e \<Rightarrow> (Inl e, d)
      | None \<Rightarrow>
          (case svf_serialize flt of
             Some e \<Rightarrow> (Inl e, d)
           | None \<Rightarrow> write_durable (svf_write flt) st d))"

definition json_load ::
    "io_error option \<Rightarrow> quarantine_faults \<Rightarrow> cri_disk \<Rightarrow> (io_error + persisted_state) \<times> cri_disk" where
  "json_load read_fault qf d =
     (case disk_file d of
        None \<Rightarrow> (Inr empty_state, d)
      | Some node \<Rightarrow>
          (case read_fault of
             Some e \<Rightarrow> (Inl e, d)
           | None \<Rightarrow>
               (case node_content node of
                  Holds st \<Rightarrow> (Inr st, d)
                | Unparsable _ \<Rightarrow> (Inr empty_state, snd (quarantine_corrupt qf d)))))"

text \<open>\<open>PersistentCriStore::load\<close>: the records are added one by one.\<close>

definition populate :: "persisted_state \<Rightarrow> sandbox_store \<times> container_store \<Rightarrow> sandbox_store \<times> container_store" where
  "populate st stores =
     (fold sb_add (pst_sandboxes st) (fst stores), fold ct_add (pst_containers st) (snd stores))"

end
