(* ===== verification/Cri_Service.thy ===== *)
theory Cri_Service
  imports Cri_Store
begin

text \<open>
  The lifecycle handlers of the CRI runtime service (\<open>cri/src/runtime_service/mod.rs\<close>,
  \<open>service_ops.rs\<close>, \<open>supervisor.rs\<close>) over the persistent store, as tasks: each store call, map
  access or host call is a step, and between two steps any other handler may run.

  The shared state has the in-memory stores, the state file, the live virtual machines and the
  control handles by container, the emitted events and the calls made to the host, in order. Four
  fields are auxiliary and no handler reads them to decide anything: the holder of the persist lock
  (the lock itself is \<open>None\<close> or not), the calls whose mutation is not yet written, whether the
  last write succeeded, and the \<open>Created\<close> to \<open>Running\<close> transitions won so far. \<open>cs_used_ids\<close> are the
  container identifiers handed out: they are random, and a run that draws one twice is not
  considered.

  What a call meets outside (clock, write faults, results of the virtual machine and of the guest) is
  the record \<open>call_env\<close>.
\<close>

section \<open>State\<close>

datatype status_code = NotFound | FailedPrecondition | InvalidArgument | InternalStatus

datatype status = Status status_code string

datatype host_call =
    ConnectNetwork string
  | BootVm string
  | DisconnectNetworkByName string string
  | DestroyVm string "u64 option"
  | DisconnectNetwork pod_sandbox
  | CleanupContainerRootfs string
  | CleanupSandboxRootfs string
  | ReapOrphanedBox string
  | SendStop string
  | SpawnWorkload nat string
  | OpenLog string
  | SpawnSupervisor string

datatype container_event_type = ContainerCreatedEvent | ContainerStartedEvent | ContainerStoppedEvent | ContainerDeletedEvent

record container_event =
  cev_container_id :: string
  cev_pod_sandbox_id :: string
  cev_type :: container_event_type
  cev_created_at :: i64
  cev_reason :: string
  cev_message :: string

record cri =
  cs_sandboxes :: sandbox_store
  cs_containers :: container_store
  cs_persist_lock :: "nat option"
  cs_disk :: cri_disk
  cs_vm_managers :: "string set"
  cs_attach_streams :: "string set"
  cs_workload_stdins :: "string set"
  cs_workload_stops :: "string set"
  cs_log_reopens :: "string set"
  cs_events :: "container_event list"
  cs_host :: "host_call list"
  cs_pending :: "nat set"
  cs_saved :: bool
  cs_starts :: "(nat \<times> string) list"
  cs_used_ids :: "string set"

record network_allocation =
  na_network_name :: string
  na_ip :: string

record call_env =
  ce_now :: "nat \<Rightarrow> i64"
  ce_save :: "nat \<Rightarrow> save_faults"
  ce_destroy :: "status + unit"
  ce_polls :: nat
  ce_schedule :: "nat list"
  ce_image :: "status + unit"
  ce_vm_ready :: "status + unit"
  ce_exec_socket :: "string option"
  ce_pty_socket :: "string option"
  ce_spawn :: "status + unit"
  ce_prepare :: "status + unit"
  ce_network :: "status + network_allocation option"
  ce_boot :: "status + unit"

section \<open>The persistent store\<close>

definition snapshot :: "cri \<Rightarrow> persisted_state" where
  "snapshot s =
     \<lparr>pst_sandboxes = sb_list None (cs_sandboxes s), pst_containers = ct_list None None (cs_containers s)\<rparr>"

definition persist_write :: "nat \<Rightarrow> save_faults \<Rightarrow> persisted_state \<Rightarrow> cri \<Rightarrow> cri" where
  "persist_write k flt st s =
     (case json_save flt st (cs_disk s) of
        (r, d) \<Rightarrow> s\<lparr>cs_disk := d, cs_persist_lock := None, cs_pending := cs_pending s - {k},
                     cs_saved := (r = Inr ())\<rparr>)"

definition persist :: "nat \<Rightarrow> save_faults \<Rightarrow> (cri, unit) task" where
  "persist k flt =
     task_bind (task_guarded (\<lambda>s. cs_persist_lock s = None) (\<lambda>s. s\<lparr>cs_persist_lock := Some k\<rparr>)) (\<lambda>_.
     task_bind (task_read (\<lambda>s. sb_list None (cs_sandboxes s))) (\<lambda>sandboxes.
     task_bind (task_read (\<lambda>s. ct_list None None (cs_containers s))) (\<lambda>containers.
       task_write (persist_write k flt \<lparr>pst_sandboxes = sandboxes, pst_containers = containers\<rparr>))))"

text \<open>A mutation that persists when it changed something.\<close>

definition store_op ::
    "nat \<Rightarrow> save_faults \<Rightarrow> (cri \<Rightarrow> 'a \<times> cri) \<Rightarrow> ('a \<Rightarrow> bool) \<Rightarrow> (cri, 'a) task" where
  "store_op k flt f changed =
     task_bind (task_act (\<lambda>s. case f s of
        (x, s') \<Rightarrow> (x, if changed x then s'\<lparr>cs_pending := insert k (cs_pending s')\<rparr> else s')))
     (\<lambda>x. if changed x then task_bind (persist k flt) (\<lambda>_. Done x) else Done x)"

definition on_containers ::
    "(container_store \<Rightarrow> 'a \<times> container_store) \<Rightarrow> cri \<Rightarrow> 'a \<times> cri" where
  "on_containers f s = (case f (cs_containers s) of (x, cs) \<Rightarrow> (x, s\<lparr>cs_containers := cs\<rparr>))"

definition on_sandboxes ::
    "(sandbox_store \<Rightarrow> 'a \<times> sandbox_store) \<Rightarrow> cri \<Rightarrow> 'a \<times> cri" where
  "on_sandboxes f s = (case f (cs_sandboxes s) of (x, sbs) \<Rightarrow> (x, s\<lparr>cs_sandboxes := sbs\<rparr>))"

definition add_sandbox :: "nat \<Rightarrow> save_faults \<Rightarrow> pod_sandbox \<Rightarrow> (cri, unit) task" where
  "add_sandbox k flt sb = store_op k flt (on_sandboxes (\<lambda>store. ((), sb_add sb store))) (\<lambda>_. True)"

definition update_sandbox_state :: "nat \<Rightarrow> save_faults \<Rightarrow> string \<Rightarrow> sandbox_state \<Rightarrow> (cri, bool) task" where
  "update_sandbox_state k flt i st = store_op k flt (on_sandboxes (sb_update_state i st)) (\<lambda>updated. updated)"

definition remove_sandbox :: "nat \<Rightarrow> save_faults \<Rightarrow> string \<Rightarrow> (cri, pod_sandbox option) task" where
  "remove_sandbox k flt i = store_op k flt (on_sandboxes (sb_remove i)) (\<lambda>removed. removed \<noteq> None)"

text \<open>A new container has an identifier that was not handed out before.\<close>

definition add_container :: "nat \<Rightarrow> save_faults \<Rightarrow> container \<Rightarrow> (cri, unit) task" where
  "add_container k flt c =
     task_bind (task_guarded (\<lambda>s. ct_id c \<notin> cs_used_ids s)
       (\<lambda>s. s\<lparr>cs_containers := ct_add c (cs_containers s), cs_used_ids := insert (ct_id c) (cs_used_ids s),
              cs_pending := insert k (cs_pending s)\<rparr>)) (\<lambda>_. persist k flt)"

definition mark_container_started :: "nat \<Rightarrow> save_faults \<Rightarrow> string \<Rightarrow> i64 \<Rightarrow> (cri, bool) task" where
  "mark_container_started k flt i started_at =
     store_op k flt (on_containers (mark_started i started_at)) (\<lambda>updated. updated)"

text \<open>The won transition is recorded together with the change.\<close>

definition mark_container_started_if_created ::
    "nat \<Rightarrow> save_faults \<Rightarrow> string \<Rightarrow> i64 \<Rightarrow> (cri, bool) task" where
  "mark_container_started_if_created k flt i started_at =
     store_op k flt (\<lambda>s. case on_containers (mark_started_if_created i started_at) s of
         (updated, s') \<Rightarrow> (updated, if updated then s'\<lparr>cs_starts := (k, i) # cs_starts s'\<rparr> else s'))
       (\<lambda>updated. updated)"

definition mark_container_exited :: "nat \<Rightarrow> save_faults \<Rightarrow> string \<Rightarrow> i64 \<Rightarrow> i32 \<Rightarrow> (cri, bool) task" where
  "mark_container_exited k flt i finished_at exit_code =
     store_op k flt (on_containers (mark_exited i finished_at exit_code)) (\<lambda>updated. updated)"

definition mark_container_exited_if_running ::
    "nat \<Rightarrow> save_faults \<Rightarrow> string \<Rightarrow> i64 \<Rightarrow> i32 \<Rightarrow> bool \<Rightarrow> (cri, bool) task" where
  "mark_container_exited_if_running k flt i finished_at exit_code oom_killed =
     store_op k flt (on_containers (mark_exited_if_running i finished_at exit_code oom_killed))
       (\<lambda>updated. updated)"

definition remove_container_record :: "nat \<Rightarrow> save_faults \<Rightarrow> string \<Rightarrow> (cri, container option) task" where
  "remove_container_record k flt i = store_op k flt (on_containers (ct_remove i)) (\<lambda>removed. removed \<noteq> None)"

definition remove_containers_by_sandbox :: "nat \<Rightarrow> save_faults \<Rightarrow> string \<Rightarrow> (cri, container list) task" where
  "remove_containers_by_sandbox k flt sandbox_id =
     store_op k flt (on_containers (remove_by_sandbox sandbox_id)) (\<lambda>removed. removed \<noteq> [])"

section \<open>Helpers of the service\<close>

definition get_sandbox :: "string \<Rightarrow> (cri, pod_sandbox option) task" where
  "get_sandbox i = task_read (\<lambda>s. sb_get i (cs_sandboxes s))"

definition get_container :: "string \<Rightarrow> (cri, container option) task" where
  "get_container i = task_read (\<lambda>s. ct_get i (cs_containers s))"

definition list_containers :: "string option \<Rightarrow> (cri, container list) task" where
  "list_containers sandbox_id = task_read (\<lambda>s. ct_list sandbox_id None (cs_containers s))"

definition host_call :: "host_call \<Rightarrow> (cri, unit) task" where
  "host_call h = task_write (\<lambda>s. s\<lparr>cs_host := cs_host s @ [h]\<rparr>)"

definition emit_container_event ::
    "string \<Rightarrow> string \<Rightarrow> container_event_type \<Rightarrow> i64 \<Rightarrow> string \<Rightarrow> string \<Rightarrow> (cri, unit) task" where
  "emit_container_event i sandbox_id typ created_at reason message =
     task_write (\<lambda>s. s\<lparr>cs_events := cs_events s @
       [\<lparr>cev_container_id = i, cev_pod_sandbox_id = sandbox_id, cev_type = typ,
         cev_created_at = created_at, cev_reason = reason, cev_message = message\<rparr>]\<rparr>)"

definition stop_container_timeout_ms :: "i64 \<Rightarrow> u64 option" where
  "stop_container_timeout_ms timeout_seconds =
     (if sint timeout_seconds \<le> 0 then None
      else Some (word_of_nat (min (unat timeout_seconds * 1000) (2 ^ 64 - 1))))"

text \<open>\<open>vm_managers.remove\<close>, then the destruction of the machine that was there.\<close>

definition destroy_sandbox_vm :: "call_env \<Rightarrow> string \<Rightarrow> u64 option \<Rightarrow> (cri, status + bool) task" where
  "destroy_sandbox_vm env sandbox_id timeout_ms =
     task_bind (task_act (\<lambda>s.
       if sandbox_id \<in> cs_vm_managers s then
         (True, s\<lparr>cs_vm_managers := cs_vm_managers s - {sandbox_id},
                  cs_host := cs_host s @ [DestroyVm sandbox_id timeout_ms]\<rparr>)
       else (False, s))) (\<lambda>present.
       if \<not> present then Done (Inr False)
       else case ce_destroy env of Inl e \<Rightarrow> Done (Inl e) | Inr _ \<Rightarrow> Done (Inr True))"

definition disconnect_sandbox_network :: "pod_sandbox \<Rightarrow> (cri, unit) task" where
  "disconnect_sandbox_network sandbox = host_call (DisconnectNetwork sandbox)"

text \<open>
  \<open>stop_container_workload\<close> takes the stop handle of the container, sends the stop and polls the
  container until it has exited, is gone, or the deadline has passed; \<open>polls\<close> is the number of polls
  the deadline leaves room for.
\<close>

primrec await_exit :: "nat \<Rightarrow> string \<Rightarrow> (cri, status + bool) task" where
  "await_exit 0 i =
     task_bind (get_container i) (\<lambda>current.
       Done (Inr (case current of None \<Rightarrow> True | Some c \<Rightarrow> ct_state c = CtExited)))"
| "await_exit (Suc n) i =
     task_bind (get_container i) (\<lambda>current.
       case current of
         None \<Rightarrow> Done (Inr True)
       | Some c \<Rightarrow> if ct_state c = CtExited then Done (Inr True) else await_exit n i)"

definition stop_container_workload :: "call_env \<Rightarrow> container \<Rightarrow> (cri, status + bool) task" where
  "stop_container_workload env c =
     task_bind (task_act (\<lambda>s.
       if ct_id c \<in> cs_workload_stops s then
         (True, s\<lparr>cs_workload_stops := cs_workload_stops s - {ct_id c},
                  cs_host := cs_host s @ [SendStop (ct_id c)]\<rparr>)
       else (False, s))) (\<lambda>present.
       if \<not> present then Done (Inr False) else await_exit (ce_polls env) (ct_id c))"

definition has_other_running_containers :: "container \<Rightarrow> (cri, bool) task" where
  "has_other_running_containers c =
     task_bind (list_containers (Some (ct_sandbox_id c))) (\<lambda>others.
       Done (list_ex (\<lambda>other. ct_id other \<noteq> ct_id c \<and> ct_state other = CtRunning) others))"

definition stop_container_vm :: "nat \<Rightarrow> call_env \<Rightarrow> container \<Rightarrow> i64 \<Rightarrow> (cri, status + unit) task" where
  "stop_container_vm k env c timeout =
     task_try (destroy_sandbox_vm env (ct_sandbox_id c) (stop_container_timeout_ms timeout)) (\<lambda>_.
     task_bind (update_sandbox_state k (ce_save env 0) (ct_sandbox_id c) SbNotReady) (\<lambda>_.
     task_bind (get_sandbox (ct_sandbox_id c)) (\<lambda>found.
       case found of
         None \<Rightarrow> Done (Inr ())
       | Some sandbox \<Rightarrow> task_bind (disconnect_sandbox_network sandbox) (\<lambda>_. Done (Inr ())))))"

text \<open>The control handles of containers, dropped map by map, or under all four locks at once.\<close>

definition drop_handles :: "string \<Rightarrow> (cri, unit) task" where
  "drop_handles i =
     task_bind (task_write (\<lambda>s. s\<lparr>cs_attach_streams := cs_attach_streams s - {i}\<rparr>)) (\<lambda>_.
     task_bind (task_write (\<lambda>s. s\<lparr>cs_workload_stdins := cs_workload_stdins s - {i}\<rparr>)) (\<lambda>_.
     task_bind (task_write (\<lambda>s. s\<lparr>cs_workload_stops := cs_workload_stops s - {i}\<rparr>)) (\<lambda>_.
       task_write (\<lambda>s. s\<lparr>cs_log_reopens := cs_log_reopens s - {i}\<rparr>))))"

definition drop_handles_together :: "string list \<Rightarrow> (cri, unit) task" where
  "drop_handles_together is =
     task_write (\<lambda>s. s\<lparr>cs_attach_streams := cs_attach_streams s - set is,
       cs_workload_stdins := cs_workload_stdins s - set is,
       cs_workload_stops := cs_workload_stops s - set is,
       cs_log_reopens := cs_log_reopens s - set is\<rparr>)"

definition cleanup_container_rootfs_path :: "string \<Rightarrow> (cri, unit) task" where
  "cleanup_container_rootfs_path path =
     (if trim path = [] then Done () else host_call (CleanupContainerRootfs path))"

definition cleanup_sandbox_rootfs :: "string \<Rightarrow> (cri, unit) task" where
  "cleanup_sandbox_rootfs sandbox_id = host_call (CleanupSandboxRootfs sandbox_id)"

definition ensure_container_image_available :: "call_env \<Rightarrow> container \<Rightarrow> status + unit" where
  "ensure_container_image_available env c =
     (if trim (ct_image_ref c) = [] then Inr ()
      else if trim (ct_resolved_image_digest c) = [] \<or> trim (ct_resolved_image_path c) = [] then
        Inl (Status FailedPrecondition (''Container '' @ ct_id c @
          '' was created without resolved image metadata for '' @ ct_image_ref c @
          ''; recreate it after PullImage''))
      else ce_image env)"

section \<open>Creating a pod and a container\<close>

text \<open>
  What \<open>run_pod_sandbox\<close> takes from the request: the metadata and configuration, the address that the
  annotations give, and the random identifier. The checks and conversions before the network is
  connected answer \<open>ce_prepare\<close>.
\<close>

record pod_request =
  pr_id :: string
  pr_name :: string
  pr_namespace :: string
  pr_uid :: string
  pr_attempt :: u32
  pr_labels :: "string \<rightharpoonup> string"
  pr_annotations :: "string \<rightharpoonup> string"
  pr_log_directory :: string
  pr_runtime_handler :: string
  pr_network_ip :: string
  pr_additional_ips :: "string list"
  pr_dns :: "sandbox_dns option"
  pr_container_ports :: "i32 list"

definition sandbox_of_request :: "i64 \<Rightarrow> string \<Rightarrow> pod_request \<Rightarrow> pod_sandbox" where
  "sandbox_of_request now network_ip req =
     \<lparr>ps_id = pr_id req, ps_name = pr_name req, ps_namespace = pr_namespace req, ps_uid = pr_uid req,
      ps_attempt = pr_attempt req, ps_state = SbReady, ps_created_at = now, ps_labels = pr_labels req,
      ps_annotations = pr_annotations req, ps_log_directory = pr_log_directory req,
      ps_runtime_handler = pr_runtime_handler req,
      ps_network_ip =
        (if network_ip = [] \<and> pr_container_ports req \<noteq> [] then ''127.0.0.1'' else network_ip),
      ps_additional_ips = pr_additional_ips req,
      ps_dns = (case pr_dns req of None \<Rightarrow> \<lparr>sd_servers = [], sd_searches = [], sd_options = []\<rparr> | Some dns \<Rightarrow> dns),
      ps_container_ports = filter (\<lambda>port. 0 < sint port) (pr_container_ports req)\<rparr>"

text \<open>
  The end of \<open>run_pod_sandbox\<close>: the booted machine is tracked, then the sandbox is stored. While it
  waits in \<open>add_sandbox\<close> the guard against a cancelled request is armed; \<open>cancel_run_pod_sandbox\<close> is
  what dropping the guard does.
\<close>

definition register_sandbox :: "nat \<Rightarrow> call_env \<Rightarrow> pod_sandbox \<Rightarrow> (cri, status + unit) task" where
  "register_sandbox k env sb =
     task_bind (task_write (\<lambda>s. s\<lparr>cs_vm_managers := insert (ps_id sb) (cs_vm_managers s)\<rparr>)) (\<lambda>_.
     task_bind (add_sandbox k (ce_save env 0) sb) (\<lambda>_. Done (Inr ())))"

definition cancel_run_pod_sandbox :: "string option \<Rightarrow> string \<Rightarrow> cri \<Rightarrow> cri" where
  "cancel_run_pod_sandbox network_name sandbox_id s =
     s\<lparr>cs_vm_managers := cs_vm_managers s - {sandbox_id},
       cs_host := cs_host s @
         (case network_name of None \<Rightarrow> [] | Some name \<Rightarrow> [DisconnectNetworkByName name sandbox_id]) @
         (if sandbox_id \<in> cs_vm_managers s then [DestroyVm sandbox_id None] else [])\<rparr>"

definition run_pod_sandbox :: "nat \<Rightarrow> call_env \<Rightarrow> pod_request \<Rightarrow> (cri, status + unit) task" where
  "run_pod_sandbox k env req =
     task_try (Done (ce_prepare env)) (\<lambda>_.
     task_bind (host_call (ConnectNetwork (pr_id req))) (\<lambda>_.
     task_try (Done (ce_network env)) (\<lambda>allocation.
     let disconnect = (case allocation of
           None \<Rightarrow> Done ()
         | Some a \<Rightarrow> host_call (DisconnectNetworkByName (na_network_name a) (pr_id req)));
         network_ip = (case allocation of
           Some a \<Rightarrow> if pr_network_ip req = [] then na_ip a else pr_network_ip req
         | None \<Rightarrow> pr_network_ip req) in
     if (case allocation of None \<Rightarrow> False | Some a \<Rightarrow> network_ip \<noteq> na_ip a) then
       task_bind disconnect (\<lambda>_. Done (Inl (Status InvalidArgument
         (''Annotation a3s.box/pod-ip value '' @ network_ip @ '' does not match allocated network IP '' @
          (case allocation of None \<Rightarrow> [] | Some a \<Rightarrow> na_ip a)))))
     else
       task_bind (host_call (BootVm (pr_id req))) (\<lambda>_.
         case ce_boot env of
           Inl e \<Rightarrow> task_bind disconnect (\<lambda>_. Done (Inl e))
         | Inr _ \<Rightarrow> register_sandbox k env (sandbox_of_request (ce_now env 0) network_ip req)))))"

text \<open>The end of \<open>create_container\<close>: the sandbox is checked again, then the container is added.\<close>

definition register_container :: "nat \<Rightarrow> call_env \<Rightarrow> container \<Rightarrow> (cri, status + unit) task" where
  "register_container k env c =
     task_bind (get_sandbox (ct_sandbox_id c)) (\<lambda>found.
       if (case found of None \<Rightarrow> False | Some sb \<Rightarrow> ps_state sb = SbReady) then
         task_bind (add_container k (ce_save env 0) c) (\<lambda>_.
         task_bind (emit_container_event (ct_id c) (ct_sandbox_id c) ContainerCreatedEvent (ct_created_at c)
             ''ContainerCreated'' (''Container '' @ ct_name c @ '' created'')) (\<lambda>_.
           Done (Inr ())))
       else
         task_bind (cleanup_container_rootfs_path (ct_rootfs_path c)) (\<lambda>_.
           Done (Inl (Status FailedPrecondition (''Sandbox '' @ ct_sandbox_id c @
             '' is no longer ready; aborting CreateContainer'')))))"

section \<open>Starting a container\<close>

definition start_precondition :: "call_env \<Rightarrow> container \<Rightarrow> status + unit" where
  "start_precondition env c =
     (case ct_state c of
        CtRunning \<Rightarrow> Inl (Status FailedPrecondition (''Container '' @ ct_id c @ '' is already running''))
      | CtExited \<Rightarrow> Inl (Status FailedPrecondition (''Container '' @ ct_id c @
          '' has already exited and cannot be restarted''))
      | CtCreated \<Rightarrow>
          rbind (ensure_container_image_available env c) (\<lambda>_.
          rbind (map_err (\<lambda>e. Status FailedPrecondition (''Invalid container command: '' @ e))
              (to_exec_request c (-1))) (\<lambda>_. Inr ())))"

text \<open>The machine of the sandbox: present, ready, with an exec socket.\<close>

definition start_sockets :: "call_env \<Rightarrow> container \<Rightarrow> bool \<Rightarrow> status + unit" where
  "start_sockets env c present =
     (if \<not> present then Inl (Status FailedPrecondition (''Sandbox '' @ ct_sandbox_id c @
        '' is not running (VM not found)''))
      else rbind (ce_vm_ready env) (\<lambda>_.
        if ce_exec_socket env = None then
          Inl (Status InternalStatus (''Sandbox '' @ ct_sandbox_id c @ '' exec socket is not available''))
        else Inr ()))"

definition spawn_workload :: "nat \<Rightarrow> call_env \<Rightarrow> container \<Rightarrow> (cri, status + unit) task" where
  "spawn_workload k env c =
     (if ct_tty c \<and> ce_pty_socket env = None then
        Done (Inl (Status InternalStatus (''Sandbox '' @ ct_sandbox_id c @ '' PTY socket is not available'')))
      else task_bind (host_call (SpawnWorkload k (ct_id c))) (\<lambda>_. Done (ce_spawn env)))"

definition register_workload :: "call_env \<Rightarrow> container \<Rightarrow> i64 \<Rightarrow> (cri, unit) task" where
  "register_workload env c now =
     task_bind (task_write (\<lambda>s. s\<lparr>cs_attach_streams := insert (ct_id c) (cs_attach_streams s)\<rparr>)) (\<lambda>_.
     task_bind (if ct_stdin c
        then task_write (\<lambda>s. s\<lparr>cs_workload_stdins := insert (ct_id c) (cs_workload_stdins s)\<rparr>)
        else Done ()) (\<lambda>_.
     task_bind (task_write (\<lambda>s. s\<lparr>cs_workload_stops := insert (ct_id c) (cs_workload_stops s)\<rparr>)) (\<lambda>_.
     task_bind (task_write (\<lambda>s. s\<lparr>cs_log_reopens := insert (ct_id c) (cs_log_reopens s)\<rparr>)) (\<lambda>_.
     task_bind (emit_container_event (ct_id c) (ct_sandbox_id c) ContainerStartedEvent now
         ''ContainerStarted'' (''Container '' @ ct_name c @ '' started'')) (\<lambda>_.
     task_bind (host_call (OpenLog (ct_log_path c))) (\<lambda>_.
       host_call (SpawnSupervisor (ct_id c))))))))"

text \<open>After the transition was won: the workload is requested, and a failure is recorded as an exit.\<close>

definition start_claimed :: "nat \<Rightarrow> call_env \<Rightarrow> string \<Rightarrow> container \<Rightarrow> i64 \<Rightarrow> (cri, status + unit) task" where
  "start_claimed k env i c now =
     task_bind (spawn_workload k env c) (\<lambda>spawned.
       case spawned of
         Inl e \<Rightarrow> task_bind (mark_container_exited k (ce_save env 1) i now 255) (\<lambda>_. Done (Inl e))
       | Inr _ \<Rightarrow> task_bind (register_workload env c now) (\<lambda>_. Done (Inr ())))"

definition start_checked :: "nat \<Rightarrow> call_env \<Rightarrow> string \<Rightarrow> container \<Rightarrow> (cri, status + unit) task" where
  "start_checked k env i c =
     task_bind (task_read (\<lambda>s. ct_sandbox_id c \<in> cs_vm_managers s)) (\<lambda>present.
     task_try (Done (start_sockets env c present)) (\<lambda>_.
     task_bind (mark_container_started_if_created k (ce_save env 0) i (ce_now env 0)) (\<lambda>won.
       if won then start_claimed k env i c (ce_now env 0)
       else Done (Inl (Status FailedPrecondition (''Container '' @ i @
         '' is no longer in the Created state''))))))"

definition start_container :: "nat \<Rightarrow> call_env \<Rightarrow> string \<Rightarrow> (cri, status + unit) task" where
  "start_container k env i =
     task_bind (get_container i) (\<lambda>found.
       case found of
         None \<Rightarrow> Done (Inl (Status NotFound (''Container not found: '' @ i)))
       | Some c \<Rightarrow> task_try (Done (start_precondition env c)) (\<lambda>_. start_checked k env i c))"

section \<open>Stopping and removing a container\<close>

definition stop_container :: "nat \<Rightarrow> call_env \<Rightarrow> string \<Rightarrow> i64 \<Rightarrow> (cri, status + unit) task" where
  "stop_container k env i timeout =
     task_bind (get_container i) (\<lambda>found.
       case found of
         None \<Rightarrow> Done (Inl (Status NotFound (''Container not found: '' @ i)))
       | Some c \<Rightarrow>
           let now = ce_now env 0; finish = task_bind (drop_handles i) (\<lambda>_. Done (Inr ())) in
           (case ct_state c of
              CtExited \<Rightarrow> Done (Inr ())
            | CtCreated \<Rightarrow>
                task_bind (mark_container_exited k (ce_save env 0) i now 0) (\<lambda>updated.
                task_bind (if updated
                   then emit_container_event i (ct_sandbox_id c) ContainerStoppedEvent now ''StopContainer''
                     ''Created container stopped before workload start''
                   else Done ()) (\<lambda>_. finish))
            | CtRunning \<Rightarrow>
                task_try (stop_container_workload env c) (\<lambda>stopped.
                  if stopped then finish
                  else task_bind (has_other_running_containers c) (\<lambda>others.
                    if others then
                      Done (Inl (Status FailedPrecondition
                        (''StopContainer cannot fall back to sandbox VM teardown for container '' @ ct_id c @
                         '' while other containers in sandbox '' @ ct_sandbox_id c @ '' are still running'')))
                    else task_try (stop_container_vm k env c timeout) (\<lambda>_.
                      task_bind (mark_container_exited_if_running k (ce_save env 1) i now 137 False) (\<lambda>updated.
                      task_bind (if updated
                         then emit_container_event i (ct_sandbox_id c) ContainerStoppedEvent now
                           ''StopContainer'' ''Container stopped by sandbox VM teardown fallback''
                         else Done ()) (\<lambda>_. finish)))))))"

definition remove_container :: "nat \<Rightarrow> call_env \<Rightarrow> string \<Rightarrow> (cri, status + unit) task" where
  "remove_container k env i =
     task_bind (get_container i) (\<lambda>found.
       case found of
         None \<Rightarrow> Done (Inr ())
       | Some c \<Rightarrow>
           task_try (if ct_state c = CtRunning then stop_container k env i 0 else Done (Inr ())) (\<lambda>_.
           task_bind (remove_container_record k (ce_save env 2) i) (\<lambda>removed.
             case removed of
               None \<Rightarrow> Done (Inr ())
             | Some r \<Rightarrow>
                 task_bind (drop_handles i) (\<lambda>_.
                 task_bind (emit_container_event (ct_id r) (ct_sandbox_id r) ContainerDeletedEvent (ce_now env 1)
                     ''ContainerDeleted'' (''Container '' @ ct_name r @ '' removed'')) (\<lambda>_.
                 task_bind (cleanup_container_rootfs_path (ct_rootfs_path r)) (\<lambda>_. Done (Inr ())))))))"

text \<open>The end of the supervisor: the exit is recorded once, then the handles are dropped.\<close>

definition supervisor_exit ::
    "nat \<Rightarrow> call_env \<Rightarrow> string \<Rightarrow> string \<Rightarrow> i32 \<Rightarrow> bool \<Rightarrow> (cri, status + unit) task" where
  "supervisor_exit k env i sandbox_id exit_code oom_killed =
     (let exit_code = (if sint exit_code < 0 then 255 else exit_code); now = ce_now env 0 in
      task_bind (mark_container_exited_if_running k (ce_save env 0) i now exit_code oom_killed) (\<lambda>updated.
      task_bind (if updated
         then emit_container_event i sandbox_id ContainerStoppedEvent now ''ContainerStopped''
           (''Container workload exited with code '' @ show_i32 exit_code)
         else Done ()) (\<lambda>_.
      task_bind (drop_handles i) (\<lambda>_. Done (Inr ())))))"

section \<open>Stopping and removing a pod\<close>

text \<open>
  \<open>join_all\<close>: the futures advance in the order the executor gives (\<open>ce_schedule\<close>, any finite prefix);
  what is left then runs one after the other.
\<close>

primrec task_seq :: "('s, 'a) task list \<Rightarrow> ('s, 'a list) task" where
  "task_seq [] = Done []"
| "task_seq (t # ts) = task_bind t (\<lambda>x. task_bind (task_seq ts) (\<lambda>xs. Done (x # xs)))"

primrec join_all :: "nat list \<Rightarrow> ('s, 'a) task list \<Rightarrow> ('s, 'a list) task" where
  "join_all [] ts = task_seq ts"
| "join_all (i # is) ts =
     (if i < length ts then
        (case ts ! i of
           Done _ \<Rightarrow> join_all is ts
         | Await f \<Rightarrow> Await (\<lambda>s. case f s of
             None \<Rightarrow> None | Some (s', t) \<Rightarrow> Some (s', join_all is (ts[i := t]))))
      else join_all is ts)"

fun first_error :: "('e + 'a) list \<Rightarrow> 'e + unit" where
  "first_error [] = Inr ()"
| "first_error (Inl e # rs) = Inl e"
| "first_error (Inr _ # rs) = first_error rs"

text \<open>The containers of the pod that have not exited are marked, one after the other.\<close>

fun exit_containers :: "nat \<Rightarrow> call_env \<Rightarrow> nat \<Rightarrow> i64 \<Rightarrow> container list \<Rightarrow> (cri, unit) task" where
  "exit_containers k env n now [] = Done ()"
| "exit_containers k env n now (c # cs) =
     (if ct_state c \<noteq> CtExited then
        task_bind (mark_container_exited k (ce_save env n) (ct_id c) now 137) (\<lambda>updated.
        task_bind (if updated
           then emit_container_event (ct_id c) (ct_sandbox_id c) ContainerStoppedEvent now
             ''StopPodSandbox'' ''Container stopped by pod sandbox shutdown''
           else Done ()) (\<lambda>_. exit_containers k env (Suc n) now cs))
      else exit_containers k env n now cs)"

text \<open>The second half of \<open>stop_pod_sandbox\<close>, with the containers listed after the workloads were stopped.\<close>

definition finish_stop_pod :: "nat \<Rightarrow> call_env \<Rightarrow> pod_sandbox \<Rightarrow> string \<Rightarrow> container list \<Rightarrow> (cri, status + unit) task" where
  "finish_stop_pod k env sandbox sandbox_id cs =
     task_bind (exit_containers k env 1 (ce_now env 0) cs) (\<lambda>_.
     task_bind (drop_handles_together (map ct_id cs)) (\<lambda>_.
     task_bind (destroy_sandbox_vm env sandbox_id None) (\<lambda>destroyed.
     task_bind (disconnect_sandbox_network sandbox) (\<lambda>_.
     task_bind (update_sandbox_state k (ce_save env 0) sandbox_id SbNotReady) (\<lambda>_.
       Done (rbind destroyed (\<lambda>_. Inr ())))))))"

definition stop_pod_sandbox :: "nat \<Rightarrow> call_env \<Rightarrow> string \<Rightarrow> (cri, status + unit) task" where
  "stop_pod_sandbox k env sandbox_id =
     task_bind (get_sandbox sandbox_id) (\<lambda>found.
       case found of
         None \<Rightarrow> Done (Inl (Status NotFound (''Sandbox not found: '' @ sandbox_id)))
       | Some sandbox \<Rightarrow>
           if ps_state sandbox \<noteq> SbReady then Done (Inr ())
           else
             task_bind (list_containers (Some sandbox_id)) (\<lambda>cs.
             task_bind (join_all (ce_schedule env)
                 (map (stop_container_workload env) (filter (\<lambda>c. ct_state c = CtRunning) cs))) (\<lambda>results.
             task_try (Done (first_error results)) (\<lambda>_.
             task_bind (list_containers (Some sandbox_id)) (finish_stop_pod k env sandbox sandbox_id)))))"

definition remove_pod_sandbox :: "nat \<Rightarrow> call_env \<Rightarrow> string \<Rightarrow> (cri, status + unit) task" where
  "remove_pod_sandbox k env sandbox_id =
     task_bind (get_sandbox sandbox_id) (\<lambda>found.
       case found of
         None \<Rightarrow> Done (Inr ())
       | Some sandbox \<Rightarrow>
           if ps_state sandbox = SbReady then
             Done (Inl (Status FailedPrecondition
               (''RemovePodSandbox requires a stopped sandbox; sandbox '' @ sandbox_id @ '' is Ready'')))
           else
             task_try (destroy_sandbox_vm env sandbox_id None) (\<lambda>_.
             task_bind (disconnect_sandbox_network sandbox) (\<lambda>_.
             task_bind (remove_containers_by_sandbox k (ce_save env 0) sandbox_id) (\<lambda>removed.
             task_bind (drop_handles_together (map ct_id removed)) (\<lambda>_.
             task_bind (task_each (\<lambda>c.
                 task_bind (emit_container_event (ct_id c) (ct_sandbox_id c) ContainerDeletedEvent (ce_now env 0)
                   ''ContainerDeleted'' (''Container '' @ ct_name c @ '' removed with pod sandbox'')) (\<lambda>_.
                   cleanup_container_rootfs_path (ct_rootfs_path c))) removed) (\<lambda>_.
             task_bind (cleanup_sandbox_rootfs sandbox_id) (\<lambda>_.
             task_bind (remove_sandbox k (ce_save env 1) sandbox_id) (\<lambda>_. Done (Inr ())))))))))"

section \<open>Restart of the server\<close>

text \<open>
  \<open>load_state\<close>: the stores are filled from the file, then every sandbox without a machine is marked
  and its leftovers are reaped, and its containers are marked as exited. A file that cannot be read
  leaves the server with empty stores.
\<close>

fun orphan_sandboxes :: "nat \<Rightarrow> call_env \<Rightarrow> nat \<Rightarrow> string set \<Rightarrow> pod_sandbox list \<Rightarrow> (cri, unit) task" where
  "orphan_sandboxes k env n live [] = Done ()"
| "orphan_sandboxes k env n live (sb # sbs) =
     (if ps_id sb \<notin> live then
        task_bind (update_sandbox_state k (ce_save env n) (ps_id sb) SbNotReady) (\<lambda>_.
        task_bind (host_call (ReapOrphanedBox (ps_id sb))) (\<lambda>_.
        task_bind (cleanup_sandbox_rootfs (ps_id sb)) (\<lambda>_. orphan_sandboxes k env (Suc n) live sbs)))
      else orphan_sandboxes k env n live sbs)"

fun orphan_containers :: "nat \<Rightarrow> call_env \<Rightarrow> nat \<Rightarrow> string set \<Rightarrow> container list \<Rightarrow> (cri, unit) task" where
  "orphan_containers k env n live [] = Done ()"
| "orphan_containers k env n live (c # cs) =
     (if ct_sandbox_id c \<notin> live \<and> ct_state c \<noteq> CtExited then
        task_bind (mark_container_exited k (ce_save env n) (ct_id c) (ce_now env 0) 255) (\<lambda>_.
          orphan_containers k env (Suc n) live cs)
      else orphan_containers k env n live cs)"

definition reconcile_loaded :: "nat \<Rightarrow> call_env \<Rightarrow> (cri, status + unit) task" where
  "reconcile_loaded k env =
     task_bind (task_read cs_vm_managers) (\<lambda>live.
     task_bind (task_read (\<lambda>s. sb_list None (cs_sandboxes s))) (\<lambda>sbs.
     task_bind (orphan_sandboxes k env 0 live sbs) (\<lambda>_.
     task_bind (task_read (\<lambda>s. ct_list None None (cs_containers s))) (\<lambda>cs.
     task_bind (orphan_containers k env (length sbs) live cs) (\<lambda>_. Done (Inr ()))))))"

text \<open>The server after \<open>PersistentCriStore::load\<close> answered \<open>st\<close>, before it serves requests.\<close>

definition booted :: "persisted_state \<Rightarrow> cri_disk \<Rightarrow> cri" where
  "booted st d =
     (case populate st ([], []) of
        (sbs, cts) \<Rightarrow>
          \<lparr>cs_sandboxes = sbs, cs_containers = cts, cs_persist_lock = None, cs_disk = d,
           cs_vm_managers = {}, cs_attach_streams = {}, cs_workload_stdins = {}, cs_workload_stops = {},
           cs_log_reopens = {}, cs_events = [], cs_host = [], cs_pending = {}, cs_saved = True,
           cs_starts = [], cs_used_ids = ct_id ` set (pst_containers st)\<rparr>)"

definition load_state :: "io_error option \<Rightarrow> quarantine_faults \<Rightarrow> cri_disk \<Rightarrow> bool \<times> cri" where
  "load_state read_fault qf d =
     (case json_load read_fault qf d of
        (Inl _, d') \<Rightarrow> (False, booted empty_state d')
      | (Inr st, d') \<Rightarrow> (True, booted st d'))"

text \<open>What the server accepts as its call number \<open>k\<close>.\<close>

inductive_set cri_calls :: "nat \<Rightarrow> (cri, status + unit) task set" for k :: nat where
  call_reconcile: "reconcile_loaded k env \<in> cri_calls k"
| call_run_pod: "run_pod_sandbox k env req \<in> cri_calls k"
| call_create: "register_container k env c \<in> cri_calls k"
| call_start: "start_container k env i \<in> cri_calls k"
| call_stop: "stop_container k env i timeout \<in> cri_calls k"
| call_remove: "remove_container k env i \<in> cri_calls k"
| call_stop_pod: "stop_pod_sandbox k env sandbox_id \<in> cri_calls k"
| call_remove_pod: "remove_pod_sandbox k env sandbox_id \<in> cri_calls k"
| call_exit: "supervisor_exit k env i sandbox_id exit_code oom_killed \<in> cri_calls k"

end
