(* ===== verification/Cri_Safety.thy ===== *)
theory Cri_Safety
  imports Cri_Service
begin

text \<open>
  The invariant of the CRI server under any interleaving of its handlers, by rely and guarantee.
  The invariant has three parts: the tables are keyed by the identifiers of their entries, a
  container that was started once is never \<open>Created\<close> again and its workload is requested by the
  call that won the transition only, and the state file holds the memory whenever no write is due.
  A call may assume that the others neither take its lock nor write for it, and that a change of
  the tables by another call leaves a write of that call due.
\<close>

section \<open>The invariant\<close>

definition keyed :: "('v \<Rightarrow> string) \<Rightarrow> (string \<times> 'v) list \<Rightarrow> bool" where
  "keyed key xs \<longleftrightarrow> distinct (map fst xs) \<and> (\<forall>(i, v) \<in> set xs. key v = i)"

definition disk_snapshot :: "cri_disk \<Rightarrow> persisted_state option" where
  "disk_snapshot d =
     (case disk_file d of
        None \<Rightarrow> Some empty_state
      | Some node \<Rightarrow>
          (case node_content node of
             Holds st \<Rightarrow> if node_synced node then Some st else None
           | Unparsable _ \<Rightarrow> None))"

definition state_keyed :: "persisted_state \<Rightarrow> bool" where
  "state_keyed st \<longleftrightarrow> distinct (map ps_id (pst_sandboxes st)) \<and> distinct (map ct_id (pst_containers st))"

definition tables_ok :: "cri \<Rightarrow> bool" where
  "tables_ok s \<longleftrightarrow> keyed ps_id (cs_sandboxes s) \<and> keyed ct_id (cs_containers s) \<and>
     fst ` set (cs_containers s) \<subseteq> cs_used_ids s"

definition is_spawn :: "host_call \<Rightarrow> bool" where
  "is_spawn h \<longleftrightarrow> (\<exists>k i. h = SpawnWorkload k i)"

definition starts_ok :: "cri \<Rightarrow> bool" where
  "starts_ok s \<longleftrightarrow> distinct (map snd (cs_starts s)) \<and>
     (\<forall>i \<in> snd ` set (cs_starts s). i \<in> cs_used_ids s \<and>
        (\<forall>c. map_of (cs_containers s) i = Some c \<longrightarrow> ct_state c \<noteq> CtCreated)) \<and>
     (\<forall>k i. SpawnWorkload k i \<in> set (cs_host s) \<longrightarrow> (k, i) \<in> set (cs_starts s)) \<and>
     distinct (filter is_spawn (cs_host s))"

definition persist_ok :: "cri \<Rightarrow> bool" where
  "persist_ok s \<longleftrightarrow> (\<forall>k. cs_persist_lock s = Some k \<longrightarrow> k \<in> cs_pending s) \<and>
     (\<exists>st. disk_snapshot (cs_disk s) = Some st \<and> state_keyed st) \<and>
     (cs_persist_lock s = None \<and> cs_pending s = {} \<and> cs_saved s \<longrightarrow>
        disk_snapshot (cs_disk s) = Some (snapshot s))"

definition cri_good :: "cri \<Rightarrow> bool" where
  "cri_good s \<longleftrightarrow> tables_ok s \<and> starts_ok s \<and> persist_ok s"

definition same_tables :: "cri \<Rightarrow> cri \<Rightarrow> bool" where
  "same_tables s s' \<longleftrightarrow> cs_sandboxes s' = cs_sandboxes s \<and> cs_containers s' = cs_containers s"

definition cri_rely :: "nat \<Rightarrow> cri \<Rightarrow> cri \<Rightarrow> bool" where
  "cri_rely k s s' \<longleftrightarrow>
     (k \<in> cs_pending s' \<longleftrightarrow> k \<in> cs_pending s) \<and>
     (cs_persist_lock s' = Some k \<longleftrightarrow> cs_persist_lock s = Some k) \<and>
     set (cs_starts s) \<subseteq> set (cs_starts s') \<and>
     (\<forall>i. SpawnWorkload k i \<in> set (cs_host s') \<longleftrightarrow> SpawnWorkload k i \<in> set (cs_host s)) \<and>
     (cs_persist_lock s = Some k \<longrightarrow> cs_pending s - {k} \<subseteq> cs_pending s' \<and>
        (same_tables s s' \<or> \<not> cs_pending s' \<subseteq> {k}))"

definition cri_guar :: "nat \<Rightarrow> cri \<Rightarrow> cri \<Rightarrow> bool" where
  "cri_guar i s s' \<longleftrightarrow> (\<forall>k. k \<noteq> i \<longrightarrow> cri_rely k s s')"

lemma cri_rely_refl [simp]: "cri_rely k s s"
  by (simp add: cri_rely_def same_tables_def)

lemma cri_rely_trans: "cri_rely k s s' \<Longrightarrow> cri_rely k s' s'' \<Longrightarrow> cri_rely k s s''"
  unfolding cri_rely_def same_tables_def by auto

interpretation cri_rg: rely_guarantee cri_good cri_rely cri_guar "\<lambda>_ _. True"
  by unfold_locales (auto simp: cri_guar_def intro: cri_rely_trans)

section \<open>What a call knows\<close>

text \<open>
  Between its store operations a call holds no lock and owes no write; it may know that it has not
  requested a workload (\<open>U\<close>) and which transitions were won (\<open>W\<close>).
\<close>

definition knows :: "nat \<Rightarrow> bool \<Rightarrow> (nat \<times> string) set \<Rightarrow> cri \<Rightarrow> bool" where
  "knows k U W s \<longleftrightarrow> W \<subseteq> set (cs_starts s) \<and> (U \<longrightarrow> (\<forall>i. SpawnWorkload k i \<notin> set (cs_host s)))"

definition idle :: "nat \<Rightarrow> cri \<Rightarrow> bool" where
  "idle k s \<longleftrightarrow> k \<notin> cs_pending s \<and> cs_persist_lock s \<noteq> Some k"

lemma stable_knows: "cri_rg.unaffected k (knows k U W)"
  by (auto simp: cri_rg.unaffected_def knows_def cri_rely_def)

lemma stable_idle: "cri_rg.unaffected k (idle k)"
  by (auto simp: cri_rg.unaffected_def idle_def cri_rely_def)

section \<open>Writing the state file\<close>

lemma json_save_Inl:
  assumes "json_save flt st d = (Inl e, d')"
  shows "disk_snapshot d' = disk_snapshot d"
proof -
  have "disk_file d' = disk_file d"
    using assms write_durable_Inl [of "svf_write flt" st d e d'] by (auto simp: json_save_def split: option.splits)
  then show ?thesis by (simp add: disk_snapshot_def)
qed

lemma json_save_Inr:
  assumes "json_save flt st d = (Inr (), d')"
  shows "disk_snapshot d' = Some st"
proof -
  have "write_durable (svf_write flt) st d = (Inr (), d')"
    using assms by (auto simp: json_save_def split: option.splits)
  then show ?thesis by (simp add: disk_snapshot_def write_durable_Inr_iff)
qed

lemma keyed_ids: "keyed key xs \<Longrightarrow> map (key \<circ> snd) xs = map fst xs"
  by (auto simp: keyed_def)

lemma list_all_entries: "sb_list None sbs = map snd sbs" "ct_list None None cts = map snd cts"
  by (simp_all add: sb_list_def ct_list_def labels_match_def)

lemma keyed_snapshot: "tables_ok s \<Longrightarrow> state_keyed (snapshot s)"
  unfolding tables_ok_def state_keyed_def snapshot_def list_all_entries persisted_state.simps list.map_comp
  by (simp add: keyed_ids) (simp add: keyed_def)

lemma snapshot_keys:
  assumes "cri_good s"
  shows "distinct (map ps_id (sb_list None (cs_sandboxes s)))" "distinct (map ct_id (ct_list None None (cs_containers s)))"
  using keyed_snapshot [of s] assms by (simp_all add: cri_good_def state_keyed_def snapshot_def)

lemma knows_persist_write: "knows k U W (persist_write j flt st s) = knows k U W s"
  by (simp add: knows_def persist_write_def split: prod.splits)

definition locked :: "nat \<Rightarrow> cri \<Rightarrow> bool" where
  "locked k s \<longleftrightarrow> k \<in> cs_pending s \<and> cs_persist_lock s = Some k"

definition due :: "nat \<Rightarrow> cri \<Rightarrow> bool" where
  "due k s \<longleftrightarrow> k \<in> cs_pending s \<and> cs_persist_lock s \<noteq> Some k"

text \<open>The lock is held, and a value read under it is current unless another call has a write due.\<close>

definition current :: "nat \<Rightarrow> (cri \<Rightarrow> 'a) \<Rightarrow> 'a \<Rightarrow> cri \<Rightarrow> bool" where
  "current k g x s \<longleftrightarrow> locked k s \<and> (cs_pending s \<subseteq> {k} \<longrightarrow> x = g s)"

lemma stable_due: "cri_rg.unaffected k (due k)"
  by (auto simp: cri_rg.unaffected_def due_def cri_rely_def)

lemma stable_locked: "cri_rg.unaffected k (locked k)"
  by (auto simp: cri_rg.unaffected_def locked_def cri_rely_def)

lemma stable_current:
  assumes "\<And>s s'. same_tables s s' \<Longrightarrow> g s' = g s"
  shows "cri_rg.unaffected k (current k g x)"
  unfolding cri_rg.unaffected_def
proof (intro allI impI)
  fix s s' assume c: "current k g x s" and r: "cri_rely k s s'"
  from c have l: "locked k s" by (simp add: current_def)
  with r have l': "locked k s'" using stable_locked [of k] by (auto simp: cri_rg.unaffected_def)
  have p: "cs_pending s - {k} \<subseteq> cs_pending s'" "same_tables s s' \<or> \<not> cs_pending s' \<subseteq> {k}"
    using l r by (simp_all add: locked_def cri_rely_def)
  have "x = g s'" if "cs_pending s' \<subseteq> {k}"
  proof -
    from that p have "same_tables s s'" "cs_pending s \<subseteq> {k}" by auto
    with c assms [of s s'] show ?thesis by (simp add: current_def)
  qed
  with l' show "current k g x s'" by (simp add: current_def)
qed

lemmas stables = stable_knows stable_idle cri_rg.stable_conj stable_due stable_locked cri_rg.stable_const

lemma good_lock:
  assumes "cri_good s" and "k \<in> cs_pending s" and "cs_persist_lock s = None"
  shows "cri_good (s\<lparr>cs_persist_lock := Some k\<rparr>) \<and> cri_guar k s (s\<lparr>cs_persist_lock := Some k\<rparr>)"
  using assms
  by (auto simp: cri_good_def tables_ok_def starts_ok_def persist_ok_def cri_guar_def cri_rely_def same_tables_def)

lemma good_persist_write:
  assumes "cri_good s" and "current k snapshot st s" and "state_keyed st"
  shows "cri_good (persist_write k flt st s) \<and> cri_guar k s (persist_write k flt st s) \<and> idle k (persist_write k flt st s)"
proof -
  obtain r d where w: "json_save flt st (cs_disk s) = (r, d)" by force
  let ?s' = "s\<lparr>cs_disk := d, cs_persist_lock := None, cs_pending := cs_pending s - {k}, cs_saved := (r = Inr ())\<rparr>"
  have s': "persist_write k flt st s = ?s'" using w by (simp add: persist_write_def)
  have "snapshot ?s' = snapshot s" by (simp add: snapshot_def)
  moreover have "disk_snapshot d = (if r = Inr () then Some st else disk_snapshot (cs_disk s))"
    using w json_save_Inl json_save_Inr by (cases r) auto
  moreover have "cs_pending s - {k} = {} \<longrightarrow> st = snapshot s" using assms(2) by (auto simp: current_def)
  ultimately have "persist_ok ?s'" using assms(1,3) by (auto simp: persist_ok_def cri_good_def)
  then have "cri_good ?s'" using assms(1) by (auto simp: cri_good_def tables_ok_def starts_ok_def)
  moreover have "cri_guar k s ?s'"
    using assms(1,2) by (auto simp: cri_guar_def cri_rely_def same_tables_def current_def locked_def cri_good_def persist_ok_def)
  ultimately show ?thesis unfolding s' by (simp add: idle_def)
qed

lemma triple_persist:
  "cri_rg.triple k (\<lambda>s. due k s \<and> knows k U W s) (persist k flt) (\<lambda>_ s. idle k s \<and> knows k U W s)"
  unfolding persist_def
proof (intro cri_rg.triple_bind)
  let ?sb = "\<lambda>s. sb_list None (cs_sandboxes s)"
  show "cri_rg.triple k (\<lambda>s. due k s \<and> knows k U W s)
      (task_guarded (\<lambda>s. cs_persist_lock s = None) (\<lambda>s. s\<lparr>cs_persist_lock := Some k\<rparr>))
      (\<lambda>_ s. locked k s \<and> knows k U W s)"
  proof (rule cri_rg.triple_guarded)
    fix s assume "cri_good s" "due k s \<and> knows k U W s" "cs_persist_lock s = None"
    then show "cri_good (s\<lparr>cs_persist_lock := Some k\<rparr>) \<and> cri_guar k s (s\<lparr>cs_persist_lock := Some k\<rparr>) \<and>
        locked k (s\<lparr>cs_persist_lock := Some k\<rparr>) \<and> knows k U W (s\<lparr>cs_persist_lock := Some k\<rparr>)"
      using good_lock [of s k] by (simp add: due_def locked_def knows_def)
  qed (intro stables TrueI)+
  show "cri_rg.triple k (\<lambda>s. locked k s \<and> knows k U W s) (task_read ?sb)
      (\<lambda>sbs s. current k ?sb sbs s \<and> distinct (map ps_id sbs) \<and> knows k U W s)"
    unfolding task_read_def
    by (rule cri_rg.triple_act; (intro stables stable_current)?)
      (auto simp: current_def cri_guar_def snapshot_keys same_tables_def)
  fix sbs
  show "cri_rg.triple k (\<lambda>s. current k ?sb sbs s \<and> distinct (map ps_id sbs) \<and> knows k U W s)
      (task_read (\<lambda>s. ct_list None None (cs_containers s)))
      (\<lambda>cts s. current k snapshot \<lparr>pst_sandboxes = sbs, pst_containers = cts\<rparr> s \<and>
         state_keyed \<lparr>pst_sandboxes = sbs, pst_containers = cts\<rparr> \<and> knows k U W s)"
    unfolding task_read_def
    by (rule cri_rg.triple_act; (intro stables stable_current)?)
      (auto simp: current_def snapshot_def cri_guar_def snapshot_keys state_keyed_def same_tables_def)
  fix cts
  let ?st = "\<lparr>pst_sandboxes = sbs, pst_containers = cts\<rparr>"
  show "cri_rg.triple k (\<lambda>s. current k snapshot ?st s \<and> state_keyed ?st \<and> knows k U W s)
      (task_write (persist_write k flt ?st)) (\<lambda>_ s. idle k s \<and> knows k U W s)"
    unfolding task_write_def
    by (rule cri_rg.triple_act; (intro stables stable_current)?)
      (auto simp: good_persist_write knows_persist_write snapshot_def same_tables_def)
qed

section \<open>Steps that leave the stores alone\<close>

definition keeps :: "nat \<Rightarrow> bool \<Rightarrow> (nat \<times> string) set \<Rightarrow> (cri, 'a) task \<Rightarrow> bool" where
  "keeps k U W t \<longleftrightarrow> cri_rg.triple k (\<lambda>s. idle k s \<and> knows k U W s) t (\<lambda>_ s. idle k s \<and> knows k U W s)"

named_theorems keeps_intros \<open>tasks that keep the invariant and what their call knows\<close>

lemma keeps_bind [keeps_intros]:
  "keeps k U W t \<Longrightarrow> (\<And>x. keeps k U W (g x)) \<Longrightarrow> keeps k U W (task_bind t g)"
  unfolding keeps_def by (rule cri_rg.triple_bind)

lemma keeps_Done [keeps_intros]: "keeps k U W (Done x)"
  unfolding keeps_def by (rule cri_rg.triple_Done) (auto intro!: stables)

lemma keeps_try [keeps_intros]:
  "keeps k U W t \<Longrightarrow> (\<And>x. keeps k U W (g x)) \<Longrightarrow> keeps k U W (task_try t g)"
  unfolding task_try_def by (intro keeps_intros) (auto intro: keeps_Done split: sum.split)

lemma keeps_each [keeps_intros]: "(\<And>x. keeps k U W (f x)) \<Longrightarrow> keeps k U W (task_each f xs)"
  by (induction xs) (auto intro: keeps_intros)

definition quiet :: "cri \<Rightarrow> cri \<Rightarrow> bool" where
  "quiet s s' \<longleftrightarrow> same_tables s s' \<and> cs_persist_lock s' = cs_persist_lock s \<and> cs_disk s' = cs_disk s \<and>
     cs_pending s' = cs_pending s \<and> cs_saved s' = cs_saved s \<and> cs_starts s' = cs_starts s \<and>
     cs_used_ids s' = cs_used_ids s \<and> filter is_spawn (cs_host s') = filter is_spawn (cs_host s)"

lemma spawn_in_filter: "SpawnWorkload k i \<in> set hs \<longleftrightarrow> SpawnWorkload k i \<in> set (filter is_spawn hs)"
  by (simp add: is_spawn_def)

lemma quiet_keeps:
  assumes "quiet s s'"
  shows "cri_good s' = cri_good s" "cri_guar k s s'" "idle k s' = idle k s" "knows k U W s' = knows k U W s"
proof -
  have spawns: "SpawnWorkload j i \<in> set (cs_host s') \<longleftrightarrow> SpawnWorkload j i \<in> set (cs_host s)" for j i
    using assms unfolding quiet_def by (metis spawn_in_filter)
  note q = assms [unfolded quiet_def same_tables_def]
  have "snapshot s' = snapshot s" using q by (simp add: snapshot_def)
  then show "cri_good s' = cri_good s"
    using q unfolding cri_good_def tables_ok_def starts_ok_def persist_ok_def spawns by simp
  show "cri_guar k s s'" "idle k s' = idle k s" "knows k U W s' = knows k U W s"
    using q unfolding cri_guar_def cri_rely_def idle_def knows_def spawns same_tables_def by simp_all
qed

lemma keeps_quiet: "(\<And>s. quiet s (snd (f s))) \<Longrightarrow> keeps k U W (task_act f)"
  unfolding keeps_def by (rule cri_rg.triple_act; (intro stables)?) (metis quiet_keeps)

lemma quiet_refl: "quiet s s"
  by (simp add: quiet_def same_tables_def)

lemma keeps_read [keeps_intros]: "keeps k U W (task_read g)"
  unfolding task_read_def by (rule keeps_quiet) (simp add: quiet_refl)

lemma keeps_host [keeps_intros]: "\<not> is_spawn h \<Longrightarrow> keeps k U W (host_call h)"
  unfolding host_call_def task_write_def by (rule keeps_quiet) (simp add: quiet_def same_tables_def)

lemma keeps_event [keeps_intros]: "keeps k U W (emit_container_event i sid typ t r m)"
  unfolding emit_container_event_def task_write_def
  by (rule keeps_quiet) (simp add: quiet_def same_tables_def)

lemma keeps_drop [keeps_intros]: "keeps k U W (drop_handles i)" "keeps k U W (drop_handles_together is)"
  unfolding drop_handles_def drop_handles_together_def task_write_def
  by (intro keeps_intros keeps_quiet; simp add: quiet_def same_tables_def)+

lemma keeps_lookups [keeps_intros]:
  "keeps k U W (get_sandbox i)" "keeps k U W (get_container i)" "keeps k U W (list_containers sid)"
  "keeps k U W (has_other_running_containers c)"
  unfolding get_sandbox_def get_container_def list_containers_def has_other_running_containers_def
  by (intro keeps_intros)+

lemma keeps_destroy [keeps_intros]: "keeps k U W (destroy_sandbox_vm env i t)"
  unfolding destroy_sandbox_vm_def
  by (intro keeps_intros keeps_quiet) (auto simp: quiet_def same_tables_def is_spawn_def intro!: keeps_Done split: sum.split)

lemma keeps_outside [keeps_intros]:
  "keeps k U W (disconnect_sandbox_network sb)" "keeps k U W (cleanup_container_rootfs_path p)"
  "keeps k U W (cleanup_sandbox_rootfs i)"
  unfolding disconnect_sandbox_network_def cleanup_container_rootfs_path_def cleanup_sandbox_rootfs_def
  by (auto intro!: keeps_intros simp: is_spawn_def)

text \<open>A task all of whose steps are quiet can share a call with others.\<close>

inductive quiet_task :: "(cri, 'a) task \<Rightarrow> bool" where
  quiet_done: "quiet_task (Done x)"
| quiet_await: "(\<And>s s' t. f s = Some (s', t) \<Longrightarrow> quiet s s' \<and> quiet_task t) \<Longrightarrow> quiet_task (Await f)"

inductive_cases quiet_task_AwaitE: "quiet_task (Await f)"

lemma quiet_bind: "quiet_task t \<Longrightarrow> (\<And>x. quiet_task (g x)) \<Longrightarrow> quiet_task (task_bind t g)"
  by (induction rule: quiet_task.induct) (auto intro!: quiet_await split: prod.splits)

lemma quiet_act:
  fixes f :: "cri \<Rightarrow> 'a \<times> cri"
  assumes "\<And>s. quiet s (snd (f s))"
  shows "quiet_task (task_act f)"
  unfolding task_act_def
proof (rule quiet_await)
  fix s s' :: cri and t :: "(cri, 'a) task"
  assume "(case f s of (x, s') \<Rightarrow> Some (s', Done x)) = Some (s', t)"
  then show "quiet s s' \<and> quiet_task t" using assms [of s] by (auto intro: quiet_done split: prod.splits)
qed

lemma quiet_get: "quiet_task (get_container i)"
  unfolding get_container_def task_read_def by (rule quiet_act) (simp add: quiet_refl)

lemma quiet_await_exit: "quiet_task (await_exit n i)"
  by (induction n) (auto intro!: quiet_bind quiet_get quiet_done split: option.split)

lemma quiet_stop_workload: "quiet_task (stop_container_workload env c)"
  unfolding stop_container_workload_def
  by (intro quiet_bind quiet_act) (auto simp: quiet_def same_tables_def is_spawn_def intro!: quiet_done quiet_await_exit)

lemma quiet_seq: "(\<And>t. t \<in> set ts \<Longrightarrow> quiet_task t) \<Longrightarrow> quiet_task (task_seq ts)"
  by (induction ts) (auto intro!: quiet_bind quiet_done)

lemma quiet_join_all: "(\<And>t. t \<in> set ts \<Longrightarrow> quiet_task t) \<Longrightarrow> quiet_task (join_all is ts)"
proof (induction "is" arbitrary: ts)
  case Nil
  then show ?case by (simp add: quiet_seq)
next
  case (Cons i "is")
  show ?case
  proof (cases "i < length ts \<and> (\<exists>f. ts ! i = Await f)")
    case False
    then show ?thesis using Cons by (auto split: task.split)
  next
    case True
    then obtain f where f: "i < length ts" "ts ! i = Await f" by blast
    then have "quiet_task (Await f)" using Cons.prems by (metis nth_mem)
    then have step: "quiet s s' \<and> quiet_task t" if "f s = Some (s', t)" for s s' t
      using that by (auto elim: quiet_task_AwaitE)
    have "quiet_task (join_all is (ts[i := t]))" if "quiet_task t" for t
      using that Cons by (auto dest!: subsetD [OF set_update_subset_insert])
    with step show ?thesis using f by (auto intro!: quiet_await split: option.splits)
  qed
qed

lemma keeps_quiet_task: "quiet_task t \<Longrightarrow> keeps k U W t"
  unfolding keeps_def cri_rg.triple_def
proof (intro allI impI)
  fix s assume "quiet_task t" "cri_good s" "idle k s \<and> knows k U W s"
  then show "task_safe cri_good (cri_rely k) (cri_guar k) (\<lambda>_. True) (\<lambda>_ s. idle k s \<and> knows k U W s) t s"
  proof (induction arbitrary: s rule: quiet_task.induct)
    case (quiet_done x)
    then show ?case using stable_idle [of k] stable_knows [of k U W] by (auto simp: cri_rg.unaffected_def intro!: done_safe)
  next
    case (quiet_await f)
    show ?case
    proof (rule await_safe)
      fix s' s'' t assume s': "cri_rely k s s'" "cri_good s'" "f s' = Some (s'', t)"
      then have "idle k s' \<and> knows k U W s'"
        using quiet_await.prems stable_idle [of k] stable_knows [of k U W] by (auto simp: cri_rg.unaffected_def)
      with quiet_await.IH [OF s'(3)] s'(2) quiet_keeps [of s' s'']
      show "cri_good s'' \<and> cri_guar k s' s'' \<and>
          task_safe cri_good (cri_rely k) (cri_guar k) (\<lambda>_. True) (\<lambda>_ s. idle k s \<and> knows k U W s) t s''" by metis
    qed simp
  qed
qed

lemmas keeps_stop_workload [keeps_intros] = keeps_quiet_task [OF quiet_stop_workload]

section \<open>Store operations\<close>

definition table_change :: "cri \<Rightarrow> cri \<Rightarrow> bool" where
  "table_change s s' \<longleftrightarrow> tables_ok s' \<and>
     s' = s\<lparr>cs_sandboxes := cs_sandboxes s', cs_containers := cs_containers s'\<rparr> \<and>
     (\<forall>i c'. map_of (cs_containers s') i = Some c' \<longrightarrow> ct_state c' = CtCreated \<longrightarrow>
        (\<exists>c. map_of (cs_containers s) i = Some c \<and> ct_state c = CtCreated))"

lemma table_change_good:
  assumes "cri_good s" and "idle k s" and "table_change s s'"
  defines "s'' \<equiv> s'\<lparr>cs_pending := insert k (cs_pending s')\<rparr>"
  shows "cri_good s'' \<and> cri_guar k s s'' \<and> due k s'' \<and> (knows k U W s \<longrightarrow> knows k U W s'')"
proof -
  obtain sbs cts where s': "s' = s\<lparr>cs_sandboxes := sbs, cs_containers := cts\<rparr>"
    using assms(3) unfolding table_change_def by blast
  have "starts_ok s''"
    using assms(1,3) unfolding s''_def s' by (fastforce simp: cri_good_def starts_ok_def table_change_def)
  moreover have "tables_ok s''" using assms(3) by (simp add: s''_def s' table_change_def tables_ok_def)
  moreover have "persist_ok s''" using assms(1) by (auto simp: s''_def s' cri_good_def persist_ok_def)
  moreover have "cri_guar k s s''"
    by (auto simp: s''_def s' cri_guar_def cri_rely_def)
  ultimately show ?thesis
    using assms(2) by (simp add: cri_good_def s''_def s' due_def idle_def knows_def)
qed

lemma keeps_store_op:
  assumes "\<And>s. cri_good s \<Longrightarrow> table_change s (snd (f s)) \<and> (\<not> changed (fst (f s)) \<longrightarrow> snd (f s) = s)"
  shows "keeps k U W (store_op k flt f changed)"
proof -
  let ?f = "\<lambda>s. case f s of (x, s') \<Rightarrow> (x, if changed x then s'\<lparr>cs_pending := insert k (cs_pending s')\<rparr> else s')"
  let ?M = "\<lambda>x s. (if changed x then due k s else idle k s) \<and> knows k U W s"
  have "cri_rg.triple k (\<lambda>s. idle k s \<and> knows k U W s) (task_act ?f) ?M"
  proof (rule cri_rg.triple_act)
    fix s assume s: "cri_good s" "idle k s \<and> knows k U W s"
    obtain x s' where f: "f s = (x, s')" by force
    show "cri_good (snd (?f s)) \<and> cri_guar k s (snd (?f s)) \<and> ?M (fst (?f s)) (snd (?f s))"
      using table_change_good [of s k s' U W] assms [OF s(1)] s by (simp add: f cri_guar_def)
  qed (intro stables cri_rg.unaffected_if)+
  moreover have "cri_rg.triple k (?M x) (if changed x then task_bind (persist k flt) (\<lambda>_. Done x) else Done x)
      (\<lambda>_ s. idle k s \<and> knows k U W s)" for x
    by (auto intro!: cri_rg.triple_bind [OF triple_persist] cri_rg.triple_Done stables)
  ultimately show ?thesis unfolding keeps_def store_op_def by (rule cri_rg.triple_bind)
qed

section \<open>The operations on the tables\<close>

lemma keyed_update:
  assumes "keyed key xs" and "key v = i"
  shows "keyed key (AList.update i v xs)"
proof -
  have "(j, w) \<in> set (AList.update i v xs) \<Longrightarrow> (j, w) \<in> set xs \<or> (j, w) = (i, v)" for j w
    by (induction xs) (auto split: if_splits)
  with assms show ?thesis by (fastforce simp: keyed_def distinct_update)
qed

lemma keyed_filter: "keyed key xs \<Longrightarrow> keyed key (filter P xs)"
  by (auto simp: keyed_def intro: distinct_map_filter)

lemma keyed_lookup: "keyed key xs \<Longrightarrow> map_of xs i = Some v \<Longrightarrow> key v = i"
  by (auto simp: keyed_def dest: map_of_SomeD)

lemma keyed_entry:
  assumes "keyed key xs" and "\<And>v. key (f v) = key v"
  shows "keyed key (snd (with_entry i ok f xs))"
  using assms keyed_lookup [OF assms(1)] by (auto simp: with_entry_def intro!: keyed_update split: option.split)

lemma with_entry_unchanged: "\<not> fst (with_entry i ok f xs) \<Longrightarrow> snd (with_entry i ok f xs) = xs"
  by (auto simp: with_entry_def split: option.splits if_splits)

lemma with_entry_keys: "fst ` set (snd (with_entry i ok f xs)) = fst ` set xs"
  by (auto simp: with_entry_def dom_map_of_conv_image_fst [symmetric] update_conv' split: option.splits)

lemma with_entry_lookup:
  "map_of (snd (with_entry i ok f xs)) j = Some v \<Longrightarrow>
     map_of xs j = Some v \<or> (\<exists>w. map_of xs j = Some w \<and> v = f w)"
  by (auto simp: with_entry_def update_conv' split: option.splits if_splits)

lemma filter_lookup: "map_of (filter (\<lambda>(j, _). j \<notin> A) xs) i = (if i \<in> A then None else map_of xs i)"
  by (induction xs) auto

lemma ct_remove_all_store: "snd (ct_remove_all is store) = filter (\<lambda>(j, _). j \<notin> set is) store"
proof (induction "is" arbitrary: store)
  case (Cons j "is")
  have "snd (ct_remove_all (j # is) store) = filter (\<lambda>(i, _). i \<notin> set is) (AList.delete j store)"
    using Cons [of "AList.delete j store"] by (auto simp: ct_remove_def Let_def split: prod.split)
  then show ?case by (auto simp: AList.delete_eq intro!: filter_cong)
qed simp

lemma ct_remove_all_Nil:
  "fst (ct_remove_all is store) = [] \<Longrightarrow> i \<in> set is \<Longrightarrow> map_of store i = None"
proof (induction "is" arbitrary: store)
  case (Cons j "is")
  then have "map_of store j = None" "fst (ct_remove_all is (AList.delete j store)) = []"
    by (auto simp: ct_remove_def Let_def split: prod.splits option.splits)
  moreover from this have "AList.delete j store = store"
    by (simp add: map_of_eq_None_iff)
  ultimately show ?case using Cons by auto
qed simp

lemma change_container:
  assumes "cri_good s" and "\<And>c. ct_id (f c) = ct_id c" and "\<And>c. ct_state (f c) = CtCreated \<Longrightarrow> ct_state c = CtCreated"
  shows "table_change s (snd (on_containers (with_entry i ok f) s)) \<and>
    (\<not> fst (on_containers (with_entry i ok f) s) \<longrightarrow> snd (on_containers (with_entry i ok f) s) = s)"
proof -
  let ?cs = "snd (with_entry i ok f (cs_containers s))"
  have eq: "on_containers (with_entry i ok f) s =
      (fst (with_entry i ok f (cs_containers s)), s\<lparr>cs_containers := ?cs\<rparr>)"
    by (simp add: on_containers_def split: prod.split)
  have "tables_ok (s\<lparr>cs_containers := ?cs\<rparr>)"
    using assms(1,2) by (simp add: cri_good_def tables_ok_def keyed_entry with_entry_keys)
  then show ?thesis
    unfolding eq table_change_def
    using assms(3) with_entry_unchanged [of i ok f "cs_containers s"]
    by (auto dest!: with_entry_lookup)
qed

lemma change_sandbox:
  assumes "cri_good s" and "\<And>sb. ps_id (f sb) = ps_id sb"
  shows "table_change s (snd (on_sandboxes (with_entry i ok f) s)) \<and>
    (\<not> fst (on_sandboxes (with_entry i ok f) s) \<longrightarrow> snd (on_sandboxes (with_entry i ok f) s) = s)"
  using assms keyed_entry [of ps_id "cs_sandboxes s" f i ok] with_entry_unchanged [of i ok f "cs_sandboxes s"]
  by (auto simp: on_sandboxes_def table_change_def cri_good_def tables_ok_def split: prod.split)

lemma filter_containers_change:
  assumes "cri_good s"
  shows "table_change s (s\<lparr>cs_containers := filter (\<lambda>(j, _). j \<notin> A) (cs_containers s)\<rparr>)"
  using assms
  by (auto simp: table_change_def cri_good_def tables_ok_def filter_lookup keyed_filter split: if_splits)

lemma keeps_store_ops [keeps_intros]:
  "keeps k U W (add_sandbox k flt sb)"
  "keeps k U W (update_sandbox_state k flt i st)"
  "keeps k U W (remove_sandbox k flt i)"
  "keeps k U W (mark_container_exited k flt i t code)"
  "keeps k U W (mark_container_exited_if_running k flt i t code oom)"
  "keeps k U W (remove_container_record k flt i)"
  "keeps k U W (remove_containers_by_sandbox k flt sid)"
proof -
  show "keeps k U W (add_sandbox k flt sb)"
    unfolding add_sandbox_def
    by (rule keeps_store_op)
      (auto simp: on_sandboxes_def sb_add_def table_change_def cri_good_def tables_ok_def intro: keyed_update)
  show "keeps k U W (update_sandbox_state k flt i st)"
    unfolding update_sandbox_state_def sb_update_state_def by (rule keeps_store_op) (rule change_sandbox; simp)
  show "keeps k U W (remove_sandbox k flt i)"
    unfolding remove_sandbox_def
    by (rule keeps_store_op)
      (auto simp: on_sandboxes_def sb_remove_def table_change_def cri_good_def tables_ok_def AList.delete_eq
        map_of_eq_None_iff intro!: keyed_filter cri.equality filter_True; force)
  show "keeps k U W (mark_container_exited k flt i t code)"
    unfolding mark_container_exited_def mark_exited_def by (rule keeps_store_op) (rule change_container; simp)
  show "keeps k U W (mark_container_exited_if_running k flt i t code oom)"
    unfolding mark_container_exited_if_running_def mark_exited_if_running_def
    by (rule keeps_store_op) (rule change_container; simp)
  show "keeps k U W (remove_container_record k flt i)"
    unfolding remove_container_record_def
  proof (rule keeps_store_op)
    fix s assume s: "cri_good s"
    have eq: "on_containers (ct_remove i) s =
        (map_of (cs_containers s) i, s\<lparr>cs_containers := filter (\<lambda>(j, _). j \<notin> {i}) (cs_containers s)\<rparr>)"
      by (simp add: on_containers_def ct_remove_def AList.delete_eq eq_commute [of i])
    have "map_of (cs_containers s) i = None \<Longrightarrow> filter (\<lambda>(j, _). j \<notin> {i}) (cs_containers s) = cs_containers s"
      by (force simp: map_of_eq_None_iff intro: filter_True)
    then show "table_change s (snd (on_containers (ct_remove i) s)) \<and>
        (\<not> fst (on_containers (ct_remove i) s) \<noteq> None \<longrightarrow> snd (on_containers (ct_remove i) s) = s)"
      unfolding eq using filter_containers_change [OF s, of "{i}"] by simp
  qed
  show "keeps k U W (remove_containers_by_sandbox k flt sid)"
    unfolding remove_containers_by_sandbox_def
  proof (rule keeps_store_op)
    fix s assume s: "cri_good s"
    let ?is = "map ct_id (filter (\<lambda>c. ct_sandbox_id c = sid) (map snd (cs_containers s)))"
    have eq: "on_containers (remove_by_sandbox sid) s = (fst (ct_remove_all ?is (cs_containers s)),
        s\<lparr>cs_containers := filter (\<lambda>(j, _). j \<notin> set ?is) (cs_containers s)\<rparr>)"
      by (simp only: on_containers_def remove_by_sandbox_def ct_remove_all_store [symmetric] split_beta)
    have "filter (\<lambda>(j, _). j \<notin> set ?is) (cs_containers s) = cs_containers s"
      if "fst (ct_remove_all ?is (cs_containers s)) = []"
      using ct_remove_all_Nil [OF that] by (force simp: map_of_eq_None_iff intro!: filter_True)
    then show "table_change s (snd (on_containers (remove_by_sandbox sid) s)) \<and>
        (\<not> fst (on_containers (remove_by_sandbox sid) s) \<noteq> [] \<longrightarrow> snd (on_containers (remove_by_sandbox sid) s) = s)"
      unfolding eq using filter_containers_change [OF s, of "set ?is"] by simp
  qed
qed

section \<open>Registration and the start transition\<close>

lemma keeps_add_container [keeps_intros]: "keeps k U W (add_container k flt c)"
  unfolding keeps_def add_container_def
proof (rule cri_rg.triple_bind [OF _ triple_persist])
  let ?g = "\<lambda>s. s\<lparr>cs_containers := ct_add c (cs_containers s), cs_used_ids := insert (ct_id c) (cs_used_ids s),
      cs_pending := insert k (cs_pending s)\<rparr>"
  show "cri_rg.triple k (\<lambda>s. idle k s \<and> knows k U W s) (task_guarded (\<lambda>s. ct_id c \<notin> cs_used_ids s) ?g)
      (\<lambda>_ s. due k s \<and> knows k U W s)"
  proof (rule cri_rg.triple_guarded)
    fix s assume s: "cri_good s" "idle k s \<and> knows k U W s" "ct_id c \<notin> cs_used_ids s"
    have "tables_ok (?g s)"
      using s(1) by (auto simp: cri_good_def tables_ok_def ct_add_def dom_map_of_conv_image_fst [symmetric]
          update_conv' intro: keyed_update)
    moreover have "starts_ok (?g s)"
      using s(1,3) by (fastforce simp: cri_good_def starts_ok_def ct_add_def update_conv')
    moreover have "persist_ok (?g s)" using s(1) by (auto simp: cri_good_def persist_ok_def)
    moreover have "cri_guar k s (?g s)" by (auto simp: cri_guar_def cri_rely_def)
    ultimately show "cri_good (?g s) \<and> cri_guar k s (?g s) \<and> due k (?g s) \<and> knows k U W (?g s)"
      using s(2) by (simp add: cri_good_def due_def idle_def knows_def)
  qed (intro stables TrueI)+
qed

lemma triple_start_transition:
  "cri_rg.triple k (\<lambda>s. idle k s \<and> knows k U W s) (mark_container_started_if_created k flt i t)
     (\<lambda>won s. idle k s \<and> knows k U (if won then insert (k, i) W else W) s)"
proof -
  let ?W = "\<lambda>won. if won then insert (k, i) W else W"
  let ?f = "\<lambda>s. case on_containers (mark_started_if_created i t) s of
         (updated, s') \<Rightarrow> (updated, if updated then s'\<lparr>cs_starts := (k, i) # cs_starts s'\<rparr> else s')"
  let ?h = "\<lambda>s. case ?f s of (x, s') \<Rightarrow> (x, if x then s'\<lparr>cs_pending := insert k (cs_pending s')\<rparr> else s')"
  let ?M = "\<lambda>won s. (if won then due k s else idle k s) \<and> knows k U (?W won) s"
  have "cri_rg.triple k (\<lambda>s. idle k s \<and> knows k U W s) (task_act ?h) ?M"
  proof (rule cri_rg.triple_act)
    fix s assume s: "cri_good s" "idle k s \<and> knows k U W s"
    show "cri_good (snd (?h s)) \<and> cri_guar k s (snd (?h s)) \<and> ?M (fst (?h s)) (snd (?h s))"
    proof (cases "\<exists>c. map_of (cs_containers s) i = Some c \<and> ct_state c = CtCreated")
      case False
      then have "?h s = (False, s)"
        by (auto simp: on_containers_def mark_started_if_created_def with_entry_def split: option.splits)
      with s show ?thesis by (simp add: cri_guar_def)
    next
      case True
      then obtain c where c: "map_of (cs_containers s) i = Some c" "ct_state c = CtCreated" by blast
      let ?cs = "AList.update i (c\<lparr>ct_state := CtRunning, ct_started_at := t\<rparr>) (cs_containers s)"
      let ?s1 = "s\<lparr>cs_containers := ?cs\<rparr>"
      have h: "?h s = (True, ?s1\<lparr>cs_starts := (k, i) # cs_starts s, cs_pending := insert k (cs_pending s)\<rparr>)"
        using c by (simp add: on_containers_def mark_started_if_created_def with_entry_def)
      have "i \<in> fst ` set (cs_containers s)" using c(1) by (force dest: map_of_SomeD)
      then have i: "i \<in> cs_used_ids s" using s(1) by (auto simp: cri_good_def tables_ok_def)
      have new: "i \<notin> snd ` set (cs_starts s)" using s(1) c by (force simp: cri_good_def starts_ok_def)
      have "table_change s (snd (on_containers (with_entry i (\<lambda>c. ct_state c = CtCreated)
          (\<lambda>c. c\<lparr>ct_state := CtRunning, ct_started_at := t\<rparr>)) s))"
        using change_container [OF s(1), of "\<lambda>c. c\<lparr>ct_state := CtRunning, ct_started_at := t\<rparr>"] by simp
      then have "table_change s ?s1" using c by (simp add: on_containers_def with_entry_def)
      from table_change_good [OF s(1) _ this, of k U W] s(2)
      have g: "cri_good (?s1\<lparr>cs_pending := insert k (cs_pending s)\<rparr>)"
        "cri_guar k s (?s1\<lparr>cs_pending := insert k (cs_pending s)\<rparr>)" by simp_all
      have "starts_ok (snd (?h s))"
        using g(1) new i unfolding h by (auto simp: cri_good_def starts_ok_def update_conv' split: if_splits)
      then have "cri_good (snd (?h s))"
        using g(1) unfolding h by (auto simp: cri_good_def tables_ok_def persist_ok_def snapshot_def)
      moreover have "cri_guar k s (snd (?h s))"
        using g(2) unfolding h cri_guar_def cri_rely_def same_tables_def by auto
      ultimately show ?thesis using s(2) unfolding h by (auto simp: due_def idle_def knows_def)
    qed
  qed (intro stables cri_rg.unaffected_if)+
  moreover have "cri_rg.triple k (?M won) (if won then task_bind (persist k flt) (\<lambda>_. Done won) else Done won)
      (\<lambda>won s. idle k s \<and> knows k U (?W won) s)" for won
    by (auto intro!: cri_rg.triple_bind [OF triple_persist] cri_rg.triple_Done stables)
  ultimately show ?thesis unfolding mark_container_started_if_created_def store_op_def by (rule cri_rg.triple_bind)
qed

lemma triple_spawn:
  "cri_rg.triple k (\<lambda>s. idle k s \<and> knows k True {(k, ct_id c)} s) (spawn_workload k env c)
     (\<lambda>_ s. idle k s \<and> knows k False {} s)"
proof -
  let ?g = "\<lambda>s. s\<lparr>cs_host := cs_host s @ [SpawnWorkload k (ct_id c)]\<rparr>"
  have "cri_rg.triple k (\<lambda>s. idle k s \<and> knows k True {(k, ct_id c)} s) (host_call (SpawnWorkload k (ct_id c)))
     (\<lambda>_ s. idle k s \<and> knows k False {} s)"
    unfolding host_call_def task_write_def
  proof (rule cri_rg.triple_act)
    fix s assume s: "cri_good s" "idle k s \<and> knows k True {(k, ct_id c)} s"
    then have "SpawnWorkload k (ct_id c) \<notin> set (cs_host s)" "(k, ct_id c) \<in> set (cs_starts s)" by (auto simp: knows_def)
    then have "starts_ok (?g s)" using s(1) by (auto simp: cri_good_def starts_ok_def is_spawn_def)
    then have "cri_good (?g s)" using s(1) by (auto simp: cri_good_def tables_ok_def persist_ok_def snapshot_def)
    moreover have "cri_guar k s (?g s)" by (auto simp: cri_guar_def cri_rely_def same_tables_def)
    ultimately show "cri_good (snd ((), ?g s)) \<and> cri_guar k s (snd ((), ?g s)) \<and>
        idle k (snd ((), ?g s)) \<and> knows k False {} (snd ((), ?g s))"
      using s(2) by (simp add: idle_def knows_def)
  qed (intro stables)+
  then show ?thesis unfolding spawn_workload_def
    by (auto intro!: cri_rg.triple_bind cri_rg.triple_Done stables simp: knows_def intro: cri_rg.triple_Done)
qed

section \<open>The handlers\<close>

lemma keeps_stop_vm [keeps_intros]: "keeps k U W (stop_container_vm k env c t)"
  unfolding stop_container_vm_def by (intro keeps_intros) (auto intro!: keeps_intros split: option.split)

lemma keeps_register_workload [keeps_intros]: "keeps k U W (register_workload env c now)"
  unfolding register_workload_def task_write_def
  by (auto intro!: keeps_intros keeps_quiet simp: quiet_def same_tables_def is_spawn_def)

lemma keeps_register [keeps_intros]:
  "keeps k U W (register_sandbox k env sb)" "keeps k U W (register_container k env c)"
  unfolding register_sandbox_def register_container_def task_write_def
  by (auto intro!: keeps_intros keeps_quiet simp: quiet_def same_tables_def)

lemma keeps_run_pod [keeps_intros]: "keeps k U W (run_pod_sandbox k env req)"
  unfolding run_pod_sandbox_def Let_def
  by (auto intro!: keeps_intros simp: is_spawn_def split: option.split sum.split)

lemma keeps_stop_container [keeps_intros]: "keeps k U W (stop_container k env i t)"
  unfolding stop_container_def Let_def
  by (auto intro!: keeps_intros split: option.split container_state.split)

lemma keeps_remove_container [keeps_intros]: "keeps k U W (remove_container k env i)"
  unfolding remove_container_def by (auto intro!: keeps_intros split: option.split)

lemma keeps_supervisor [keeps_intros]: "keeps k U W (supervisor_exit k env i sid code oom)"
  unfolding supervisor_exit_def Let_def by (auto intro!: keeps_intros)

lemma keeps_exit_containers [keeps_intros]: "keeps k U W (exit_containers k env n now cs)"
  by (induction cs arbitrary: n) (auto intro!: keeps_intros)

lemma keeps_orphans [keeps_intros]:
  "keeps k U W (orphan_sandboxes k env n live sbs)" "keeps k U W (orphan_containers k env n live cs)"
  by (induction sbs arbitrary: n, auto intro!: keeps_intros simp: is_spawn_def)
    (induction cs arbitrary: n, auto intro!: keeps_intros)

lemma keeps_reconcile_loaded [keeps_intros]: "keeps k U W (reconcile_loaded k env)"
  unfolding reconcile_loaded_def by (auto intro!: keeps_intros)

lemma keeps_remove_pod [keeps_intros]: "keeps k U W (remove_pod_sandbox k env sid)"
  unfolding remove_pod_sandbox_def by (auto intro!: keeps_intros split: option.split)

lemma keeps_stop_pod [keeps_intros]: "keeps k U W (stop_pod_sandbox k env sid)"
proof -
  have "keeps k U W (join_all is (map (stop_container_workload env) cs))" for "is" cs
    by (rule keeps_quiet_task [OF quiet_join_all]) (auto intro: quiet_stop_workload)
  then show ?thesis unfolding stop_pod_sandbox_def finish_stop_pod_def by (auto intro!: keeps_intros split: option.split)
qed

lemma triple_keeps_False:
  "keeps k False {} t \<Longrightarrow> cri_rg.triple k (\<lambda>s. idle k s \<and> knows k U W s) t (\<lambda>_ s. idle k s)"
  unfolding keeps_def by (erule cri_rg.triple_weaken) (auto simp: knows_def)

lemma triple_try_Done:
  "(\<And>e. cri_rg.triple k P (Done (Inl e)) Q) \<Longrightarrow> (\<And>x. cri_rg.triple k P (g x) Q) \<Longrightarrow> cri_rg.triple k P (task_try (Done r) g) Q"
  by (simp add: task_try_def split: sum.split)

lemma triple_result: "cri_rg.triple k (\<lambda>s. idle k s \<and> knows k U W s) (Done x) (\<lambda>_ s. idle k s)"
  by (rule cri_rg.triple_Done) (auto intro: stables)

lemma triple_start_claimed:
  assumes "ct_id c = i"
  shows "cri_rg.triple k (\<lambda>s. idle k s \<and> knows k True {(k, i)} s) (start_claimed k env i c now) (\<lambda>_ s. idle k s)"
  unfolding start_claimed_def
  by (rule cri_rg.triple_bind [OF triple_spawn [of k c env, unfolded assms] triple_keeps_False])
    (auto intro!: keeps_intros split: sum.split)

lemma triple_start_checked:
  assumes "ct_id c = i"
  shows "cri_rg.triple k (\<lambda>s. idle k s \<and> knows k True {} s) (start_checked k env i c) (\<lambda>_ s. idle k s)"
  unfolding start_checked_def
proof (intro cri_rg.triple_bind [OF keeps_read [unfolded keeps_def]] triple_try_Done triple_result cri_rg.triple_bind [OF triple_start_transition])
  fix won
  show "cri_rg.triple k (\<lambda>s. idle k s \<and> knows k True (if won then insert (k, i) {} else {}) s)
      (if won then start_claimed k env i c (ce_now env 0)
       else Done (Inl (Status FailedPrecondition (''Container '' @ i @ '' is no longer in the Created state''))))
      (\<lambda>_ s. idle k s)"
    using triple_start_claimed [OF assms] triple_result by (cases won) simp_all
qed

lemma triple_start_container:
  "cri_rg.triple k (\<lambda>s. idle k s \<and> knows k True {} s) (start_container k env i) (\<lambda>_ s. idle k s)"
  unfolding start_container_def
proof (rule cri_rg.triple_bind [where M = "\<lambda>found s. (idle k s \<and> knows k True {} s) \<and> (\<forall>c. found = Some c \<longrightarrow> ct_id c = i)"])
  show "cri_rg.triple k (\<lambda>s. idle k s \<and> knows k True {} s) (get_container i)
      (\<lambda>found s. (idle k s \<and> knows k True {} s) \<and> (\<forall>c. found = Some c \<longrightarrow> ct_id c = i))"
    unfolding get_container_def task_read_def
    by (rule cri_rg.triple_act; (intro stables)?)
      (auto simp: cri_guar_def ct_get_def cri_good_def tables_ok_def dest: keyed_lookup)
next
  fix found
  show "cri_rg.triple k (\<lambda>s. (idle k s \<and> knows k True {} s) \<and> (\<forall>c. found = Some c \<longrightarrow> ct_id c = i))
      (case found of
         None \<Rightarrow> Done (Inl (Status NotFound (''Container not found: '' @ i)))
       | Some c \<Rightarrow> task_try (Done (start_precondition env c)) (\<lambda>_. start_checked k env i c)) (\<lambda>_ s. idle k s)"
  proof (cases found)
    case None
    then show ?thesis using triple_result [of k True "{}"] by simp
  next
    case (Some c)
    show ?thesis
    proof (cases "ct_id c = i")
      case True
      with Some show ?thesis
        using triple_try_Done [OF triple_result triple_start_checked [OF True]] by simp
    next
      case False
      with Some show ?thesis by (simp add: cri_rg.triple_def)
    qed
  qed
qed

section \<open>Runs of the server\<close>

definition fresh_call :: "nat \<Rightarrow> cri \<Rightarrow> bool" where
  "fresh_call k s \<longleftrightarrow> (\<forall>j \<ge> k. idle j s \<and> knows j True {} s)"

lemma fresh_call_Suc: "fresh_call k s \<Longrightarrow> fresh_call (Suc k) s"
  by (simp add: fresh_call_def)

lemma fresh_call_guar: "i < k \<Longrightarrow> fresh_call k s \<Longrightarrow> cri_guar i s s' \<Longrightarrow> fresh_call k s'"
  using stable_idle stable_knows unfolding fresh_call_def cri_guar_def cri_rg.unaffected_def by (metis not_le)

lemma call_safe:
  assumes "t \<in> cri_calls k" and "cri_good s" and "fresh_call k s"
  shows "task_safe cri_good (cri_rely k) (cri_guar k) (\<lambda>_. True) (\<lambda>_ s. idle k s) t s"
proof -
  have "cri_rg.triple k (\<lambda>s. idle k s \<and> knows k True {} s) t (\<lambda>_ s. idle k s)"
    using assms(1) by (cases rule: cri_calls.cases) (auto intro: triple_start_container triple_keeps_False keeps_intros)
  with assms(2,3) show ?thesis by (simp add: cri_rg.triple_def fresh_call_def)
qed

lemma cri_run_safe:
  assumes "task_run cri_calls s0 (s, ts)" and "cri_good s0" and "fresh_call 0 s0"
  shows "cri_good s" "fresh_call (length ts) s"
    "i < length ts \<Longrightarrow> task_safe cri_good (cri_rely i) (cri_guar i) (\<lambda>_. True) (\<lambda>_ s. idle i s) (ts ! i) s"
proof -
  have "cri_rg.tasks_safe (\<lambda>i _ s. idle i s) (s, ts) \<and> fresh_call (length (snd (s, ts))) (fst (s, ts))"
    using cri_rg.run_safe [of cri_calls s0 "(s, ts)" fresh_call "\<lambda>i _ s. idle i s"] assms
    by (blast intro: call_safe fresh_call_Suc fresh_call_guar)
  then show "cri_good s" "fresh_call (length ts) s"
    "i < length ts \<Longrightarrow> task_safe cri_good (cri_rely i) (cri_guar i) (\<lambda>_. True) (\<lambda>_ s. idle i s) (ts ! i) s"
    by (simp_all add: cri_rg.tasks_safe_def)
qed

text \<open>When every call has answered, no write is due.\<close>

lemma all_answered:
  assumes "task_run cri_calls s0 (s, ts)" and "cri_good s0" and "fresh_call 0 s0"
    and "\<forall>t \<in> set ts. \<exists>x. t = Done x"
  shows "cs_pending s = {} \<and> cs_persist_lock s = None"
proof -
  have "idle i s" for i
  proof (cases "i < length ts")
    case True
    then obtain x where "ts ! i = Done x" using assms(4) nth_mem by blast
    with cri_run_safe [OF assms(1-3)] True show ?thesis by (fastforce elim!: task_safe_DoneE)
  next
    case False
    then show ?thesis using cri_run_safe(2) [OF assms(1-3)] by (simp add: fresh_call_def)
  qed
  then show ?thesis unfolding idle_def by (metis empty_iff equals0I not_Some_eq)
qed

end
