(* ===== verification/Cri_Correctness.thy ===== *)
theory Cri_Correctness
  imports Cri_Safety
begin

text \<open>
  The properties of the CRI server: what holds under every interleaving of its handlers, what a
  restart recovers, and the interleavings that its checks do not exclude.
\<close>

section \<open>Recovery\<close>

lemma fold_add_keyed:
  assumes "keyed key xs" and "\<And>v store. add v store = AList.update (key v) v store"
    and "fst ` set xs \<inter> fst ` set store = {}"
  shows "fold add (map snd xs) store = store @ xs"
  using assms(1,3)
proof (induction xs arbitrary: store)
  case (Cons x xs)
  obtain i v where x: "x = (i, v)" by force
  have v: "key v = i" and xs: "keyed key xs" "i \<notin> fst ` set xs" using Cons.prems(1) by (auto simp: keyed_def x)
  have "AList.update i v store = store @ [(i, v)]"
    using Cons.prems(2) by (induction store) (auto simp: x)
  then have "fold add (map snd (x # xs)) store = fold add (map snd xs) (store @ [(i, v)])"
    by (simp add: assms(2) x v)
  also have "\<dots> = (store @ [(i, v)]) @ xs" using xs Cons.prems(2) by (intro Cons.IH) (auto simp: x)
  finally show ?case by (simp add: x)
qed simp

lemma populate_snapshot:
  assumes "tables_ok s"
  shows "populate (snapshot s) ([], []) = (cs_sandboxes s, cs_containers s)"
proof -
  have "keyed ps_id (cs_sandboxes s)" "keyed ct_id (cs_containers s)" using assms by (simp_all add: tables_ok_def)
  with fold_add_keyed [of ps_id "cs_sandboxes s" sb_add "[]"] fold_add_keyed [of ct_id "cs_containers s" ct_add "[]"]
  show ?thesis by (simp add: populate_def snapshot_def list_all_entries sb_add_def ct_add_def)
qed

lemma disk_snapshot_crash: "disk_snapshot d = Some st \<Longrightarrow> disk_snapshot (crash m d) = Some st"
  by (auto simp: disk_snapshot_def crash_def crash_node_def split: option.splits file_content.splits if_splits)

lemma load_snapshot:
  "disk_snapshot d = Some st \<Longrightarrow> load_state None qf d = (True, booted st d)"
  by (auto simp: disk_snapshot_def load_state_def json_load_def split: option.splits file_content.splits if_splits)

lemma keyed_pairs: "distinct (map key vs) \<Longrightarrow> keyed key (map (\<lambda>v. (key v, v)) vs)"
  by (auto simp: keyed_def comp_def)

lemma populate_keyed:
  assumes "state_keyed st"
  shows "populate st ([], []) =
    (map (\<lambda>v. (ps_id v, v)) (pst_sandboxes st), map (\<lambda>v. (ct_id v, v)) (pst_containers st))"
proof -
  have "map snd (map (\<lambda>v. (key v, v)) vs) = vs" for key :: "'v \<Rightarrow> string" and vs by (simp add: comp_def)
  with assms
    fold_add_keyed [OF keyed_pairs [of ps_id "pst_sandboxes st"], of sb_add "[]"]
    fold_add_keyed [OF keyed_pairs [of ct_id "pst_containers st"], of ct_add "[]"]
  show ?thesis by (simp add: populate_def state_keyed_def sb_add_def ct_add_def comp_def)
qed

text \<open>The server that starts from a readable file satisfies the invariant.\<close>

lemma booted_good:
  assumes "disk_snapshot d = Some st" and "state_keyed st"
  shows "cri_good (booted st d)" "fresh_call 0 (booted st d)"
proof -
  let ?sbs = "map (\<lambda>v. (ps_id v, v)) (pst_sandboxes st)" and ?cts = "map (\<lambda>v. (ct_id v, v)) (pst_containers st)"
  have b: "cs_sandboxes (booted st d) = ?sbs" "cs_containers (booted st d) = ?cts"
    by (simp_all add: booted_def populate_keyed [OF assms(2)])
  have r: "cs_persist_lock (booted st d) = None" "cs_disk (booted st d) = d" "cs_pending (booted st d) = {}"
    "cs_starts (booted st d) = []" "cs_host (booted st d) = []"
    "cs_used_ids (booted st d) = ct_id ` set (pst_containers st)"
    by (simp_all add: booted_def split: prod.split)
  have "tables_ok (booted st d)"
    using assms(2) by (auto simp: tables_ok_def b r state_keyed_def keyed_pairs)
  moreover have "snapshot (booted st d) = st" by (simp add: snapshot_def list_all_entries b comp_def)
  ultimately show "cri_good (booted st d)"
    using assms by (auto simp: cri_good_def starts_ok_def persist_ok_def r)
  show "fresh_call 0 (booted st d)" by (simp add: fresh_call_def idle_def knows_def r)
qed

section \<open>Every interleaving\<close>

lemma distinct_same_length:
  assumes "distinct xs" and "\<And>x y. x \<in> set xs \<Longrightarrow> y \<in> set xs \<Longrightarrow> x = y"
  shows "length xs \<le> 1"
proof (cases xs)
  case x: (Cons x ys)
  show ?thesis
  proof (cases ys)
    case (Cons y zs)
    with x assms(1) assms(2) [of x y] show ?thesis by simp
  qed (simp add: x)
qed simp

text \<open>
  C9: no workload is started twice. Whatever the number of calls and however their steps are
  interleaved, the guest is asked at most once to start the workload of a container, also when
  several StartContainer calls for it run at the same time; and the call that asks is the one
  that moved the container from created to running.
\<close>

theorem workload_started_once:
  assumes "disk_snapshot d = Some st" and "state_keyed st" and "task_run cri_calls (booted st d) (s, ts)"
  shows "length (filter (\<lambda>h. \<exists>k. h = SpawnWorkload k i) (cs_host s)) \<le> 1 \<and>
    (SpawnWorkload k i \<in> set (cs_host s) \<longrightarrow> (k, i) \<in> set (cs_starts s))"
proof -
  have st: "starts_ok s"
    using cri_run_safe(1) [OF assms(3)] booted_good [OF assms(1,2)] by (simp add: cri_good_def)
  let ?hs = "filter (\<lambda>h. \<exists>k. h = SpawnWorkload k i) (cs_host s)"
  have "?hs = filter (\<lambda>h. \<exists>k. h = SpawnWorkload k i) (filter is_spawn (cs_host s))"
    by (auto simp: is_spawn_def intro!: filter_cong)
  then have "distinct ?hs" using st by (metis distinct_filter starts_ok_def)
  moreover have "h = h'" if "h \<in> set ?hs" "h' \<in> set ?hs" for h h'
  proof -
    from that obtain k k' where h: "h = SpawnWorkload k i" "h' = SpawnWorkload k' i" by auto
    with that st have "(k, i) \<in> set (cs_starts s)" "(k', i) \<in> set (cs_starts s)" by (auto simp: starts_ok_def)
    moreover have "inj_on snd (set (cs_starts s))" using st by (simp add: starts_ok_def distinct_map)
    ultimately have "k = k'" by (metis inj_onD prod.inject snd_conv)
    with h show ?thesis by simp
  qed
  ultimately have "length ?hs \<le> 1" by (rule distinct_same_length)
  with st show ?thesis by (simp add: starts_ok_def)
qed


text \<open>
  C12: the server restarts from every crash. Between any two steps of any run, also after failed
  writes, the state file that a crash leaves is readable, and the server that starts from it can run
  again under the same guarantees.
\<close>

theorem crash_restartable:
  assumes "disk_snapshot d = Some st" and "state_keyed st" and "task_run cri_calls (booted st d) (s, ts)"
  shows "\<exists>st'. disk_snapshot (crash m (cs_disk s)) = Some st' \<and> state_keyed st' \<and>
    load_state None qf (crash m (cs_disk s)) = (True, booted st' (crash m (cs_disk s)))"
proof -
  have "cri_good s" by (rule cri_run_safe(1) [OF assms(3) booted_good [OF assms(1,2)]])
  then obtain st' where "disk_snapshot (cs_disk s) = Some st'" "state_keyed st'"
    by (auto simp: cri_good_def persist_ok_def)
  with disk_snapshot_crash load_snapshot show ?thesis by blast
qed

section \<open>Calls on their own\<close>

text \<open>The state after a call \<open>k\<close> has written the tables of \<open>s\<close>.\<close>

definition flushed :: "nat \<Rightarrow> save_faults \<Rightarrow> cri \<Rightarrow> cri" where
  "flushed k flt s =
     persist_write k flt (snapshot s) (s\<lparr>cs_pending := insert k (cs_pending s), cs_persist_lock := Some k\<rparr>)"

lemma flushed_fields [simp]:
  "cs_sandboxes (flushed k flt s) = cs_sandboxes s" "cs_containers (flushed k flt s) = cs_containers s"
  "cs_persist_lock (flushed k flt s) = None" "cs_vm_managers (flushed k flt s) = cs_vm_managers s"
  "cs_host (flushed k flt s) = cs_host s" "cs_events (flushed k flt s) = cs_events s"
  "cs_workload_stops (flushed k flt s) = cs_workload_stops s" "cs_used_ids (flushed k flt s) = cs_used_ids s"
  by (simp_all add: flushed_def persist_write_def split: prod.split)

lemma advances_persist:
  assumes "cs_persist_lock s = None" and "k \<in> cs_pending s"
  shows "advances (persist k flt) s (Done ()) (flushed k flt s)"
proof -
  let ?s = "s\<lparr>cs_persist_lock := Some k\<rparr>"
  have "snapshot s = \<lparr>pst_sandboxes = sb_list None (cs_sandboxes ?s), pst_containers = ct_list None None (cs_containers ?s)\<rparr>"
    by (simp add: snapshot_def)
  then have "flushed k flt s = persist_write k flt
      \<lparr>pst_sandboxes = sb_list None (cs_sandboxes ?s), pst_containers = ct_list None None (cs_containers ?s)\<rparr> ?s"
    using assms(2) by (simp add: flushed_def insert_absorb)
  then show ?thesis
    unfolding persist_def using assms(1)
    by (auto intro!: advances_bind [OF advances_guarded] advances_bind [OF advances_read] advances_write)
qed

lemma advances_store_op:
  assumes "f s = (x, s')" and "changed x \<Longrightarrow> cs_persist_lock s' = None"
  shows "advances (store_op k flt f changed) s (Done x) (if changed x then flushed k flt s' else s')"
proof (cases "changed x")
  case False
  then show ?thesis
    unfolding store_op_def using assms(1)
    by (auto intro!: advances_bind [where s' = s'] advances_act adv_refl)
next
  case True
  let ?s = "s'\<lparr>cs_pending := insert k (cs_pending s')\<rparr>"
  have "flushed k flt ?s = flushed k flt s'"
    by (simp add: flushed_def snapshot_def)
  then have "advances (persist k flt) ?s (Done ()) (flushed k flt s')"
    using advances_persist [of ?s k flt] assms(2) True by simp
  then have "advances (task_bind (persist k flt) (\<lambda>_. Done x)) ?s (Done x) (flushed k flt s')"
    by (rule advances_bind) (rule adv_refl)
  then show ?thesis
    unfolding store_op_def using assms(1) True
    by (auto intro!: advances_bind [where s' = ?s] advances_act)
qed

lemma advances_register_workload:
  "\<exists>s'. advances (register_workload env c now) s (Done ()) s' \<and>
     cs_containers s' = cs_containers s \<and> cs_sandboxes s' = cs_sandboxes s \<and>
     cs_persist_lock s' = cs_persist_lock s \<and> cs_vm_managers s' = cs_vm_managers s \<and>
     cs_host s' = cs_host s @ [OpenLog (ct_log_path c), SpawnSupervisor (ct_id c)] \<and>
     cs_workload_stops s' = insert (ct_id c) (cs_workload_stops s)"
  unfolding register_workload_def emit_container_event_def host_call_def
  by (cases "ct_stdin c"; simp; (rule exI conjI advances_bind advances_write adv_refl)+; simp)

lemma advances_start_transition:
  assumes "cs_persist_lock s = None" and "map_of (cs_containers s) i = Some c" and "ct_state c = CtCreated"
  shows "\<exists>s'. advances (mark_container_started_if_created k flt i t) s (Done True) s' \<and>
     cs_containers s' = AList.update i (c\<lparr>ct_state := CtRunning, ct_started_at := t\<rparr>) (cs_containers s) \<and>
     cs_sandboxes s' = cs_sandboxes s \<and> cs_persist_lock s' = None \<and> cs_vm_managers s' = cs_vm_managers s \<and>
     cs_host s' = cs_host s \<and> cs_workload_stops s' = cs_workload_stops s"
proof -
  let ?s1 = "s\<lparr>cs_containers := AList.update i (c\<lparr>ct_state := CtRunning, ct_started_at := t\<rparr>) (cs_containers s),
      cs_starts := (k, i) # cs_starts s\<rparr>"
  have "advances (mark_container_started_if_created k flt i t) s (Done True) (flushed k flt ?s1)"
    unfolding mark_container_started_if_created_def
    using assms advances_store_op [of _ s True ?s1 "\<lambda>updated. updated" k flt]
    by (simp add: on_containers_def mark_started_if_created_def with_entry_def)
  then show ?thesis using assms(1) by (intro exI [of _ "flushed k flt ?s1"]) simp
qed

lemma advances_mark_exited:
  assumes "cs_persist_lock s = None" and "map_of (cs_containers s) i = Some c"
  shows "advances (mark_container_exited k flt i t code) s (Done True)
    (flushed k flt (s\<lparr>cs_containers := AList.update i
      (c\<lparr>ct_state := CtExited, ct_finished_at := t, ct_exit_code := code\<rparr>) (cs_containers s)\<rparr>))"
  unfolding mark_container_exited_def
  using assms advances_store_op [of "on_containers (mark_exited i t code)" s True _ "\<lambda>updated. updated" k flt]
  by (simp add: on_containers_def mark_exited_def with_entry_def)

lemma start_succeeds:
  assumes "cs_persist_lock s = None" and "map_of (cs_containers s) i = Some c" and "ct_state c = CtCreated"
    and "start_precondition env c = Inr ()" and "ct_sandbox_id c \<in> cs_vm_managers s"
    and "start_sockets env c True = Inr ()" and "\<not> (ct_tty c \<and> ce_pty_socket env = None)" and "ce_spawn env = Inr ()"
  shows "\<exists>s'. advances (start_container k env i) s (Done (Inr ())) s' \<and>
     cs_containers s' = AList.update i (c\<lparr>ct_state := CtRunning, ct_started_at := ce_now env 0\<rparr>) (cs_containers s) \<and>
     cs_sandboxes s' = cs_sandboxes s \<and> cs_persist_lock s' = None \<and> cs_vm_managers s' = cs_vm_managers s \<and>
     cs_host s' = cs_host s @ [SpawnWorkload k (ct_id c), OpenLog (ct_log_path c), SpawnSupervisor (ct_id c)] \<and>
     cs_workload_stops s' = insert (ct_id c) (cs_workload_stops s)"
proof -
  from advances_start_transition [OF assms(1-3), of k "ce_save env 0" "ce_now env 0"] obtain s1 where
    s1: "advances (mark_container_started_if_created k (ce_save env 0) i (ce_now env 0)) s (Done True) s1"
      "cs_containers s1 = AList.update i (c\<lparr>ct_state := CtRunning, ct_started_at := ce_now env 0\<rparr>) (cs_containers s)"
      "cs_sandboxes s1 = cs_sandboxes s" "cs_persist_lock s1 = None" "cs_vm_managers s1 = cs_vm_managers s"
      "cs_host s1 = cs_host s" "cs_workload_stops s1 = cs_workload_stops s" by blast
  let ?s2 = "s1\<lparr>cs_host := cs_host s1 @ [SpawnWorkload k (ct_id c)]\<rparr>"
  have spawn: "advances (spawn_workload k env c) s1 (Done (Inr ())) ?s2"
    unfolding spawn_workload_def host_call_def
    using assms(7,8) by (auto intro!: advances_bind [OF advances_write] adv_refl)
  from advances_register_workload [of env c "ce_now env 0" ?s2] obtain s3 where
    s3: "advances (register_workload env c (ce_now env 0)) ?s2 (Done ()) s3"
      "cs_containers s3 = cs_containers s1" "cs_sandboxes s3 = cs_sandboxes s1" "cs_persist_lock s3 = None"
      "cs_vm_managers s3 = cs_vm_managers s1"
      "cs_host s3 = cs_host ?s2 @ [OpenLog (ct_log_path c), SpawnSupervisor (ct_id c)]"
      "cs_workload_stops s3 = insert (ct_id c) (cs_workload_stops s1)" using s1(4) by auto
  have "advances (start_claimed k env i c (ce_now env 0)) s1 (Done (Inr ())) s3"
    unfolding start_claimed_def by (rule advances_bind [OF spawn]) (auto intro!: advances_bind [OF s3(1)] adv_refl)
  with s1(1) have "advances (start_checked k env i c) s (Done (Inr ())) s3"
    unfolding start_checked_def using assms(5,6)
    by (auto simp: task_try_def intro!: advances_bind [OF advances_read] advances_bind)
  then have "advances (start_container k env i) s (Done (Inr ())) s3"
    unfolding start_container_def get_container_def using assms(2,4)
    by (auto simp: task_try_def ct_get_def intro!: advances_bind [OF advances_read])
  with s1 s3 show ?thesis by (intro exI [of _ s3]) simp
qed

section \<open>Interleavings that the checks do not exclude\<close>

lemma run_two: "t0 \<in> accepted 0 \<Longrightarrow> t1 \<in> accepted 1 \<Longrightarrow> task_run accepted s (s, [t0, t1])"
  using run_accept [OF task_run.start, of t0 accepted s] run_accept [of accepted s s "[t0]" t1] by simp

text \<open>A stop that read a created container: the rest records an exit, whatever the container is by then.\<close>

lemma stop_of_created:
  assumes "map_of (cs_containers s) i = Some c" and "ct_state c = CtCreated"
  obtains rest where "advances (stop_container k env i timeout) s rest s"
    "\<And>s1 c1. cs_persist_lock s1 = None \<Longrightarrow> map_of (cs_containers s1) i = Some c1 \<Longrightarrow>
       \<exists>s2. advances rest s1 (Done (Inr ())) s2 \<and> cs_host s2 = cs_host s1 \<and> cs_vm_managers s2 = cs_vm_managers s1 \<and>
         i \<notin> cs_workload_stops s2 \<and> (\<exists>c2. map_of (cs_containers s2) i = Some c2 \<and> ct_state c2 = CtExited \<and> ct_exit_code c2 = 0)"
proof -
  let ?rest = "task_bind (mark_container_exited k (ce_save env 0) i (ce_now env 0) 0) (\<lambda>updated.
      task_bind (if updated
         then emit_container_event i (ct_sandbox_id c) ContainerStoppedEvent (ce_now env 0) ''StopContainer''
           ''Created container stopped before workload start''
         else Done ()) (\<lambda>_. task_bind (drop_handles i) (\<lambda>_. Done (Inr ()))))"
  have "advances (stop_container k env i timeout) s ?rest s"
    unfolding stop_container_def get_container_def Let_def using assms
    by (auto simp: ct_get_def intro!: advances_bind [OF advances_read] adv_refl)
  moreover have "\<exists>s2. advances ?rest s1 (Done (Inr ())) s2 \<and> cs_host s2 = cs_host s1 \<and> cs_vm_managers s2 = cs_vm_managers s1 \<and>
       i \<notin> cs_workload_stops s2 \<and> (\<exists>c2. map_of (cs_containers s2) i = Some c2 \<and> ct_state c2 = CtExited \<and> ct_exit_code c2 = 0)"
    if "cs_persist_lock s1 = None" "map_of (cs_containers s1) i = Some c1" for s1 c1
    by (intro exI conjI, rule advances_bind [OF advances_mark_exited [OF that]],
        simp add: emit_container_event_def drop_handles_def,
        (rule advances_bind advances_write adv_refl)+) ((simp_all add: update_conv')+)
  ultimately show ?thesis using that by blast
qed

text \<open>
  C36: stopping a created container can hide a running workload. StopContainer decides by the state it
  read, and records the exit of a created container without looking again. When StartContainer runs
  in between, both calls succeed, the workload was requested from the guest and nothing was sent to
  stop it, and the container is recorded as exited with code 0.
\<close>

theorem stop_start_race:
  assumes "cs_persist_lock s = None" and "map_of (cs_containers s) i = Some c" and "ct_id c = i"
    and "ct_state c = CtCreated" and "start_precondition env c = Inr ()"
    and "ct_sandbox_id c \<in> cs_vm_managers s" and "start_sockets env c True = Inr ()"
    and "\<not> (ct_tty c \<and> ce_pty_socket env = None)" and "ce_spawn env = Inr ()"
  shows "\<exists>s'. task_run cri_calls s (s', [Done (Inr ()), Done (Inr ())]) \<and>
    (\<exists>c'. map_of (cs_containers s') i = Some c' \<and> ct_state c' = CtExited \<and> ct_exit_code c' = 0) \<and>
    cs_host s' = cs_host s @ [SpawnWorkload 0 i, OpenLog (ct_log_path c), SpawnSupervisor i] \<and>
    ct_sandbox_id c \<in> cs_vm_managers s' \<and> i \<notin> cs_workload_stops s'"
proof -
  let ?start = "start_container 0 env i"
  obtain rest where rest: "advances (stop_container 1 env i 0) s rest s"
    "\<And>s1 c1. cs_persist_lock s1 = None \<Longrightarrow> map_of (cs_containers s1) i = Some c1 \<Longrightarrow>
       \<exists>s2. advances rest s1 (Done (Inr ())) s2 \<and> cs_host s2 = cs_host s1 \<and> cs_vm_managers s2 = cs_vm_managers s1 \<and>
         i \<notin> cs_workload_stops s2 \<and> (\<exists>c2. map_of (cs_containers s2) i = Some c2 \<and> ct_state c2 = CtExited \<and> ct_exit_code c2 = 0)"
    using stop_of_created [OF assms(2,4)] by blast
  have calls: "?start \<in> cri_calls 0" "stop_container 1 env i 0 \<in> cri_calls 1" by (rule cri_calls.intros)+
  have "task_run cri_calls s (s, [?start, stop_container 1 env i 0])"
    by (rule run_two [OF calls])
  from run_advance [OF rest(1) this, of 1] have r1: "task_run cri_calls s (s, [?start, rest])" by simp
  from start_succeeds [OF assms(1,2,4-9), of 0] obtain s1 where s1:
    "advances ?start s (Done (Inr ())) s1"
    "cs_containers s1 = AList.update i (c\<lparr>ct_state := CtRunning, ct_started_at := ce_now env 0\<rparr>) (cs_containers s)"
    "cs_persist_lock s1 = None" "cs_vm_managers s1 = cs_vm_managers s"
    "cs_host s1 = cs_host s @ [SpawnWorkload 0 (ct_id c), OpenLog (ct_log_path c), SpawnSupervisor (ct_id c)]" by blast
  from run_advance [OF s1(1) r1, of 0] have r2: "task_run cri_calls s (s1, [Done (Inr ()), rest])" by simp
  have "map_of (cs_containers s1) i = Some (c\<lparr>ct_state := CtRunning, ct_started_at := ce_now env 0\<rparr>)"
    by (simp add: s1(2) update_conv')
  from rest(2) [OF s1(3) this] obtain s2 where s2: "advances rest s1 (Done (Inr ())) s2"
    "cs_host s2 = cs_host s1" "cs_vm_managers s2 = cs_vm_managers s1" "i \<notin> cs_workload_stops s2"
    "\<exists>c2. map_of (cs_containers s2) i = Some c2 \<and> ct_state c2 = CtExited \<and> ct_exit_code c2 = 0" by blast
  from run_advance [OF s2(1) r2, of 1] have "task_run cri_calls s (s2, [Done (Inr ()), Done (Inr ())])" by simp
  with s1 s2 assms(3,6) show ?thesis by (intro exI [of _ s2]) simp
qed

text \<open>
  a cancelled RunPodSandbox can leave a ready sandbox without a machine. The guard against a
  dropped request is disarmed after \<open>add_sandbox\<close> returns, and \<open>add_sandbox\<close> waits for the persist lock
  after it has stored the sandbox. When the request is dropped there, the sandbox stays in the store
  as it was added, and its machine is destroyed.
\<close>

lemma cancelled_run_pod_tears_down_stored_sandbox:
  "\<exists>f s'. advances (register_sandbox k env sb) s (Await f) s' \<and>
     sb_get (ps_id sb) (cs_sandboxes (cancel_run_pod_sandbox network_name (ps_id sb) s')) = Some sb \<and>
     ps_id sb \<notin> cs_vm_managers (cancel_run_pod_sandbox network_name (ps_id sb) s') \<and>
     DestroyVm (ps_id sb) None \<in> set (cs_host (cancel_run_pod_sandbox network_name (ps_id sb) s'))"
proof -
  let ?s1 = "s\<lparr>cs_vm_managers := insert (ps_id sb) (cs_vm_managers s)\<rparr>"
  let ?s2 = "?s1\<lparr>cs_sandboxes := sb_add sb (cs_sandboxes s), cs_pending := insert k (cs_pending s)\<rparr>"
  obtain f where f: "persist k (ce_save env 0) = Await f"
    by (simp add: persist_def task_guarded_def)
  have add: "advances (add_sandbox k (ce_save env 0) sb) ?s1 (task_bind (Await f) (\<lambda>_. Done ())) ?s2"
    unfolding add_sandbox_def store_op_def
    by (rule advances_bind [OF advances_act]) (auto simp: on_sandboxes_def f intro: adv_refl)
  have "advances (register_sandbox k env sb) s
      (task_bind (task_bind (Await f) (\<lambda>_. Done ())) (\<lambda>_. Done (Inr ()))) ?s2"
    unfolding register_sandbox_def
    by (rule advances_bind [OF advances_write]) (rule advances_within [OF add])
  then obtain g where "advances (register_sandbox k env sb) s (Await g) ?s2" by auto
  then show ?thesis
    by (intro exI [of _ g] exI [of _ ?s2]) (simp add: cancel_run_pod_sandbox_def sb_get_def sb_add_def update_conv')
qed

lemma advances_mark_exited_if_running:
  assumes "cs_persist_lock s = None" and "map_of (cs_containers s) i = Some c" and "ct_state c = CtRunning"
  shows "advances (mark_container_exited_if_running k flt i t code oom) s (Done True)
    (flushed k flt (s\<lparr>cs_containers := AList.update i
      (c\<lparr>ct_state := CtExited, ct_finished_at := t, ct_exit_code := code, ct_oom_killed := oom\<rparr>) (cs_containers s)\<rparr>))"
  unfolding mark_container_exited_if_running_def
  using assms advances_store_op [of "on_containers (mark_exited_if_running i t code oom)" s True _ "\<lambda>updated. updated" k flt]
  by (simp add: on_containers_def mark_exited_if_running_def with_entry_def)

lemma supervisor_records:
  assumes "cs_persist_lock s = None" and "map_of (cs_containers s) i = Some c" and "ct_state c = CtRunning"
    and "0 \<le> sint code"
  shows "\<exists>s'. advances (supervisor_exit k env i p code oom) s (Done (Inr ())) s' \<and> cs_persist_lock s' = None \<and>
    cs_sandboxes s' = cs_sandboxes s \<and>
    cs_containers s' = AList.update i (c\<lparr>ct_state := CtExited, ct_finished_at := ce_now env 0, ct_exit_code := code,
      ct_oom_killed := oom\<rparr>) (cs_containers s) \<and>
    cs_events s' = cs_events s @ [\<lparr>cev_container_id = i, cev_pod_sandbox_id = p, cev_type = ContainerStoppedEvent,
      cev_created_at = ce_now env 0, cev_reason = ''ContainerStopped'',
      cev_message = ''Container workload exited with code '' @ show_i32 code\<rparr>]"
proof -
  have "\<not> sint code < 0" using assms(4) by simp
  note e = supervisor_exit_def [of k env i p code oom, unfolded if_not_P [OF this] Let_def]
  show ?thesis unfolding e
    by (intro exI conjI, rule advances_bind [OF advances_mark_exited_if_running [OF assms(1-3)]],
        simp add: emit_container_event_def drop_handles_def,
        (rule advances_bind advances_write adv_refl)+) simp_all
qed

lemma finish_stop_pod_exits:
  assumes "cs_persist_lock s = None" and "map_of (cs_containers s) (ct_id c) = Some c'" and "ct_state c \<noteq> CtExited"
    and "ce_destroy env = Inr ()"
  shows "\<exists>s'. advances (finish_stop_pod k env sandbox p [c]) s (Done (Inr ())) s' \<and>
    cs_containers s' = AList.update (ct_id c) (c'\<lparr>ct_state := CtExited, ct_finished_at := ce_now env 0, ct_exit_code := 137\<rparr>)
      (cs_containers s) \<and>
    cs_events s' = cs_events s @ [\<lparr>cev_container_id = ct_id c, cev_pod_sandbox_id = ct_sandbox_id c,
      cev_type = ContainerStoppedEvent, cev_created_at = ce_now env 0, cev_reason = ''StopPodSandbox'',
      cev_message = ''Container stopped by pod sandbox shutdown''\<rparr>]"
proof -
  have destroy: "\<exists>s' b. advances (destroy_sandbox_vm env p None) s1 (Done (Inr b)) s' \<and> cs_persist_lock s' = cs_persist_lock s1 \<and>
      cs_containers s' = cs_containers s1 \<and> cs_events s' = cs_events s1" for s1
    unfolding destroy_sandbox_vm_def using assms(4)
    by (cases "p \<in> cs_vm_managers s1") (intro exI conjI, rule advances_bind [OF advances_act], simp, simp, rule adv_refl, simp_all)+
  have update: "\<exists>s' b. advances (update_sandbox_state k flt p SbNotReady) s1 (Done b) s' \<and>
      cs_containers s' = cs_containers s1 \<and> cs_events s' = cs_events s1" if "cs_persist_lock s1 = None" for s1 flt
  proof -
    obtain b sbs where "sb_update_state p SbNotReady (cs_sandboxes s1) = (b, sbs)" by force
    with advances_store_op [of "on_sandboxes (sb_update_state p SbNotReady)" s1 b "s1\<lparr>cs_sandboxes := sbs\<rparr>" "\<lambda>u. u" k flt] that
    show ?thesis by (auto simp: update_sandbox_state_def on_sandboxes_def split: if_splits)
  qed
  let ?s1 = "flushed k (ce_save env 1) (s\<lparr>cs_containers := AList.update (ct_id c)
      (c'\<lparr>ct_state := CtExited, ct_finished_at := ce_now env 0, ct_exit_code := 137\<rparr>) (cs_containers s)\<rparr>)"
  let ?e = "\<lparr>cev_container_id = ct_id c, cev_pod_sandbox_id = ct_sandbox_id c,
      cev_type = ContainerStoppedEvent, cev_created_at = ce_now env 0, cev_reason = ''StopPodSandbox'',
      cev_message = ''Container stopped by pod sandbox shutdown''\<rparr>"
  let ?s2 = "?s1\<lparr>cs_events := cs_events ?s1 @ [?e]\<rparr>"
  have exits: "advances (exit_containers k env 1 (ce_now env 0) [c]) s (Done ()) ?s2"
    using assms(3) unfolding exit_containers.simps emit_container_event_def
    by (auto intro!: advances_bind [OF advances_mark_exited [OF assms(1,2)]] advances_bind [OF advances_write] adv_refl)
  obtain s3 where s3: "advances (drop_handles_together (map ct_id [c])) ?s2 (Done ()) s3"
    "cs_persist_lock s3 = None" "cs_containers s3 = cs_containers ?s2" "cs_events s3 = cs_events ?s2"
    unfolding drop_handles_together_def using advances_write by (fastforce intro: that)
  from destroy [of s3] obtain s4 b where s4: "advances (destroy_sandbox_vm env p None) s3 (Done (Inr b)) s4"
    "cs_persist_lock s4 = None" "cs_containers s4 = cs_containers s3" "cs_events s4 = cs_events s3" using s3(2) by auto
  obtain s5 where s5: "advances (disconnect_sandbox_network sandbox) s4 (Done ()) s5"
    "cs_persist_lock s5 = None" "cs_containers s5 = cs_containers s4" "cs_events s5 = cs_events s4"
    unfolding disconnect_sandbox_network_def host_call_def using advances_write s4(2) by (fastforce intro: that)
  from update [OF s5(2)] obtain s6 u where
    s6: "advances (update_sandbox_state k (ce_save env 0) p SbNotReady) s5 (Done u) s6"
    "cs_containers s6 = cs_containers s5" "cs_events s6 = cs_events s5" by blast
  have "advances (finish_stop_pod k env sandbox p [c]) s (Done (Inr ())) s6"
    unfolding finish_stop_pod_def
    by (rule advances_bind [OF exits], rule advances_bind [OF s3(1)], rule advances_bind [OF s4(1)],
        rule advances_bind [OF s5(1)], rule advances_bind [OF s6(1)]) (simp add: result_simps adv_refl)
  with s3 s4 s5 s6 show ?thesis by (intro exI [of _ s6]) simp
qed

text \<open>A pod with one running container whose workload outlives the wait, up to the second list.\<close>

lemma stop_pod_lists:
  fixes env :: call_env and s :: cri and c :: container and sb :: pod_sandbox
  assumes "sb_get p (cs_sandboxes s) = Some sb" and "ps_state sb = SbReady"
    and "ct_list (Some p) None (cs_containers s) = [c]" and "ct_state c = CtRunning"
    and "map_of (cs_containers s) (ct_id c) = Some c" and "ct_id c \<in> cs_workload_stops s"
    and "ce_schedule env = []" and "ce_polls env = 0"
  shows "advances (stop_pod_sandbox k env p) s (finish_stop_pod k env sb p [c])
    (s\<lparr>cs_workload_stops := cs_workload_stops s - {ct_id c}, cs_host := cs_host s @ [SendStop (ct_id c)]\<rparr>)"
    (is "advances _ _ _ ?s1")
proof -
  have "advances (stop_container_workload env c) s (Done (Inr False)) ?s1"
    unfolding stop_container_workload_def using assms(4-6,8)
    by (auto simp: get_container_def ct_get_def intro!: advances_bind [OF advances_act] advances_bind [OF advances_read] adv_refl)
  then have "advances (join_all (ce_schedule env) (map (stop_container_workload env) [c])) s (Done [Inr False]) ?s1"
    using assms(7) by (auto intro: advances_bind adv_refl)
  then have workloads: "advances (join_all (ce_schedule env)
      (map (stop_container_workload env) (filter (\<lambda>c. ct_state c = CtRunning) [c]))) s (Done [Inr False]) ?s1"
    using assms(4) by simp
  show ?thesis
    unfolding stop_pod_sandbox_def get_sandbox_def list_containers_def
    by (rule advances_bind [OF advances_read], simp add: assms(1,2), rule advances_bind [OF advances_read],
        simp only: assms(3), rule advances_bind [OF workloads], simp add: task_try_def,
        rule advances_bind [OF advances_read], simp add: assms(3) adv_refl)
qed

text \<open>
  stopping a pod can overwrite a recorded exit. StopPodSandbox marks the containers that had not
  exited when it listed them, without looking again. When a workload exits after the list, its
  supervisor records the real exit code and announces it; then the pod's stop replaces the code by
  137 and announces a second stop of the same container.
\<close>

lemma stop_pod_overwrites_exit:
  fixes env :: call_env and s :: cri and c :: container and sb :: pod_sandbox
  assumes "cs_persist_lock s = None" and "sb_get p (cs_sandboxes s) = Some sb" and "ps_state sb = SbReady"
    and "ct_list (Some p) None (cs_containers s) = [c]" and "ct_state c = CtRunning"
    and "map_of (cs_containers s) (ct_id c) = Some c" and "ct_id c \<in> cs_workload_stops s"
    and "ce_schedule env = []" and "ce_polls env = 0" and "ce_destroy env = Inr ()" and "0 \<le> sint code"
  shows "\<exists>s' c' e1 e2. task_run cri_calls s (s', [Done (Inr ()), Done (Inr ())]) \<and>
    map_of (cs_containers s') (ct_id c) = Some c' \<and> ct_exit_code c' = 137 \<and> ct_oom_killed c' = oom \<and>
    cs_events s' = cs_events s @ [e1, e2] \<and>
    cev_container_id e1 = ct_id c \<and> cev_type e1 = ContainerStoppedEvent \<and>
    cev_message e1 = ''Container workload exited with code '' @ show_i32 code \<and>
    cev_container_id e2 = ct_id c \<and> cev_type e2 = ContainerStoppedEvent"
proof -
  let ?i = "ct_id c" and ?stop = "stop_pod_sandbox 0 env p"
  let ?exit = "supervisor_exit 1 env ?i p code oom"
  let ?rest = "finish_stop_pod 0 env sb p [c]"
  let ?e1 = "\<lparr>cev_container_id = ?i, cev_pod_sandbox_id = p, cev_type = ContainerStoppedEvent,
    cev_created_at = ce_now env 0, cev_reason = ''ContainerStopped'',
    cev_message = ''Container workload exited with code '' @ show_i32 code\<rparr>"
  let ?e2 = "\<lparr>cev_container_id = ?i, cev_pod_sandbox_id = ct_sandbox_id c, cev_type = ContainerStoppedEvent,
    cev_created_at = ce_now env 0, cev_reason = ''StopPodSandbox'',
    cev_message = ''Container stopped by pod sandbox shutdown''\<rparr>"
  let ?s1 = "s\<lparr>cs_workload_stops := cs_workload_stops s - {?i}, cs_host := cs_host s @ [SendStop ?i]\<rparr>"
  have "advances ?stop s ?rest ?s1" by (rule stop_pod_lists [OF assms(2-9)])
  moreover have "task_run cri_calls s (s, [?stop, ?exit])" by (rule run_two) (rule cri_calls.intros)+
  ultimately have r1: "task_run cri_calls s (?s1, [?rest, ?exit])"
    using run_advance [of ?stop s ?rest ?s1 cri_calls s "[?stop, ?exit]" 0] by simp
  have m1: "map_of (cs_containers ?s1) ?i = Some c" "cs_persist_lock ?s1 = None" using assms(1,6) by simp_all
  from supervisor_records [OF m1(2,1) assms(5,11), of 1 env p oom] obtain s2 where
    s2: "advances ?exit ?s1 (Done (Inr ())) s2" "cs_persist_lock s2 = None"
      "cs_containers s2 = AList.update ?i (c\<lparr>ct_state := CtExited, ct_finished_at := ce_now env 0, ct_exit_code := code,
        ct_oom_killed := oom\<rparr>) (cs_containers s)"
      "cs_events s2 = cs_events s @ [?e1]" by auto
  from run_advance [OF s2(1) r1, of 1] have r2: "task_run cri_calls s (s2, [?rest, Done (Inr ())])" by simp
  have "map_of (cs_containers s2) ?i = Some (c\<lparr>ct_state := CtExited, ct_finished_at := ce_now env 0, ct_exit_code := code,
        ct_oom_killed := oom\<rparr>)" by (simp add: s2(3) update_conv')
  from finish_stop_pod_exits [OF s2(2) this _ assms(10), of 0 sb p] obtain s3 where
    s3: "advances ?rest s2 (Done (Inr ())) s3"
      "map_of (cs_containers s3) ?i = Some (c\<lparr>ct_state := CtExited, ct_finished_at := ce_now env 0, ct_exit_code := 137,
        ct_oom_killed := oom\<rparr>)"
      "cs_events s3 = cs_events s2 @ [?e2]"
    using assms(5) by (auto simp: update_conv')
  from run_advance [OF s3(1) r2, of 0] have "task_run cri_calls s (s3, [Done (Inr ()), Done (Inr ())])" by simp
  with s2(4) s3(2,3) show ?thesis
    by (intro exI [of _ s3] exI [of _ "c\<lparr>ct_state := CtExited, ct_finished_at := ce_now env 0, ct_exit_code := 137,
        ct_oom_killed := oom\<rparr>"] exI [of _ ?e1] exI [of _ ?e2]) simp
qed

section \<open>Restart\<close>

lemma update_middle: "k \<notin> fst ` set xs \<Longrightarrow> AList.update k v (xs @ (k, w) # ys) = xs @ (k, v) # ys"
  by (induction xs) auto

lemma map_of_middle: "k \<notin> fst ` set xs \<Longrightarrow> map_of (xs @ (k, w) # ys) k = Some w"
  by (induction xs) auto

text \<open>The entries of a table, by identifier.\<close>

definition entries :: "('v \<Rightarrow> string) \<Rightarrow> 'v list \<Rightarrow> (string \<times> 'v) list" where
  "entries key vs = map (\<lambda>v. (key v, v)) vs"

lemma entries_simps [simp]:
  "entries key [] = []" "entries key (v # vs) = (key v, v) # entries key vs"
  "entries key (xs @ ys) = entries key xs @ entries key ys" "fst ` set (entries key vs) = key ` set vs"
  by (auto simp: entries_def image_iff)

lemma advances_orphan_sandboxes:
  assumes "cs_persist_lock s = None" and "distinct (map ps_id (done @ sbs))"
    and "cs_sandboxes s = entries ps_id (done @ sbs)"
  shows "\<exists>s'. advances (orphan_sandboxes k env n {} sbs) s (Done ()) s' \<and> cs_persist_lock s' = None \<and>
    cs_sandboxes s' = entries ps_id (done @ map (\<lambda>sb. sb\<lparr>ps_state := SbNotReady\<rparr>) sbs) \<and>
    cs_containers s' = cs_containers s \<and>
    cs_host s' = cs_host s @ concat (map (\<lambda>sb. [ReapOrphanedBox (ps_id sb), CleanupSandboxRootfs (ps_id sb)]) sbs)"
  using assms
proof (induction sbs arbitrary: s "done" n)
  case Nil
  then show ?case by (intro exI [of _ s]) (simp add: adv_refl)
next
  case (Cons sb sbs)
  let ?sb = "sb\<lparr>ps_state := SbNotReady\<rparr>"
  let ?s1 = "flushed k (ce_save env n) (s\<lparr>cs_sandboxes := entries ps_id (done @ ?sb # sbs)\<rparr>)"
  let ?s2 = "?s1\<lparr>cs_host := cs_host s @ [ReapOrphanedBox (ps_id sb)]\<rparr>"
  let ?s3 = "?s2\<lparr>cs_host := cs_host s @ [ReapOrphanedBox (ps_id sb), CleanupSandboxRootfs (ps_id sb)]\<rparr>"
  have sb: "ps_id sb \<notin> fst ` set (entries ps_id done)" using Cons.prems(2) by auto
  have e: "cs_sandboxes s = entries ps_id done @ (ps_id sb, sb) # entries ps_id sbs" using Cons.prems(3) by simp
  have "map_of (cs_sandboxes s) (ps_id sb) = Some sb" unfolding e by (rule map_of_middle [OF sb])
  moreover have "AList.update (ps_id sb) ?sb (cs_sandboxes s) = entries ps_id (done @ ?sb # sbs)"
    unfolding e update_middle [OF sb] by simp
  ultimately have "on_sandboxes (sb_update_state (ps_id sb) SbNotReady) s =
      (True, s\<lparr>cs_sandboxes := entries ps_id (done @ ?sb # sbs)\<rparr>)"
    by (simp add: on_sandboxes_def sb_update_state_def with_entry_def)
  then have upd: "advances (update_sandbox_state k (ce_save env n) (ps_id sb) SbNotReady) s (Done True) ?s1"
    using Cons.prems(1)
      advances_store_op [of "on_sandboxes (sb_update_state (ps_id sb) SbNotReady)" s True _ "\<lambda>updated. updated" k "ce_save env n"]
    by (simp add: update_sandbox_state_def)
  have h1: "advances (host_call (ReapOrphanedBox (ps_id sb))) ?s1 (Done ()) ?s2"
    using advances_write [of "\<lambda>s. s\<lparr>cs_host := cs_host s @ [ReapOrphanedBox (ps_id sb)]\<rparr>" ?s1] by (simp add: host_call_def)
  have h2: "advances (cleanup_sandbox_rootfs (ps_id sb)) ?s2 (Done ()) ?s3"
    using advances_write [of "\<lambda>s. s\<lparr>cs_host := cs_host s @ [CleanupSandboxRootfs (ps_id sb)]\<rparr>" ?s2]
    by (simp add: host_call_def cleanup_sandbox_rootfs_def)
  from Cons.IH [of ?s3 "done @ [?sb]" "Suc n"] Cons.prems obtain s' where
    s': "advances (orphan_sandboxes k env (Suc n) {} sbs) ?s3 (Done ()) s'" "cs_persist_lock s' = None"
      "cs_sandboxes s' = entries ps_id (done @ map (\<lambda>sb. sb\<lparr>ps_state := SbNotReady\<rparr>) (sb # sbs))"
      "cs_containers s' = cs_containers s"
      "cs_host s' = cs_host s @ concat (map (\<lambda>sb. [ReapOrphanedBox (ps_id sb), CleanupSandboxRootfs (ps_id sb)]) (sb # sbs))"
    by auto
  have "advances (orphan_sandboxes k env n {} (sb # sbs)) s (Done ()) s'"
    by (simp, rule advances_bind [OF upd], rule advances_bind [OF h1], rule advances_bind [OF h2], rule s'(1))
  with s' show ?case by blast
qed

definition exited_at :: "i64 \<Rightarrow> container \<Rightarrow> container" where
  "exited_at now c =
     (if ct_state c = CtExited then c
      else c\<lparr>ct_state := CtExited, ct_finished_at := now, ct_exit_code := 255\<rparr>)"

lemma exited_at_id [simp]: "ct_id (exited_at now c) = ct_id c"
  by (simp add: exited_at_def)

lemma advances_orphan_containers:
  assumes "cs_persist_lock s = None" and "distinct (map ct_id (done @ cs))"
    and "cs_containers s = entries ct_id (done @ cs)"
  shows "\<exists>s'. advances (orphan_containers k env n {} cs) s (Done ()) s' \<and>
    cs_containers s' = entries ct_id (done @ map (exited_at (ce_now env 0)) cs) \<and>
    cs_sandboxes s' = cs_sandboxes s \<and> cs_host s' = cs_host s"
  using assms
proof (induction cs arbitrary: s "done" n)
  case Nil
  then show ?case by (intro exI [of _ s]) (simp add: adv_refl)
next
  case (Cons c cs)
  let ?c = "exited_at (ce_now env 0) c"
  show ?case
  proof (cases "ct_state c = CtExited")
    case True
    with Cons.IH [of s "done @ [c]" n] Cons.prems show ?thesis by (simp add: exited_at_def)
  next
    case False
    have c: "ct_id c \<notin> fst ` set (entries ct_id done)" using Cons.prems(2) by auto
    have e: "cs_containers s = entries ct_id done @ (ct_id c, c) # entries ct_id cs" using Cons.prems(3) by simp
    have m: "map_of (cs_containers s) (ct_id c) = Some c" unfolding e by (rule map_of_middle [OF c])
    have "AList.update (ct_id c) ?c (cs_containers s) = entries ct_id (done @ ?c # cs)"
      unfolding e update_middle [OF c] by simp
    with advances_mark_exited [OF Cons.prems(1) m, of k "ce_save env n" "ce_now env 0" 255] False
    have upd: "advances (mark_container_exited k (ce_save env n) (ct_id c) (ce_now env 0) 255) s (Done True)
        (flushed k (ce_save env n) (s\<lparr>cs_containers := entries ct_id (done @ ?c # cs)\<rparr>))"
      by (simp add: exited_at_def)
    from Cons.IH [of "flushed k (ce_save env n) (s\<lparr>cs_containers := entries ct_id (done @ ?c # cs)\<rparr>)" "done @ [?c]" "Suc n"]
      Cons.prems obtain s' where
      s': "advances (orphan_containers k env (Suc n) {} cs)
          (flushed k (ce_save env n) (s\<lparr>cs_containers := entries ct_id (done @ ?c # cs)\<rparr>)) (Done ()) s'"
        "cs_containers s' = entries ct_id (done @ map (exited_at (ce_now env 0)) (c # cs))"
        "cs_sandboxes s' = cs_sandboxes s" "cs_host s' = cs_host s" by auto
    have "advances (orphan_containers k env n {} (c # cs)) s (Done ()) s'"
      using False by (simp, intro advances_bind [OF upd s'(1)])
    with s' show ?thesis by blast
  qed
qed

text \<open>
  C11: a restart reports every pod as lost. The server that starts from the state file marks each
  sandbox as not ready and each container that has not exited as exited with code 255, keeps what
  exited containers recorded, and reaps each sandbox once, in the order of the file, whatever
  writes fail on the way.
\<close>

theorem restart_reconciles:
  assumes "disk_snapshot d = Some st" and "state_keyed st"
  shows "\<exists>s'. load_state None qf d = (True, booted st d) \<and>
    advances (reconcile_loaded k env) (booted st d) (Done (Inr ())) s' \<and>
    sb_list None (cs_sandboxes s') = map (\<lambda>sb. sb\<lparr>ps_state := SbNotReady\<rparr>) (pst_sandboxes st) \<and>
    ct_list None None (cs_containers s') = map (exited_at (ce_now env 0)) (pst_containers st) \<and>
    cs_host s' = concat (map (\<lambda>sb. [ReapOrphanedBox (ps_id sb), CleanupSandboxRootfs (ps_id sb)]) (pst_sandboxes st))"
proof -
  let ?b = "booted st d"
  have b: "cs_sandboxes ?b = entries ps_id (pst_sandboxes st)" "cs_containers ?b = entries ct_id (pst_containers st)"
    "cs_persist_lock ?b = None" "cs_vm_managers ?b = {}" "cs_host ?b = []"
    by (simp_all add: booted_def populate_keyed [OF assms(2)] entries_def)
  have snd_entries: "map snd (entries ps_id sbs) = sbs" "map snd (entries ct_id cs) = cs" for sbs cs
    by (simp_all add: entries_def comp_def)
  from advances_orphan_sandboxes [of ?b "[]" "pst_sandboxes st" k env 0] assms(2) obtain s1 where
    s1: "advances (orphan_sandboxes k env 0 {} (pst_sandboxes st)) ?b (Done ()) s1" "cs_persist_lock s1 = None"
      "cs_sandboxes s1 = entries ps_id (map (\<lambda>sb. sb\<lparr>ps_state := SbNotReady\<rparr>) (pst_sandboxes st))"
      "cs_containers s1 = entries ct_id (pst_containers st)"
      "cs_host s1 = concat (map (\<lambda>sb. [ReapOrphanedBox (ps_id sb), CleanupSandboxRootfs (ps_id sb)]) (pst_sandboxes st))"
    by (auto simp: b state_keyed_def)
  from advances_orphan_containers [of s1 "[]" "pst_containers st" k env "length (pst_sandboxes st)"] s1 assms(2) obtain s2 where
    s2: "advances (orphan_containers k env (length (pst_sandboxes st)) {} (pst_containers st)) s1 (Done ()) s2"
      "cs_containers s2 = entries ct_id (map (exited_at (ce_now env 0)) (pst_containers st))"
      "cs_sandboxes s2 = cs_sandboxes s1" "cs_host s2 = cs_host s1"
    by (auto simp: state_keyed_def)
  have "advances (reconcile_loaded k env) ?b (Done (Inr ())) s2"
    unfolding reconcile_loaded_def
    by (rule advances_bind [OF advances_read], rule advances_bind [OF advances_read],
        simp only: b list_all_entries snd_entries, rule advances_bind [OF s1(1)],
        rule advances_bind [OF advances_read], simp only: s1 list_all_entries snd_entries,
        rule advances_bind [OF s2(1)], rule adv_refl)
  then show ?thesis
    using load_snapshot [OF assms(1)] s1 s2 by (intro exI [of _ s2]) (simp add: list_all_entries snd_entries)
qed

section \<open>A pod, a container and a machine\<close>

definition sample_env :: call_env where
  "sample_env =
     \<lparr>ce_now = (\<lambda>n. 7), ce_save = (\<lambda>n. no_save_faults), ce_destroy = Inr (), ce_polls = 0, ce_schedule = [],
      ce_image = Inr (), ce_vm_ready = Inr (), ce_exec_socket = Some ''/x/exec.sock'',
      ce_pty_socket = None, ce_spawn = Inr (), ce_prepare = Inr (),
      ce_network = Inr None, ce_boot = Inr ()\<rparr>"

definition sample_container :: container where
  "sample_container =
     \<lparr>ct_id = ''c1'', ct_sandbox_id = ''p1'', ct_name = ''web'', ct_attempt = 0, ct_image_ref = [],
      ct_resolved_image_digest = [], ct_resolved_image_path = [], ct_command = [''/bin/web''], ct_args = [],
      ct_env = [], ct_working_dir = [], ct_user = None, ct_stdin = False, ct_stdin_once = False, ct_tty = False,
      ct_mounts = [], ct_state = CtCreated, ct_created_at = 5, ct_started_at = 0, ct_finished_at = 0,
      ct_exit_code = 0, ct_oom_killed = False, ct_labels = Map.empty, ct_annotations = Map.empty,
      ct_log_path = ''/log/c1'', ct_rootfs_path = [], ct_rootfs_guest_path = []\<rparr>"

definition sample_sandbox :: pod_sandbox where
  "sample_sandbox =
     \<lparr>ps_id = ''p1'', ps_name = ''pod'', ps_namespace = ''default'', ps_uid = ''u1'', ps_attempt = 0,
      ps_state = SbReady, ps_created_at = 4, ps_labels = Map.empty, ps_annotations = Map.empty,
      ps_log_directory = ''/log'', ps_runtime_handler = [], ps_network_ip = [], ps_additional_ips = [],
      ps_dns = \<lparr>sd_servers = [], sd_searches = [], sd_options = []\<rparr>, ps_container_ports = []\<rparr>"

definition sample_state :: persisted_state where
  "sample_state = \<lparr>pst_sandboxes = [sample_sandbox], pst_containers = [sample_container]\<rparr>"

text \<open>The server after a restart from \<open>sample_state\<close>, with the machine of the pod running again.\<close>

definition sample_cri :: cri where
  "sample_cri = (booted sample_state (sample_disk sample_state))\<lparr>cs_vm_managers := {''p1''}\<rparr>"

lemma sample_loaded:
  "disk_snapshot (sample_disk sample_state) = Some sample_state" "state_keyed sample_state"
  by (simp_all add: disk_snapshot_def sample_disk_def state_keyed_def sample_state_def)

lemma sample_cri_fields:
  "cs_persist_lock sample_cri = None" "map_of (cs_containers sample_cri) ''c1'' = Some sample_container"
  "cs_vm_managers sample_cri = {''p1''}" "cs_host sample_cri = []"
  by (simp_all add: sample_cri_def booted_def populate_def sample_state_def ct_add_def sample_container_def)

lemma sample_startable:
  "start_precondition sample_env sample_container = Inr ()" "start_sockets sample_env sample_container True = Inr ()"
  by (simp_all add: start_precondition_def start_sockets_def ensure_container_image_available_def to_exec_request_def
      sample_container_def sample_env_def result_simps)

theorem stop_start_race_witness:
  "\<exists>s'. task_run cri_calls sample_cri (s', [Done (Inr ()), Done (Inr ())]) \<and>
     SpawnWorkload 0 ''c1'' \<in> set (cs_host s') \<and> SendStop ''c1'' \<notin> set (cs_host s') \<and>
     (\<exists>c'. map_of (cs_containers s') ''c1'' = Some c' \<and> ct_state c' = CtExited)"
proof -
  have c: "ct_id sample_container = ''c1''" "ct_state sample_container = CtCreated"
    "ct_sandbox_id sample_container \<in> cs_vm_managers sample_cri"
    "\<not> (ct_tty sample_container \<and> ce_pty_socket sample_env = None)" "ce_spawn sample_env = Inr ()"
    by (simp_all add: sample_cri_fields sample_container_def sample_env_def)
  from stop_start_race [OF sample_cri_fields(1,2) c(1,2) sample_startable(1) c(3) sample_startable(2) c(4,5)]
  show ?thesis by (auto simp: sample_cri_fields)
qed

definition sample_start_run :: "(cri, status + unit) task list" where
  "sample_start_run = [start_container 0 sample_env ''c1'']"

definition sample_running_cri :: cri where
  "sample_running_cri = sample_cri\<lparr>cs_containers := [(''c1'', sample_container\<lparr>ct_state := CtRunning\<rparr>)],
     cs_workload_stops := {''c1''}\<rparr>"

lemma stop_pod_overwrites_exit_witness:
  "\<exists>s' c'. task_run cri_calls sample_running_cri (s', [Done (Inr ()), Done (Inr ())]) \<and>
     map_of (cs_containers s') ''c1'' = Some c' \<and> ct_exit_code c' = 137 \<and> length (cs_events s') = 2"
proof -
  let ?s = sample_running_cri and ?c = "sample_container\<lparr>ct_state := CtRunning\<rparr>"
  have s: "cs_persist_lock ?s = None" "sb_get ''p1'' (cs_sandboxes ?s) = Some sample_sandbox" "ps_state sample_sandbox = SbReady"
    "ct_list (Some ''p1'') None (cs_containers ?s) = [?c]" "ct_state ?c = CtRunning"
    "map_of (cs_containers ?s) (ct_id ?c) = Some ?c" "ct_id ?c \<in> cs_workload_stops ?s" "cs_events ?s = []" "ct_id ?c = ''c1''"
    by (simp_all add: sample_running_cri_def sample_cri_def booted_def populate_def sample_state_def ct_add_def sb_add_def
        sample_container_def sample_sandbox_def sb_get_def ct_list_def labels_match_def)
  have e: "ce_schedule sample_env = []" "ce_polls sample_env = 0" "ce_destroy sample_env = Inr ()" "0 \<le> sint (3 :: i32)"
    by (simp_all add: sample_env_def)
  from stop_pod_overwrites_exit [OF s(1-7) e] show ?thesis by (fastforce simp: s(8,9))
qed

theorem workload_started_once_witness:
  "\<exists>s. task_run cri_calls (booted sample_state (sample_disk sample_state)) (s, sample_start_run) \<and>
     length (filter (\<lambda>h. \<exists>k. h = SpawnWorkload k ''c1'') (cs_host s)) \<le> 1"
proof -
  let ?b = "booted sample_state (sample_disk sample_state)"
  have "task_run cri_calls ?b (?b, sample_start_run)"
    using run_accept [OF task_run.start, of "start_container 0 sample_env ''c1''" cri_calls ?b]
    by (simp add: sample_start_run_def call_start)
  with workload_started_once [OF sample_loaded, of ?b sample_start_run "''c1''" 0] show ?thesis by blast
qed


theorem crash_restartable_witness:
  "\<exists>st'. disk_snapshot (crash ''eof'' (sample_disk sample_state)) = Some st' \<and> state_keyed st'"
proof -
  have "cs_disk (booted sample_state (sample_disk sample_state)) = sample_disk sample_state"
    by (simp add: booted_def split: prod.split)
  with crash_restartable [OF sample_loaded task_run.start, of "''eof''"] show ?thesis by fastforce
qed

theorem restart_reconciles_witness:
  "\<exists>s'. advances (reconcile_loaded 0 sample_env) (booted sample_state (sample_disk sample_state)) (Done (Inr ())) s' \<and>
     map ct_exit_code (ct_list None None (cs_containers s')) = [255] \<and>
     cs_host s' = [ReapOrphanedBox ''p1'', CleanupSandboxRootfs ''p1'']"
  using restart_reconciles [OF sample_loaded, of "\<lparr>qf_now_secs = 1, qf_rename_ok = True, qf_copy_ok = True\<rparr>" 0 sample_env]
  by (auto simp: sample_state_def exited_at_def sample_container_def sample_sandbox_def)

end
