(* ===== verification/Pool_Scaler.thy ===== *)
theory Pool_Scaler
  imports Box_Config "HOL-Library.Log_Nat"
begin

text \<open>
  \<open>runtime/src/pool/scaler.rs\<close>: the autoscaler of the warm pool. It keeps a sliding window of
  acquisitions and moves the number of idle machines that the pool maintains by one at a time.

  An \<open>Instant\<close> is a number of nanoseconds; a call reads the clock once. Doubles are their bit
  patterns; an arithmetic operation is the exact result rounded to the nearest double, ties to even.
  NaN and the infinities do not occur: thresholds come from JSON and the rates are finite.
\<close>

section \<open>Doubles\<close>

definition pow2 :: "int \<Rightarrow> rat" where
  "pow2 e = (if 0 \<le> e then 2 ^ nat e else 1 / 2 ^ nat (- e))"

definition f64_finite :: "f64 \<Rightarrow> bool" where
  "f64_finite w \<longleftrightarrow> (unat w div 2 ^ 52) mod 2 ^ 11 \<noteq> 2047"

definition f64_value :: "f64 \<Rightarrow> rat" where
  "f64_value w =
     (let e = (unat w div 2 ^ 52) mod 2 ^ 11; m = unat w mod 2 ^ 52;
          a = (if e = 0 then of_nat m * pow2 (- 1074) else of_nat (2 ^ 52 + m) * pow2 (int e - 1075))
      in if bit w 63 then - a else a)"

text \<open>The exponent of the last place of a double near a positive rational.\<close>

definition f64_ulp :: "rat \<Rightarrow> int" where
  "f64_ulp x =
     (case quotient_of x of (n, d) \<Rightarrow>
        let e = int (floorlog 2 (nat n)) - int (floorlog 2 (nat d))
        in max (- 1074) ((if pow2 e \<le> x then e else e - 1) - 52))"

definition round_half_even :: "rat \<Rightarrow> int" where
  "round_half_even x =
     (let q = \<lfloor>x\<rfloor>; r = x - of_int q
      in if r < 1 / 2 \<or> r = 1 / 2 \<and> even q then q else q + 1)"

definition f64_round :: "rat \<Rightarrow> rat" where
  "f64_round x =
     (if x = 0 then 0
      else if 0 < x then of_int (round_half_even (x / pow2 (f64_ulp x))) * pow2 (f64_ulp x)
      else - (of_int (round_half_even (- x / pow2 (f64_ulp (- x)))) * pow2 (f64_ulp (- x))))"

section \<open>The window of acquisitions\<close>

type_synonym instant = int

definition nanos :: int where
  "nanos = 1000000000"

text \<open>\<open>Instant::checked_sub\<close>: an instant has a signed 64-bit number of seconds.\<close>

definition instant_checked_sub :: "instant \<Rightarrow> u64 \<Rightarrow> instant option" where
  "instant_checked_sub t secs =
     (let t' = t - uint secs * nanos in if t' div nanos < - (2 ^ 63) then None else Some t')"

definition elapsed_secs :: "instant \<Rightarrow> instant \<Rightarrow> int" where
  "elapsed_secs now since = max 0 (now - since) div nanos"

record pressure_window =
  pw_events :: "(instant \<times> bool) list"
  pw_window :: u64

definition pressure_window_new :: "u64 \<Rightarrow> pressure_window" where
  "pressure_window_new secs = \<lparr>pw_events = [], pw_window = secs\<rparr>"

definition prune_events :: "instant \<Rightarrow> pressure_window \<Rightarrow> pressure_window" where
  "prune_events now w =
     (let cutoff = (case instant_checked_sub now (pw_window w) of None \<Rightarrow> now | Some c \<Rightarrow> c)
      in w\<lparr>pw_events := dropWhile (\<lambda>e. fst e < cutoff) (pw_events w)\<rparr>)"

definition record_event :: "instant \<Rightarrow> bool \<Rightarrow> pressure_window \<Rightarrow> pressure_window" where
  "record_event now hit w = prune_events now (w\<lparr>pw_events := pw_events w @ [(now, hit)]\<rparr>)"

definition miss_rate :: "instant \<Rightarrow> pressure_window \<Rightarrow> rat option \<times> pressure_window" where
  "miss_rate now w =
     (let w' = prune_events now w
      in if pw_events w' = [] then (None, w')
         else (Some (f64_round (f64_round (of_nat (length (filter (\<lambda>e. \<not> snd e) (pw_events w')))) /
                 f64_round (of_nat (length (pw_events w'))))), w'))"

section \<open>The scaler\<close>

datatype scale_decision = ScaleUp nat | ScaleDown nat | Hold

record pool_scaler =
  psc_policy :: scaling_policy
  psc_window :: pressure_window
  psc_last_scale_at :: "instant option"
  psc_current_min_idle :: u64
  psc_max_min_idle :: u64
  psc_gateway_pressure :: rat
  psc_gateway_pressure_at :: "instant option"

definition pool_scaler_new :: "scaling_policy \<Rightarrow> u64 \<Rightarrow> u64 \<Rightarrow> pool_scaler" where
  "pool_scaler_new policy initial_min_idle max_size =
     \<lparr>psc_policy = policy,
      psc_window = pressure_window_new (sp_window_secs policy),
      psc_last_scale_at = None,
      psc_current_min_idle = initial_min_idle,
      psc_max_min_idle = (if 0 < sp_max_min_idle policy then min (sp_max_min_idle policy) max_size else max_size),
      psc_gateway_pressure = 0,
      psc_gateway_pressure_at = None\<rparr>"

definition record_acquire :: "instant \<Rightarrow> bool \<Rightarrow> pool_scaler \<Rightarrow> pool_scaler" where
  "record_acquire now hit s = s\<lparr>psc_window := record_event now hit (psc_window s)\<rparr>"

definition update_gateway_pressure :: "instant \<Rightarrow> rat \<Rightarrow> pool_scaler \<Rightarrow> pool_scaler" where
  "update_gateway_pressure now p s =
     s\<lparr>psc_gateway_pressure := (if p < 0 then 0 else if 1 < p then 1 else p), psc_gateway_pressure_at := Some now\<rparr>"

definition is_gateway_pressure_fresh :: "instant \<Rightarrow> pool_scaler \<Rightarrow> bool" where
  "is_gateway_pressure_fresh now s \<longleftrightarrow>
     (case psc_gateway_pressure_at s of
        None \<Rightarrow> False
      | Some since \<Rightarrow> elapsed_secs now since < uint (sp_window_secs (psc_policy s) * 2))"

definition effective_miss_rate :: "instant \<Rightarrow> pool_scaler \<Rightarrow> rat option \<times> pool_scaler" where
  "effective_miss_rate now s =
     (case miss_rate now (psc_window s) of (rate, w) \<Rightarrow>
        (map_option (\<lambda>local.
           if is_gateway_pressure_fresh now s \<and> 0 < psc_gateway_pressure s
           then f64_round (f64_round (local * f64_value 0x3FE3333333333333) +
                  f64_round (psc_gateway_pressure s * f64_value 0x3FD999999999999A))
           else local) rate,
         s\<lparr>psc_window := w\<rparr>))"

definition cooling_down :: "instant \<Rightarrow> pool_scaler \<Rightarrow> bool" where
  "cooling_down now s \<longleftrightarrow>
     (case psc_last_scale_at s of
        None \<Rightarrow> False
      | Some lst \<Rightarrow> elapsed_secs now lst < uint (sp_cooldown_secs (psc_policy s)))"

definition scale_by_rate :: "instant \<Rightarrow> rat \<Rightarrow> pool_scaler \<Rightarrow> scale_decision \<times> pool_scaler" where
  "scale_by_rate now rate s =
     (let cur = psc_current_min_idle s
      in if f64_value (sp_scale_up_threshold (psc_policy s)) < rate
         then let new_min = min (cur + 1) (psc_max_min_idle s)
              in if cur < new_min
                 then (ScaleUp 1, s\<lparr>psc_current_min_idle := new_min, psc_last_scale_at := Some now\<rparr>)
                 else (Hold, s)
         else if rate < f64_value (sp_scale_down_threshold (psc_policy s))
         then let new_min = max (if cur = 0 then 0 else cur - 1) 1
              in if new_min < cur
                 then (ScaleDown 1, s\<lparr>psc_current_min_idle := new_min, psc_last_scale_at := Some now\<rparr>)
                 else (Hold, s)
         else (Hold, s))"

definition evaluate :: "instant \<Rightarrow> pool_scaler \<Rightarrow> scale_decision \<times> pool_scaler" where
  "evaluate now s =
     (if cooling_down now s \<or> length (pw_events (psc_window s)) < 3 then (Hold, s)
      else case effective_miss_rate now s of
        (None, s') \<Rightarrow> (Hold, s')
      | (Some rate, s') \<Rightarrow> scale_by_rate now rate s')"

section \<open>Bounds\<close>

definition scaler_ok :: "u64 \<Rightarrow> pool_scaler \<Rightarrow> bool" where
  "scaler_ok max_size s \<longleftrightarrow> psc_current_min_idle s \<le> max_size \<and> psc_max_min_idle s \<le> max_size"

lemma scaler_ok_new [simp]: "init \<le> max_size \<Longrightarrow> scaler_ok max_size (pool_scaler_new policy init max_size)"
  by (auto simp: scaler_ok_def pool_scaler_new_def)

lemma scaler_ok_record [simp]: "scaler_ok m (record_acquire now hit s) = scaler_ok m s"
  by (simp add: scaler_ok_def record_acquire_def)

lemma scaler_ok_gateway [simp]: "scaler_ok m (update_gateway_pressure now p s) = scaler_ok m s"
  by (simp add: scaler_ok_def update_gateway_pressure_def)

lemma effective_miss_rate_snd: "\<exists>w. snd (effective_miss_rate now s) = s\<lparr>psc_window := w\<rparr>"
  by (auto simp: effective_miss_rate_def split: prod.splits)

lemma scale_by_rate_bound: "scaler_ok m s \<Longrightarrow> scaler_ok m (snd (scale_by_rate now rate s))"
  by (auto simp: scaler_ok_def scale_by_rate_def Let_def min_def max_def)

lemma scaler_ok_evaluate [simp]: "scaler_ok m s \<Longrightarrow> scaler_ok m (snd (evaluate now s))"
proof -
  assume ok: "scaler_ok m s"
  obtain w where w: "snd (effective_miss_rate now s) = s\<lparr>psc_window := w\<rparr>" using effective_miss_rate_snd by blast
  with ok have "scaler_ok m (snd (effective_miss_rate now s))" by (simp add: scaler_ok_def)
  with ok show ?thesis by (auto simp: evaluate_def intro: scale_by_rate_bound split: prod.splits option.splits)
qed


section \<open>Runs of the scaler\<close>

datatype scaler_call = Record_Acquire instant bool | Update_Gateway instant rat | Evaluate instant

fun scaler_call_step :: "pool_scaler \<Rightarrow> scaler_call \<Rightarrow> scale_decision \<times> pool_scaler" where
  "scaler_call_step s (Record_Acquire now hit) = (Hold, record_acquire now hit s)"
| "scaler_call_step s (Update_Gateway now p) = (Hold, update_gateway_pressure now p s)"
| "scaler_call_step s (Evaluate now) = evaluate now s"

fun call_time :: "scaler_call \<Rightarrow> instant" where
  "call_time (Record_Acquire now _) = now"
| "call_time (Update_Gateway now _) = now"
| "call_time (Evaluate now) = now"

text \<open>The decisions that changed the target, with their times and the targets chosen.\<close>

fun scaler_changes :: "pool_scaler \<Rightarrow> scaler_call list \<Rightarrow> (instant \<times> u64) list" where
  "scaler_changes s [] = []"
| "scaler_changes s (c # cs) =
     (case scaler_call_step s c of (d, s') \<Rightarrow>
        (if d = Hold then [] else [(call_time c, psc_current_min_idle s')]) @ scaler_changes s' cs)"

lemma decision_effect:
  assumes "scaler_call_step s c = (d, s')"
  shows "psc_policy s' = psc_policy s"
    and "d = Hold \<Longrightarrow> psc_current_min_idle s' = psc_current_min_idle s \<and> psc_last_scale_at s' = psc_last_scale_at s"
    and "d \<noteq> Hold \<Longrightarrow> \<not> cooling_down (call_time c) s \<and> psc_last_scale_at s' = Some (call_time c) \<and>
      psc_current_min_idle s' \<noteq> psc_current_min_idle s"
  using assms
  by (cases c; auto simp: record_acquire_def update_gateway_pressure_def evaluate_def scale_by_rate_def
        effective_miss_rate_def Let_def split: if_splits prod.splits option.splits)+

lemma scaler_call_ok: "scaler_ok m s \<Longrightarrow> scaler_call_step s c = (d, s') \<Longrightarrow> scaler_ok m s'"
  by (cases c) (auto, metis scaler_ok_evaluate snd_conv)

lemma changes_bounded:
  "scaler_ok m s \<Longrightarrow> (t, target) \<in> set (scaler_changes s cs) \<Longrightarrow> target \<le> m"
proof (induction cs arbitrary: s)
  case (Cons c cs)
  obtain d s' where step: "scaler_call_step s c = (d, s')" by force
  with Cons.prems(1) have "scaler_ok m s'" by (rule scaler_call_ok)
  with Cons step show ?case by (auto simp: scaler_ok_def split: if_splits)
qed simp

definition spaced :: "int \<Rightarrow> instant option \<Rightarrow> (instant \<times> u64) list \<Rightarrow> bool" where
  "spaced secs lst xs \<longleftrightarrow>
     successively (\<lambda>t t'. secs \<le> elapsed_secs t' t) (case lst of None \<Rightarrow> map fst xs | Some t \<Rightarrow> t # map fst xs)"

lemma changes_spaced:
  "spaced (uint (sp_cooldown_secs (psc_policy s))) (psc_last_scale_at s) (scaler_changes s cs)"
proof (induction cs arbitrary: s)
  case Nil
  show ?case by (simp add: spaced_def split: option.splits)
next
  case (Cons c cs)
  obtain d s' where step: "scaler_call_step s c = (d, s')" by force
  note effect = decision_effect [OF step]
  show ?case
  proof (cases "d = Hold")
    case True
    with Cons.IH [of s'] effect step show ?thesis by simp
  next
    case False
    with Cons.IH [of s'] effect step show ?thesis
      by (auto simp: spaced_def cooling_down_def split: option.splits)
  qed
qed

text \<open>
  C35: Whatever calls reach the autoscaler of a pool, every target it sets stays within the pool's
  size, and between two changes of the target at least the configured cooldown passes.\<close>

theorem scaler_bounded_and_cooled:
  fixes policy init max_size calls
  defines "changes \<equiv> scaler_changes (pool_scaler_new policy init max_size) calls"
  assumes "init \<le> max_size"
  shows "list_all (\<lambda>(t, target). target \<le> max_size) changes \<and>
    successively (\<lambda>t t'. uint (sp_cooldown_secs policy) \<le> elapsed_secs t' t) (map fst changes)"
proof
  show "list_all (\<lambda>(t, target). target \<le> max_size) changes"
    using changes_bounded scaler_ok_new [OF assms(2)] unfolding changes_def list_all_iff by blast
  show "successively (\<lambda>t t'. uint (sp_cooldown_secs policy) \<le> elapsed_secs t' t) (map fst changes)"
    using changes_spaced [of "pool_scaler_new policy init max_size" calls]
    unfolding changes_def by (simp add: spaced_def pool_scaler_new_def)
qed

theorem scaler_bounded_and_cooled_witness:
  "(2 :: u64) \<le> 10 \<and>
   scaler_changes (pool_scaler_new default_scaling_policy 2 10)
     [Record_Acquire 0 False, Record_Acquire 0 False, Record_Acquire 0 False, Evaluate 1, Evaluate 2] = [(1, 3)] \<and>
   list_all (\<lambda>(t, target). target \<le> 10) (scaler_changes (pool_scaler_new default_scaling_policy 2 10)
      [Record_Acquire 0 False, Record_Acquire 0 False, Record_Acquire 0 False, Evaluate 1, Evaluate 2])"
proof (intro conjI)
  show "list_all (\<lambda>(t, target). target \<le> 10) (scaler_changes (pool_scaler_new default_scaling_policy 2 10)
      [Record_Acquire 0 False, Record_Acquire 0 False, Record_Acquire 0 False, Evaluate 1, Evaluate 2])"
    by (rule scaler_bounded_and_cooled [THEN conjunct1]) simp
  have [simp]: "f64_value 0x3FD3333333333333 = 0x13333333333333 / 2 ^ 54"
    by (simp add: f64_value_def pow2_def Let_def bit_iff_odd)
  have [simp]: "f64_round 1 = 1" "f64_round 3 = 3" by code_simp+
  show "scaler_changes (pool_scaler_new default_scaling_policy 2 10)
     [Record_Acquire 0 False, Record_Acquire 0 False, Record_Acquire 0 False, Evaluate 1, Evaluate 2] = [(1, 3)]"
    by (simp add: pool_scaler_new_def default_scaling_policy_def pressure_window_new_def record_acquire_def
        record_event_def prune_events_def instant_checked_sub_def nanos_def evaluate_def cooling_down_def
        effective_miss_rate_def miss_rate_def scale_by_rate_def is_gateway_pressure_fresh_def elapsed_secs_def Let_def)
qed simp

end
