(* ===== verification/Warm_Pool.thy ===== *)
theory Warm_Pool
  imports Async_Task Pool_Scaler
begin

text \<open>
  \<open>runtime/src/pool/warm_pool.rs\<close>: a pool of machines that are booted ahead of their use. Clients
  acquire and release machines while a background task replenishes the pool and evicts machines that
  were idle too long; shutting down drains the idle machines.

  The pool's fields are behind asynchronous mutexes. A critical section without an await is one step;
  where a guard lives across an await, the lock has an owner field, and the other tasks wait. The
  machines of a replenishing batch are booted by spawned tasks: \<open>wp_spawned\<close> counts those the
  executor has not started, \<open>wp_workers\<close> names those that run, \<open>wp_joined\<close> holds the results that
  \<open>join_next\<close> has not taken. What the host answers (whether a machine boots, becomes ready, can be
  destroyed) and the passing of time are inputs. Events, metrics and log lines are left out, and the
  counters of the statistics do not overflow.

  The fields from \<open>wp_clients\<close> on are not read by the code. They record where a machine's manager is:
  with a client, in the hands of a task (\<open>wp_flight\<close>), or dropped although the host could not bring
  the machine up or down (\<open>wp_failed\<close>); and how many machines the last batch added.
\<close>

section \<open>State\<close>

datatype template_state = Unbuilt | Template_Ready | Failing nat | Unavailable

definition MAX_TEMPLATE_BUILD_FAILURES :: nat where
  "MAX_TEMPLATE_BUILD_FAILURES = 3"

record pool_stats =
  pst_idle_count :: nat
  pst_total_created :: nat
  pst_total_acquired :: nat
  pst_total_released :: nat
  pst_total_evicted :: nat

record pool =
  wp_idle :: "(nat \<times> instant) list"
  wp_idle_lock :: "nat option"
  wp_stats :: pool_stats
  wp_stats_lock :: "nat option"
  wp_shutdown :: bool
  wp_scaler :: "pool_scaler option"
  wp_template :: template_state
  wp_template_lock :: "nat option"
  wp_started :: bool
  wp_handle :: bool
  wp_spawned :: nat
  wp_workers :: "nat set"
  wp_joined :: "nat option list"
  wp_clock :: instant
  wp_next_vm :: nat
  wp_running :: "nat set"
  wp_clients :: "nat list"
  wp_flight :: "(nat \<times> nat) list"
  wp_failed :: "nat set"
  wp_batch :: nat
  wp_build_failures :: nat
  wp_builds :: nat

datatype pool_answer =
    Acquired nat
  | Released
  | Pool_Done
  | Pool_Failed
  | Shut_Down
  | Not_Called

text \<open>What the host answers while a machine is booted, the template included.\<close>

record boot_answers =
  ba_dir :: bool
  ba_source_boot :: bool
  ba_snapshot :: bool
  ba_source_destroy :: bool
  ba_boot :: bool
  ba_ready :: bool

record tick_input =
  tk_shutdown_seen :: bool
  tk_destroys :: "nat \<Rightarrow> bool"

type_synonym 'a pool_task = "(pool, 'a) task"

section \<open>Machines\<close>

definition hold :: "nat \<Rightarrow> nat \<Rightarrow> pool \<Rightarrow> pool" where
  "hold k v s = s\<lparr>wp_flight := (k, v) # wp_flight s\<rparr>"

definition let_go :: "nat \<Rightarrow> nat \<Rightarrow> pool \<Rightarrow> pool" where
  "let_go k v s = s\<lparr>wp_flight := remove1 (k, v) (wp_flight s)\<rparr>"

definition vm_boot :: "nat \<Rightarrow> bool \<Rightarrow> nat option pool_task" where
  "vm_boot k ok = task_act (\<lambda>s.
     if ok then (Some (wp_next_vm s),
       hold k (wp_next_vm s) (s\<lparr>wp_next_vm := Suc (wp_next_vm s), wp_running := insert (wp_next_vm s) (wp_running s)\<rparr>))
     else (None, s))"

definition vm_ready :: "nat \<Rightarrow> nat \<Rightarrow> bool \<Rightarrow> nat option pool_task" where
  "vm_ready k v ok = task_act (\<lambda>s.
     if ok then (Some v, s) else (None, let_go k v (s\<lparr>wp_failed := insert v (wp_failed s)\<rparr>)))"

definition vm_destroy :: "nat \<Rightarrow> nat \<Rightarrow> bool \<Rightarrow> unit pool_task" where
  "vm_destroy k v ok = task_write (\<lambda>s.
     let_go k v (if ok then s\<lparr>wp_running := wp_running s - {v}\<rparr> else s\<lparr>wp_failed := insert v (wp_failed s)\<rparr>))"

section \<open>Locks\<close>

abbreviation idle_free :: "pool \<Rightarrow> bool" where
  "idle_free s \<equiv> wp_idle_lock s = None"

abbreviation stats_free :: "pool \<Rightarrow> bool" where
  "stats_free s \<equiv> wp_stats_lock s = None"

abbreviation template_free :: "pool \<Rightarrow> bool" where
  "template_free s \<equiv> wp_template_lock s = None"

definition on_stats :: "(pool_stats \<Rightarrow> pool_stats) \<Rightarrow> pool \<Rightarrow> pool" where
  "on_stats f s = s\<lparr>wp_stats := f (wp_stats s)\<rparr>"

section \<open>Booting a machine\<close>

definition build_template :: "nat \<Rightarrow> boot_answers \<Rightarrow> bool pool_task" where
  "build_template k a =
     (if \<not> ba_dir a then Done False
      else task_bind (vm_boot k (ba_source_boot a)) (\<lambda>r. case r of
          None \<Rightarrow> Done False
        | Some src \<Rightarrow> task_bind (vm_destroy k src (ba_source_destroy a)) (\<lambda>_. Done (ba_snapshot a))))"

text \<open>\<open>Inr\<close>: the verdict is cached. \<open>Inl n\<close>: a build is due after \<open>n\<close> failures, with the lock held.\<close>

definition look_at_template :: "nat \<Rightarrow> pool \<Rightarrow> (nat + bool) \<times> pool" where
  "look_at_template k s =
     (case wp_template s of
        Template_Ready \<Rightarrow> (Inr True, s)
      | Unavailable \<Rightarrow> (Inr False, s)
      | Failing n \<Rightarrow> (Inl n, s\<lparr>wp_template_lock := Some k\<rparr>)
      | Unbuilt \<Rightarrow> (Inl 0, s\<lparr>wp_template_lock := Some k\<rparr>))"

definition record_template :: "nat \<Rightarrow> bool \<Rightarrow> pool \<Rightarrow> pool" where
  "record_template prior_failures built s =
     (if built then s\<lparr>wp_template := Template_Ready, wp_template_lock := None, wp_builds := Suc (wp_builds s)\<rparr>
      else let failures = prior_failures + 1
        in s\<lparr>wp_template := (if MAX_TEMPLATE_BUILD_FAILURES \<le> failures then Unavailable else Failing failures),
             wp_template_lock := None, wp_build_failures := Suc (wp_build_failures s)\<rparr>)"

definition ensure_template :: "nat \<Rightarrow> boot_answers \<Rightarrow> bool pool_task" where
  "ensure_template k a =
     task_bind (task_when template_free (look_at_template k)) (\<lambda>r. case r of
         Inr verdict \<Rightarrow> Done verdict
       | Inl prior \<Rightarrow> task_bind (build_template k a) (\<lambda>built.
           task_bind (task_write (record_template prior built)) (\<lambda>_. Done built)))"

text \<open>Whether the machine restores from the template only changes the configuration it boots with.\<close>

definition boot_or_restore :: "nat \<Rightarrow> bool \<Rightarrow> boot_answers \<Rightarrow> nat option pool_task" where
  "boot_or_restore k snapshot_fork a =
     task_bind (if snapshot_fork then ensure_template k a else Done False) (\<lambda>_.
     task_bind (vm_boot k (ba_boot a)) (\<lambda>r. case r of
         None \<Rightarrow> Done None
       | Some v \<Rightarrow> vm_ready k v (ba_ready a)))"

definition boot_new_vm :: "nat \<Rightarrow> bool \<Rightarrow> boot_answers \<Rightarrow> nat option pool_task" where
  "boot_new_vm k snapshot_fork a =
     task_bind (boot_or_restore k snapshot_fork a) (\<lambda>r. case r of
         None \<Rightarrow> Done None
       | Some v \<Rightarrow>
           task_bind (task_when stats_free (\<lambda>s. ((), on_stats (\<lambda>st. st\<lparr>pst_total_created := pst_total_created st + 1\<rparr>) s)))
             (\<lambda>_. Done (Some v)))"

section \<open>Acquire and release\<close>

definition pop_idle :: "nat \<Rightarrow> pool \<Rightarrow> nat option \<times> pool" where
  "pop_idle k s =
     (if wp_idle s = [] then (None, s)
      else let v = fst (last (wp_idle s))
        in (Some v, hold k v (s\<lparr>wp_idle := butlast (wp_idle s), wp_idle_lock := Some k\<rparr>)))"

definition record_pool_acquire :: "bool \<Rightarrow> pool \<Rightarrow> pool" where
  "record_pool_acquire hit s = s\<lparr>wp_scaler := map_option (record_acquire (wp_clock s) hit) (wp_scaler s)\<rparr>"

definition hand_out :: "nat \<Rightarrow> nat \<Rightarrow> pool \<Rightarrow> pool" where
  "hand_out k v s = (let_go k v s)\<lparr>wp_clients := wp_clients s @ [v]\<rparr>"

definition acquire :: "nat \<Rightarrow> bool \<Rightarrow> boot_answers \<Rightarrow> pool_answer pool_task" where
  "acquire k snapshot_fork a =
     task_bind (task_when idle_free (pop_idle k)) (\<lambda>r. case r of
         Some v \<Rightarrow>
           task_bind (task_when stats_free (\<lambda>s. ((),
             (on_stats (\<lambda>st. st\<lparr>pst_total_acquired := pst_total_acquired st + 1, pst_idle_count := length (wp_idle s)\<rparr>) s)
               \<lparr>wp_stats_lock := Some k\<rparr>))) (\<lambda>_.
           task_bind (task_write (\<lambda>s. hand_out k v ((record_pool_acquire True s)
               \<lparr>wp_stats_lock := None, wp_idle_lock := None\<rparr>))) (\<lambda>_. Done (Acquired v)))
       | None \<Rightarrow>
           task_bind (task_write (record_pool_acquire False)) (\<lambda>_.
           task_bind (boot_new_vm k snapshot_fork a) (\<lambda>r. case r of
               None \<Rightarrow> Done Pool_Failed
             | Some v \<Rightarrow>
                 task_bind (task_when stats_free (\<lambda>s. ((), hand_out k v
                   (on_stats (\<lambda>st. st\<lparr>pst_total_acquired := pst_total_acquired st + 1\<rparr>) s)))) (\<lambda>_.
                 Done (Acquired v)))))"

text \<open>A call of \<open>release\<close> moves the machine's manager out of the client's hands.\<close>

definition take_back :: "nat \<Rightarrow> nat \<Rightarrow> pool \<Rightarrow> bool \<times> pool" where
  "take_back k v s =
     (if v \<in> set (wp_clients s) then (True, hold k v (s\<lparr>wp_clients := remove1 v (wp_clients s)\<rparr>)) else (False, s))"

definition push_idle :: "nat \<Rightarrow> nat \<Rightarrow> pool \<Rightarrow> pool" where
  "push_idle k v s = (let_go k v s)\<lparr>wp_idle := wp_idle s @ [(v, wp_clock s)], wp_idle_lock := Some k\<rparr>"

definition give_back :: "nat \<Rightarrow> nat \<Rightarrow> nat \<Rightarrow> pool \<Rightarrow> bool \<times> pool" where
  "give_back k max_size v s =
     (if wp_shutdown s then (False, s)
      else if max_size \<le> length (wp_idle s) then (False, s)
      else (True, push_idle k v s))"

definition release :: "nat \<Rightarrow> nat \<Rightarrow> nat \<Rightarrow> bool \<Rightarrow> pool_answer pool_task" where
  "release k max_size v destroyed =
     task_bind (task_act (take_back k v)) (\<lambda>called.
     if \<not> called then Done Not_Called
     else task_bind (task_when idle_free (give_back k max_size v)) (\<lambda>kept.
       if \<not> kept then task_bind (vm_destroy k v destroyed) (\<lambda>_. Done (if destroyed then Pool_Done else Pool_Failed))
       else task_bind (task_when stats_free (\<lambda>s. ((),
              (on_stats (\<lambda>st. st\<lparr>pst_total_released := pst_total_released st + 1, pst_idle_count := length (wp_idle s)\<rparr>) s)
                \<lparr>wp_idle_lock := None\<rparr>))) (\<lambda>_. Done Released)))"

section \<open>Shutting down\<close>

definition signal_shutdown :: "unit pool_task" where
  "signal_shutdown = task_write (\<lambda>s. s\<lparr>wp_shutdown := True\<rparr>)"

definition take_all :: "nat \<Rightarrow> pool \<Rightarrow> nat list \<times> pool" where
  "take_all k s =
     (map fst (wp_idle s),
      s\<lparr>wp_idle := [], wp_idle_lock := Some k, wp_flight := map (\<lambda>e. (k, fst e)) (wp_idle s) @ wp_flight s\<rparr>)"

definition drain_idle :: "nat \<Rightarrow> (nat \<Rightarrow> bool) \<Rightarrow> unit pool_task" where
  "drain_idle k destroyed =
     task_bind (task_when idle_free (take_all k)) (\<lambda>vs.
     task_bind (task_each (\<lambda>v. vm_destroy k v (destroyed v)) vs) (\<lambda>_.
     task_when stats_free (\<lambda>s. ((),
       (on_stats (\<lambda>st. st\<lparr>pst_idle_count := 0\<rparr>) s)\<lparr>wp_idle_lock := None\<rparr>))))"

definition drain :: "nat \<Rightarrow> (nat \<Rightarrow> bool) \<Rightarrow> pool_answer pool_task" where
  "drain k destroyed =
     task_bind signal_shutdown (\<lambda>_.
     task_bind (task_guarded (\<lambda>s. \<not> wp_handle s) (\<lambda>s. s)) (\<lambda>_.
     task_bind (drain_idle k destroyed) (\<lambda>_. Done Shut_Down)))"

text \<open>How the daemon shuts a pool down (\<open>PoolRegistry::drain_all\<close> of \<open>cli/src/commands/pool.rs\<close>).\<close>

definition drain_entry :: "nat \<Rightarrow> (nat \<Rightarrow> bool) \<Rightarrow> pool_answer pool_task" where
  "drain_entry k destroyed =
     task_bind signal_shutdown (\<lambda>_. task_bind (drain_idle k destroyed) (\<lambda>_. Done Shut_Down))"

section \<open>Filling the pool\<close>

primrec remove_indices :: "nat list \<Rightarrow> 'a list \<Rightarrow> 'a list \<times> 'a list" where
  "remove_indices [] xs = ([], xs)"
| "remove_indices (i # is) xs =
     (if i < length xs
      then case remove_indices is (take i xs @ drop (Suc i) xs) of (ys, zs) \<Rightarrow> (xs ! i # ys, zs)
      else remove_indices is xs)"

definition remove_idle_vms :: "nat \<Rightarrow> nat list \<Rightarrow> (nat \<Rightarrow> bool) \<Rightarrow> unit pool_task" where
  "remove_idle_vms k box_ids destroyed =
     task_bind (task_when idle_free (\<lambda>s. (filter (\<lambda>i. fst (wp_idle s ! i) \<in> set box_ids) [0..<length (wp_idle s)], s)))
       (\<lambda>indices. if indices = [] then Done ()
        else task_bind (task_when idle_free (\<lambda>s. case remove_indices (rev indices) (wp_idle s) of (out, kept) \<Rightarrow>
            (map fst out, s\<lparr>wp_idle := kept, wp_flight := map (\<lambda>e. (k, fst e)) out @ wp_flight s\<rparr>))) (\<lambda>vs.
          task_bind (task_when idle_free (\<lambda>s. ((), if stats_free s
            then on_stats (\<lambda>st. st\<lparr>pst_idle_count := length (wp_idle s)\<rparr>) s else s))) (\<lambda>_.
          task_each (\<lambda>v. vm_destroy k v (destroyed v)) vs)))"

definition add_idle :: "nat \<Rightarrow> nat \<Rightarrow> unit pool_task" where
  "add_idle k v =
     task_bind (task_when idle_free (\<lambda>s. ((), push_idle k v s))) (\<lambda>_.
     task_when stats_free (\<lambda>s. ((),
       (on_stats (\<lambda>st. st\<lparr>pst_idle_count := length (wp_idle s)\<rparr>) s)\<lparr>wp_idle_lock := None\<rparr>)))"

primrec fill_loop :: "nat \<Rightarrow> bool \<Rightarrow> (nat \<Rightarrow> boot_answers) \<Rightarrow> (nat \<Rightarrow> bool) \<Rightarrow> nat list \<Rightarrow> nat \<Rightarrow> unit pool_task" where
  "fill_loop k sf boots destroyed added 0 = Done ()"
| "fill_loop k sf boots destroyed added (Suc n) =
     task_bind (boot_new_vm k sf (boots n)) (\<lambda>r. case r of
         Some v \<Rightarrow> task_bind (add_idle k v) (\<lambda>_. fill_loop k sf boots destroyed (added @ [v]) n)
       | None \<Rightarrow> if added = [] then Done () else remove_idle_vms k added destroyed)"

definition fill_to_min :: "nat \<Rightarrow> pool_config \<Rightarrow> (nat \<Rightarrow> boot_answers) \<Rightarrow> (nat \<Rightarrow> bool) \<Rightarrow> unit pool_task" where
  "fill_to_min k cfg boots destroyed =
     task_bind (task_when idle_free (\<lambda>s. (length (wp_idle s), s))) (\<lambda>current.
     fill_loop k (pool_snapshot_fork cfg) boots destroyed [] (unat (pool_min_idle cfg) - current))"

section \<open>The maintenance task\<close>

definition take_expired :: "nat \<Rightarrow> u64 \<Rightarrow> pool \<Rightarrow> (nat list \<times> nat) \<times> pool" where
  "take_expired k ttl s =
     (let expired = filter (\<lambda>e. uint ttl * nanos < max 0 (wp_clock s - snd e)) (wp_idle s);
          kept = filter (\<lambda>e. \<not> uint ttl * nanos < max 0 (wp_clock s - snd e)) (wp_idle s)
      in ((map fst expired, length kept),
          s\<lparr>wp_idle := kept, wp_flight := map (\<lambda>e. (k, fst e)) expired @ wp_flight s\<rparr>))"

definition evict_expired_static :: "nat \<Rightarrow> u64 \<Rightarrow> (nat \<Rightarrow> bool) \<Rightarrow> unit pool_task" where
  "evict_expired_static k ttl destroyed =
     task_bind (task_when idle_free (take_expired k ttl)) (\<lambda>(expired, after_count).
     task_bind (task_each (\<lambda>v. vm_destroy k v (destroyed v)) expired) (\<lambda>_.
     if expired = [] then Done ()
     else task_when stats_free (\<lambda>s. ((), on_stats (\<lambda>st. st\<lparr>pst_total_evicted := pst_total_evicted st + length expired,
            pst_idle_count := after_count\<rparr>) s))))"

definition autoscale :: "nat \<Rightarrow> nat pool_task" where
  "autoscale effective_min_idle = task_act (\<lambda>s.
     case wp_scaler s of
       None \<Rightarrow> (effective_min_idle, s)
     | Some sc \<Rightarrow>
         let sc' = snd (evaluate (wp_clock s) sc)
         in (unat (psc_current_min_idle sc'), s\<lparr>wp_scaler := Some sc'\<rparr>))"

definition spawn_batch :: "nat \<Rightarrow> pool \<Rightarrow> nat \<times> pool" where
  "spawn_batch effective_min_idle s =
     (if length (wp_idle s) < effective_min_idle
      then let needed = effective_min_idle - length (wp_idle s)
        in (needed, s\<lparr>wp_spawned := wp_spawned s + needed, wp_batch := 0\<rparr>)
      else (0, s))"

text \<open>A spawned task of the batch, and the results as \<open>join_next\<close> takes them.\<close>

definition start_worker :: "nat \<Rightarrow> pool \<Rightarrow> bool \<times> pool" where
  "start_worker k s =
     (if wp_spawned s = 0 then (False, s)
      else (True, s\<lparr>wp_spawned := wp_spawned s - 1, wp_workers := insert k (wp_workers s)\<rparr>))"

definition finish_worker :: "nat \<Rightarrow> nat option \<Rightarrow> pool \<Rightarrow> pool" where
  "finish_worker k r s =
     (case r of None \<Rightarrow> s | Some v \<Rightarrow> let_go k v s)
       \<lparr>wp_joined := wp_joined s @ [r], wp_workers := wp_workers s - {k}\<rparr>"

definition worker :: "nat \<Rightarrow> bool \<Rightarrow> boot_answers \<Rightarrow> pool_answer pool_task" where
  "worker k snapshot_fork a =
     task_bind (task_act (start_worker k)) (\<lambda>started.
     if \<not> started then Done Not_Called
     else task_bind (boot_or_restore k snapshot_fork a) (\<lambda>r.
       task_bind (task_write (finish_worker k r)) (\<lambda>_. Done Pool_Done)))"

definition join_next :: "nat \<Rightarrow> pool \<Rightarrow> nat option \<times> pool" where
  "join_next k s =
     (hd (wp_joined s),
      (case hd (wp_joined s) of None \<Rightarrow> s | Some v \<Rightarrow> hold k v s)\<lparr>wp_joined := tl (wp_joined s)\<rparr>)"

definition keep_booted :: "nat \<Rightarrow> nat \<Rightarrow> pool \<Rightarrow> bool \<times> pool" where
  "keep_booted k v s =
     (if wp_shutdown s then (False, s)
      else (True, (push_idle k v s)\<lparr>wp_batch := Suc (wp_batch s)\<rparr>))"

primrec join_batch :: "nat \<Rightarrow> (nat \<Rightarrow> bool) \<Rightarrow> nat \<Rightarrow> unit pool_task" where
  "join_batch k destroyed 0 = Done ()"
| "join_batch k destroyed (Suc n) =
     task_bind (task_when (\<lambda>s. wp_joined s \<noteq> []) (join_next k)) (\<lambda>r. case r of
         None \<Rightarrow> join_batch k destroyed n
       | Some v \<Rightarrow>
           task_bind (task_when idle_free (keep_booted k v)) (\<lambda>kept.
           task_bind (if \<not> kept then vm_destroy k v (destroyed v)
                      else task_when stats_free (\<lambda>s. ((),
                        (on_stats (\<lambda>st. st\<lparr>pst_total_created := pst_total_created st + 1, pst_idle_count := length (wp_idle s)\<rparr>) s)
                          \<lparr>wp_idle_lock := None\<rparr>)))
             (\<lambda>_. join_batch k destroyed n)))"

definition tick :: "nat \<Rightarrow> pool_config \<Rightarrow> tick_input \<Rightarrow> nat \<Rightarrow> nat pool_task" where
  "tick k cfg i effective_min_idle =
     task_bind (if 0 < pool_idle_ttl_secs cfg
                then evict_expired_static k (pool_idle_ttl_secs cfg) (tk_destroys i) else Done ()) (\<lambda>_.
     task_bind (autoscale effective_min_idle) (\<lambda>new_min.
     task_bind (task_when idle_free (spawn_batch new_min)) (\<lambda>needed.
     task_bind (join_batch k (tk_destroys i) needed) (\<lambda>_. Done new_min))))"

text \<open>
  The loop wakes up for the shutdown signal or when the interval has passed. A run of the program
  sees a finite number of wake-ups; the list has one input for each.
\<close>

primrec maintain :: "nat \<Rightarrow> pool_config \<Rightarrow> nat \<Rightarrow> tick_input list \<Rightarrow> unit pool_task" where
  "maintain k cfg effective_min_idle [] = Done ()"
| "maintain k cfg effective_min_idle (i # is) =
     task_bind (task_read wp_shutdown) (\<lambda>shutdown.
     if tk_shutdown_seen i \<and> shutdown then Done ()
     else task_bind (tick k cfg i effective_min_idle) (\<lambda>m. maintain k cfg m is))"

section \<open>Starting the pool\<close>

definition start_pool :: "nat \<Rightarrow> pool_config \<Rightarrow> (nat \<Rightarrow> boot_answers) \<Rightarrow> (nat \<Rightarrow> bool) \<Rightarrow> bool pool_task" where
  "start_pool k cfg boots destroyed =
     (if pool_max_size cfg = 0 then Done False
      else if pool_max_size cfg < pool_min_idle cfg then Done False
      else task_bind (task_write (\<lambda>s. s\<lparr>wp_scaler := (if sp_enabled (pool_scaling cfg)
          then Some (pool_scaler_new (pool_scaling cfg) (pool_min_idle cfg) (pool_max_size cfg)) else None)\<rparr>)) (\<lambda>_.
        task_bind (fill_to_min k cfg boots destroyed) (\<lambda>_.
        task_bind (task_write (\<lambda>s. s\<lparr>wp_started := True, wp_handle := True\<rparr>)) (\<lambda>_. Done True))))"

text \<open>The first task starts the pool and goes on as its background task.\<close>

definition pool_main ::
    "nat \<Rightarrow> pool_config \<Rightarrow> (nat \<Rightarrow> boot_answers) \<Rightarrow> (nat \<Rightarrow> bool) \<Rightarrow> tick_input list \<Rightarrow> pool_answer pool_task" where
  "pool_main k cfg boots destroyed ticks =
     task_bind (start_pool k cfg boots destroyed) (\<lambda>started.
     if \<not> started then Done Pool_Failed
     else task_bind (maintain k cfg (unat (pool_min_idle cfg)) ticks) (\<lambda>_.
       task_bind (task_write (\<lambda>s. s\<lparr>wp_handle := False\<rparr>)) (\<lambda>_. Done Pool_Done)))"

definition initial_pool :: "instant \<Rightarrow> pool" where
  "initial_pool now =
     \<lparr>wp_idle = [], wp_idle_lock = None,
      wp_stats = \<lparr>pst_idle_count = 0, pst_total_created = 0, pst_total_acquired = 0, pst_total_released = 0, pst_total_evicted = 0\<rparr>,
      wp_stats_lock = None, wp_shutdown = False, wp_scaler = None, wp_template = Unbuilt, wp_template_lock = None,
      wp_started = False, wp_handle = False, wp_spawned = 0, wp_workers = {}, wp_joined = [],
      wp_clock = now, wp_next_vm = 0, wp_running = {}, wp_clients = [], wp_flight = [], wp_failed = {},
      wp_batch = 0, wp_build_failures = 0, wp_builds = 0\<rparr>"

text \<open>Clients have a pool once \<open>start\<close> has returned it.\<close>

definition client :: "pool_answer pool_task \<Rightarrow> pool_answer pool_task" where
  "client t = task_bind (task_read wp_started) (\<lambda>started. if started then t else Done Not_Called)"

inductive_set pool_calls :: "pool_config \<Rightarrow> nat \<Rightarrow> pool_answer pool_task set" for cfg k where
  main: "k = 0 \<Longrightarrow> pool_main k cfg boots destroyed ticks \<in> pool_calls cfg k"
| worker: "0 < k \<Longrightarrow> worker k (pool_snapshot_fork cfg) a \<in> pool_calls cfg k"
| acquire: "0 < k \<Longrightarrow> client (acquire k (pool_snapshot_fork cfg) a) \<in> pool_calls cfg k"
| release: "0 < k \<Longrightarrow> client (release k (unat (pool_max_size cfg)) v ok) \<in> pool_calls cfg k"
| signal: "0 < k \<Longrightarrow> client (task_bind signal_shutdown (\<lambda>_. Done Pool_Done)) \<in> pool_calls cfg k"
| drain_idle: "0 < k \<Longrightarrow> client (task_bind (drain_idle k destroyed) (\<lambda>_. Done Pool_Done)) \<in> pool_calls cfg k"
| drain: "0 < k \<Longrightarrow> client (drain k destroyed) \<in> pool_calls cfg k"
| drain_entry: "0 < k \<Longrightarrow> client (drain_entry k destroyed) \<in> pool_calls cfg k"
| clock: "0 < k \<Longrightarrow> 0 \<le> d \<Longrightarrow>
    task_bind (task_write (\<lambda>s. s\<lparr>wp_clock := wp_clock s + d\<rparr>)) (\<lambda>_. Done Pool_Done) \<in> pool_calls cfg k"

end
