(* ===== verification/Pool_Safety.thy ===== *)
theory Pool_Safety
  imports Warm_Pool "HOL-Library.Multiset"
begin

text \<open>
  The invariant of the warm pool under any interleaving, as a rely/guarantee proof: what a task may
  assume of the others, the locks in their order, and the triple of every call. The locks rank: the
  handle of the background task, the spawned boots, the template, the idle list, the statistics.
\<close>

section \<open>Locks and machines\<close>

datatype pool_lock = Handle | Worker nat | Template | Idle | Stats

fun pool_owner :: "pool \<Rightarrow> pool_lock \<Rightarrow> nat option" where
  "pool_owner s Handle = (if wp_handle s then Some 0 else None)"
| "pool_owner s (Worker j) = (if j \<in> wp_workers s then Some j else None)"
| "pool_owner s Template = wp_template_lock s"
| "pool_owner s Idle = wp_idle_lock s"
| "pool_owner s Stats = wp_stats_lock s"

fun pool_rank :: "pool_lock \<Rightarrow> nat" where
  "pool_rank Handle = 0"
| "pool_rank (Worker _) = 1"
| "pool_rank Template = 2"
| "pool_rank Idle = 3"
| "pool_rank Stats = 4"

lemma all_pool_lock: "(\<forall>l. P l) \<longleftrightarrow> P Handle \<and> (\<forall>j. P (Worker j)) \<and> P Template \<and> P Idle \<and> P Stats"
  by (metis pool_lock.exhaust)

definition boots_queued :: "pool \<Rightarrow> bool" where
  "boots_queued s \<longleftrightarrow> 0 < wp_spawned s"

text \<open>Every machine whose manager somebody has: the idle list, a client, a task, the join set.\<close>

definition joined_vms :: "pool \<Rightarrow> nat multiset" where
  "joined_vms s = mset (List.map_filter id (wp_joined s))"

definition owned :: "pool \<Rightarrow> nat multiset" where
  "owned s = mset (map fst (wp_idle s)) + mset (wp_clients s) + mset (map snd (wp_flight s)) + joined_vms s"

definition vms_ok :: "pool \<Rightarrow> bool" where
  "vms_ok s \<longleftrightarrow> (\<forall>v. count (owned s) v \<le> 1) \<and> set_mset (owned s) \<subseteq> wp_running s \<and>
     wp_running s \<subseteq> set_mset (owned s) \<union> wp_failed s \<and> (\<forall>v \<in> wp_running s. v < wp_next_vm s)"

definition outstanding :: "pool \<Rightarrow> nat" where
  "outstanding s = wp_spawned s + card (wp_workers s) + length (wp_joined s)"

definition template_ok :: "pool \<Rightarrow> bool" where
  "template_ok s \<longleftrightarrow>
     (case wp_template s of
        Unbuilt \<Rightarrow> wp_build_failures s = 0 \<and> wp_builds s = 0
      | Failing n \<Rightarrow> n = wp_build_failures s \<and> n < MAX_TEMPLATE_BUILD_FAILURES \<and> wp_builds s = 0
      | Template_Ready \<Rightarrow> wp_build_failures s < MAX_TEMPLATE_BUILD_FAILURES \<and> wp_builds s = 1
      | Unavailable \<Rightarrow> wp_build_failures s = MAX_TEMPLATE_BUILD_FAILURES \<and> wp_builds s = 0)"

definition size_ok :: "u64 \<Rightarrow> pool \<Rightarrow> bool" where
  "size_ok M s \<longleftrightarrow> length (wp_idle s) \<le> unat M + wp_batch s \<and> wp_batch s \<le> unat M \<and>
     (\<forall>sc. wp_scaler s = Some sc \<longrightarrow> scaler_ok M sc)"

definition start_ok :: "pool \<Rightarrow> bool" where
  "start_ok s \<longleftrightarrow> finite (wp_workers s) \<and> 0 \<notin> wp_workers s \<and>
     (\<not> wp_started s \<longrightarrow> \<not> wp_shutdown s \<and> \<not> wp_handle s \<and> outstanding s = 0)"

definition pool_good :: "u64 \<Rightarrow> pool \<Rightarrow> bool" where
  "pool_good M s \<longleftrightarrow> vms_ok s \<and> template_ok s \<and> size_ok M s \<and> start_ok s"

section \<open>Rely and guarantee\<close>

definition own_kept :: "nat \<Rightarrow> pool \<Rightarrow> pool \<Rightarrow> bool" where
  "own_kept k s s' \<longleftrightarrow> (\<forall>l. pool_owner s' l = Some k \<longleftrightarrow> pool_owner s l = Some k) \<and>
     (\<forall>v. (k, v) \<in> set (wp_flight s') \<longleftrightarrow> (k, v) \<in> set (wp_flight s))"

definition locked_kept :: "nat \<Rightarrow> pool \<Rightarrow> pool \<Rightarrow> bool" where
  "locked_kept k s s' \<longleftrightarrow> (pool_owner s Idle = Some k \<longrightarrow> wp_idle s' = wp_idle s) \<and>
     (pool_owner s Template = Some k \<longrightarrow> wp_build_failures s' = wp_build_failures s \<and> wp_builds s' = wp_builds s)"

definition flags_kept :: "pool \<Rightarrow> pool \<Rightarrow> bool" where
  "flags_kept s s' \<longleftrightarrow> (wp_started s \<longrightarrow> wp_started s') \<and>
     (wp_shutdown s \<longrightarrow> wp_shutdown s' \<and> set (wp_idle s') \<subseteq> set (wp_idle s))"

definition main_kept :: "pool \<Rightarrow> pool \<Rightarrow> bool" where
  "main_kept s s' \<longleftrightarrow> wp_batch s' = wp_batch s \<and> outstanding s' = outstanding s \<and>
     wp_started s' = wp_started s \<and> (\<not> wp_started s \<longrightarrow> wp_idle s' = wp_idle s)"

lemmas kept_defs = own_kept_def locked_kept_def flags_kept_def main_kept_def

definition pool_rely :: "nat \<Rightarrow> pool \<Rightarrow> pool \<Rightarrow> bool" where
  "pool_rely k s s' \<longleftrightarrow> own_kept k s s' \<and> locked_kept k s s' \<and> flags_kept s s' \<and> (k = 0 \<longrightarrow> main_kept s s')"

definition pool_guar :: "nat \<Rightarrow> pool \<Rightarrow> pool \<Rightarrow> bool" where
  "pool_guar i s s' \<longleftrightarrow> (\<forall>k. k \<noteq> i \<longrightarrow> pool_rely k s s')"

lemma pool_rely_refl [simp]: "pool_rely k s s"
  by (simp add: pool_rely_def kept_defs)

lemma pool_rely_trans:
  assumes "pool_rely k s s'" and "pool_rely k s' s''"
  shows "pool_rely k s s''"
proof -
  have "own_kept k s s''" using assms by (simp add: pool_rely_def own_kept_def)
  moreover have "flags_kept s s''" using assms unfolding pool_rely_def flags_kept_def by blast
  moreover have "k = 0 \<longrightarrow> main_kept s s''" using assms unfolding pool_rely_def main_kept_def by simp
  moreover have "locked_kept k s s''"
    using assms(1,2) [unfolded pool_rely_def own_kept_def locked_kept_def] unfolding locked_kept_def by metis
  ultimately show ?thesis by (simp add: pool_rely_def)
qed

lemma pool_rank_bound: "pool_rank l < 5"
  by (cases l) auto

interpretation wp: lock_order "pool_good M" pool_rely pool_guar pool_owner pool_rank boots_queued 5 for M
  by unfold_locales (auto simp: pool_guar_def pool_rank_bound intro: pool_rely_trans)

text \<open>What a task knows of itself: the locks it holds and the machines in its hands.\<close>

definition holds :: "nat \<Rightarrow> pool_lock set \<Rightarrow> nat set \<Rightarrow> pool \<Rightarrow> bool" where
  "holds k L V s \<longleftrightarrow> {l. pool_owner s l = Some k} = L \<and> {v. (k, v) \<in> set (wp_flight s)} = V"

lemma stable_holds: "wp.unaffected k (holds k L V)"
  by (auto simp: wp.unaffected_def holds_def pool_rely_def own_kept_def)

lemmas wp_stable = stable_holds wp.stable_conj wp.stable_const

lemma holds_owner: "holds k L V s \<Longrightarrow> pool_owner s l = Some k \<longleftrightarrow> l \<in> L"
  by (auto simp: holds_def)

lemma waits_for:
  assumes "holds k L V s" and "pool_owner s l \<noteq> None" and "\<forall>l' \<in> L. pool_rank l' < pool_rank l"
  shows "waits pool_owner pool_rank boots_queued k s"
proof -
  from assms(2) obtain j where j: "pool_owner s l = Some j" by blast
  with assms(1,3) have "j \<noteq> k" using holds_owner [of k L V s l] by auto
  with j assms show ?thesis by (auto simp: waits_def holds_owner)
qed

text \<open>
  A step under a lock: the task waits as the order allows. \<open>l\<close> is the lock and \<open>b\<close> says that it is free.
\<close>

lemma triple_lock:
  assumes "\<forall>l' \<in> L. pool_rank l' < pool_rank l" and "\<And>s. b s \<longleftrightarrow> pool_owner s l = None"
    and "wp.unaffected k R" and "\<And>x. wp.unaffected k (Q x)"
    and "\<And>s. pool_good M s \<Longrightarrow> holds k L V s \<Longrightarrow> R s \<Longrightarrow> b s \<Longrightarrow>
      pool_good M (snd (f s)) \<and> pool_guar k s (snd (f s)) \<and> Q (fst (f s)) (snd (f s))"
  shows "wp.triple M k (\<lambda>s. holds k L V s \<and> R s) (task_when b f) Q"
proof (rule wp.triple_when)
  fix s assume "holds k L V s \<and> R s" "\<not> b s"
  then show "waits pool_owner pool_rank boots_queued k s" using waits_for [of k L V s l] assms(1,2) by blast
qed (use assms in \<open>auto intro!: wp_stable\<close>)

section \<open>Multisets of machines\<close>

lemma owned_hold [simp]: "owned (hold k v s) = add_mset v (owned s)"
  by (simp add: owned_def hold_def joined_vms_def)

lemma owned_let_go [simp]: "(k, v) \<in> set (wp_flight s) \<Longrightarrow> owned (let_go k v s) = owned s - {#v#}"
proof -
  assume "(k, v) \<in> set (wp_flight s)"
  then have v: "add_mset v (image_mset snd (mset (wp_flight s) - {#(k, v)#})) = image_mset snd (mset (wp_flight s))"
    by (metis image_mset_add_mset insert_DiffM set_mset_mset snd_conv)
  show ?thesis unfolding owned_def joined_vms_def let_go_def by (simp flip: v)
qed


lemma hold_fields [simp]:
  "wp_idle (hold k v s) = wp_idle s" "wp_idle_lock (hold k v s) = wp_idle_lock s"
  "wp_stats (hold k v s) = wp_stats s" "wp_stats_lock (hold k v s) = wp_stats_lock s"
  "wp_shutdown (hold k v s) = wp_shutdown s" "wp_scaler (hold k v s) = wp_scaler s"
  "wp_template (hold k v s) = wp_template s" "wp_template_lock (hold k v s) = wp_template_lock s"
  "wp_started (hold k v s) = wp_started s" "wp_handle (hold k v s) = wp_handle s"
  "wp_spawned (hold k v s) = wp_spawned s" "wp_workers (hold k v s) = wp_workers s"
  "wp_joined (hold k v s) = wp_joined s" "wp_clock (hold k v s) = wp_clock s"
  "wp_next_vm (hold k v s) = wp_next_vm s" "wp_running (hold k v s) = wp_running s"
  "wp_clients (hold k v s) = wp_clients s" "wp_failed (hold k v s) = wp_failed s"
  "wp_batch (hold k v s) = wp_batch s" "wp_build_failures (hold k v s) = wp_build_failures s"
  "wp_builds (hold k v s) = wp_builds s"
  by (simp_all add: hold_def)

lemma let_go_fields [simp]:
  "wp_idle (let_go k v s) = wp_idle s" "wp_idle_lock (let_go k v s) = wp_idle_lock s"
  "wp_stats (let_go k v s) = wp_stats s" "wp_stats_lock (let_go k v s) = wp_stats_lock s"
  "wp_shutdown (let_go k v s) = wp_shutdown s" "wp_scaler (let_go k v s) = wp_scaler s"
  "wp_template (let_go k v s) = wp_template s" "wp_template_lock (let_go k v s) = wp_template_lock s"
  "wp_started (let_go k v s) = wp_started s" "wp_handle (let_go k v s) = wp_handle s"
  "wp_spawned (let_go k v s) = wp_spawned s" "wp_workers (let_go k v s) = wp_workers s"
  "wp_joined (let_go k v s) = wp_joined s" "wp_clock (let_go k v s) = wp_clock s"
  "wp_next_vm (let_go k v s) = wp_next_vm s" "wp_running (let_go k v s) = wp_running s"
  "wp_clients (let_go k v s) = wp_clients s" "wp_failed (let_go k v s) = wp_failed s"
  "wp_batch (let_go k v s) = wp_batch s" "wp_build_failures (let_go k v s) = wp_build_failures s"
  "wp_builds (let_go k v s) = wp_builds s"
  by (simp_all add: let_go_def)

lemma on_stats_fields [simp]:
  "wp_idle (on_stats g s) = wp_idle s" "wp_idle_lock (on_stats g s) = wp_idle_lock s"
  "wp_stats_lock (on_stats g s) = wp_stats_lock s" "wp_shutdown (on_stats g s) = wp_shutdown s"
  "wp_scaler (on_stats g s) = wp_scaler s" "wp_template (on_stats g s) = wp_template s"
  "wp_template_lock (on_stats g s) = wp_template_lock s" "wp_started (on_stats g s) = wp_started s"
  "wp_handle (on_stats g s) = wp_handle s" "wp_spawned (on_stats g s) = wp_spawned s"
  "wp_workers (on_stats g s) = wp_workers s" "wp_joined (on_stats g s) = wp_joined s"
  "wp_clock (on_stats g s) = wp_clock s" "wp_next_vm (on_stats g s) = wp_next_vm s"
  "wp_running (on_stats g s) = wp_running s" "wp_clients (on_stats g s) = wp_clients s"
  "wp_failed (on_stats g s) = wp_failed s" "wp_batch (on_stats g s) = wp_batch s"
  "wp_build_failures (on_stats g s) = wp_build_failures s" "wp_builds (on_stats g s) = wp_builds s"
  "owned (on_stats g s) = owned s"
  by (simp_all add: on_stats_def owned_def joined_vms_def)

lemma owned_fields [simp]:
  "owned (wp_idle_lock_update f1 s) = owned s" "owned (wp_stats_update f2 s) = owned s"
  "owned (wp_stats_lock_update f3 s) = owned s" "owned (wp_shutdown_update f4 s) = owned s"
  "owned (wp_scaler_update f5 s) = owned s" "owned (wp_template_update f6 s) = owned s"
  "owned (wp_template_lock_update f7 s) = owned s" "owned (wp_started_update f8 s) = owned s"
  "owned (wp_handle_update f9 s) = owned s" "owned (wp_spawned_update f10 s) = owned s"
  "owned (wp_workers_update f11 s) = owned s" "owned (wp_clock_update f12 s) = owned s"
  "owned (wp_next_vm_update f13 s) = owned s" "owned (wp_running_update f14 s) = owned s"
  "owned (wp_failed_update f15 s) = owned s" "owned (wp_batch_update f16 s) = owned s"
  "owned (wp_build_failures_update f17 s) = owned s" "owned (wp_builds_update f18 s) = owned s"
  by (simp_all add: owned_def joined_vms_def)

lemma owner_fields [simp]:
  "pool_owner (wp_idle_update g0 s) = pool_owner s" "pool_owner (wp_stats_update g1 s) = pool_owner s"
  "pool_owner (wp_shutdown_update g2 s) = pool_owner s" "pool_owner (wp_scaler_update g3 s) = pool_owner s"
  "pool_owner (wp_template_update g4 s) = pool_owner s" "pool_owner (wp_started_update g5 s) = pool_owner s"
  "pool_owner (wp_spawned_update g6 s) = pool_owner s" "pool_owner (wp_joined_update g7 s) = pool_owner s"
  "pool_owner (wp_clock_update g8 s) = pool_owner s" "pool_owner (wp_next_vm_update g9 s) = pool_owner s"
  "pool_owner (wp_running_update g10 s) = pool_owner s" "pool_owner (wp_clients_update g11 s) = pool_owner s"
  "pool_owner (wp_flight_update g12 s) = pool_owner s" "pool_owner (wp_failed_update g13 s) = pool_owner s"
  "pool_owner (wp_batch_update g14 s) = pool_owner s" "pool_owner (wp_build_failures_update g15 s) = pool_owner s"
  "pool_owner (wp_builds_update g16 s) = pool_owner s"
  "pool_owner (hold k v s) = pool_owner s" "pool_owner (let_go k v s) = pool_owner s"
  "pool_owner (on_stats g s) = pool_owner s"
  by (simp_all add: fun_eq_iff hold_def let_go_def on_stats_def all_pool_lock)

lemma owner_locks [simp]:
  "pool_owner (s\<lparr>wp_idle_lock := x\<rparr>) = (pool_owner s)(Idle := x)"
  "pool_owner (s\<lparr>wp_stats_lock := x\<rparr>) = (pool_owner s)(Stats := x)"
  "pool_owner (s\<lparr>wp_template_lock := x\<rparr>) = (pool_owner s)(Template := x)"
  "pool_owner (s\<lparr>wp_handle := b\<rparr>) = (pool_owner s)(Handle := if b then Some 0 else None)"
  by (simp_all add: fun_eq_iff all_pool_lock)

section \<open>Steps of a task\<close>

definition others_kept :: "nat \<Rightarrow> pool \<Rightarrow> pool \<Rightarrow> bool" where
  "others_kept k s s' \<longleftrightarrow> (\<forall>j v. j \<noteq> k \<longrightarrow> ((j, v) \<in> set (wp_flight s') \<longleftrightarrow> (j, v) \<in> set (wp_flight s)))"

definition same_pool :: "pool \<Rightarrow> pool \<Rightarrow> bool" where
  "same_pool s s' \<longleftrightarrow> wp_idle s' = wp_idle s \<and> wp_idle_lock s' = wp_idle_lock s \<and> wp_shutdown s' = wp_shutdown s \<and>
     wp_started s' = wp_started s \<and> wp_handle s' = wp_handle s \<and> wp_spawned s' = wp_spawned s \<and>
     wp_workers s' = wp_workers s \<and> wp_joined s' = wp_joined s \<and> wp_batch s' = wp_batch s \<and>
     wp_scaler s' = wp_scaler s"

definition same_template :: "pool \<Rightarrow> pool \<Rightarrow> bool" where
  "same_template s s' \<longleftrightarrow> wp_template s' = wp_template s \<and> wp_template_lock s' = wp_template_lock s \<and>
     wp_build_failures s' = wp_build_failures s \<and> wp_builds s' = wp_builds s"

definition framed :: "nat \<Rightarrow> (pool \<Rightarrow> bool) \<Rightarrow> bool" where
  "framed k R \<longleftrightarrow> wp.unaffected k R \<and> (\<forall>s s'. same_pool s s' \<longrightarrow> same_template s s' \<longrightarrow> R s \<longrightarrow> R s')"

lemma framed_stable: "framed k R \<Longrightarrow> wp.unaffected k R"
  by (simp add: framed_def)

lemma framed_step: "framed k R \<Longrightarrow> R s \<Longrightarrow> same_pool s s' \<Longrightarrow> same_template s s' \<Longrightarrow> R s'"
  by (simp add: framed_def)

lemma pool_guar_refl [simp]: "pool_guar k s s"
  by (simp add: pool_guar_def)

lemma framed_True [simp]: "framed k (\<lambda>_. True)"
  by (simp add: framed_def wp.stable_const)

lemma same_owner:
  assumes "same_pool s s'" and "same_template s s'" and "wp_stats_lock s' = wp_stats_lock s"
  shows "pool_owner s' l = pool_owner s l"
  using assms by (cases l) (auto simp: same_pool_def same_template_def)

text \<open>A step that changes machines or statistics only.\<close>

lemma host_step:
  assumes same: "same_pool s s'" "same_template s s'" "wp_stats_lock s' = wp_stats_lock s"
    and "vms_ok s'" and "others_kept k s s'" and "pool_good M s" and "holds k L V s"
  shows "pool_good M s' \<and> pool_guar k s s' \<and> holds k L {v. (k, v) \<in> set (wp_flight s')} s'"
proof (intro conjI)
  note owner = same_owner [OF same]
  show "pool_good M s'"
    using assms by (simp add: pool_good_def template_ok_def size_ok_def start_ok_def outstanding_def
        same_pool_def same_template_def cong: template_state.case_cong)
  show "pool_guar k s s'"
    using assms by (simp add: pool_guar_def pool_rely_def kept_defs owner others_kept_def same_pool_def
        same_template_def outstanding_def)
  show "holds k L {v. (k, v) \<in> set (wp_flight s')} s'"
    using assms by (simp add: holds_def owner)
qed

lemma same_updates [simp]:
  "same_pool s (hold k v s') = same_pool s s'" "same_template s (hold k v s') = same_template s s'"
  "same_pool s (let_go k v s') = same_pool s s'" "same_template s (let_go k v s') = same_template s s'"
  "same_pool s (on_stats f s') = same_pool s s'" "same_template s (on_stats f s') = same_template s s'"
  "same_pool s s" "same_template s s"
  by (auto simp: same_pool_def same_template_def hold_def let_go_def on_stats_def)

lemma flight_updates [simp]:
  "wp_flight (hold k v s) = (k, v) # wp_flight s" "wp_flight (let_go k v s) = remove1 (k, v) (wp_flight s)"
  "wp_flight (on_stats f s) = wp_flight s"
  by (simp_all add: hold_def let_go_def on_stats_def)

lemma others_kept_updates [simp]:
  "others_kept k s (hold k v s') = others_kept k s s'" "others_kept k s (on_stats f s') = others_kept k s s'"
  "others_kept k s s"
  by (auto simp: others_kept_def)

lemma others_kept_fields [simp]:
  "others_kept k s (wp_idle_update g0 t) = others_kept k s t"
  "others_kept k s (wp_idle_lock_update g1 t) = others_kept k s t"
  "others_kept k s (wp_stats_update g2 t) = others_kept k s t"
  "others_kept k s (wp_stats_lock_update g3 t) = others_kept k s t"
  "others_kept k s (wp_shutdown_update g4 t) = others_kept k s t"
  "others_kept k s (wp_scaler_update g5 t) = others_kept k s t"
  "others_kept k s (wp_template_update g6 t) = others_kept k s t"
  "others_kept k s (wp_template_lock_update g7 t) = others_kept k s t"
  "others_kept k s (wp_started_update g8 t) = others_kept k s t"
  "others_kept k s (wp_handle_update g9 t) = others_kept k s t"
  "others_kept k s (wp_spawned_update g10 t) = others_kept k s t"
  "others_kept k s (wp_workers_update g11 t) = others_kept k s t"
  "others_kept k s (wp_joined_update g12 t) = others_kept k s t"
  "others_kept k s (wp_clock_update g13 t) = others_kept k s t"
  "others_kept k s (wp_next_vm_update g14 t) = others_kept k s t"
  "others_kept k s (wp_running_update g15 t) = others_kept k s t"
  "others_kept k s (wp_clients_update g16 t) = others_kept k s t"
  "others_kept k s (wp_failed_update g17 t) = others_kept k s t"
  "others_kept k s (wp_batch_update g18 t) = others_kept k s t"
  "others_kept k s (wp_build_failures_update g19 t) = others_kept k s t"
  "others_kept k s (wp_builds_update g20 t) = others_kept k s t"
  by (simp_all add: others_kept_def)

lemma others_kept_let_go [simp]: "others_kept k s (let_go k v s') = others_kept k s s'"
proof -
  have "(j, w) \<in> set (remove1 (k, v) xs) \<longleftrightarrow> (j, w) \<in> set xs" if "j \<noteq> k" for j w xs
    using that by (induction xs) auto
  then show ?thesis by (simp add: others_kept_def)
qed

lemma flight_owned: "(k, v) \<in> set (wp_flight s) \<Longrightarrow> v \<in># owned s"
  by (force simp: owned_def)

lemma distinct_count_le: "(\<And>v. count (mset xs) v \<le> 1) \<Longrightarrow> distinct xs"
proof (induction xs)
  case (Cons x xs)
  have "count (mset xs) v \<le> 1" for v by (rule le_trans [OF _ Cons.prems [of v]]) simp
  moreover have "x \<notin> set xs" using Cons.prems [of x] by (simp add: count_eq_zero_iff flip: not_in_iff)
  ultimately show ?case using Cons.IH by simp
qed simp

lemma flight_distinct:
  assumes "vms_ok s"
  shows "distinct (map snd (wp_flight s))"
proof (rule distinct_count_le)
  fix v
  have "count (mset (map snd (wp_flight s))) v \<le> count (owned s) v" by (simp add: owned_def)
  also have "\<dots> \<le> 1" using assms by (simp add: vms_ok_def)
  finally show "count (mset (map snd (wp_flight s))) v \<le> 1" .
qed


lemma flight_remove1:
  assumes "vms_ok s" and "holds k L (insert v V) s" and "v \<notin> V"
  shows "{w. (k, w) \<in> set (remove1 (k, v) (wp_flight s))} = V"
proof -
  have "distinct (wp_flight s)" using flight_distinct [OF assms(1)] by (simp add: distinct_map)
  with assms(2,3) show ?thesis by (auto simp: holds_def)
qed

section \<open>Machines\<close>

lemma set_mset_take_out: "count A v \<le> 1 \<Longrightarrow> set_mset (A - {#v#}) = set_mset A - {v}"
  by (auto simp: in_diff_count split: if_splits)

lemma triple_vm_boot:
  assumes framed: "framed k R"
  shows "wp.triple M k (\<lambda>s. holds k L {} s \<and> R s) (vm_boot k ok) (\<lambda>r s. holds k L (set_option r) s \<and> R s)"
  unfolding vm_boot_def
proof (rule wp.triple_act, goal_cases)
  case (3 s)
  let ?v = "wp_next_vm s"
  let ?t = "s\<lparr>wp_next_vm := Suc ?v, wp_running := insert ?v (wp_running s)\<rparr>"
  from 3 have vms: "vms_ok s" by (simp add: pool_good_def)
  then have "?v \<notin># owned s" by (auto simp: vms_ok_def)
  with vms have "vms_ok (hold k ?v ?t)" by (auto simp: vms_ok_def not_in_iff less_Suc_eq)
  moreover have "same_pool s ?t" "same_template s ?t" "others_kept k s ?t"
    by (simp_all add: same_pool_def same_template_def others_kept_def)
  ultimately show ?case
    using 3 host_step [of s "hold k ?v ?t" k M L "{}"] framed_step [OF framed, of s "hold k ?v ?t"]
    by (cases ok) (auto simp: holds_def)
qed (use assms in \<open>auto intro!: wp_stable framed_stable [OF assms(1)]\<close>)

lemma let_go_step:
  assumes "pool_good M s" and "holds k L (insert v V) s" and "v \<notin> V"
    and "s' = s\<lparr>wp_running := wp_running s - {v}\<rparr> \<or> s' = s\<lparr>wp_failed := insert v (wp_failed s)\<rparr>"
  shows "pool_good M (let_go k v s') \<and> pool_guar k s (let_go k v s') \<and> holds k L V (let_go k v s') \<and>
    same_pool s (let_go k v s') \<and> same_template s (let_go k v s')"
proof -
  have vms: "vms_ok s" using assms(1) by (simp add: pool_good_def)
  have same: "same_pool s s'" "same_template s s'" "others_kept k s s'" "wp_stats_lock s' = wp_stats_lock s"
    "wp_flight s' = wp_flight s" "owned s' = owned s" "wp_next_vm s' = wp_next_vm s"
    using assms(4) by (auto simp: same_pool_def same_template_def others_kept_def)
  have v: "(k, v) \<in> set (wp_flight s)" using assms(2) by (auto simp: holds_def)
  then have "v \<in># owned s" by (rule flight_owned)
  with vms v have "vms_ok (let_go k v s')"
    using assms(4) same by (auto simp: vms_ok_def set_mset_take_out le_diff_conv intro: le_trans)
  with host_step [of s "let_go k v s'" k M L "insert v V"] same assms flight_remove1 [OF vms assms(2,3)]
  show ?thesis by simp
qed

lemma triple_vm_ready:
  assumes framed: "framed k R"
  shows "wp.triple M k (\<lambda>s. holds k L {v} s \<and> R s) (vm_ready k v ok)
    (\<lambda>r s. holds k L (set_option r) s \<and> R s \<and> set_option r \<subseteq> {v})"
  unfolding vm_ready_def
proof (rule wp.triple_act, goal_cases)
  case (3 s)
  let ?t = "s\<lparr>wp_failed := insert v (wp_failed s)\<rparr>"
  have "pool_good M (let_go k v ?t) \<and> pool_guar k s (let_go k v ?t) \<and> holds k L {} (let_go k v ?t) \<and>
      same_pool s (let_go k v ?t) \<and> same_template s (let_go k v ?t)"
    by (rule let_go_step) (use 3 in auto)
  with 3 framed_step [OF framed, of s "let_go k v ?t"] show ?case by (cases ok) simp_all
qed (use assms in \<open>auto intro!: wp_stable framed_stable [OF assms(1)]\<close>)

lemma triple_vm_destroy:
  assumes "framed k R" and "v \<notin> V"
  shows "wp.triple M k (\<lambda>s. holds k L (insert v V) s \<and> R s) (vm_destroy k v ok) (\<lambda>_ s. holds k L V s \<and> R s)"
  unfolding vm_destroy_def task_write_def
proof (rule wp.triple_act, goal_cases)
  case (3 s)
  let ?t = "if ok then s\<lparr>wp_running := wp_running s - {v}\<rparr> else s\<lparr>wp_failed := insert v (wp_failed s)\<rparr>"
  have "pool_good M (let_go k v ?t) \<and> pool_guar k s (let_go k v ?t) \<and> holds k L V (let_go k v ?t) \<and>
      same_pool s (let_go k v ?t) \<and> same_template s (let_go k v ?t)"
    by (rule let_go_step) (use 3 assms(2) in auto)
  with 3 framed_step [OF assms(1), of s "let_go k v ?t"] show ?case by simp
qed (use assms in \<open>auto intro!: wp_stable framed_stable [OF assms(1)]\<close>)

lemma triple_destroy_all:
  assumes "framed k R" and "distinct vs" and "set vs \<inter> V = {}"
  shows "wp.triple M k (\<lambda>s. holds k L (set vs \<union> V) s \<and> R s) (task_each (\<lambda>v. vm_destroy k v (destroyed v)) vs)
    (\<lambda>_ s. holds k L V s \<and> R s)"
  using assms(2,3)
proof (induction vs)
  case Nil
  show ?case by (simp, rule wp.triple_Done) (use assms(1) in \<open>auto intro!: wp_stable framed_stable [OF assms(1)]\<close>)
next
  case (Cons v vs)
  have "wp.triple M k (\<lambda>s. holds k L (insert v (set vs \<union> V)) s \<and> R s) (vm_destroy k v (destroyed v))
      (\<lambda>_ s. holds k L (set vs \<union> V) s \<and> R s)"
    by (rule triple_vm_destroy) (use assms(1) Cons.prems in auto)
  with Cons show ?case by (auto intro: wp.triple_bind)
qed


section \<open>Booting\<close>

text \<open>Assertions about the pool alone: the template, the statistics and the machines do not matter.\<close>

definition pool_fact :: "nat \<Rightarrow> (pool \<Rightarrow> bool) \<Rightarrow> bool" where
  "pool_fact k R \<longleftrightarrow> wp.unaffected k R \<and> (\<forall>s s'. same_pool s s' \<longrightarrow> R s \<longrightarrow> R s')"

lemma pool_fact_framed: "pool_fact k R \<Longrightarrow> framed k R"
  by (simp add: pool_fact_def framed_def)

lemma pool_fact_stable: "pool_fact k R \<Longrightarrow> wp.unaffected k R"
  by (simp add: pool_fact_def)

lemma pool_fact_step: "pool_fact k R \<Longrightarrow> R s \<Longrightarrow> same_pool s s' \<Longrightarrow> R s'"
  by (simp add: pool_fact_def)

lemma pool_fact_True [simp]: "pool_fact k (\<lambda>_. True)"
  by (simp add: pool_fact_def wp.stable_const)

lemma pool_guarI:
  assumes "\<And>j l. j \<noteq> k \<Longrightarrow> pool_owner s' l = Some j \<longleftrightarrow> pool_owner s l = Some j" and "others_kept k s s'"
    and "\<And>j. j \<noteq> k \<Longrightarrow> locked_kept j s s'" and "flags_kept s s'" and "k \<noteq> 0 \<Longrightarrow> main_kept s s'"
  shows "pool_guar k s s'"
  using assms by (auto simp: pool_guar_def pool_rely_def own_kept_def others_kept_def)

text \<open>The number of failed builds, as the holder of the template's lock knows it.\<close>

definition build_due :: "nat \<Rightarrow> nat \<Rightarrow> pool \<Rightarrow> bool" where
  "build_due k n s \<longleftrightarrow> wp_template_lock s = Some k \<and> wp_build_failures s = n \<and> n < MAX_TEMPLATE_BUILD_FAILURES \<and>
     wp_builds s = 0"

lemma framed_build_due: "framed k (build_due k n)"
proof -
  have "build_due k n s'" if "build_due k n s" "pool_rely k s s'" for s s'
  proof -
    have "pool_owner s' Template = Some k \<longleftrightarrow> pool_owner s Template = Some k"
      using that(2) unfolding pool_rely_def own_kept_def by blast
    with that show ?thesis by (auto simp: build_due_def pool_rely_def locked_kept_def)
  qed
  moreover have "build_due k n s'" if "same_template s s'" "build_due k n s" for s s'
    using that by (simp add: build_due_def same_template_def)
  ultimately show ?thesis unfolding framed_def wp.unaffected_def by blast
qed

lemma framed_conj: "framed k P \<Longrightarrow> framed k Q \<Longrightarrow> framed k (\<lambda>s. P s \<and> Q s)"
  unfolding framed_def by (auto intro: wp.stable_conj)

lemma triple_keep:
  "wp.unaffected k R \<Longrightarrow> wp.triple M k (\<lambda>s. holds k L V s \<and> R s) (Done x) (\<lambda>_ s. holds k L V s \<and> R s)"
  by (rule wp.triple_Done) (auto intro!: wp_stable)

lemma triple_build_template:
  assumes "framed k R"
  shows "wp.triple M k (\<lambda>s. holds k L {} s \<and> R s) (build_template k a) (\<lambda>_ s. holds k L {} s \<and> R s)"
proof -
  note keep = triple_keep [OF framed_stable [OF assms]]
  have destroy: "wp.triple M k (\<lambda>s. holds k L {v} s \<and> R s) (vm_destroy k v b) (\<lambda>_ s. holds k L {} s \<and> R s)" for v b
    using triple_vm_destroy [OF assms, of v "{}"] by simp
  have "wp.triple M k (\<lambda>s. holds k L (set_option r) s \<and> R s)
      (case r of None \<Rightarrow> Done False
       | Some src \<Rightarrow> task_bind (vm_destroy k src (ba_source_destroy a)) (\<lambda>_. Done (ba_snapshot a)))
      (\<lambda>_ s. holds k L {} s \<and> R s)" for r
    by (cases r) (auto intro: keep wp.triple_bind [OF destroy keep])
  from wp.triple_bind [OF triple_vm_boot [OF assms] this] show ?thesis
    unfolding build_template_def by (auto intro: keep)
qed

lemma look_at_template_step:
  assumes "pool_good M s" and "holds k L V s" and "template_free s"
  shows "pool_good M (snd (look_at_template k s)) \<and> pool_guar k s (snd (look_at_template k s)) \<and>
    (case fst (look_at_template k s) of
       Inr _ \<Rightarrow> snd (look_at_template k s) = s
     | Inl n \<Rightarrow> holds k (insert Template L) V (snd (look_at_template k s)) \<and> build_due k n (snd (look_at_template k s))) \<and>
    same_pool s (snd (look_at_template k s))"
proof -
  let ?t = "s\<lparr>wp_template_lock := Some k\<rparr>"
  have good: "pool_good M ?t"
    using assms(1) by (auto simp: pool_good_def vms_ok_def template_ok_def size_ok_def start_ok_def outstanding_def
        split: template_state.splits)
  have owner: "pool_owner ?t l = (if l = Template then Some k else pool_owner s l)" for l by (cases l) auto
  have guar: "pool_guar k s ?t"
    by (rule pool_guarI) (use assms(3) in \<open>auto simp: owner others_kept_def kept_defs outstanding_def\<close>)
  have holds: "holds k (insert Template L) V ?t" using assms(2) by (auto simp: holds_def owner)
  have "wp_build_failures s = n \<and> n < MAX_TEMPLATE_BUILD_FAILURES \<and> wp_builds s = 0"
    if "wp_template s = Failing n \<or> wp_template s = Unbuilt \<and> n = 0" for n
    using that assms(1) by (auto simp: pool_good_def template_ok_def MAX_TEMPLATE_BUILD_FAILURES_def)
  with good guar holds assms(1) show ?thesis
    by (auto simp: look_at_template_def build_due_def same_pool_def split: template_state.splits)
qed

lemma record_template_step:
  assumes "pool_good M s" and "holds k (insert Template L) V s" and "build_due k n s" and "Template \<notin> L"
  shows "pool_good M (record_template n built s) \<and> pool_guar k s (record_template n built s) \<and>
    holds k L V (record_template n built s) \<and> same_pool s (record_template n built s)"
proof -
  let ?t = "record_template n built s"
  have same: "same_pool s ?t" "wp_flight ?t = wp_flight s" "owned ?t = owned s" "wp_running ?t = wp_running s"
    "wp_failed ?t = wp_failed s" "wp_next_vm ?t = wp_next_vm s"
    by (auto simp: record_template_def same_pool_def Let_def)
  have "template_ok ?t"
    using assms(3) by (auto simp: record_template_def template_ok_def build_due_def MAX_TEMPLATE_BUILD_FAILURES_def Let_def)
  with same assms(1) have good: "pool_good M ?t"
    by (auto simp: pool_good_def vms_ok_def size_ok_def start_ok_def outstanding_def same_pool_def)
  have owner: "pool_owner ?t l = (if l = Template then None else pool_owner s l)" for l
    by (cases l) (auto simp: record_template_def Let_def)
  have "pool_guar k s ?t"
    by (rule pool_guarI) (use assms(3) same in \<open>auto simp: owner others_kept_def kept_defs outstanding_def same_pool_def build_due_def\<close>)
  with good same show ?thesis using assms(2,4) by (auto simp: holds_def owner)
qed


lemma low_locks: "\<forall>l \<in> L. pool_rank l < 2 \<Longrightarrow> Template \<notin> L \<and> Idle \<notin> L \<and> Stats \<notin> L"
  by auto

lemma triple_ensure_template:
  assumes "pool_fact k R" and "\<forall>l \<in> L. pool_rank l < 2"
  shows "wp.triple M k (\<lambda>s. holds k L {} s \<and> R s) (ensure_template k a) (\<lambda>_ s. holds k L {} s \<and> R s)"
proof -
  note stable_R = pool_fact_stable [OF assms(1)]
  note keep = triple_keep [OF stable_R]
  have due: "framed k (\<lambda>s. R s \<and> build_due k n s)" for n
    by (intro framed_conj pool_fact_framed assms(1) framed_build_due)
  let ?Q = "\<lambda>r s. (case r of Inr (_ :: bool) \<Rightarrow> holds k L {} s \<and> R s
    | Inl n \<Rightarrow> holds k (insert Template L) {} s \<and> R s \<and> build_due k n s)"
  have look: "wp.triple M k (\<lambda>s. holds k L {} s \<and> R s) (task_when template_free (look_at_template k)) ?Q"
  proof (rule triple_lock [where l = Template], goal_cases)
    case (4 r)
    show ?case by (cases r) (auto intro!: wp_stable stable_R framed_stable [OF framed_build_due])
  next
    case (5 s)
    then show ?case using look_at_template_step [of M s k L "{}"] pool_fact_step [OF assms(1), of s]
      by (auto split: sum.splits)
  qed (use assms(2) stable_R in auto)
  have recorded: "wp.triple M k (\<lambda>s. holds k (insert Template L) {} s \<and> R s \<and> build_due k n s)
      (task_write (record_template n b)) (\<lambda>_ s. holds k L {} s \<and> R s)" for n b
    unfolding task_write_def
  proof (rule wp.triple_act, goal_cases)
    case (3 s)
    then show ?case using record_template_step [of M s k L "{}" n b] low_locks [OF assms(2)] pool_fact_step [OF assms(1), of s]
      by simp
  qed (intro wp_stable stable_R framed_stable [OF framed_build_due])+
  have "wp.triple M k (?Q r) (case r of Inr verdict \<Rightarrow> Done verdict
      | Inl prior \<Rightarrow> task_bind (build_template k a) (\<lambda>built.
          task_bind (task_write (record_template prior built)) (\<lambda>_. Done built)))
      (\<lambda>_ s. holds k L {} s \<and> R s)" for r
    by (cases r) (auto intro: keep intro!: wp.triple_bind [OF triple_build_template [OF due]] wp.triple_bind [OF recorded keep])
  then show ?thesis unfolding ensure_template_def by (rule wp.triple_bind [OF look])
qed

lemma triple_boot_or_restore:
  assumes "pool_fact k R" and "\<forall>l \<in> L. pool_rank l < 2"
  shows "wp.triple M k (\<lambda>s. holds k L {} s \<and> R s) (boot_or_restore k sf a) (\<lambda>r s. holds k L (set_option r) s \<and> R s)"
proof -
  note keep = triple_keep [OF pool_fact_stable [OF assms(1)]]
  note framed = pool_fact_framed [OF assms(1)]
  have template: "wp.triple M k (\<lambda>s. holds k L {} s \<and> R s) (if sf then ensure_template k a else Done False)
      (\<lambda>_ s. holds k L {} s \<and> R s)"
    using triple_ensure_template [OF assms] by (auto intro: keep)
  have ready: "wp.triple M k (\<lambda>s. holds k L {v} s \<and> R s) (vm_ready k v b) (\<lambda>r s. holds k L (set_option r) s \<and> R s)" for v b
    by (rule wp.triple_weaken [OF triple_vm_ready [OF framed]]) auto
  have none: "wp.triple M k (\<lambda>s. holds k L {} s \<and> R s) (Done None) (\<lambda>r s. holds k L (set_option r) s \<and> R s)"
    by (rule wp.triple_Done) (auto intro!: wp_stable pool_fact_stable [OF assms(1)])
  have "wp.triple M k (\<lambda>s. holds k L (set_option r) s \<and> R s)
      (case r of None \<Rightarrow> Done None | Some v \<Rightarrow> vm_ready k v (ba_ready a)) (\<lambda>r s. holds k L (set_option r) s \<and> R s)" for r
    by (cases r) (auto intro: none ready)
  then show ?thesis unfolding boot_or_restore_def
    by (intro wp.triple_bind [OF template] wp.triple_bind [OF triple_vm_boot [OF framed]])
qed

lemma triple_stats:
  assumes "pool_fact k R" and "\<forall>l \<in> L. pool_rank l < 4"
  shows "wp.triple M k (\<lambda>s. holds k L V s \<and> R s) (task_when stats_free (\<lambda>s. ((), on_stats (g s) s)))
    (\<lambda>_ s. holds k L V s \<and> R s)"
proof (rule triple_lock [where l = Stats], goal_cases)
  case (5 s)
  then have "vms_ok (on_stats (g s) s)" by (simp add: pool_good_def vms_ok_def)
  with 5 host_step [of s "on_stats (g s) s" k M L V] pool_fact_step [OF assms(1), of s "on_stats (g s) s"]
  show ?case by (auto simp: holds_def)
qed (use assms in \<open>auto intro!: wp_stable pool_fact_stable [OF assms(1)]\<close>)

lemma triple_boot_new_vm:
  assumes "pool_fact k R" and "\<forall>l \<in> L. pool_rank l < 2"
  shows "wp.triple M k (\<lambda>s. holds k L {} s \<and> R s) (boot_new_vm k sf a) (\<lambda>r s. holds k L (set_option r) s \<and> R s)"
proof -
  note keep = triple_keep [OF pool_fact_stable [OF assms(1)]]
  have result: "wp.triple M k (\<lambda>s. holds k L (set_option r) s \<and> R s) (Done r) (\<lambda>r s. holds k L (set_option r) s \<and> R s)" for r
    by (rule wp.triple_Done) (auto intro!: wp_stable pool_fact_stable [OF assms(1)])
  have stats: "wp.triple M k (\<lambda>s. holds k L {v} s \<and> R s) (task_when stats_free (\<lambda>s. ((), on_stats (g s) s)))
      (\<lambda>_ s. holds k L (set_option (Some v)) s \<and> R s)" for v g
    using triple_stats [OF assms(1), of L M "{v}"] assms(2) by force
  have "wp.triple M k (\<lambda>s. holds k L (set_option r) s \<and> R s)
      (case r of None \<Rightarrow> Done None
       | Some v \<Rightarrow> task_bind (task_when stats_free (\<lambda>s. ((), on_stats (\<lambda>st. st\<lparr>pst_total_created := pst_total_created st + 1\<rparr>) s)))
           (\<lambda>_. Done (Some v))) (\<lambda>r s. holds k L (set_option r) s \<and> R s)" for r
    using result [of None] by (cases r) (auto intro: wp.triple_bind [OF stats result])
  then show ?thesis unfolding boot_new_vm_def by (rule wp.triple_bind [OF triple_boot_or_restore [OF assms]])
qed


section \<open>Clients\<close>

text \<open>
  A step that takes or releases the locks of the idle list and of the statistics, while machines move
  between owners.
\<close>

definition lock_move :: "nat \<Rightarrow> nat option \<Rightarrow> nat option \<Rightarrow> bool" where
  "lock_move k x y \<longleftrightarrow> (\<forall>j. j \<noteq> k \<longrightarrow> (y = Some j \<longleftrightarrow> x = Some j))"

lemma lock_move_simps [simp]: "lock_move k x x" "lock_move k None (Some k)" "lock_move k (Some k) None"
  by (auto simp: lock_move_def)

definition list_step :: "nat \<Rightarrow> pool \<Rightarrow> pool \<Rightarrow> bool" where
  "list_step k s s' \<longleftrightarrow> same_template s s' \<and> wp_started s' = wp_started s \<and> wp_shutdown s' = wp_shutdown s \<and>
     wp_handle s' = wp_handle s \<and> wp_spawned s' = wp_spawned s \<and> wp_workers s' = wp_workers s \<and>
     wp_joined s' = wp_joined s \<and> wp_batch s' = wp_batch s \<and> wp_running s' = wp_running s \<and>
     wp_failed s' = wp_failed s \<and> wp_next_vm s' = wp_next_vm s \<and> owned s' = owned s \<and>
     (wp_shutdown s \<longrightarrow> set (wp_idle s') \<subseteq> set (wp_idle s)) \<and>
     (\<forall>sc'. wp_scaler s' = Some sc' \<longrightarrow> (\<exists>sc. wp_scaler s = Some sc \<and> (\<forall>M. scaler_ok M sc' = scaler_ok M sc))) \<and>
     (k \<noteq> 0 \<longrightarrow> wp_idle s' = wp_idle s \<or> wp_started s) \<and>
     (\<forall>j. j \<noteq> k \<longrightarrow> wp_idle_lock s = Some j \<longrightarrow> wp_idle s' = wp_idle s) \<and>
     lock_move k (wp_idle_lock s) (wp_idle_lock s') \<and> lock_move k (wp_stats_lock s) (wp_stats_lock s')"

lemma list_step:
  assumes "list_step k s s'" and "others_kept k s s'" and "pool_good M s"
    and "length (wp_idle s') \<le> unat M + wp_batch s"
  shows "pool_good M s' \<and> pool_guar k s s'"
proof
  have t: "template_ok s' = template_ok s"
    using assms(1) by (simp add: list_step_def same_template_def template_ok_def cong: template_state.case_cong)
  have "scaler_ok M sc" if "wp_scaler s' = Some sc" for sc
    using that assms(1,3) unfolding pool_good_def size_ok_def list_step_def by blast
  then have "size_ok M s'" using assms(1,3,4) by (simp add: pool_good_def size_ok_def list_step_def)
  moreover have "vms_ok s'" "start_ok s'" using assms(1,3) by (simp_all add: pool_good_def vms_ok_def start_ok_def list_step_def outstanding_def)
  ultimately show "pool_good M s'" using t assms(3) by (simp add: pool_good_def)
  show "pool_guar k s s'"
  proof (rule pool_guarI)
    fix j l assume j: "j \<noteq> k"
    show "pool_owner s' l = Some j \<longleftrightarrow> pool_owner s l = Some j"
      using j assms(1) by (cases l) (simp_all add: list_step_def same_template_def lock_move_def)
    show "locked_kept j s s'" using j assms(1) by (simp add: locked_kept_def list_step_def same_template_def)
  next
    show "flags_kept s s'" using assms(1) by (simp add: list_step_def flags_kept_def)
    show "main_kept s s'" if "k \<noteq> 0" using that assms(1) unfolding list_step_def main_kept_def outstanding_def by metis
  qed (rule assms(2))
qed

lemma mset_map_butlast: "xs \<noteq> [] \<Longrightarrow> mset (map f xs) = add_mset (f (last xs)) (mset (map f (butlast xs)))"
  by (induction xs rule: rev_induct) auto

lemma fst_hand_out [simp]: "others_kept k s (hand_out k v s') = others_kept k s (let_go k v s')"
  by (simp add: hand_out_def others_kept_def)

lemma owned_hand_out [simp]: "(k, v) \<in> set (wp_flight s) \<Longrightarrow> owned (hand_out k v s) = owned s"
proof -
  assume v: "(k, v) \<in> set (wp_flight s)"
  have "owned (hand_out k v s) = add_mset v (owned (let_go k v s))"
    by (simp add: hand_out_def owned_def joined_vms_def)
  also have "\<dots> = owned s" using v flight_owned [OF v] by simp
  finally show ?thesis .
qed

lemma owned_push_idle [simp]: "(k, v) \<in> set (wp_flight s) \<Longrightarrow> owned (push_idle k v s) = owned s"
proof -
  assume v: "(k, v) \<in> set (wp_flight s)"
  have "owned (push_idle k v s) = add_mset v (owned (let_go k v s))"
    by (simp add: push_idle_def owned_def joined_vms_def)
  also have "\<dots> = owned s" using v flight_owned [OF v] by simp
  finally show ?thesis .
qed

lemma started_fact: "pool_fact k wp_started"
  by (auto simp: pool_fact_def wp.unaffected_def pool_rely_def flags_kept_def same_pool_def)

lemma pop_idle_step:
  assumes "pool_good M s" and "holds k L {} s" and "wp_started s" and "idle_free s" and "Idle \<notin> L"
  shows "pool_good M (snd (pop_idle k s)) \<and> pool_guar k s (snd (pop_idle k s)) \<and> wp_started (snd (pop_idle k s)) \<and>
    (case fst (pop_idle k s) of None \<Rightarrow> holds k L {} (snd (pop_idle k s))
     | Some v \<Rightarrow> holds k (insert Idle L) {v} (snd (pop_idle k s)))"
proof (cases "wp_idle s = []")
  case True
  with assms show ?thesis by (simp add: pop_idle_def)
next
  case False
  define v t where "v = fst (last (wp_idle s))" and "t = hold k v (s\<lparr>wp_idle := butlast (wp_idle s), wp_idle_lock := Some k\<rparr>)"
  have pop: "pop_idle k s = (Some v, t)" using False by (simp add: pop_idle_def t_def v_def Let_def)
  have "owned t = owned s"
    using mset_map_butlast [OF False, of fst] by (simp add: t_def v_def owned_def joined_vms_def)
  moreover have "set (wp_idle t) \<subseteq> set (wp_idle s)" by (auto simp: t_def dest: in_set_butlastD)
  ultimately have "list_step k s t"
    using assms(3,4) by (simp add: list_step_def same_template_def t_def)
  moreover have "others_kept k s t" "length (wp_idle t) \<le> unat M + wp_batch s"
    using assms(1) by (auto simp: t_def others_kept_def pool_good_def size_ok_def)
  ultimately have good: "pool_good M t \<and> pool_guar k s t" using assms(1) by (intro list_step)
  have "holds k (insert Idle L) {v} t" using assms(2) by (auto simp: holds_def t_def)
  with good pop assms(3) show ?thesis by (simp add: t_def)
qed


definition ended :: "nat \<Rightarrow> pool_answer \<Rightarrow> pool \<Rightarrow> bool" where
  "ended k x s \<longleftrightarrow> holds k {} {} s \<and> (x = Shut_Down \<longrightarrow> wp_shutdown s \<and> wp_idle s = [])"

lemma drained_stable: "wp.unaffected k (\<lambda>s. wp_shutdown s \<and> wp_idle s = [])"
  by (auto simp: wp.unaffected_def pool_rely_def flags_kept_def)

lemma stable_ended: "wp.unaffected k (ended k x)"
proof -
  have "wp.unaffected k (\<lambda>s. holds k {} {} s \<and> (if x = Shut_Down then wp_shutdown s \<and> wp_idle s = [] else True))"
    by (intro wp_stable wp.unaffected_if drained_stable)
  then show ?thesis by (simp add: ended_def [abs_def] if_bool_eq_conj)
qed

lemma triple_answer: "x \<noteq> Shut_Down \<Longrightarrow> wp.triple M k (\<lambda>s. holds k {} {} s \<and> wp_started s) (Done x) (ended k)"
  by (rule wp.triple_Done) (auto simp: ended_def intro: stable_ended)

lemmas started_stable = pool_fact_stable [OF started_fact]

text \<open>The steps inside the critical section of the idle list, while \<open>k\<close> holds its lock.\<close>

lemma triple_release_idle:
  assumes "Idle \<notin> L" and "\<forall>l \<in> L. pool_rank l < 4"
    and "\<And>s s'. R s \<Longrightarrow> wp_idle s' = wp_idle s \<Longrightarrow> wp_shutdown s' = wp_shutdown s \<Longrightarrow> wp_started s' = wp_started s \<Longrightarrow>
      wp_batch s' = wp_batch s \<Longrightarrow> outstanding s' = outstanding s \<Longrightarrow> R s'"
    and "wp.unaffected k R"
  shows "wp.triple M k (\<lambda>s. holds k (insert Idle L) V s \<and> R s)
    (task_when stats_free (\<lambda>s. ((), (on_stats (g s) s)\<lparr>wp_idle_lock := None\<rparr>))) (\<lambda>_ s. holds k L V s \<and> R s)"
proof (rule triple_lock [where l = Stats], goal_cases)
  case (5 s)
  let ?t = "(on_stats (g s) s)\<lparr>wp_idle_lock := None\<rparr>"
  have lock: "wp_idle_lock s = Some k" using 5(2) holds_owner [of k "insert Idle L" V s Idle] by simp
  then have "list_step k s ?t" by (simp add: list_step_def same_template_def)
  moreover have "length (wp_idle ?t) \<le> unat M + wp_batch s" using 5(1) by (simp add: pool_good_def size_ok_def)
  moreover have "others_kept k s ?t" by (simp add: others_kept_def)
  ultimately have "pool_good M ?t \<and> pool_guar k s ?t" using 5(1) by (intro list_step)
  moreover have "holds k L V ?t" using 5(2) assms(1) by (auto simp: holds_def)
  moreover have "R ?t" by (rule assms(3) [OF 5(3)]) (simp_all add: outstanding_def)
  ultimately show ?case by simp
qed (use assms in \<open>auto intro!: wp_stable\<close>)

lemma triple_count_hit:
  "wp.triple M k (\<lambda>s. holds k {Idle} {v} s \<and> wp_started s)
     (task_when stats_free (\<lambda>s. ((), (on_stats (g s) s)\<lparr>wp_stats_lock := Some k\<rparr>)))
     (\<lambda>_ s. holds k {Idle, Stats} {v} s \<and> wp_started s)"
proof (rule triple_lock [where l = Stats], goal_cases)
  case (5 s)
  let ?t = "(on_stats (g s) s)\<lparr>wp_stats_lock := Some k\<rparr>"
  have "list_step k s ?t" using 5(4) by (simp add: list_step_def same_template_def)
  moreover have "length (wp_idle ?t) \<le> unat M + wp_batch s" using 5(1) by (simp add: pool_good_def size_ok_def)
  moreover have "others_kept k s ?t" by (simp add: others_kept_def)
  ultimately have "pool_good M ?t \<and> pool_guar k s ?t" using 5(1) by (intro list_step)
  moreover have "holds k {Idle, Stats} {v} ?t" using 5(2) by (auto simp: holds_def)
  ultimately show ?case using 5(3) by simp
qed (auto intro!: wp_stable started_stable)

lemma triple_hand_out_hit:
  "wp.triple M k (\<lambda>s. holds k {Idle, Stats} {v} s \<and> wp_started s)
     (task_write (\<lambda>s. hand_out k v ((record_pool_acquire True s)\<lparr>wp_stats_lock := None, wp_idle_lock := None\<rparr>)))
     (\<lambda>_ s. holds k {} {} s \<and> wp_started s)"
  unfolding task_write_def
proof (rule wp.triple_act, goal_cases)
  case (3 s)
  let ?u = "(record_pool_acquire True s)\<lparr>wp_stats_lock := None, wp_idle_lock := None\<rparr>"
  let ?t = "hand_out k v ?u"
  have locks: "wp_idle_lock s = Some k" "wp_stats_lock s = Some k" and v: "(k, v) \<in> set (wp_flight s)"
    using 3 holds_owner [of k "{Idle, Stats}" "{v}" s Idle] holds_owner [of k "{Idle, Stats}" "{v}" s Stats]
    by (auto simp: holds_def)
  have "owned ?t = owned ?u" using v by (intro owned_hand_out) (simp add: record_pool_acquire_def)
  then have owned: "owned ?t = owned s" by (simp add: record_pool_acquire_def)
  have "list_step k s ?t"
    using locks owned by (auto simp: list_step_def same_template_def hand_out_def record_pool_acquire_def)
  moreover have "length (wp_idle ?t) \<le> unat M + wp_batch s"
    using 3 by (simp add: pool_good_def size_ok_def hand_out_def record_pool_acquire_def)
  moreover have "others_kept k s ?t" by (simp add: record_pool_acquire_def)
  ultimately have "pool_good M ?t \<and> pool_guar k s ?t" using 3 by (intro list_step) auto
  moreover have "holds k {} {} ?t"
    using 3 flight_remove1 [of s k "{Idle, Stats}" v "{}"]
    by (auto simp: holds_def hand_out_def record_pool_acquire_def pool_good_def)
  ultimately show ?case using 3 by (simp add: hand_out_def record_pool_acquire_def)
qed (auto intro!: wp_stable started_stable)


lemma list_step_shrink:
  assumes "list_step k s s'" and "others_kept k s s'" and "pool_good M s" and "length (wp_idle s') \<le> length (wp_idle s)"
  shows "pool_good M s' \<and> pool_guar k s s'"
  using assms by (intro list_step) (auto simp: pool_good_def size_ok_def)

lemma triple_record_miss:
  "wp.triple M k (\<lambda>s. holds k {} {} s \<and> wp_started s) (task_write (record_pool_acquire False))
     (\<lambda>_ s. holds k {} {} s \<and> wp_started s)"
  unfolding task_write_def
proof (rule wp.triple_act, goal_cases)
  case (3 s)
  let ?t = "record_pool_acquire False s"
  have "list_step k s ?t" by (auto simp: list_step_def same_template_def record_pool_acquire_def)
  with 3 have "pool_good M ?t \<and> pool_guar k s ?t"
    by (intro list_step_shrink) (simp_all add: record_pool_acquire_def)
  with 3 show ?case by (simp add: holds_def record_pool_acquire_def)
qed (auto intro!: wp_stable started_stable)

lemma hand_out_step:
  assumes "pool_good M s" and "holds k {} {v} s"
  shows "pool_good M (hand_out k v s) \<and> pool_guar k s (hand_out k v s) \<and> holds k {} {} (hand_out k v s)"
proof -
  have v: "(k, v) \<in> set (wp_flight s)" and vms: "vms_ok s" using assms by (auto simp: holds_def pool_good_def)
  have "list_step k s (hand_out k v s)"
    using owned_hand_out [OF v] by (simp add: list_step_def same_template_def hand_out_def)
  with assms(1) have "pool_good M (hand_out k v s) \<and> pool_guar k s (hand_out k v s)"
    by (intro list_step_shrink) (simp_all add: hand_out_def)
  moreover have "holds k {} {} (hand_out k v s)"
    using assms(2) flight_remove1 [of s k "{}" v "{}"] vms by (simp add: holds_def hand_out_def)
  ultimately show ?thesis by simp
qed

lemma triple_hand_out_miss:
  "wp.triple M k (\<lambda>s. holds k {} {v} s \<and> wp_started s)
     (task_when stats_free (\<lambda>s. ((), hand_out k v (on_stats g s)))) (\<lambda>_ s. holds k {} {} s \<and> wp_started s)"
proof (rule triple_lock [where l = Stats], goal_cases)
  case (5 s)
  let ?u = "on_stats g s"
  have "vms_ok ?u" using 5(1) by (simp add: pool_good_def vms_ok_def)
  with 5 have u: "pool_good M ?u \<and> pool_guar k s ?u \<and> holds k {} {v} ?u"
    using host_step [of s ?u k M "{}" "{v}"] by (auto simp: holds_def)
  have "pool_guar k s (hand_out k v ?u)" if "pool_guar k ?u (hand_out k v ?u)"
    using u that unfolding pool_guar_def by (blast intro: pool_rely_trans)
  with u hand_out_step [of M ?u k v] 5(3) show ?case by (simp add: hand_out_def)
qed (auto intro!: wp_stable started_stable)

lemma triple_acquire:
  "wp.triple M k (\<lambda>s. holds k {} {} s \<and> wp_started s) (acquire k sf a) (ended k)"
proof -
  let ?Q = "\<lambda>r s. (case r of None \<Rightarrow> holds k {} {} s \<and> wp_started s | Some v \<Rightarrow> holds k {Idle} {v} s \<and> wp_started s)"
  have pop: "wp.triple M k (\<lambda>s. holds k {} {} s \<and> wp_started s) (task_when idle_free (pop_idle k)) ?Q"
  proof (rule triple_lock [where l = Idle], goal_cases)
    case (4 r)
    show ?case by (cases r) (auto intro!: wp_stable started_stable)
  next
    case (5 s)
    then show ?case using pop_idle_step [of M s k "{}"] by (auto split: option.splits)
  qed (auto intro: started_stable)
  have hit: "wp.triple M k (\<lambda>s. holds k {Idle} {v} s \<and> wp_started s)
      (task_bind (task_when stats_free (\<lambda>s. ((), (on_stats (g s) s)\<lparr>wp_stats_lock := Some k\<rparr>))) (\<lambda>_.
       task_bind (task_write (\<lambda>s. hand_out k v ((record_pool_acquire True s)\<lparr>wp_stats_lock := None, wp_idle_lock := None\<rparr>)))
         (\<lambda>_. Done (Acquired v)))) (ended k)" for v g
    by (intro wp.triple_bind [OF triple_count_hit] wp.triple_bind [OF triple_hand_out_hit] triple_answer) simp
  have booted: "wp.triple M k (\<lambda>s. holds k {} (set_option r) s \<and> wp_started s)
      (case r of None \<Rightarrow> Done Pool_Failed
       | Some v \<Rightarrow> task_bind (task_when stats_free (\<lambda>s. ((), hand_out k v (on_stats g s)))) (\<lambda>_. Done (Acquired v)))
      (ended k)" for r g
    using triple_answer by (cases r) (auto intro!: wp.triple_bind [OF triple_hand_out_miss])
  have miss: "wp.triple M k (\<lambda>s. holds k {} {} s \<and> wp_started s)
      (task_bind (task_write (record_pool_acquire False)) (\<lambda>_. task_bind (boot_new_vm k sf a) (\<lambda>r. case r of
         None \<Rightarrow> Done Pool_Failed
       | Some v \<Rightarrow> task_bind (task_when stats_free (\<lambda>s. ((), hand_out k v (on_stats g s)))) (\<lambda>_. Done (Acquired v)))))
      (ended k)" for g
    by (intro wp.triple_bind [OF triple_record_miss] wp.triple_bind [OF triple_boot_new_vm [OF started_fact]] booted) simp
  show ?thesis unfolding acquire_def
    by (rule wp.triple_bind [OF pop], rule wp.triple_option) (simp_all add: hit miss)
qed

lemma triple_take_back:
  "wp.triple M k (\<lambda>s. holds k {} {} s \<and> wp_started s) (task_act (take_back k v))
     (\<lambda>called s. holds k {} (if called then {v} else {}) s \<and> wp_started s)"
proof (rule wp.triple_act, goal_cases)
  case (3 s)
  let ?t = "hold k v (s\<lparr>wp_clients := remove1 v (wp_clients s)\<rparr>)"
  have "owned ?t = owned s" if "v \<in> set (wp_clients s)"
    using that by (simp add: owned_def joined_vms_def)
  then have "list_step k s ?t" if "v \<in> set (wp_clients s)"
    using that by (simp add: list_step_def same_template_def)
  with 3 have "pool_good M ?t \<and> pool_guar k s ?t" if "v \<in> set (wp_clients s)"
    using that by (intro list_step_shrink) simp_all
  with 3 show ?case by (auto simp: take_back_def holds_def)
qed (auto intro!: wp_stable started_stable)

lemma push_idle_step:
  assumes "pool_good M s" and "holds k L {v} s" and "idle_free s" and "\<not> wp_shutdown s" and "k \<noteq> 0 \<Longrightarrow> wp_started s"
    and "length (wp_idle s) < unat M + wp_batch s"
  shows "pool_good M (push_idle k v s) \<and> pool_guar k s (push_idle k v s) \<and> holds k (insert Idle L) {} (push_idle k v s)"
proof -
  have v: "(k, v) \<in> set (wp_flight s)" and vms: "vms_ok s" using assms(1,2) by (auto simp: holds_def pool_good_def)
  have "list_step k s (push_idle k v s)"
    using assms(3-5) owned_push_idle [OF v] by (simp add: list_step_def same_template_def push_idle_def)
  then have "pool_good M (push_idle k v s) \<and> pool_guar k s (push_idle k v s)"
    by (rule list_step) (use assms(1,6) in \<open>simp_all add: push_idle_def\<close>)
  moreover have "holds k (insert Idle L) {} (push_idle k v s)"
    using assms(2) flight_remove1 [of s k L v "{}"] vms by (auto simp: holds_def push_idle_def)
  ultimately show ?thesis by simp
qed

lemma triple_give_back:
  "wp.triple M k (\<lambda>s. holds k {} {v} s \<and> wp_started s) (task_when idle_free (give_back k (unat M) v))
     (\<lambda>kept s. holds k (if kept then {Idle} else {}) (if kept then {} else {v}) s \<and> wp_started s)"
proof (rule triple_lock [where l = Idle], goal_cases)
  case (5 s)
  then show ?case using push_idle_step [of M s k "{}" v] by (simp add: give_back_def) (simp add: push_idle_def)
qed (auto intro!: wp_stable started_stable)

lemma triple_release:
  "wp.triple M k (\<lambda>s. holds k {} {} s \<and> wp_started s) (release k (unat M) v ok) (ended k)"
proof -
  have drop: "wp.triple M k (\<lambda>s. holds k {} {v} s \<and> wp_started s) (vm_destroy k v b) (\<lambda>_ s. holds k {} {} s \<and> wp_started s)" for b
    using triple_vm_destroy [OF pool_fact_framed [OF started_fact], of v "{}"] by simp
  have count: "wp.triple M k (\<lambda>s. holds k {Idle} {} s \<and> wp_started s)
      (task_when stats_free (\<lambda>s. ((), (on_stats (g s) s)\<lparr>wp_idle_lock := None\<rparr>))) (\<lambda>_ s. holds k {} {} s \<and> wp_started s)" for g
    by (rule triple_release_idle) (auto intro: started_stable)
  have kept: "wp.triple M k (\<lambda>s. holds k (if kept then {Idle} else {}) (if kept then {} else {v}) s \<and> wp_started s)
      (if \<not> kept then task_bind (vm_destroy k v ok) (\<lambda>_. Done (if ok then Pool_Done else Pool_Failed))
       else task_bind (task_when stats_free (\<lambda>s. ((), (on_stats (g s) s)\<lparr>wp_idle_lock := None\<rparr>))) (\<lambda>_. Done Released))
      (ended k)" for kept g
    by (cases kept) (auto intro!: wp.triple_bind [OF drop] wp.triple_bind [OF count] triple_answer)
  show ?thesis unfolding release_def
    by (rule wp.triple_bind [OF triple_take_back], rule wp.triple_if)
       (simp_all add: triple_answer wp.triple_bind [OF triple_give_back kept])
qed

section \<open>Shutting down\<close>

lemma triple_signal:
  "wp.triple M k (\<lambda>s. holds k {} {} s \<and> wp_started s) signal_shutdown (\<lambda>_ s. holds k {} {} s \<and> wp_started s \<and> wp_shutdown s)"
proof -
  have stable: "wp.unaffected k wp_shutdown" by (auto simp: wp.unaffected_def pool_rely_def flags_kept_def)
  show ?thesis unfolding signal_shutdown_def task_write_def
  proof (rule wp.triple_act, goal_cases)
    case (3 s)
    let ?t = "s\<lparr>wp_shutdown := True\<rparr>"
    have "pool_good M ?t"
      using 3 by (auto simp: pool_good_def vms_ok_def template_ok_def size_ok_def start_ok_def outstanding_def split: template_state.splits)
    moreover have "pool_guar k s ?t"
      by (rule pool_guarI) (simp_all add: kept_defs outstanding_def)
    ultimately show ?case using 3 by (simp add: holds_def)
  qed (auto intro!: wp_stable started_stable stable)
qed

lemma map_fst_distinct:
  assumes "vms_ok s"
  shows "distinct (map fst (wp_idle s))"
proof (rule distinct_count_le)
  fix v
  have "count (mset (map fst (wp_idle s))) v \<le> count (owned s) v" by (simp add: owned_def)
  also have "\<dots> \<le> 1" using assms by (simp add: vms_ok_def)
  finally show "count (mset (map fst (wp_idle s))) v \<le> 1" .
qed

text \<open>Machines leave the idle list for the hands of the task.\<close>

lemma take_idle_step:
  assumes "pool_good M s" and "holds k L {} s" and "idle_free s" and "k \<noteq> 0 \<Longrightarrow> wp_started s"
    and "mset (wp_idle s) = mset out + mset kept"
    and t: "t = s\<lparr>wp_idle := kept, wp_idle_lock := x, wp_flight := map (\<lambda>e. (k, fst e)) out @ wp_flight s\<rparr>"
    and "x = None \<or> x = Some k"
  shows "pool_good M t \<and> pool_guar k s t \<and> holds k (if x = None then L - {Idle} else insert Idle L) (set (map fst out)) t \<and>
    distinct (map fst out)"
proof -
  have idle: "mset (map fst (wp_idle s)) = mset (map fst out) + mset (map fst kept)" using assms(5) by simp
  have sets: "set (wp_idle s) = set out \<union> set kept" using assms(5) by (metis set_mset_mset set_mset_union)
  have "owned t = owned s" using idle by (simp add: t owned_def joined_vms_def o_def)
  then have "list_step k s t"
    using assms(3,4,7) sets by (auto simp: list_step_def same_template_def t)
  moreover have "length (wp_idle t) \<le> length (wp_idle s)"
    using assms(5) by (simp add: t) (metis le_add2 size_mset size_union)
  moreover have "others_kept k s t" by (auto simp: others_kept_def t)
  ultimately have "pool_good M t \<and> pool_guar k s t" using assms(1) by (intro list_step_shrink)
  moreover have "distinct (map fst out)"
  proof -
    have "distinct (map fst (wp_idle s))" using map_fst_distinct assms(1) by (simp add: pool_good_def)
    then show ?thesis using idle
      by (metis distinct_append mset_append mset_eq_imp_distinct_iff)
  qed
  moreover have "holds k (if x = None then L - {Idle} else insert Idle L) (set (map fst out)) t"
    using assms(2,3,7) by (auto simp: holds_def t)
  ultimately show ?thesis by simp
qed


text \<open>What holds of the pool after the list has been emptied is kept until the call ends.\<close>

definition list_fact :: "nat \<Rightarrow> (pool \<Rightarrow> bool) \<Rightarrow> bool" where
  "list_fact k R \<longleftrightarrow> wp.unaffected k R \<and> (\<forall>s s'. R s \<longrightarrow> wp_idle s' = wp_idle s \<longrightarrow> wp_shutdown s' = wp_shutdown s \<longrightarrow>
     wp_started s' = wp_started s \<longrightarrow> wp_batch s' = wp_batch s \<longrightarrow> outstanding s' = outstanding s \<longrightarrow> R s')"

lemma list_fact_pool: "list_fact k R \<Longrightarrow> pool_fact k R"
  unfolding list_fact_def pool_fact_def by (simp add: same_pool_def outstanding_def)

lemma list_fact_stable: "list_fact k R \<Longrightarrow> wp.unaffected k R"
  by (simp add: list_fact_def)

lemma list_fact_step:
  "list_fact k R \<Longrightarrow> R s \<Longrightarrow> wp_idle s' = wp_idle s \<Longrightarrow> wp_shutdown s' = wp_shutdown s \<Longrightarrow>
     wp_started s' = wp_started s \<Longrightarrow> wp_batch s' = wp_batch s \<Longrightarrow> outstanding s' = outstanding s \<Longrightarrow> R s'"
  unfolding list_fact_def by blast

lemma triple_drain_idle:
  assumes "wp.unaffected k S" and "list_fact k R"
    and "\<And>s. S s \<Longrightarrow> wp_started s \<and> R (snd (take_all k s))"
  shows "wp.triple M k (\<lambda>s. holds k {} {} s \<and> S s) (drain_idle k destroyed) (\<lambda>_ s. holds k {} {} s \<and> R s)"
proof -
  let ?Q = "\<lambda>vs s. distinct vs \<and> holds k {Idle} (set vs) s \<and> R s"
  have all: "wp.triple M k (\<lambda>s. holds k {} {} s \<and> S s) (task_when idle_free (take_all k)) ?Q"
  proof (rule triple_lock [where l = Idle], goal_cases)
    case (4 vs)
    show ?case by (intro wp_stable list_fact_stable [OF assms(2)])
  next
    case (5 s)
    then show ?case
      using take_idle_step [of M s k "{}" "wp_idle s" "[]" "snd (take_all k s)" "Some k"] assms(3) [of s]
      by (simp add: take_all_def)
  qed (simp_all add: assms(1))
  have destroy: "wp.triple M k (?Q vs) (task_each (\<lambda>v. vm_destroy k v (destroyed v)) vs) (\<lambda>_ s. holds k {Idle} {} s \<and> R s)" for vs
  proof (cases "distinct vs")
    case True
    then show ?thesis
      using triple_destroy_all [OF pool_fact_framed [OF list_fact_pool [OF assms(2)]], of vs "{}"] by simp
  qed (simp add: wp.triple_def)
  have unlock: "wp.triple M k (\<lambda>s. holds k {Idle} {} s \<and> R s)
      (task_when stats_free (\<lambda>s. ((), (on_stats (g s) s)\<lparr>wp_idle_lock := None\<rparr>))) (\<lambda>_ s. holds k {} {} s \<and> R s)" for g
    by (rule triple_release_idle) (auto intro: list_fact_stable [OF assms(2)] list_fact_step [OF assms(2)])
  show ?thesis unfolding drain_idle_def
    by (intro wp.triple_bind [OF all] wp.triple_bind [OF destroy] unlock)
qed

lemma list_fact_started: "list_fact k wp_started"
  by (auto simp: list_fact_def intro: started_stable)

lemma list_fact_drained: "list_fact k (\<lambda>s. wp_shutdown s \<and> wp_idle s = [])"
  by (auto simp: list_fact_def intro: drained_stable)

lemma triple_drain_call:
  "wp.triple M k (\<lambda>s. holds k {} {} s \<and> wp_started s) (task_bind (drain_idle k destroyed) (\<lambda>_. Done Pool_Done)) (ended k)"
proof (rule wp.triple_bind [OF triple_drain_idle])
  show "wp.triple M k (\<lambda>s. holds k {} {} s \<and> wp_started s) (Done Pool_Done) (ended k)" by (rule triple_answer) simp
qed (auto simp: take_all_def intro: started_stable list_fact_started)

lemma triple_drain_after_signal:
  "wp.triple M k (\<lambda>s. holds k {} {} s \<and> wp_started s \<and> wp_shutdown s)
     (task_bind (drain_idle k destroyed) (\<lambda>_. Done Shut_Down)) (ended k)"
proof (rule wp.triple_bind [OF triple_drain_idle])
  show "wp.unaffected k (\<lambda>s. wp_started s \<and> wp_shutdown s)"
    by (auto simp: wp.unaffected_def pool_rely_def flags_kept_def)
  show "list_fact k (\<lambda>s. wp_shutdown s \<and> wp_idle s = [])" by (rule list_fact_drained)
  show "wp.triple M k (\<lambda>s. holds k {} {} s \<and> wp_shutdown s \<and> wp_idle s = []) (Done Shut_Down) (ended k)"
    by (rule wp.triple_Done) (auto simp: ended_def intro: stable_ended)
qed (simp add: take_all_def)

lemma triple_drain_entry: "wp.triple M k (\<lambda>s. holds k {} {} s \<and> wp_started s) (drain_entry k destroyed) (ended k)"
  unfolding drain_entry_def by (rule wp.triple_bind [OF triple_signal triple_drain_after_signal])

lemma triple_drain:
  assumes "k \<noteq> 0"
  shows "wp.triple M k (\<lambda>s. holds k {} {} s \<and> wp_started s) (drain k destroyed) (ended k)"
proof -
  have stable: "wp.unaffected k (\<lambda>s. wp_started s \<and> wp_shutdown s)"
    by (auto simp: wp.unaffected_def pool_rely_def flags_kept_def)
  have "wp.triple M k (\<lambda>s. holds k {} {} s \<and> wp_started s \<and> wp_shutdown s) (task_guarded (\<lambda>s. \<not> wp_handle s) (\<lambda>s. s))
      (\<lambda>_ s. holds k {} {} s \<and> wp_started s \<and> wp_shutdown s)"
  proof (rule wp.triple_guarded)
    fix s assume "holds k {} {} s \<and> wp_started s \<and> wp_shutdown s" "\<not> \<not> wp_handle s"
    then show "waits pool_owner pool_rank boots_queued k s" using waits_for [of k "{}" "{}" s Handle] by simp
  qed (auto intro!: wp_stable stable)
  then show ?thesis unfolding drain_def
    by (intro wp.triple_bind [OF triple_signal] wp.triple_bind [OF _ triple_drain_after_signal])
qed

section \<open>Spawned boots, the clock and clients\<close>

lemma triple_start_worker:
  assumes "k \<noteq> 0"
  shows "wp.triple M k (holds k {} {}) (task_act (start_worker k))
    (\<lambda>started s. holds k (if started then {Worker k} else {}) {} s)"
proof (rule wp.triple_act, goal_cases)
  case (3 s)
  define t where t: "t = s\<lparr>wp_spawned := wp_spawned s - 1, wp_workers := insert k (wp_workers s)\<rparr>"
  have k: "k \<notin> wp_workers s" using 3(2) holds_owner [of k "{}" "{}" s "Worker k"] by (auto split: if_splits)
  have fin: "finite (wp_workers s)" using 3(1) by (simp add: pool_good_def start_ok_def)
  have out: "outstanding t = outstanding s" if "0 < wp_spawned s" using that k fin by (simp add: outstanding_def t)
  have "pool_good M t" if "0 < wp_spawned s"
    using 3(1) assms that by (auto simp: t pool_good_def vms_ok_def template_ok_def size_ok_def start_ok_def outstanding_def split: template_state.splits)
  moreover have owner: "pool_owner t l = (if l = Worker k then Some k else pool_owner s l)" for l by (cases l) (auto simp: t)
  moreover have "pool_guar k s t" if "0 < wp_spawned s"
  proof (rule pool_guarI)
    show "pool_owner t l = Some j \<longleftrightarrow> pool_owner s l = Some j" if "j \<noteq> k" for j l
      using that k by (auto simp: owner)
  qed (use out that in \<open>auto simp: t kept_defs\<close>)
  moreover have "wp_flight t = wp_flight s" by (simp add: t)
  moreover have "start_worker k s = (if 0 < wp_spawned s then (True, t) else (False, s))" by (simp add: start_worker_def t)
  ultimately show ?case using 3 by (cases "0 < wp_spawned s") (auto simp: holds_def)
qed (auto intro!: wp_stable)

lemma triple_finish_worker:
  "wp.triple M k (holds k {Worker k} (set_option r)) (task_write (finish_worker k r)) (\<lambda>_. holds k {} {})"
  unfolding task_write_def
proof (rule wp.triple_act, goal_cases)
  case (3 s)
  let ?t = "finish_worker k r s"
  have k: "k \<in> wp_workers s" using 3(2) holds_owner [of k "{Worker k}" "set_option r" s "Worker k"] by (auto split: if_splits)
  have vms: "vms_ok s" and fin: "finite (wp_workers s)" using 3(1) by (simp_all add: pool_good_def start_ok_def)
  then have out: "outstanding ?t = outstanding s"
    using k by (cases r) (auto simp: outstanding_def finish_worker_def card_Suc_Diff1 simp del: card_Diff_singleton card_Diff_insert)
  have "owned ?t = owned s"
  proof (cases r)
    case None
    then show ?thesis by (simp add: owned_def joined_vms_def finish_worker_def map_filter_def)
  next
    case (Some v)
    then have v: "(k, v) \<in> set (wp_flight s)" using 3(2) by (auto simp: holds_def)
    have "owned ?t = add_mset v (owned (let_go k v s))"
      using Some by (simp add: owned_def joined_vms_def finish_worker_def map_filter_def)
    then show ?thesis using v flight_owned [OF v] by simp
  qed
  moreover have same: "wp_idle ?t = wp_idle s" "wp_running ?t = wp_running s" "wp_failed ?t = wp_failed s" "wp_next_vm ?t = wp_next_vm s"
    "wp_batch ?t = wp_batch s" "wp_scaler ?t = wp_scaler s" "wp_started ?t = wp_started s" "wp_shutdown ?t = wp_shutdown s"
    "wp_handle ?t = wp_handle s" "wp_workers ?t = wp_workers s - {k}" "same_template s ?t" "others_kept k s ?t"
    by (cases r; simp add: finish_worker_def same_template_def)+
  ultimately have "pool_good M ?t"
    using 3(1) out by (simp add: pool_good_def vms_ok_def template_ok_def size_ok_def start_ok_def same_template_def
        cong: template_state.case_cong)
  moreover have owner: "pool_owner ?t l = (if l = Worker k then None else pool_owner s l)" for l
    by (cases l; cases r) (auto simp: finish_worker_def)
  moreover have "pool_guar k s ?t"
  proof (rule pool_guarI)
    show "pool_owner ?t l = Some j \<longleftrightarrow> pool_owner s l = Some j" if "j \<noteq> k" for j l
      using that k by (auto simp: owner)
  qed (use out same in \<open>simp_all add: kept_defs same_template_def\<close>)
  moreover have "{l. pool_owner ?t l = Some k} = {}" using holds_owner [OF 3(2)] by (auto simp: owner)
  moreover have "{v. (k, v) \<in> set (wp_flight ?t)} = {}"
    using 3(2) flight_remove1 [OF vms, of k "{Worker k}" _ "{}"]
    by (cases r) (auto simp: finish_worker_def, auto simp: holds_def)
  ultimately show ?case by (simp add: holds_def)
qed (auto intro!: wp_stable)

lemma triple_worker:
  assumes "k \<noteq> 0"
  shows "wp.triple M k (holds k {} {}) (worker k sf a) (ended k)"
proof -
  have answer: "wp.triple M k (holds k {} {}) (Done x) (ended k)" if "x \<noteq> Shut_Down" for x
    by (rule wp.triple_Done) (use that in \<open>auto simp: ended_def intro: stable_ended\<close>)
  have "wp.triple M k (\<lambda>s. holds k {Worker k} {} s \<and> True) (boot_or_restore k sf a)
      (\<lambda>r s. holds k {Worker k} (set_option r) s \<and> True)"
    by (rule triple_boot_or_restore) auto
  then have boot: "wp.triple M k (holds k {Worker k} {}) (boot_or_restore k sf a) (\<lambda>r. holds k {Worker k} (set_option r))"
    by simp
  have "wp.triple M k (holds k {Worker k} {}) (task_bind (boot_or_restore k sf a) (\<lambda>r.
      task_bind (task_write (finish_worker k r)) (\<lambda>_. Done Pool_Done))) (ended k)"
    by (intro wp.triple_bind [OF boot] wp.triple_bind [OF triple_finish_worker] answer) simp
  then show ?thesis unfolding worker_def
    by (intro wp.triple_bind [OF triple_start_worker [OF assms]] wp.triple_if) (simp_all add: answer)
qed

lemma triple_clock:
  "wp.triple M k (holds k {} {}) (task_bind (task_write (\<lambda>s. s\<lparr>wp_clock := wp_clock s + d\<rparr>)) (\<lambda>_. Done Pool_Done)) (ended k)"
proof (rule wp.triple_bind)
  show "wp.triple M k (holds k {} {}) (task_write (\<lambda>s. s\<lparr>wp_clock := wp_clock s + d\<rparr>)) (\<lambda>_. holds k {} {})"
    unfolding task_write_def
  proof (rule wp.triple_act, goal_cases)
    case (3 s)
    let ?t = "s\<lparr>wp_clock := wp_clock s + d\<rparr>"
    have "same_pool s ?t" "same_template s ?t" "vms_ok ?t"
      using 3(1) by (simp_all add: same_pool_def same_template_def pool_good_def vms_ok_def)
    with 3 host_step [of s ?t k M "{}" "{}"] show ?case by (simp add: holds_def)
  qed (auto intro!: wp_stable)
  show "wp.triple M k (holds k {} {}) (Done Pool_Done) (ended k)"
    by (rule wp.triple_Done) (auto simp: ended_def intro: stable_ended)
qed

lemma triple_client:
  assumes "wp.triple M k (\<lambda>s. holds k {} {} s \<and> wp_started s) t (ended k)"
  shows "wp.triple M k (holds k {} {}) (client t) (ended k)"
  unfolding client_def task_read_def
proof (rule wp.triple_bind)
  show "wp.triple M k (holds k {} {}) (task_act (\<lambda>s. (wp_started s, s))) (\<lambda>b s. holds k {} {} s \<and> (if b then wp_started s else True))"
    by (rule wp.triple_act; (intro wp_stable wp.unaffected_if started_stable)?) simp
  show "wp.triple M k (\<lambda>s. holds k {} {} s \<and> (if b then wp_started s else True)) (if b then t else Done Not_Called) (ended k)" for b
    using assms by (cases b) (auto intro: wp.triple_Done stable_ended simp: ended_def)
qed

end
