(* ===== verification/Pool_Correctness.thy ===== *)
theory Pool_Correctness
  imports Pool_Safety
begin

text \<open>
  The first task of a pool (start and maintenance), and what holds of every run of a warm pool.
\<close>

section \<open>Starting\<close>

text \<open>While the pool starts, nobody else has it.\<close>

definition filling :: "nat \<Rightarrow> pool \<Rightarrow> bool" where
  "filling n s \<longleftrightarrow> \<not> wp_started s \<and> length (wp_idle s) \<le> n"

lemma list_fact_filling: "list_fact 0 (filling n)"
  by (auto simp: list_fact_def filling_def wp.unaffected_def pool_rely_def main_kept_def)

lemmas filling_facts = list_fact_pool [OF list_fact_filling] list_fact_stable [OF list_fact_filling]
  pool_fact_framed [OF list_fact_pool [OF list_fact_filling]]

lemma triple_add_idle:
  assumes "n < unat M"
  shows "wp.triple M 0 (\<lambda>s. holds 0 {} {v} s \<and> filling n s) (add_idle 0 v) (\<lambda>_ s. holds 0 {} {} s \<and> filling (Suc n) s)"
proof -
  have push: "wp.triple M 0 (\<lambda>s. holds 0 {} {v} s \<and> filling n s) (task_when idle_free (\<lambda>s. ((), push_idle 0 v s)))
      (\<lambda>_ s. holds 0 {Idle} {} s \<and> filling (Suc n) s)"
  proof (rule triple_lock [where l = Idle], goal_cases)
    case (5 s)
    then have "\<not> wp_shutdown s" by (auto simp: pool_good_def start_ok_def filling_def)
    with 5 assms push_idle_step [of M s 0 "{}" v] show ?case by (auto simp: filling_def push_idle_def)
  qed (auto intro!: wp_stable filling_facts(2))
  have unlock: "wp.triple M 0 (\<lambda>s. holds 0 {Idle} {} s \<and> filling (Suc n) s)
      (task_when stats_free (\<lambda>s. ((), (on_stats (g s) s)\<lparr>wp_idle_lock := None\<rparr>)))
      (\<lambda>_ s. holds 0 {} {} s \<and> filling (Suc n) s)" for g
    by (rule triple_release_idle [OF _ _ _ filling_facts(2)]) (auto simp: filling_def)
  show ?thesis unfolding add_idle_def by (rule wp.triple_bind [OF push unlock])
qed

lemma remove_indices_mset: "remove_indices is xs = (out, kept) \<Longrightarrow> mset xs = mset out + mset kept"
proof (induction "is" arbitrary: xs out kept)
  case (Cons i "is")
  show ?case
  proof (cases "i < length xs")
    case True
    obtain ys zs where rest: "remove_indices is (take i xs @ drop (Suc i) xs) = (ys, zs)" by force
    have "mset xs = add_mset (xs ! i) (mset (take i xs @ drop (Suc i) xs))"
      by (subst id_take_nth_drop [OF True]) simp
    with Cons.IH [OF rest] Cons.prems True rest show ?thesis by auto
  next
    case False
    with Cons show ?thesis by simp
  qed
qed simp

lemma triple_remove_idle_vms:
  "wp.triple M 0 (\<lambda>s. holds 0 {} {} s \<and> filling n s) (remove_idle_vms 0 ids destroyed) (\<lambda>_ s. holds 0 {} {} s \<and> filling n s)"
proof -
  note keep = triple_keep [OF filling_facts(2)]
  have look: "wp.triple M 0 (\<lambda>s. holds 0 {} {} s \<and> filling n s) (task_when idle_free (\<lambda>s. (f s, s)))
      (\<lambda>_ s. holds 0 {} {} s \<and> filling n s)" for f :: "pool \<Rightarrow> nat list"
    by (rule triple_lock [where l = Idle]) (auto intro!: wp_stable filling_facts(2))
  let ?Q = "\<lambda>vs s. distinct vs \<and> holds 0 {} (set vs) s \<and> filling n s"
  have take: "wp.triple M 0 (\<lambda>s. holds 0 {} {} s \<and> filling n s) (task_when idle_free (\<lambda>s. case remove_indices is (wp_idle s) of (out, kept) \<Rightarrow>
      (map fst out, s\<lparr>wp_idle := kept, wp_flight := map (\<lambda>e. (0, fst e)) out @ wp_flight s\<rparr>))) ?Q" for "is"
  proof (rule triple_lock [where l = Idle], goal_cases)
    case (4 vs)
    show ?case by (intro wp_stable filling_facts(2))
  next
    case (5 s)
    obtain out kept where r: "remove_indices is (wp_idle s) = (out, kept)" by force
    note idle = remove_indices_mset [OF r]
    let ?t = "s\<lparr>wp_idle := kept, wp_idle_lock := None, wp_flight := map (\<lambda>e. (0, fst e)) out @ wp_flight s\<rparr>"
    have t: "s\<lparr>wp_idle := kept, wp_flight := map (\<lambda>e. (0, fst e)) out @ wp_flight s\<rparr> = ?t" using 5(4) by simp
    have "length kept \<le> length (wp_idle s)" using idle by (metis le_add2 size_mset size_union)
    with 5 take_idle_step [of M s 0 "{}" out kept ?t None] idle show ?case
      by (simp add: r t) (auto simp: filling_def)
  qed (auto intro!: filling_facts(2))
  have count: "wp.triple M 0 (?Q vs) (task_when idle_free (\<lambda>s. ((), if stats_free s then on_stats (g s) s else s))) (\<lambda>_. ?Q vs)" for vs g
  proof (cases "distinct vs")
    case True
    have "wp.triple M 0 (\<lambda>s. holds 0 {} (set vs) s \<and> filling n s) (task_when idle_free (\<lambda>s. ((), if stats_free s then on_stats (g s) s else s)))
        (\<lambda>_ s. holds 0 {} (set vs) s \<and> filling n s)"
    proof (rule triple_lock [where l = Idle], goal_cases)
      case (5 s)
      have "vms_ok (on_stats (g s) s)" using 5(1) by (simp add: pool_good_def vms_ok_def)
      with 5 host_step [of s "on_stats (g s) s" 0 M "{}" "set vs"] show ?case by (auto simp: holds_def filling_def)
    qed (auto intro!: wp_stable filling_facts(2))
    with True show ?thesis by simp
  qed (simp add: wp.triple_def)
  have destroy: "wp.triple M 0 (?Q vs) (task_each (\<lambda>v. vm_destroy 0 v (destroyed v)) vs) (\<lambda>_ s. holds 0 {} {} s \<and> filling n s)" for vs
  proof (cases "distinct vs")
    case True
    then show ?thesis using triple_destroy_all [OF filling_facts(3), of vs "{}"] by simp
  qed (simp add: wp.triple_def)
  show ?thesis unfolding remove_idle_vms_def
    by (intro wp.triple_bind [OF look] wp.triple_if keep wp.triple_bind [OF take] wp.triple_bind [OF count] destroy)
qed

lemma triple_fill_loop:
  "n + m \<le> unat M \<Longrightarrow>
     wp.triple M 0 (\<lambda>s. holds 0 {} {} s \<and> filling n s) (fill_loop 0 sf boots destroyed added m)
       (\<lambda>_ s. holds 0 {} {} s \<and> \<not> wp_started s)"
proof (induction m arbitrary: n added)
  case 0
  show ?case by (simp, rule wp.triple_weaken [OF triple_keep [OF filling_facts(2)]]) (auto simp: filling_def)
next
  case (Suc m)
  have stop: "wp.triple M 0 (\<lambda>s. holds 0 {} {} s \<and> filling n s) (if added = [] then Done () else remove_idle_vms 0 added destroyed)
      (\<lambda>_ s. holds 0 {} {} s \<and> \<not> wp_started s)"
    by (rule wp.triple_weaken [OF wp.triple_if [OF triple_keep [OF filling_facts(2)] triple_remove_idle_vms]])
       (auto simp: filling_def)
  have added: "wp.triple M 0 (\<lambda>s. holds 0 {} {v} s \<and> filling n s)
      (task_bind (add_idle 0 v) (\<lambda>_. fill_loop 0 sf boots destroyed (added @ [v]) m)) (\<lambda>_ s. holds 0 {} {} s \<and> \<not> wp_started s)" for v
    by (rule wp.triple_bind [OF triple_add_idle Suc.IH]) (use Suc.prems in simp_all)
  show ?case unfolding fill_loop.simps
    by (rule wp.triple_bind [OF triple_boot_new_vm [OF filling_facts(1)]], simp, rule wp.triple_option) (simp_all add: stop added)
qed

lemma triple_fill_to_min:
  assumes "pool_min_idle cfg \<le> M"
  shows "wp.triple M 0 (\<lambda>s. holds 0 {} {} s \<and> filling 0 s) (fill_to_min 0 cfg boots destroyed)
    (\<lambda>_ s. holds 0 {} {} s \<and> \<not> wp_started s)"
proof -
  have look: "wp.triple M 0 (\<lambda>s. holds 0 {} {} s \<and> filling 0 s) (task_when idle_free (\<lambda>s. (length (wp_idle s), s)))
      (\<lambda>_ s. holds 0 {} {} s \<and> filling 0 s)"
    by (rule triple_lock [where l = Idle]) (auto intro!: wp_stable filling_facts(2))
  show ?thesis unfolding fill_to_min_def
    by (rule wp.triple_bind [OF look triple_fill_loop]) (use assms in \<open>simp add: word_le_nat_alt\<close>)
qed


section \<open>Maintenance\<close>

text \<open>
  Between its batches the background task has nothing outstanding; within a batch, \<open>n\<close> results are
  to be joined, and the machines it added and will add stay within the pool's size.
\<close>

definition joining :: "u64 \<Rightarrow> nat \<Rightarrow> pool \<Rightarrow> bool" where
  "joining M n s \<longleftrightarrow> wp_started s \<and> outstanding s = n \<and> (n = 0 \<or> wp_batch s + n \<le> unat M)"

definition pushing :: "u64 \<Rightarrow> nat \<Rightarrow> pool \<Rightarrow> bool" where
  "pushing M n s \<longleftrightarrow> wp_started s \<and> outstanding s = n \<and> wp_batch s + Suc n \<le> unat M"

lemma list_fact_joining: "list_fact 0 (joining M n)"
  by (auto simp: list_fact_def joining_def wp.unaffected_def pool_rely_def main_kept_def)

lemma list_fact_pushing: "list_fact 0 (pushing M n)"
  by (auto simp: list_fact_def pushing_def wp.unaffected_def pool_rely_def main_kept_def)

lemmas joining_facts = list_fact_pool [OF list_fact_joining] list_fact_stable [OF list_fact_joining]
  pool_fact_framed [OF list_fact_pool [OF list_fact_joining]]

lemmas pushing_facts = list_fact_pool [OF list_fact_pushing] list_fact_stable [OF list_fact_pushing]
  pool_fact_framed [OF list_fact_pool [OF list_fact_pushing]]

lemma triple_evict:
  "wp.triple M 0 (\<lambda>s. holds 0 {Handle} {} s \<and> joining M 0 s) (evict_expired_static 0 ttl destroyed)
     (\<lambda>_ s. holds 0 {Handle} {} s \<and> joining M 0 s)"
proof -
  let ?Q = "\<lambda>r s. distinct (fst r) \<and> holds 0 {Handle} (set (fst r)) s \<and> joining M 0 s"
  have take: "wp.triple M 0 (\<lambda>s. holds 0 {Handle} {} s \<and> joining M 0 s) (task_when idle_free (take_expired 0 ttl)) ?Q"
  proof (rule triple_lock [where l = Idle], goal_cases)
    case (4 r)
    show ?case by (intro wp_stable joining_facts(2))
  next
    case (5 s)
    define expired kept where e: "expired = filter (\<lambda>e. uint ttl * nanos < max 0 (wp_clock s - snd e)) (wp_idle s)"
      "kept = filter (\<lambda>e. \<not> uint ttl * nanos < max 0 (wp_clock s - snd e)) (wp_idle s)"
    let ?t = "s\<lparr>wp_idle := kept, wp_idle_lock := None, wp_flight := map (\<lambda>e. (0, fst e)) expired @ wp_flight s\<rparr>"
    have r: "take_expired 0 ttl s = ((map fst expired, length kept), ?t)"
      using 5(4) by (simp add: take_expired_def Let_def e)
    have "mset (wp_idle s) = mset expired + mset kept"
      unfolding e by (simp add: multiset_partition)
    with 5 take_idle_step [of M s 0 "{Handle}" expired kept ?t None] r show ?case
      by (simp add: joining_def outstanding_def)
  qed (auto intro!: joining_facts(2))
  have destroy: "wp.triple M 0 (?Q r) (task_each (\<lambda>v. vm_destroy 0 v (destroyed v)) (fst r)) (\<lambda>_ s. holds 0 {Handle} {} s \<and> joining M 0 s)" for r :: "nat list \<times> nat"
  proof (cases "distinct (fst r)")
    case True
    then show ?thesis using triple_destroy_all [OF joining_facts(3), of "fst r" "{}"] by simp
  qed (simp add: wp.triple_def)
  have count: "wp.triple M 0 (\<lambda>s. holds 0 {Handle} {} s \<and> joining M 0 s) (task_when stats_free (\<lambda>s. ((), on_stats (g s) s)))
      (\<lambda>_ s. holds 0 {Handle} {} s \<and> joining M 0 s)" for g
    by (rule triple_stats [OF joining_facts(1)]) simp
  show ?thesis unfolding evict_expired_static_def case_prod_beta
    by (intro wp.triple_bind [OF take] wp.triple_bind [OF destroy] wp.triple_if triple_keep [OF joining_facts(2)] count)
qed

lemma triple_autoscale:
  assumes "m \<le> unat M"
  shows "wp.triple M 0 (\<lambda>s. holds 0 {Handle} {} s \<and> joining M 0 s) (autoscale m)
    (\<lambda>m' s. m' \<le> unat M \<and> holds 0 {Handle} {} s \<and> joining M 0 s)"
  unfolding autoscale_def
proof (rule wp.triple_act, goal_cases)
  case (3 s)
  show ?case
  proof (cases "wp_scaler s")
    case None
    with 3 assms show ?thesis by simp
  next
    case (Some sc)
    let ?sc = "snd (evaluate (wp_clock s) sc)"
    let ?t = "s\<lparr>wp_scaler := Some ?sc\<rparr>"
    have ok: "scaler_ok M ?sc" using 3(1) Some by (simp add: pool_good_def size_ok_def)
    then have "pool_good M ?t"
      using 3(1) by (simp add: pool_good_def vms_ok_def template_ok_def size_ok_def start_ok_def outstanding_def cong: template_state.case_cong)
    moreover have "pool_guar 0 s ?t" by (rule pool_guarI) (simp_all add: kept_defs outstanding_def)
    moreover have "unat (psc_current_min_idle ?sc) \<le> unat M" using ok by (simp add: scaler_ok_def word_le_nat_alt)
    ultimately show ?thesis using 3(2) Some by (simp add: Let_def holds_def joining_def outstanding_def)
  qed
qed (auto intro!: wp_stable joining_facts(2))

lemma triple_spawn_batch:
  assumes "m \<le> unat M"
  shows "wp.triple M 0 (\<lambda>s. holds 0 {Handle} {} s \<and> joining M 0 s) (task_when idle_free (spawn_batch m))
    (\<lambda>n s. holds 0 {Handle} {} s \<and> joining M n s)"
proof (rule triple_lock [where l = Idle], goal_cases)
  case (5 s)
  let ?n = "m - length (wp_idle s)"
  let ?t = "s\<lparr>wp_spawned := wp_spawned s + ?n, wp_batch := 0\<rparr>"
  have "pool_good M ?t" if "length (wp_idle s) < m"
    using 5(1,3) that assms by (auto simp: pool_good_def vms_ok_def template_ok_def size_ok_def start_ok_def outstanding_def joining_def
        split: template_state.splits)
  moreover have "pool_guar 0 s ?t" by (rule pool_guarI) (simp_all add: kept_defs)
  moreover have "holds 0 {Handle} {} ?t" using 5(2) by (simp add: holds_def)
  moreover have "joining M ?n ?t" using 5(3) assms by (auto simp: joining_def outstanding_def)
  ultimately show ?case using 5 by (cases "length (wp_idle s) < m") (simp_all add: spawn_batch_def Let_def)
qed (auto intro!: wp_stable joining_facts(2))

lemma triple_join_next:
  "wp.triple M 0 (\<lambda>s. holds 0 {Handle} {} s \<and> joining M (Suc n) s) (task_when (\<lambda>s. wp_joined s \<noteq> []) (join_next 0))
     (\<lambda>r s. holds 0 {Handle} (set_option r) s \<and> pushing M n s)"
proof (rule wp.triple_when, goal_cases)
  case (3 s)
  then obtain r js where j: "wp_joined s = r # js" by (cases "wp_joined s") auto
  let ?t = "snd (join_next 0 s)"
  have owned: "owned ?t = owned s"
    by (cases r) (simp_all add: j join_next_def owned_def joined_vms_def map_filter_def)
  have out: "outstanding s = Suc (outstanding ?t)" by (cases r) (simp_all add: j join_next_def outstanding_def)
  have same: "wp_idle ?t = wp_idle s" "wp_running ?t = wp_running s" "wp_failed ?t = wp_failed s" "wp_next_vm ?t = wp_next_vm s"
    "wp_batch ?t = wp_batch s" "wp_scaler ?t = wp_scaler s" "wp_started ?t = wp_started s" "wp_shutdown ?t = wp_shutdown s"
    "wp_workers ?t = wp_workers s" "same_template s ?t" "others_kept 0 s ?t" "pool_owner ?t = pool_owner s"
    by (cases r; simp add: j join_next_def same_template_def)+
  have "pool_good M ?t"
    using 3 same owned out by (simp add: pool_good_def vms_ok_def template_ok_def size_ok_def start_ok_def same_template_def joining_def
        cong: template_state.case_cong)
  moreover have "pool_guar 0 s ?t" by (rule pool_guarI) (use same in \<open>simp_all add: kept_defs same_template_def\<close>)
  moreover have "holds 0 {Handle} (set_option (fst (join_next 0 s))) ?t"
    using 3 same by (cases r) (auto simp: holds_def join_next_def j)
  moreover have "pushing M n ?t" using 3 out same by (simp add: joining_def pushing_def)
  ultimately show ?case by simp
next
  case (4 s)
  then have "0 < wp_spawned s \<or> wp_workers s \<noteq> {}" "0 \<notin> wp_workers s"
    by (auto simp: joining_def outstanding_def pool_good_def start_ok_def)
  then consider "0 < wp_spawned s" | j where "j \<in> wp_workers s" by auto
  then show ?case
  proof cases
    case 1
    then show ?thesis by (simp add: waits_def boots_queued_def)
  next
    case 2
    with 4 waits_for [of 0 "{Handle}" "{}" s "Worker j"] show ?thesis by simp
  qed
qed (auto intro!: wp_stable joining_facts(2) pushing_facts(2))

lemma triple_keep_booted:
  "wp.triple M 0 (\<lambda>s. holds 0 {Handle} {v} s \<and> pushing M n s) (task_when idle_free (keep_booted 0 v))
     (\<lambda>kept s. holds 0 (if kept then {Idle, Handle} else {Handle}) (if kept then {} else {v}) s \<and> joining M n s)"
proof (rule triple_lock [where l = Idle], goal_cases)
  case (5 s)
  show ?case
  proof (cases "wp_shutdown s")
    case True
    with 5 show ?thesis by (simp add: keep_booted_def joining_def pushing_def)
  next
    case False
    let ?u = "s\<lparr>wp_batch := Suc (wp_batch s)\<rparr>"
    have t: "(push_idle 0 v s)\<lparr>wp_batch := Suc (wp_batch s)\<rparr> = push_idle 0 v ?u"
      by (simp add: push_idle_def let_go_def)
    have good: "pool_good M ?u"
      using 5(1,3) by (auto simp: pool_good_def vms_ok_def template_ok_def size_ok_def start_ok_def outstanding_def pushing_def
          split: template_state.splits)
    have "length (wp_idle ?u) < unat M + wp_batch ?u" using 5(1) by (simp add: pool_good_def size_ok_def)
    with good have push: "pool_good M (push_idle 0 v ?u) \<and> pool_guar 0 ?u (push_idle 0 v ?u) \<and>
        holds 0 {Idle, Handle} {} (push_idle 0 v ?u)"
      using 5 False by (intro push_idle_step) (auto simp: holds_def)
    have "pool_guar 0 s ?u" by (rule pool_guarI) (simp_all add: kept_defs)
    with push have "pool_guar 0 s (push_idle 0 v ?u)" unfolding pool_guar_def by (blast intro: pool_rely_trans)
    moreover have "joining M n (push_idle 0 v ?u)"
      using 5(3) by (auto simp: joining_def pushing_def push_idle_def outstanding_def)
    ultimately show ?thesis using push False by (simp add: keep_booted_def t)
  qed
qed (auto intro!: wp_stable joining_facts(2) pushing_facts(2))


lemma triple_join_batch:
  "wp.triple M 0 (\<lambda>s. holds 0 {Handle} {} s \<and> joining M n s) (join_batch 0 destroyed n)
     (\<lambda>_ s. holds 0 {Handle} {} s \<and> joining M 0 s)"
proof (induction n)
  case 0
  show ?case unfolding join_batch.simps by (rule triple_keep [OF joining_facts(2)])
next
  case (Suc n)
  have drop: "wp.triple M 0 (\<lambda>s. holds 0 {Handle} {v} s \<and> joining M n s) (vm_destroy 0 v b)
      (\<lambda>_ s. holds 0 {Handle} {} s \<and> joining M n s)" for v b
    using triple_vm_destroy [OF joining_facts(3), of v "{}"] by simp
  have count: "wp.triple M 0 (\<lambda>s. holds 0 {Idle, Handle} {} s \<and> joining M n s)
      (task_when stats_free (\<lambda>s. ((), (on_stats (g s) s)\<lparr>wp_idle_lock := None\<rparr>)))
      (\<lambda>_ s. holds 0 {Handle} {} s \<and> joining M n s)" for g
    by (rule triple_release_idle [OF _ _ _ joining_facts(2)]) (auto simp: joining_def)
  have settle: "wp.triple M 0 (\<lambda>s. holds 0 (if kept then {Idle, Handle} else {Handle}) (if kept then {} else {v}) s \<and> joining M n s)
      (if \<not> kept then vm_destroy 0 v (destroyed v)
       else task_when stats_free (\<lambda>s. ((), (on_stats (g s) s)\<lparr>wp_idle_lock := None\<rparr>)))
      (\<lambda>_ s. holds 0 {Handle} {} s \<and> joining M n s)" for kept v g
    by (cases kept) (simp_all add: drop count)
  have pushed: "wp.triple M 0 (\<lambda>s. holds 0 {Handle} {v} s \<and> pushing M n s)
      (task_bind (task_when idle_free (keep_booted 0 v)) (\<lambda>kept.
        task_bind (if \<not> kept then vm_destroy 0 v (destroyed v)
                   else task_when stats_free (\<lambda>s. ((), (on_stats (g s) s)\<lparr>wp_idle_lock := None\<rparr>)))
          (\<lambda>_. join_batch 0 destroyed n))) (\<lambda>_ s. holds 0 {Handle} {} s \<and> joining M 0 s)" for v g
    by (intro wp.triple_bind [OF triple_keep_booted] wp.triple_bind [OF settle] Suc.IH)
  have none: "wp.triple M 0 (\<lambda>s. holds 0 {Handle} {} s \<and> pushing M n s) (join_batch 0 destroyed n)
      (\<lambda>_ s. holds 0 {Handle} {} s \<and> joining M 0 s)"
    by (rule wp.triple_weaken [OF Suc.IH]) (auto simp: joining_def pushing_def)
  show ?case unfolding join_batch.simps
    by (rule wp.triple_bind [OF triple_join_next], rule wp.triple_option) (simp_all add: pushed none)
qed

lemma triple_tick:
  assumes "m \<le> unat M"
  shows "wp.triple M 0 (\<lambda>s. holds 0 {Handle} {} s \<and> joining M 0 s) (tick 0 cfg i m)
    (\<lambda>m' s. m' \<le> unat M \<and> holds 0 {Handle} {} s \<and> joining M 0 s)"
proof -
  have rest: "wp.triple M 0 (\<lambda>s. m' \<le> unat M \<and> holds 0 {Handle} {} s \<and> joining M 0 s)
      (task_bind (task_when idle_free (spawn_batch m')) (\<lambda>needed.
       task_bind (join_batch 0 (tk_destroys i) needed) (\<lambda>_. Done m')))
      (\<lambda>m' s. m' \<le> unat M \<and> holds 0 {Handle} {} s \<and> joining M 0 s)" for m'
  proof (cases "m' \<le> unat M")
    case True
    have "wp.triple M 0 (\<lambda>s. holds 0 {Handle} {} s \<and> joining M 0 s) (Done m')
        (\<lambda>m' s. m' \<le> unat M \<and> holds 0 {Handle} {} s \<and> joining M 0 s)"
      by (rule wp.triple_Done) (use True in \<open>auto intro!: wp_stable joining_facts(2)\<close>)
    with True show ?thesis
      by (simp, intro wp.triple_bind [OF triple_spawn_batch] wp.triple_bind [OF triple_join_batch]) simp_all
  qed (simp add: wp.triple_def)
  show ?thesis unfolding tick_def
    by (intro wp.triple_bind [OF wp.triple_if [OF triple_evict triple_keep [OF joining_facts(2)]]]
        wp.triple_bind [OF triple_autoscale [OF assms] rest])
qed

lemma triple_maintain:
  "m \<le> unat M \<Longrightarrow> wp.triple M 0 (\<lambda>s. holds 0 {Handle} {} s \<and> joining M 0 s) (maintain 0 cfg m ticks)
     (\<lambda>_ s. holds 0 {Handle} {} s \<and> joining M 0 s)"
proof (induction ticks arbitrary: m)
  case Nil
  show ?case unfolding maintain.simps by (rule triple_keep [OF joining_facts(2)])
next
  case (Cons i ticks)
  have look: "wp.triple M 0 (\<lambda>s. holds 0 {Handle} {} s \<and> joining M 0 s) (task_read wp_shutdown)
      (\<lambda>_ s. holds 0 {Handle} {} s \<and> joining M 0 s)"
    unfolding task_read_def by (rule wp.triple_act) (auto intro!: wp_stable joining_facts(2))
  have next_tick: "wp.triple M 0 (\<lambda>s. m' \<le> unat M \<and> holds 0 {Handle} {} s \<and> joining M 0 s) (maintain 0 cfg m' ticks)
      (\<lambda>_ s. holds 0 {Handle} {} s \<and> joining M 0 s)" for m'
    using Cons.IH [of m'] by (cases "m' \<le> unat M") (simp_all add: wp.triple_def)
  show ?case unfolding maintain.simps
    by (intro wp.triple_bind [OF look] wp.triple_if triple_keep [OF joining_facts(2)]
        wp.triple_bind [OF triple_tick [OF Cons.prems] next_tick])
qed

lemma triple_start_pool:
  "wp.triple (pool_max_size cfg) 0 (\<lambda>s. holds 0 {} {} s \<and> filling 0 s) (start_pool 0 cfg boots destroyed)
     (\<lambda>b s. if b then pool_min_idle cfg \<le> pool_max_size cfg \<and> holds 0 {Handle} {} s \<and> joining (pool_max_size cfg) 0 s
        else holds 0 {} {} s \<and> filling 0 s)"
proof -
  let ?M = "pool_max_size cfg"
  let ?Q = "\<lambda>b s. if b then pool_min_idle cfg \<le> pool_max_size cfg \<and> holds 0 {Handle} {} s \<and> joining ?M 0 s
    else holds 0 {} {} s \<and> filling 0 s"
  have fail: "wp.triple ?M 0 (\<lambda>s. holds 0 {} {} s \<and> filling 0 s) (Done False) ?Q"
    by (rule wp.triple_Done) (auto intro!: wp_stable filling_facts(2))
  have started: "wp.triple ?M 0 (\<lambda>s. holds 0 {} {} s \<and> \<not> wp_started s)
      (task_bind (task_write (\<lambda>s. s\<lparr>wp_started := True, wp_handle := True\<rparr>)) (\<lambda>_. Done True)) ?Q" if "pool_min_idle cfg \<le> ?M"
  proof (rule wp.triple_bind)
    show "wp.triple ?M 0 (\<lambda>s. holds 0 {} {} s \<and> \<not> wp_started s) (task_write (\<lambda>s. s\<lparr>wp_started := True, wp_handle := True\<rparr>))
        (\<lambda>_ s. holds 0 {Handle} {} s \<and> joining ?M 0 s)"
      unfolding task_write_def
    proof (rule wp.triple_act, goal_cases)
      case 1
      show ?case by (auto simp: wp.unaffected_def pool_rely_def main_kept_def holds_def own_kept_def)
    next
      case (3 s)
      let ?t = "s\<lparr>wp_started := True, wp_handle := True\<rparr>"
      have "pool_good ?M ?t"
        using 3(1) by (auto simp: pool_good_def vms_ok_def template_ok_def size_ok_def start_ok_def outstanding_def split: template_state.splits)
      moreover have "pool_guar 0 s ?t" by (rule pool_guarI) (simp_all add: kept_defs)
      moreover have "holds 0 {Handle} {} ?t" using 3(2) by (auto simp: holds_def)
      moreover have "joining ?M 0 ?t" using 3 by (simp add: joining_def pool_good_def start_ok_def outstanding_def)
      ultimately show ?case by simp
    qed (auto intro!: wp_stable joining_facts(2))
    show "wp.triple ?M 0 (\<lambda>s. holds 0 {Handle} {} s \<and> joining ?M 0 s) (Done True) ?Q"
      by (rule wp.triple_Done) (use that in \<open>auto intro!: wp_stable joining_facts(2)\<close>)
  qed
  have scaler: "wp.triple ?M 0 (\<lambda>s. holds 0 {} {} s \<and> filling 0 s) (task_write (\<lambda>s. s\<lparr>wp_scaler := (if sp_enabled (pool_scaling cfg)
      then Some (pool_scaler_new (pool_scaling cfg) (pool_min_idle cfg) ?M) else None)\<rparr>)) (\<lambda>_ s. holds 0 {} {} s \<and> filling 0 s)"
    if "pool_min_idle cfg \<le> ?M"
    unfolding task_write_def
  proof (rule wp.triple_act, goal_cases)
    case (3 s)
    let ?x = "if sp_enabled (pool_scaling cfg) then Some (pool_scaler_new (pool_scaling cfg) (pool_min_idle cfg) ?M) else None"
    let ?t = "s\<lparr>wp_scaler := ?x\<rparr>"
    have "pool_good ?M ?t"
      using 3(1) that by (auto simp: pool_good_def vms_ok_def template_ok_def size_ok_def start_ok_def outstanding_def split: template_state.splits)
    moreover have "pool_guar 0 s ?t" by (rule pool_guarI) (simp_all add: kept_defs outstanding_def)
    ultimately show ?case using 3(2) by (simp add: holds_def filling_def)
  qed (auto intro!: wp_stable filling_facts(2))
  show ?thesis unfolding start_pool_def
    by (intro wp.triple_if fail wp.triple_bind [OF scaler] wp.triple_bind [OF triple_fill_to_min started]) simp_all
qed


section \<open>Runs\<close>

definition pool_post :: "nat \<Rightarrow> pool_answer \<Rightarrow> pool \<Rightarrow> bool" where
  "pool_post k x s \<longleftrightarrow> ended k x s \<and> (k = 0 \<longrightarrow> outstanding s = 0)"

definition pool_fresh :: "nat \<Rightarrow> pool \<Rightarrow> bool" where
  "pool_fresh k s \<longleftrightarrow> (\<forall>j \<ge> k. holds j {} {} s) \<and> (k = 0 \<longrightarrow> filling 0 s)"

lemma triple_pool_main:
  "wp.triple (pool_max_size cfg) 0 (\<lambda>s. holds 0 {} {} s \<and> filling 0 s) (pool_main 0 cfg boots destroyed ticks) (pool_post 0)"
proof -
  let ?M = "pool_max_size cfg"
  have stable: "wp.unaffected 0 (pool_post 0 x)" for x
    using stable_ended [of 0 x] by (auto simp: pool_post_def wp.unaffected_def pool_rely_def main_kept_def)
  have idle: "wp.unaffected 0 (\<lambda>s. holds 0 {} {} s \<and> outstanding s = 0)"
    by (auto simp: wp.unaffected_def pool_rely_def main_kept_def holds_def own_kept_def)
  have stop: "wp.triple ?M 0 (\<lambda>s. holds 0 {Handle} {} s \<and> joining ?M 0 s) (task_write (\<lambda>s. s\<lparr>wp_handle := False\<rparr>))
      (\<lambda>_ s. holds 0 {} {} s \<and> outstanding s = 0)"
    unfolding task_write_def
  proof (rule wp.triple_act, goal_cases)
    case (3 s)
    let ?t = "s\<lparr>wp_handle := False\<rparr>"
    have "pool_good ?M ?t"
      using 3(1) by (auto simp: pool_good_def vms_ok_def template_ok_def size_ok_def start_ok_def outstanding_def split: template_state.splits)
    moreover have "pool_guar 0 s ?t"
      by (rule pool_guarI) (use holds_owner [of 0 "{Handle}" "{}" s Handle] 3(2) in \<open>auto simp: kept_defs outstanding_def split: if_splits\<close>)
    moreover have "holds 0 {} {} ?t" using 3(2) by (auto simp: holds_def)
    ultimately show ?case using 3(2) by (simp add: joining_def outstanding_def)
  qed (auto intro!: wp_stable joining_facts(2) idle)
  have finish: "wp.triple ?M 0 (\<lambda>s. holds 0 {} {} s \<and> outstanding s = 0) (Done Pool_Done) (pool_post 0)"
    by (rule wp.triple_Done) (auto intro: stable simp: pool_post_def ended_def)
  have failed: "wp.triple ?M 0 (\<lambda>s. holds 0 {} {} s \<and> filling 0 s) (Done Pool_Failed) (pool_post 0)"
    unfolding wp.triple_def
  proof (intro allI impI done_safe)
    fix s s' assume "holds 0 {} {} s \<and> filling 0 s" and r: "pool_rely 0 s s'" and good: "pool_good ?M s'"
    then have "holds 0 {} {} s' \<and> filling 0 s'"
      using stable_holds [of 0 "{}" "{}"] filling_facts(2) [of 0] by (auto simp: wp.unaffected_def)
    with good show "pool_post 0 Pool_Failed s'" by (auto simp: pool_post_def ended_def filling_def pool_good_def start_ok_def)
  qed
  have run: "wp.triple ?M 0 (\<lambda>s. holds 0 {Handle} {} s \<and> joining ?M 0 s)
      (task_bind (maintain 0 cfg (unat (pool_min_idle cfg)) ticks) (\<lambda>_.
        task_bind (task_write (\<lambda>s. s\<lparr>wp_handle := False\<rparr>)) (\<lambda>_. Done Pool_Done))) (pool_post 0)" if "pool_min_idle cfg \<le> ?M"
    by (intro wp.triple_bind [OF triple_maintain] wp.triple_bind [OF stop finish]) (use that in \<open>simp add: word_le_nat_alt\<close>)
  have "wp.triple ?M 0 (\<lambda>s. pool_min_idle cfg \<le> ?M \<and> holds 0 {Handle} {} s \<and> joining ?M 0 s)
      (task_bind (maintain 0 cfg (unat (pool_min_idle cfg)) ticks) (\<lambda>_.
        task_bind (task_write (\<lambda>s. s\<lparr>wp_handle := False\<rparr>)) (\<lambda>_. Done Pool_Done))) (pool_post 0)"
    using run by (cases "pool_min_idle cfg \<le> ?M") (simp_all add: wp.triple_def)
  then show ?thesis unfolding pool_main_def
    by (intro wp.triple_bind [OF triple_start_pool] wp.triple_if) (simp_all add: failed)
qed

lemma pool_call_safe:
  assumes "t \<in> pool_calls cfg k" and "pool_good (pool_max_size cfg) s" and "pool_fresh k s"
  shows "task_safe (pool_good (pool_max_size cfg)) (pool_rely k) (pool_guar k) (waits pool_owner pool_rank boots_queued k)
    (pool_post k) t s"
proof (cases "k = 0")
  case True
  with assms(1) obtain boots destroyed ticks where "t = pool_main 0 cfg boots destroyed ticks"
    by (auto elim: pool_calls.cases)
  with True assms(2,3) triple_pool_main [of cfg boots destroyed ticks] show ?thesis
    by (simp add: pool_fresh_def wp.triple_def)
next
  case False
  have signal: "wp.triple M k (\<lambda>s. holds k {} {} s \<and> wp_started s) (task_bind signal_shutdown (\<lambda>_. Done Pool_Done)) (ended k)" for M
    by (rule wp.triple_bind [OF triple_signal]) (rule wp.triple_weaken [OF triple_answer], auto)
  have "wp.triple (pool_max_size cfg) k (holds k {} {}) t (ended k)"
    using assms(1) False
    by (cases rule: pool_calls.cases)
       (auto intro!: triple_client triple_worker triple_acquire triple_release triple_drain_call triple_drain
         triple_drain_entry triple_clock signal)
  then have "wp.triple (pool_max_size cfg) k (holds k {} {}) t (pool_post k)"
    by (rule wp.triple_weaken) (use False in \<open>auto simp: pool_post_def\<close>)
  with assms(2,3) show ?thesis by (simp add: wp.triple_def pool_fresh_def)
qed

lemma pool_fresh_guar: "i < k \<Longrightarrow> pool_fresh k s \<Longrightarrow> pool_guar i s s' \<Longrightarrow> pool_fresh k s'"
  using stable_holds unfolding pool_fresh_def pool_guar_def wp.unaffected_def by (metis not_le not_less0)

lemma pool_fresh_Suc: "pool_fresh k s \<Longrightarrow> pool_fresh (Suc k) s"
  by (simp add: pool_fresh_def)

lemma pool_good_initial: "pool_good M (initial_pool now)"
  by (simp add: initial_pool_def pool_good_def vms_ok_def owned_def joined_vms_def map_filter_def template_ok_def size_ok_def
      start_ok_def outstanding_def)

lemma pool_fresh_initial: "pool_fresh 0 (initial_pool now)"
proof -
  have "pool_owner (initial_pool now) l = None" for l by (cases l) (auto simp: initial_pool_def)
  then show ?thesis by (simp add: pool_fresh_def holds_def filling_def) (simp add: initial_pool_def)
qed

lemma pool_run_safe:
  assumes "task_run (pool_calls cfg) (initial_pool now) (s, ts)"
  shows "wp.tasks_safe (pool_max_size cfg) pool_post (s, ts)" and "pool_fresh (length ts) s"
proof -
  have "wp.tasks_safe (pool_max_size cfg) pool_post (s, ts) \<and> pool_fresh (length (snd (s, ts))) (fst (s, ts))"
    by (rule wp.run_safe [where fresh = pool_fresh, OF assms pool_good_initial pool_fresh_initial])
       (fact pool_call_safe pool_fresh_Suc pool_fresh_guar)+
  then show "wp.tasks_safe (pool_max_size cfg) pool_post (s, ts)" "pool_fresh (length ts) s" by simp_all
qed

lemma pool_run_good: "task_run (pool_calls cfg) (initial_pool now) (s, ts) \<Longrightarrow> pool_good (pool_max_size cfg) s"
  using pool_run_safe(1) by (simp add: wp.tasks_safe_def)

lemma pool_run_done:
  assumes "task_run (pool_calls cfg) (initial_pool now) (s, ts)" and "i < length ts" and "ts ! i = Done x"
  shows "pool_post i x s"
  using pool_run_safe(1) [OF assms(1)] assms(2,3) wp.safe_result [of "pool_max_size cfg" i "pool_post i" x s]
  by (auto simp: wp.tasks_safe_def)


lemma owned_distinct:
  assumes "vms_ok s"
  shows "distinct (wp_clients s @ map fst (wp_idle s))"
proof (rule distinct_count_le)
  fix v
  have "count (mset (wp_clients s @ map fst (wp_idle s))) v \<le> count (owned s) v" by (simp add: owned_def)
  also have "\<dots> \<le> 1" using assms by (simp add: vms_ok_def)
  finally show "count (mset (wp_clients s @ map fst (wp_idle s))) v \<le> 1" .
qed

lemma owned_when_ended:
  assumes "task_run (pool_calls cfg) (initial_pool now) (s, ts)" and "\<forall>t \<in> set ts. \<exists>x. t = Done x"
  shows "set_mset (owned s) = set (wp_clients s) \<union> set (map fst (wp_idle s))"
proof -
  have post: "\<exists>x. pool_post i x s" if "i < length ts" for i
    using pool_run_done [OF assms(1) that] assms(2) nth_mem [OF that] by blast
  have "holds i {} {} s" for i
    using post [of i] pool_run_safe(2) [OF assms(1)] by (cases "i < length ts") (auto simp: pool_post_def ended_def pool_fresh_def)
  then have flight: "wp_flight s = []"
    unfolding holds_def by (metis (no_types, lifting) Collect_empty_eq ex_in_conv set_empty surj_pair)
  have "outstanding s = 0"
  proof (cases "ts = []")
    case True
    then show ?thesis
      using pool_run_safe(2) [OF assms(1)] pool_run_good [OF assms(1)] by (auto simp: pool_fresh_def filling_def pool_good_def start_ok_def)
  next
    case False
    with post [of 0] show ?thesis by (auto simp: pool_post_def)
  qed
  then have "wp_joined s = []" by (simp add: outstanding_def)
  with flight show ?thesis by (auto simp: owned_def joined_vms_def map_filter_def)
qed

section \<open>Concrete runs\<close>

definition small_pool :: pool_config where
  "small_pool = default_pool_config\<lparr>pool_max_size := 1, pool_idle_ttl_secs := 0\<rparr>"

definition boots_up :: boot_answers where
  "boots_up = \<lparr>ba_dir = True, ba_source_boot = True, ba_snapshot = True, ba_source_destroy = True, ba_boot = True, ba_ready = True\<rparr>"

definition one_tick :: tick_input where
  "one_tick = \<lparr>tk_shutdown_seen = False, tk_destroys = (\<lambda>_. True)\<rparr>"

lemmas pool_exec =
  small_pool_def boots_up_def one_tick_def default_pool_config_def default_scaling_policy_def initial_pool_def
  pool_main_def start_pool_def fill_to_min_def boot_new_vm_def boot_or_restore_def vm_boot_def vm_ready_def vm_destroy_def
  add_idle_def push_idle_def hold_def let_go_def on_stats_def task_act_def task_when_def task_write_def task_read_def
  client_def acquire_def release_def worker_def pop_idle_def hand_out_def record_pool_acquire_def tick_def autoscale_def
  spawn_batch_def start_worker_def finish_worker_def take_back_def give_back_def join_next_def keep_booted_def
  drain_entry_def signal_shutdown_def drain_idle_def take_all_def

text \<open>
  A client returns its machine while the replacement boots: the pool of one machine ends with two.
\<close>

definition overfull_schedule :: "(pool, pool_answer) event list" where
  "overfull_schedule =
     [Accept (pool_main 0 small_pool (\<lambda>_. boots_up) (\<lambda>_. True) [one_tick]), Poll 0 8,
      Accept (client (acquire 1 (pool_snapshot_fork small_pool) boots_up)), Poll 1 4,
      Poll 0 3,
      Accept (worker 2 (pool_snapshot_fork small_pool) boots_up), Poll 2 4,
      Accept (client (release 3 (unat (pool_max_size small_pool)) 0 True)), Poll 3 4,
      Poll 0 4]"

lemma overfull_run:
  "task_run (pool_calls small_pool) (initial_pool 0) (foldl run_event (initial_pool 0, []) overfull_schedule)"
  by (rule schedule_run [OF task_run.start]) (auto simp: overfull_schedule_def numeral_eq_Suc intro!: pool_calls.intros)

lemma overfull_state:
  "wp_idle (fst (foldl run_event (initial_pool 0, []) overfull_schedule)) = [(0, 0), (1, 0)]"
  by (simp add: overfull_schedule_def pool_exec Let_def numeral_eq_Suc)





text \<open>
  C15: The tasks of a warm pool never block each other for good: while one has not finished, some task
  can take a step, or a boot that was spawned waits to be polled. Locks are taken in the order
  template, idle list, statistics.\<close>

theorem pool_never_deadlocks:
  assumes "task_run (pool_calls cfg) (initial_pool now) (s, ts)" and "i < length ts" and "ts ! i = Await f"
  shows "0 < wp_spawned s \<or> (\<exists>j g s' t. j < length ts \<and> ts ! j = Await g \<and> g s = Some (s', t))"
proof -
  have "pool_owner s l \<noteq> Some j" if "length ts \<le> j" for j l
    using pool_run_safe(2) [OF assms(1)] that holds_owner [of j "{}" "{}" s l] by (auto simp: pool_fresh_def)
  then have owners: "j < length ts" if "pool_owner s l = Some j" for j l using that by (meson not_le)
  have "pool_owner s l \<noteq> Some j" if "pool_post j x s" for j x l
    using that holds_owner [of j "{}" "{}" s l] by (simp add: pool_post_def ended_def)
  from wp.never_stuck [OF pool_run_safe(1) [OF assms(1)] this owners assms(2,3)]
  show ?thesis by (simp add: boots_queued_def)
qed

theorem pool_never_deadlocks_witness:
  "\<exists>s ts f. task_run (pool_calls small_pool) (initial_pool 0) (s, ts) \<and> 0 < length ts \<and> ts ! 0 = Await f \<and>
     (0 < wp_spawned s \<or> (\<exists>j g s' t. j < length ts \<and> ts ! j = Await g \<and> g s = Some (s', t)))"
proof -
  let ?c = "foldl run_event (initial_pool 0, []) (take 5 overfull_schedule)"
  have "task_run (pool_calls small_pool) (initial_pool 0) ?c"
    by (rule schedule_run [OF task_run.start]) (auto simp: overfull_schedule_def numeral_eq_Suc intro!: pool_calls.intros)
  then have run: "task_run (pool_calls small_pool) (initial_pool 0) (fst ?c, snd ?c)" by simp
  have len: "0 < length (snd ?c)" and "\<exists>f. snd ?c ! 0 = Await f"
    by (simp_all add: overfull_schedule_def pool_exec Let_def numeral_eq_Suc)
  then obtain f where f: "snd ?c ! 0 = Await f" by blast
  from run len f pool_never_deadlocks [OF run len f] show ?thesis by blast
qed

text \<open>
  C14: Once a shutdown has drained the pool, the idle list stays empty, in spite of releases and of
  boots that were under way; when all calls have ended, the only machines that still run are those
  clients hold and those the host failed to bring up or down.\<close>

theorem shutdown_leaves_nothing_idle:
  assumes "task_run (pool_calls cfg) (initial_pool now) (s, ts)" and "Done Shut_Down \<in> set ts"
  shows "wp_idle s = [] \<and>
    ((\<forall>t \<in> set ts. \<exists>x. t = Done x) \<longrightarrow> wp_running s \<subseteq> set (wp_clients s) \<union> wp_failed s)"
proof -
  obtain i where "i < length ts" "ts ! i = Done Shut_Down" using assms(2) by (auto simp: in_set_conv_nth)
  then have idle: "wp_idle s = []" using pool_run_done [OF assms(1)] by (auto simp: pool_post_def ended_def)
  have "vms_ok s" using pool_run_good [OF assms(1)] by (simp add: pool_good_def)
  then have "wp_running s \<subseteq> set_mset (owned s) \<union> wp_failed s" by (simp add: vms_ok_def)
  with idle owned_when_ended [OF assms(1)] show ?thesis by auto
qed

theorem shutdown_leaves_nothing_idle_witness:
  "\<exists>s. task_run (pool_calls small_pool) (initial_pool 0) (s, [Done Pool_Done, Done (Acquired 0), Done Shut_Down]) \<and>
     wp_idle s = [] \<and> wp_running s \<subseteq> set (wp_clients s) \<union> wp_failed s"
proof -
  let ?c = "foldl run_event (initial_pool 0, [])
     [Accept (pool_main 0 small_pool (\<lambda>_. boots_up) (\<lambda>_. True) []), Poll 0 9,
      Accept (client (acquire 1 (pool_snapshot_fork small_pool) boots_up)), Poll 1 4,
      Accept (client (drain_entry 2 (\<lambda>_. True))), Poll 2 4]"
  have "task_run (pool_calls small_pool) (initial_pool 0) ?c"
    by (rule schedule_run [OF task_run.start]) (auto simp: numeral_eq_Suc intro!: pool_calls.intros)
  moreover have "snd ?c = [Done Pool_Done, Done (Acquired 0), Done Shut_Down]" by (simp add: pool_exec Let_def numeral_eq_Suc)
  ultimately have run: "task_run (pool_calls small_pool) (initial_pool 0)
      (fst ?c, [Done Pool_Done, Done (Acquired 0), Done Shut_Down])" by (metis prod.collapse)
  from run shutdown_leaves_nothing_idle [OF run] show ?thesis by auto
qed

text \<open>
  The maximum size does not bound the idle machines: replenishing adds the machines it decided to
  boot without looking at the list again, so a release in between leaves more idle machines than the
  configured maximum. (The bound of twice the maximum is reached.)\<close>

lemma pool_exceeds_max_size:
  "\<exists>s ts. task_run (pool_calls small_pool) (initial_pool 0) (s, ts) \<and>
     length (wp_idle s) = 2 * unat (pool_max_size small_pool) \<and> unat (pool_max_size small_pool) = 1"
proof (intro exI conjI)
  let ?c = "foldl run_event (initial_pool 0, []) overfull_schedule"
  show "task_run (pool_calls small_pool) (initial_pool 0) (fst ?c, snd ?c)" using overfull_run by simp
  show "length (wp_idle (fst ?c)) = 2 * unat (pool_max_size small_pool)"
    by (simp add: overfull_state small_pool_def default_pool_config_def)
qed (simp add: small_pool_def default_pool_config_def)

text \<open>
  A machine that boots but does not become ready in time is dropped without being destroyed: the
  acquisition fails, and the machine runs on with nobody left to stop it.\<close>

lemma unready_machine_leaks:
  "\<exists>s. task_run (pool_calls small_pool) (initial_pool 0)
       (s, [Done Pool_Done, Done Pool_Failed]) \<and>
     wp_running s = {0} \<and> owned s = {#}"
proof (intro exI conjI)
  let ?c = "foldl run_event (initial_pool 0, [])
     [Accept (pool_main 0 small_pool (\<lambda>_. boots_up\<lparr>ba_boot := False\<rparr>) (\<lambda>_. True) []), Poll 0 5,
      Accept (client (acquire 1 (pool_snapshot_fork small_pool) (boots_up\<lparr>ba_ready := False\<rparr>))), Poll 1 6]"
  have "task_run (pool_calls small_pool) (initial_pool 0) ?c"
    by (rule schedule_run [OF task_run.start]) (auto intro!: pool_calls.intros)
  moreover have "snd ?c = [Done Pool_Done, Done Pool_Failed]" by (simp add: pool_exec Let_def numeral_eq_Suc)
  ultimately show "task_run (pool_calls small_pool) (initial_pool 0) (fst ?c, [Done Pool_Done, Done Pool_Failed])"
    by (metis prod.collapse)
  show "wp_running (fst ?c) = {0}" by (simp add: pool_exec Let_def numeral_eq_Suc)
  show "owned (fst ?c) = {#}" by (simp add: pool_exec Let_def numeral_eq_Suc owned_def joined_vms_def map_filter_def)
qed

end
