(* ===== verification/Host_Files.thy ===== *)
theory Host_Files
  imports Box_Prelude "HOL-Library.Sublist"
begin

text \<open>
  The file system of the host as the sources use it: Rust's lexical paths, and the system calls with
  the kernel's resolution of symbolic links.

  A location is the list of names from the root directory. A path that the code builds by joining
  names to a known directory is given as the list of its names; it may pass through links, so it is
  not yet a location. A text path is a \<open>string\<close>. Left out are permissions, owners and times, and the
  sharing of content between hard links: two names of one file are two files. Which calls the
  host refuses, and where a write stops half way, is an input (\<open>host\<close>).
\<close>

section \<open>Lexical paths\<close>

datatype component = RootDir | CurDir | ParentDir | Normal string

text \<open>
  \<open>Path::components\<close>: separators may be repeated, and a dot is a component only at the start of a
  relative path.
\<close>

definition path_is_absolute :: "string \<Rightarrow> bool" where
  "path_is_absolute s \<longleftrightarrow> s \<noteq> [] \<and> hd s = CHR ''/''"

definition path_component :: "string \<Rightarrow> component" where
  "path_component n = (if n = ''..'' then ParentDir else Normal n)"

definition path_components :: "string \<Rightarrow> component list" where
  "path_components s =
     (if path_is_absolute s then [RootDir] else if hd (split_on (CHR ''/'') s) = ''.'' then [CurDir] else []) @
     map path_component (filter (\<lambda>n. n \<noteq> [] \<and> n \<noteq> ''.'') (split_on (CHR ''/'') s))"

primrec component_text :: "component \<Rightarrow> string" where
  "component_text RootDir = []"
| "component_text CurDir = ''.''"
| "component_text ParentDir = ''..''"
| "component_text (Normal n) = n"

text \<open>The text of a path from its components. Repeated separators and inner dots are gone.\<close>

definition path_text :: "component list \<Rightarrow> string" where
  "path_text cs = (if cs = [RootDir] then ''/'' else join_with ''/'' (map component_text cs))"

definition path_parent :: "string \<Rightarrow> string option" where
  "path_parent s =
     (let cs = path_components s
      in if cs = [] \<or> last cs = RootDir then None else Some (path_text (butlast cs)))"

definition path_file_name :: "string \<Rightarrow> string option" where
  "path_file_name s =
     (let cs = path_components s
      in if cs = [] then None else case last cs of Normal n \<Rightarrow> Some n | _ \<Rightarrow> None)"

section \<open>Files and directories\<close>

type_synonym location = "string list"

datatype inode = Directory | Regular string | Symlink string | Special

type_synonym filesys = "(location \<times> inode) list"

abbreviation fs_get :: "filesys \<Rightarrow> location \<Rightarrow> inode option" where
  "fs_get \<equiv> map_of"

definition fs_put :: "location \<Rightarrow> inode \<Rightarrow> filesys \<Rightarrow> filesys" where
  "fs_put p i fs = (p, i) # filter (\<lambda>e. fst e \<noteq> p) fs"

definition fs_drop :: "(location \<Rightarrow> bool) \<Rightarrow> filesys \<Rightarrow> filesys" where
  "fs_drop gone fs = filter (\<lambda>e. \<not> gone (fst e)) fs"

lemma fs_get_put [simp]: "fs_get (fs_put p i fs) q = (if q = p then Some i else fs_get fs q)"
  by (induction fs) (auto simp: fs_put_def)

lemma fs_get_drop [simp]: "fs_get (fs_drop gone fs) q = (if gone q then None else fs_get fs q)"
  by (induction fs) (auto simp: fs_drop_def)

text \<open>A tree: the root is a directory, and what exists is in a directory.\<close>

definition fs_wf :: "filesys \<Rightarrow> bool" where
  "fs_wf fs \<longleftrightarrow>
     fs_get fs [] = Some Directory \<and>
     list_all (\<lambda>p. p = [] \<or> fs_get fs (butlast p) = Some Directory) (map fst fs)"

definition unchanged_outside :: "location \<Rightarrow> filesys \<Rightarrow> filesys \<Rightarrow> bool" where
  "unchanged_outside root fs fs' \<longleftrightarrow>
     list_all (\<lambda>p. prefix root p \<or> fs_get fs' p = fs_get fs p) (map fst fs @ map fst fs')"

lemma fs_wf_alt:
  "fs_wf fs \<longleftrightarrow>
     fs_get fs [] = Some Directory \<and>
     (\<forall>p. p \<noteq> [] \<longrightarrow> fs_get fs p \<noteq> None \<longrightarrow> fs_get fs (butlast p) = Some Directory)"
  unfolding fs_wf_def list_all_iff set_map
  by (metis (no_types, lifting) dom_map_of_conv_image_fst domIff)

lemma unchanged_outside_alt:
  "unchanged_outside root fs fs' \<longleftrightarrow> (\<forall>p. \<not> prefix root p \<longrightarrow> fs_get fs' p = fs_get fs p)"
proof -
  have "fs_get fs' p = fs_get fs p" if "p \<notin> fst ` set fs" "p \<notin> fst ` set fs'" for p
    using that by (metis map_of_eq_None_iff)
  then show ?thesis unfolding unchanged_outside_def list_all_iff set_append set_map by blast
qed

lemma unchanged_outside_refl [simp]: "unchanged_outside root fs fs"
  by (simp add: unchanged_outside_alt)

lemma unchanged_outside_trans:
  "unchanged_outside root fs fs' \<Longrightarrow> unchanged_outside root fs' fs'' \<Longrightarrow> unchanged_outside root fs fs''"
  by (simp add: unchanged_outside_alt)

lemma fs_wf_root [simp]: "fs_wf fs \<Longrightarrow> fs_get fs [] = Some Directory"
  by (simp add: fs_wf_alt)

lemma fs_wf_parent: "fs_wf fs \<Longrightarrow> fs_get fs (p @ [n]) = Some i \<Longrightarrow> fs_get fs p = Some Directory"
  unfolding fs_wf_alt by (metis butlast_snoc option.distinct(1) snoc_eq_iff_butlast)

lemma fs_wf_below: "fs_wf fs \<Longrightarrow> fs_get fs (p @ q) \<noteq> None \<Longrightarrow> q \<noteq> [] \<Longrightarrow> fs_get fs p = Some Directory"
proof (induction q rule: rev_induct)
  case (snoc n q)
  then have "fs_get fs (p @ q) = Some Directory" using fs_wf_parent [of fs "p @ q" n] by auto
  then show ?case using snoc by (cases "q = []") auto
qed simp

lemma fs_wf_put:
  assumes "fs_wf fs" "p \<noteq> []" "fs_get fs (butlast p) = Some Directory"
    and "i = Directory \<or> fs_get fs p \<noteq> Some Directory"
  shows "fs_wf (fs_put p i fs)"
  unfolding fs_wf_alt
proof (intro conjI allI impI)
  show "fs_get (fs_put p i fs) [] = Some Directory" using assms by simp
  fix q assume q: "q \<noteq> []" "fs_get (fs_put p i fs) q \<noteq> None"
  have ne: "butlast p \<noteq> p" using assms(2) by (metis append_butlast_last_id append_self_conv list.distinct(1))
  show "fs_get (fs_put p i fs) (butlast q) = Some Directory"
  proof (cases "q = p")
    case True then show ?thesis using assms ne by simp
  next
    case False
    with q assms have "fs_get fs (butlast q) = Some Directory" by (simp add: fs_wf_alt)
    then show ?thesis using assms(4) by auto
  qed
qed

lemma fs_wf_drop:
  assumes "fs_wf fs" "\<not> gone []" "\<And>p n. gone p \<Longrightarrow> fs_get fs (p @ [n]) \<noteq> None \<Longrightarrow> gone (p @ [n])"
  shows "fs_wf (fs_drop gone fs)"
  using assms unfolding fs_wf_alt by (metis append_butlast_last_id fs_get_drop)

section \<open>System calls\<close>

datatype os_call = Lstat | ReadLink | ReadFile | Mkdir | OpenWrite | Unlink | ReadDir | Chmod | RenameTo | SyncDir

datatype fault = Refused | Torn nat

type_synonym host = "os_call \<Rightarrow> location \<Rightarrow> fault option"

datatype io_error = NotFound | IoError string

text \<open>
  The kernel's reading of a path. Dots are kept: they ask for a directory. So does a separator at the
  end. (The kernel has no link with an empty target.)
\<close>

definition os_component :: "string \<Rightarrow> component" where
  "os_component n = (if n = ''.'' then CurDir else if n = ''..'' then ParentDir else Normal n)"

definition os_components :: "string \<Rightarrow> component list" where
  "os_components s =
     (if path_is_absolute s then [RootDir] else []) @
     map os_component (filter (\<lambda>n. n \<noteq> []) (split_on (CHR ''/'') s)) @
     (if s \<noteq> [] \<and> last s = CHR ''/'' then [CurDir] else [])"

text \<open>
  Resolution from \<open>cur\<close> with at most \<open>n\<close> links to follow. With \<open>create\<close> the last name may be
  missing (\<open>O_CREAT\<close>, which follows a dangling link).
\<close>

function walk :: "filesys \<Rightarrow> bool \<Rightarrow> nat \<Rightarrow> location \<Rightarrow> component list \<Rightarrow> io_error + location" where
  "walk fs create n cur [] = Inr cur"
| "walk fs create n cur (c # cs) =
     (if fs_get fs cur \<noteq> Some Directory then Inl (IoError ''Not a directory'')
      else case c of
        RootDir \<Rightarrow> walk fs create n [] cs
      | CurDir \<Rightarrow> walk fs create n cur cs
      | ParentDir \<Rightarrow> walk fs create n (butlast cur) cs
      | Normal name \<Rightarrow>
          (case fs_get fs (cur @ [name]) of
             None \<Rightarrow> if create \<and> cs = [] then Inr (cur @ [name]) else Inl NotFound
           | Some (Symlink target) \<Rightarrow>
               if n = 0 then Inl (IoError ''Too many levels of symbolic links'')
               else walk fs create (n - 1) cur (os_components target @ cs)
           | Some _ \<Rightarrow> walk fs create n (cur @ [name]) cs))"
  by pat_completeness auto
termination
  by (relation "measures [\<lambda>(_, _, n, _, _). n, \<lambda>(_, _, _, _, cs). length cs]") auto

definition MAXSYMLINKS :: nat where
  "MAXSYMLINKS = 40"

definition os_canonicalize :: "filesys \<Rightarrow> component list \<Rightarrow> io_error + location" where
  "os_canonicalize fs cs = walk fs False MAXSYMLINKS [] cs"

text \<open>The directory entry that a path names; a link at its end is not followed.\<close>

definition os_entry :: "filesys \<Rightarrow> string list \<Rightarrow> io_error + location" where
  "os_entry fs p =
     (if p = [] then Inr []
      else rbind (os_canonicalize fs (map Normal (butlast p))) (\<lambda>d.
        if fs_get fs d = Some Directory then Inr (d @ [last p]) else Inl (IoError ''Not a directory'')))"

definition refused :: "host \<Rightarrow> os_call \<Rightarrow> location \<Rightarrow> bool" where
  "refused host call l \<longleftrightarrow> host call l \<noteq> None"

definition os_lstat :: "host \<Rightarrow> filesys \<Rightarrow> string list \<Rightarrow> io_error + inode" where
  "os_lstat host fs p =
     rbind (os_entry fs p) (\<lambda>l.
       if refused host Lstat l then Inl (IoError ''Permission denied'')
       else ok_or NotFound (fs_get fs l))"

definition os_is_dir :: "filesys \<Rightarrow> string list \<Rightarrow> bool" where
  "os_is_dir fs p =
     (case os_canonicalize fs (map Normal p) of Inl _ \<Rightarrow> False | Inr l \<Rightarrow> fs_get fs l = Some Directory)"

definition os_exists :: "filesys \<Rightarrow> string list \<Rightarrow> bool" where
  "os_exists fs p =
     (case os_canonicalize fs (map Normal p) of Inl _ \<Rightarrow> False | Inr l \<Rightarrow> fs_get fs l \<noteq> None)"

definition os_read :: "host \<Rightarrow> filesys \<Rightarrow> string list \<Rightarrow> io_error + string" where
  "os_read host fs p =
     rbind (os_canonicalize fs (map Normal p)) (\<lambda>l.
       if refused host ReadFile l then Inl (IoError ''Permission denied'')
       else case fs_get fs l of
           Some (Regular content) \<Rightarrow> Inr content
         | None \<Rightarrow> Inl NotFound
         | _ \<Rightarrow> Inl (IoError ''Is a directory''))"

text \<open>\<open>create_dir_all\<close>: one directory after the other; one that exists is fine.\<close>

definition os_mkdir :: "host \<Rightarrow> string list \<Rightarrow> filesys \<Rightarrow> (io_error + unit) \<times> filesys" where
  "os_mkdir host p fs =
     (case os_entry fs p of
        Inl e \<Rightarrow> (Inl e, fs)
      | Inr l \<Rightarrow>
          if fs_get fs l \<noteq> None
          then (if os_is_dir fs p then Inr () else Inl (IoError ''File exists''), fs)
          else if refused host Mkdir l then (Inl (IoError ''Permission denied''), fs)
          else (Inr (), fs_put l Directory fs))"

primrec os_mkdirs :: "host \<Rightarrow> string list list \<Rightarrow> filesys \<Rightarrow> (io_error + unit) \<times> filesys" where
  "os_mkdirs host [] fs = (Inr (), fs)"
| "os_mkdirs host (p # ps) fs =
     (case os_mkdir host p fs of (Inl e, fs') \<Rightarrow> (Inl e, fs') | (Inr _, fs') \<Rightarrow> os_mkdirs host ps fs')"

definition os_create_dir_all :: "host \<Rightarrow> string list \<Rightarrow> filesys \<Rightarrow> (io_error + unit) \<times> filesys" where
  "os_create_dir_all host p fs = os_mkdirs host (prefixes p) fs"

text \<open>What a file holds after a write that the host may stop.\<close>

definition os_fill :: "host \<Rightarrow> location \<Rightarrow> string \<Rightarrow> filesys \<Rightarrow> (io_error + unit) \<times> filesys" where
  "os_fill host l content fs =
     (case host OpenWrite l of
        Some Refused \<Rightarrow> (Inl (IoError ''Permission denied''), fs)
      | Some (Torn n) \<Rightarrow> (Inl (IoError ''No space left on device''), fs_put l (Regular (take n content)) fs)
      | None \<Rightarrow> (Inr (), fs_put l (Regular content) fs))"

text \<open>An entry that cannot be inspected cannot be opened either.\<close>

definition os_hidden :: "host \<Rightarrow> filesys \<Rightarrow> string list \<Rightarrow> bool" where
  "os_hidden host fs p = (case os_entry fs p of Inl _ \<Rightarrow> False | Inr l \<Rightarrow> refused host Lstat l)"

definition os_write :: "host \<Rightarrow> string list \<Rightarrow> string \<Rightarrow> filesys \<Rightarrow> (io_error + unit) \<times> filesys" where
  "os_write host p content fs =
     (if os_hidden host fs p then (Inl (IoError ''Permission denied''), fs)
      else case walk fs True MAXSYMLINKS [] (map Normal p) of
        Inl e \<Rightarrow> (Inl e, fs)
      | Inr l \<Rightarrow>
          (case fs_get fs l of
             Some Directory \<Rightarrow> (Inl (IoError ''Is a directory''), fs)
           | Some Special \<Rightarrow> (Inr (), fs)
           | _ \<Rightarrow> os_fill host l content fs))"

definition os_create_new :: "host \<Rightarrow> string list \<Rightarrow> string \<Rightarrow> filesys \<Rightarrow> (io_error + unit) \<times> filesys" where
  "os_create_new host p content fs =
     (case os_entry fs p of
        Inl e \<Rightarrow> (Inl e, fs)
      | Inr l \<Rightarrow> if fs_get fs l \<noteq> None then (Inl (IoError ''File exists''), fs) else os_fill host l content fs)"

definition os_chmod :: "host \<Rightarrow> filesys \<Rightarrow> string list \<Rightarrow> io_error + unit" where
  "os_chmod host fs p =
     rbind (os_canonicalize fs (map Normal p)) (\<lambda>l.
       if fs_get fs l = None then Inl NotFound
       else if refused host Chmod l then Inl (IoError ''Permission denied'') else Inr ())"

definition os_remove_file :: "host \<Rightarrow> string list \<Rightarrow> filesys \<Rightarrow> (io_error + unit) \<times> filesys" where
  "os_remove_file host p fs =
     (case os_entry fs p of
        Inl e \<Rightarrow> (Inl e, fs)
      | Inr l \<Rightarrow>
          (case fs_get fs l of
             None \<Rightarrow> (Inl NotFound, fs)
           | Some Directory \<Rightarrow> (Inl (IoError ''Is a directory''), fs)
           | Some _ \<Rightarrow>
               if refused host Unlink l then (Inl (IoError ''Permission denied''), fs)
               else (Inr (), fs_drop (\<lambda>q. q = l) fs)))"

text \<open>
  \<open>remove_dir_all\<close> on a directory. What the host does not let go, or what the call does not reach
  after a failure, is what \<open>host\<close> refuses; it stays with the directories above it.
\<close>

definition os_stays :: "host \<Rightarrow> filesys \<Rightarrow> location \<Rightarrow> bool" where
  "os_stays host fs q \<longleftrightarrow> (\<exists>e \<in> set fs. prefix q (fst e) \<and> refused host Unlink (fst e))"

definition os_remove_dir_all :: "host \<Rightarrow> string list \<Rightarrow> filesys \<Rightarrow> (io_error + unit) \<times> filesys" where
  "os_remove_dir_all host p fs =
     (case os_entry fs p of
        Inl e \<Rightarrow> (Inl e, fs)
      | Inr l \<Rightarrow>
          (case fs_get fs l of
             None \<Rightarrow> (Inl NotFound, fs)
           | Some Directory \<Rightarrow>
               (if l = [] \<or> os_stays host fs l then Inl (IoError ''Directory not empty'') else Inr (),
                fs_drop (\<lambda>q. prefix l q \<and> q \<noteq> [] \<and> \<not> os_stays host fs q) fs)
           | Some _ \<Rightarrow> (Inl (IoError ''Not a directory''), fs)))"

text \<open>\<open>rename\<close> of a file onto a name in an existing directory; it replaces a file there.\<close>

definition os_rename_file :: "host \<Rightarrow> string list \<Rightarrow> string list \<Rightarrow> filesys \<Rightarrow> (io_error + unit) \<times> filesys" where
  "os_rename_file host p q fs =
     (case (os_entry fs p, os_entry fs q) of
        (Inr l, Inr l') \<Rightarrow>
          (case fs_get fs l of
             None \<Rightarrow> (Inl NotFound, fs)
           | Some i \<Rightarrow>
               if i = Directory \<or> fs_get fs l' = Some Directory then (Inl (IoError ''Is a directory''), fs)
               else if refused host RenameTo l' then (Inl (IoError ''Permission denied''), fs)
               else if l = l' then (Inr (), fs)
               else (Inr (), fs_put l' i (fs_drop (\<lambda>r. r = l) fs)))
      | (Inl e, _) \<Rightarrow> (Inl e, fs)
      | (_, Inl e) \<Rightarrow> (Inl e, fs))"

section \<open>Paths without links\<close>

text \<open>
  A path is plain when every directory on it is missing or a real directory. The calls then act at
  the path itself.
\<close>

definition plain :: "filesys \<Rightarrow> location \<Rightarrow> bool" where
  "plain fs p \<longleftrightarrow> list_all (\<lambda>q. fs_get fs q = None \<or> fs_get fs q = Some Directory) (prefixes p)"

definition direct :: "filesys \<Rightarrow> location \<Rightarrow> bool" where
  "direct fs p \<longleftrightarrow>
     p \<noteq> [] \<and> plain fs (butlast p) \<and> (case fs_get fs p of Some (Symlink _) \<Rightarrow> False | _ \<Rightarrow> True)"

lemma plain_alt: "plain fs p \<longleftrightarrow> (\<forall>q. prefix q p \<longrightarrow> fs_get fs q = None \<or> fs_get fs q = Some Directory)"
  by (auto simp: plain_def list_all_iff)

lemma plain_prefix: "plain fs p \<Longrightarrow> prefix q p \<Longrightarrow> plain fs q"
  unfolding plain_alt using prefix_order.trans by blast

lemma plain_snoc [simp]:
  "plain fs (p @ [n]) \<longleftrightarrow> plain fs p \<and> (fs_get fs (p @ [n]) = None \<or> fs_get fs (p @ [n]) = Some Directory)"
  by (auto simp: plain_alt)

lemma plain_dir: "fs_wf fs \<Longrightarrow> fs_get fs p = Some Directory \<Longrightarrow> plain fs p"
  unfolding plain_alt prefix_def using fs_wf_below by (metis append_Nil2 option.distinct(1))

lemma plain_direct: "plain fs p \<Longrightarrow> p \<noteq> [] \<Longrightarrow> direct fs p"
  unfolding direct_def using plain_prefix [of fs p "butlast p"] prefixeq_butlast [of p]
  by (auto simp: plain_alt split: option.split inode.split)

lemma walk_direct:
  assumes "fs_wf fs" "fs_get fs cur = Some Directory" "p \<noteq> []"
    and "\<And>q. strict_prefix q p \<Longrightarrow> fs_get fs (cur @ q) = None \<or> fs_get fs (cur @ q) = Some Directory"
    and "\<And>t. fs_get fs (cur @ p) \<noteq> Some (Symlink t)"
  shows "walk fs create n cur (map Normal p) =
    (if fs_get fs (cur @ p) \<noteq> None \<or> create \<and> fs_get fs (cur @ butlast p) = Some Directory
     then Inr (cur @ p) else Inl NotFound)"
  using assms
proof (induction p arbitrary: cur)
  case (Cons a p)
  show ?case
  proof (cases "p = []")
    case True
    then show ?thesis using Cons.prems by (auto split: option.split inode.split)
  next
    case False
    have step: "fs_get fs (cur @ [a]) = None \<or> fs_get fs (cur @ [a]) = Some Directory"
      using Cons.prems(4) [of "[a]"] False by (simp add: strict_prefix_def)
    have below: "fs_get fs (cur @ a # p) = None" "fs_get fs (cur @ a # butlast p) \<noteq> Some Directory"
      if "fs_get fs (cur @ [a]) = None"
      using that fs_wf_below [OF Cons.prems(1), of "cur @ [a]"] False
      by (metis append.assoc append_Cons append_Nil option.distinct(1))+
    have IH: "walk fs create n (cur @ [a]) (map Normal p) =
      (if fs_get fs ((cur @ [a]) @ p) \<noteq> None \<or> create \<and> fs_get fs ((cur @ [a]) @ butlast p) = Some Directory
       then Inr ((cur @ [a]) @ p) else Inl NotFound)" if "fs_get fs (cur @ [a]) = Some Directory"
      using Cons.prems Cons.prems(4) [of "a # q" for q] that False by (intro Cons.IH) auto
    show ?thesis using step
    proof
      assume "fs_get fs (cur @ [a]) = None"
      then show ?thesis using below False Cons.prems(2) by simp
    next
      assume "fs_get fs (cur @ [a]) = Some Directory"
      then show ?thesis using IH False Cons.prems(2) by simp
    qed
  qed
qed simp

lemma walk_path:
  assumes "fs_wf fs" "direct fs p"
  shows "walk fs create n [] (map Normal p) =
    (if fs_get fs p \<noteq> None \<or> create \<and> fs_get fs (butlast p) = Some Directory then Inr p else Inl NotFound)"
proof -
  have "prefix q (butlast p)" if "strict_prefix q p" for q
    using that assms(2) by (metis direct_def append_butlast_last_id prefix_snoc strict_prefix_def)
  then show ?thesis
    using assms walk_direct [of fs "[]" p create n] unfolding direct_def plain_alt
    by (fastforce split: option.splits inode.splits)
qed

lemma canonicalize_plain:
  assumes "fs_wf fs" "plain fs p"
  shows "os_canonicalize fs (map Normal p) = (if fs_get fs p = Some Directory then Inr p else Inl NotFound)"
proof (cases "p = []")
  case True
  then show ?thesis using assms(1) by (simp add: os_canonicalize_def)
next
  case False
  then show ?thesis
    using walk_path [OF assms(1) plain_direct [OF assms(2)]] assms(2) by (auto simp: os_canonicalize_def plain_alt)
qed

lemma os_entry_plain:
  assumes "fs_wf fs" "plain fs p"
  shows "os_entry fs (p @ [n]) = (if fs_get fs p = Some Directory then Inr (p @ [n]) else Inl NotFound)"
  using canonicalize_plain [OF assms] by (simp add: os_entry_def)

lemma os_lstat_plain:
  assumes "fs_wf fs" "plain fs p"
  shows "os_lstat host fs (p @ [n]) =
    (if fs_get fs p = Some Directory \<and> refused host Lstat (p @ [n]) then Inl (IoError ''Permission denied'')
     else ok_or NotFound (fs_get fs (p @ [n])))"
proof -
  have "fs_get fs (p @ [n]) = None" if "fs_get fs p \<noteq> Some Directory"
    using that fs_wf_parent [OF assms(1)] by (metis option.exhaust)
  then show ?thesis by (auto simp: os_lstat_def os_entry_plain [OF assms])
qed

section \<open>Changes below a directory\<close>

text \<open>
  The directory of a root file system: its parent exists, it is a directory or not yet there, and no
  link leads to it. \<open>keeps_host\<close> is what the host expects of an operation on it.
\<close>

definition rooted :: "filesys \<Rightarrow> location \<Rightarrow> bool" where
  "rooted fs root \<longleftrightarrow>
     fs_get fs (butlast root) = Some Directory \<and> (fs_get fs root = None \<or> fs_get fs root = Some Directory)"

definition sound_fs :: "location \<Rightarrow> filesys \<Rightarrow> bool" where
  "sound_fs root fs \<longleftrightarrow> fs_wf fs \<and> rooted fs root"

definition keeps_host :: "location \<Rightarrow> filesys \<Rightarrow> filesys \<Rightarrow> bool" where
  "keeps_host root fs fs' \<longleftrightarrow> sound_fs root fs' \<and> unchanged_outside root fs fs'"

lemma keeps_host_refl: "sound_fs root fs \<Longrightarrow> keeps_host root fs fs"
  by (simp add: keeps_host_def)

lemma keeps_host_trans: "keeps_host root fs fs' \<Longrightarrow> keeps_host root fs' fs'' \<Longrightarrow> keeps_host root fs fs''"
  unfolding keeps_host_def using unchanged_outside_trans by blast

lemma rooted_plain: "sound_fs root fs \<Longrightarrow> plain fs root"
  unfolding sound_fs_def rooted_def
  by (metis append_butlast_last_id butlast.simps(1) plain_dir plain_snoc)

lemma not_prefix_butlast: "p \<noteq> [] \<Longrightarrow> \<not> prefix p (butlast p)"
  by (metis append_butlast_last_id prefix_order.antisym_conv prefixeq_butlast self_append_conv list.distinct(1))

lemma keeps_hostI:
  assumes "sound_fs root fs" "fs_wf fs'" "unchanged_outside root fs fs'"
    and "fs_get fs' root = None \<or> fs_get fs' root = Some Directory"
  shows "keeps_host root fs fs'"
proof (cases "root = []")
  case True
  then show ?thesis using assms by (simp add: keeps_host_def sound_fs_def rooted_def)
next
  case False
  then show ?thesis
    using assms not_prefix_butlast [OF False] by (auto simp: keeps_host_def sound_fs_def rooted_def unchanged_outside_alt)
qed

lemma keeps_host_put:
  assumes "sound_fs root fs" "prefix root p" "p \<noteq> []" "fs_get fs (butlast p) = Some Directory"
    and "i = Directory \<or> fs_get fs p \<noteq> Some Directory" "i = Directory \<or> p \<noteq> root"
  shows "keeps_host root fs (fs_put p i fs)"
proof (rule keeps_hostI [OF assms(1)])
  show "fs_wf (fs_put p i fs)" using assms by (intro fs_wf_put) (auto simp: sound_fs_def)
qed (use assms in \<open>auto simp: unchanged_outside_alt sound_fs_def rooted_def\<close>)

lemma keeps_host_drop:
  assumes "sound_fs root fs" "\<And>p. gone p \<Longrightarrow> prefix root p \<and> p \<noteq> []"
    and "\<And>p n. gone p \<Longrightarrow> fs_get fs (p @ [n]) \<noteq> None \<Longrightarrow> gone (p @ [n])"
  shows "keeps_host root fs (fs_drop gone fs)"
proof (rule keeps_hostI [OF assms(1)])
  show "fs_wf (fs_drop gone fs)" using assms by (intro fs_wf_drop) (auto simp: sound_fs_def)
qed (use assms in \<open>auto simp: unchanged_outside_alt sound_fs_def rooted_def\<close>)

text \<open>Calls that only add directories keep plain paths plain.\<close>

definition only_adds_dirs :: "filesys \<Rightarrow> filesys \<Rightarrow> bool" where
  "only_adds_dirs fs fs' \<longleftrightarrow>
     (\<forall>p. fs_get fs' p = fs_get fs p \<or> fs_get fs p = None \<and> fs_get fs' p = Some Directory)"

lemma only_adds_dirs_refl [simp]: "only_adds_dirs fs fs"
  by (simp add: only_adds_dirs_def)

lemma only_adds_dirs_trans: "only_adds_dirs fs fs' \<Longrightarrow> only_adds_dirs fs' fs'' \<Longrightarrow> only_adds_dirs fs fs''"
  unfolding only_adds_dirs_def by metis

lemma only_adds_dirs_plain: "only_adds_dirs fs fs' \<Longrightarrow> plain fs p \<Longrightarrow> plain fs' p"
  unfolding only_adds_dirs_def plain_alt by metis

lemma only_adds_dirs_dir:
  "only_adds_dirs fs fs' \<Longrightarrow> fs_get fs p = Some Directory \<Longrightarrow> fs_get fs' p = Some Directory"
  unfolding only_adds_dirs_def by metis

lemma only_adds_dirs_direct:
  assumes "only_adds_dirs fs fs'" "direct fs p"
  shows "direct fs' p"
proof -
  have "fs_get fs' p = fs_get fs p \<or> fs_get fs' p = Some Directory"
    using assms(1) by (auto simp: only_adds_dirs_def)
  then show ?thesis
    using assms only_adds_dirs_plain [OF assms(1), of "butlast p"] by (auto simp: direct_def)
qed

lemma above_root_dir:
  assumes "sound_fs root fs" "strict_prefix p root"
  shows "fs_get fs p = Some Directory"
proof -
  have "prefix p (butlast root)"
    using assms(2) by (metis append_butlast_last_id prefix_snoc strict_prefix_def prefix_bot.extremum_strict)
  then obtain q where "butlast root = p @ q" by (auto simp: prefix_def)
  then show ?thesis using assms(1) fs_wf_below [of fs p q] by (cases "q = []") (auto simp: sound_fs_def rooted_def)
qed

lemma os_entry_existing:
  assumes "fs_wf fs" "fs_get fs p \<noteq> None"
  shows "os_entry fs p = Inr p"
proof (cases p rule: rev_cases)
  case (snoc q n)
  then have "fs_get fs q = Some Directory" using assms fs_wf_parent [OF assms(1)] by auto
  then show ?thesis using os_entry_plain [OF assms(1) plain_dir [OF assms(1)], of q n] snoc by simp
qed (simp add: os_entry_def)

lemma os_mkdir_existing:
  assumes "fs_wf fs" "fs_get fs p = Some Directory"
  shows "os_mkdir host p fs = (Inr (), fs)"
proof -
  note pl = plain_dir [OF assms]
  have "os_entry fs p = Inr p" using os_entry_existing assms by simp
  then show ?thesis using assms(2) canonicalize_plain [OF assms(1) pl] by (simp add: os_mkdir_def os_is_dir_def)
qed

lemma os_mkdir_below:
  assumes "sound_fs root fs" "plain fs p" "prefix root p \<or> prefix p root" "os_mkdir host p fs = (r, fs')"
  shows "keeps_host root fs fs' \<and> only_adds_dirs fs fs' \<and> (r = Inr () \<longrightarrow> fs_get fs' p = Some Directory) \<and>
    (\<forall>q. q \<noteq> p \<longrightarrow> fs_get fs' q = fs_get fs q)"
proof (cases "fs_get fs p = Some Directory")
  case True
  then have "(r, fs') = (Inr (), fs)" using os_mkdir_existing assms(1,4) by (simp add: sound_fs_def)
  then show ?thesis using True assms(1) by (simp add: keeps_host_refl)
next
  case False
  have wf: "fs_wf fs" using assms(1) by (simp add: sound_fs_def)
  then obtain q n where p: "p = q @ [n]" using False by (cases p rule: rev_cases) auto
  have missing: "fs_get fs p = None" using False assms(2) by (simp add: p)
  have root: "prefix root p" using assms(3) above_root_dir [OF assms(1), of p] False by (auto simp: strict_prefix_def)
  have put: "keeps_host root fs (fs_put p Directory fs)" if "fs_get fs q = Some Directory"
    using that root by (intro keeps_host_put [OF assms(1)]) (simp_all add: p)
  show ?thesis
    using assms(4) os_entry_plain [OF wf, of q n] assms(2) missing put keeps_host_refl [OF assms(1)]
    by (auto simp: os_mkdir_def p only_adds_dirs_def split: if_splits)
qed

lemma os_mkdirs_below:
  assumes "sound_fs root fs" "plain fs p" "\<And>q. q \<in> set ps \<Longrightarrow> prefix q p" "prefix root p"
    and "os_mkdirs host ps fs = (r, fs')"
  shows "keeps_host root fs fs' \<and> only_adds_dirs fs fs' \<and>
    (r = Inr () \<longrightarrow> list_all (\<lambda>q. fs_get fs' q = Some Directory) ps) \<and>
    (\<forall>q. q \<notin> set ps \<longrightarrow> fs_get fs' q = fs_get fs q)"
  using assms(1,2,3,5)
proof (induction ps arbitrary: fs)
  case Nil
  then show ?case by (simp add: keeps_host_refl)
next
  case (Cons q ps)
  obtain r1 fs1 where mk: "os_mkdir host q fs = (r1, fs1)" by fastforce
  have "prefix root q \<or> prefix q root" using Cons.prems(3) [of q] assms(4) prefix_same_cases by (metis list.set_intros(1))
  then have one: "keeps_host root fs fs1" "only_adds_dirs fs fs1" "r1 = Inr () \<Longrightarrow> fs_get fs1 q = Some Directory"
      "\<And>x. x \<noteq> q \<Longrightarrow> fs_get fs1 x = fs_get fs x"
    using os_mkdir_below [OF Cons.prems(1) plain_prefix [OF Cons.prems(2)] _ mk] Cons.prems(3) by auto
  show ?case
  proof (cases r1)
    case (Inl e)
    then show ?thesis using one Cons.prems(4) mk by auto
  next
    case (Inr u)
    then have "keeps_host root fs1 fs' \<and> only_adds_dirs fs1 fs' \<and>
        (r = Inr () \<longrightarrow> list_all (\<lambda>q. fs_get fs' q = Some Directory) ps) \<and>
        (\<forall>q. q \<notin> set ps \<longrightarrow> fs_get fs' q = fs_get fs1 q)"
      using one Cons.prems mk only_adds_dirs_plain by (intro Cons.IH) (auto simp: keeps_host_def)
    then show ?thesis
      using one Inr keeps_host_trans [of root fs fs1 fs'] only_adds_dirs_trans [of fs fs1 fs']
        only_adds_dirs_dir [of fs1 fs' q] by simp
  qed
qed

lemma create_dir_all_below:
  assumes "sound_fs root fs" "plain fs p" "prefix root p" "os_create_dir_all host p fs = (r, fs')"
  shows "keeps_host root fs fs'" "only_adds_dirs fs fs'" "r = Inr () \<Longrightarrow> fs_get fs' p = Some Directory"
    "\<And>q. \<not> prefix q p \<Longrightarrow> fs_get fs' q = fs_get fs q"
  using os_mkdirs_below [OF assms(1,2) _ assms(3), of "prefixes p" host r fs'] assms(4)
  by (auto simp: os_create_dir_all_def list_all_iff)

lemma os_fill_below:
  assumes "sound_fs root fs" "strict_prefix root p" "fs_get fs (butlast p) = Some Directory"
    and "fs_get fs p \<noteq> Some Directory" "os_fill host p content fs = (r, fs')"
  shows "keeps_host root fs fs'"
proof -
  have "keeps_host root fs (fs_put p (Regular c) fs)" for c
    using assms by (intro keeps_host_put) auto
  then show ?thesis
    using assms(1,5) keeps_host_refl by (auto simp: os_fill_def split: option.splits fault.splits)
qed

lemma os_write_below:
  assumes "sound_fs root fs" "direct fs p" "strict_prefix root p" "os_write host p content fs = (r, fs')"
  shows "keeps_host root fs fs'"
proof -
  have wf: "fs_wf fs" using assms(1) by (simp add: sound_fs_def)
  obtain q n where p: "p = q @ [n]" using assms(2) by (cases p rule: rev_cases) (auto simp: direct_def)
  have parent: "fs_get fs q = Some Directory" if "fs_get fs (q @ [n]) \<noteq> None"
    using that fs_wf_parent [OF wf] by auto
  note fill = os_fill_below [OF assms(1,3), of host content r fs']
  show ?thesis
    using assms(4) walk_path [OF wf assms(2)] parent fill keeps_host_refl [OF assms(1)]
    by (auto simp: os_write_def p split: if_splits option.splits inode.splits)
qed

lemma os_create_new_below:
  assumes "sound_fs root fs" "plain fs p" "prefix root p" "os_create_new host (p @ [n]) content fs = (r, fs')"
  shows "keeps_host root fs fs'"
proof -
  have wf: "fs_wf fs" using assms(1) by (simp add: sound_fs_def)
  have "strict_prefix root (p @ [n])" using assms(3) by (auto simp: strict_prefix_def prefix_def)
  note fill = os_fill_below [OF assms(1) this, of host content r fs']
  show ?thesis
    using assms(4) os_entry_plain [OF wf assms(2), of n] fill keeps_host_refl [OF assms(1)]
    by (auto simp: os_create_new_def split: if_splits)
qed

lemma os_remove_file_below:
  assumes "sound_fs root fs" "plain fs p" "prefix root p" "os_remove_file host (p @ [n]) fs = (r, fs')"
  shows "keeps_host root fs fs'"
proof -
  have wf: "fs_wf fs" using assms(1) by (simp add: sound_fs_def)
  have "keeps_host root fs (fs_drop (\<lambda>q. q = p @ [n]) fs)" if "fs_get fs (p @ [n]) \<noteq> Some Directory"
  proof (rule keeps_host_drop [OF assms(1)])
    fix q m assume "q = p @ [n]" "fs_get fs (q @ [m]) \<noteq> None"
    then show "q @ [m] = p @ [n]" using that fs_wf_parent [OF wf, of q m] by auto
  qed (use assms(3) in \<open>auto simp: prefix_def\<close>)
  then show ?thesis
    using assms(4) os_entry_plain [OF wf assms(2), of n] keeps_host_refl [OF assms(1)]
    by (auto simp: os_remove_file_def split: if_splits option.splits inode.splits)
qed

lemma os_remove_file_only:
  "os_remove_file host p fs = (r, fs') \<Longrightarrow> fs_get fs' q = None \<or> fs_get fs' q = fs_get fs q"
  by (auto simp: os_remove_file_def split: sum.splits option.splits inode.splits if_splits)

end
