(* ===== verification/Guest_Files.thy ===== *)
theory Guest_Files
  imports Box_Config Ports_Env Host_Files
begin

text \<open>
  Files of a guest on the host: \<open>runtime/src/oci/rootfs.rs\<close>. An image decides what its root file
  system holds, symbolic links with any target included, and the host reads and writes files in it
  before the guest runs. The runtime therefore resolves guest paths itself, name by name, the way
  the guest would. The first part is this resolver, the second the operations built on it, the third
  the parts of the builder of root file systems that write files. \<open>root\<close> is the location of the root
  file system on the host.
\<close>

section \<open>The resolver\<close>

definition show_path :: "location \<Rightarrow> string" where
  "show_path p = (if p = [] then ''/'' else concat (map (\<lambda>n. ''/'' @ n) p))"

primrec show_io_error :: "io_error \<Rightarrow> string" where
  "show_io_error NotFound = ''No such file or directory''"
| "show_io_error (IoError m) = m"

text \<open>A name between separators is one component unless it is empty, a dot or two dots.\<close>

definition guest_path_components :: "string \<Rightarrow> box_error + (bool \<times> string list)" where
  "guest_path_components rendered =
     (let names = filter (\<lambda>n. n \<noteq> [] \<and> n \<noteq> ''.'') (split_on (CHR ''/'') rendered)
      in if list_ex (\<lambda>n. n \<noteq> ''..'' \<and> CHR 0x00 \<in> set n) names
         then Inl (BuildError ''Rootfs symlink target contains NUL'')
         else Inr (path_is_absolute rendered, names))"

definition MAX_SYMLINK_HOPS :: nat where
  "MAX_SYMLINK_HOPS = 40"

function resolve_rootfs_components ::
    "host \<Rightarrow> filesys \<Rightarrow> location \<Rightarrow> bool \<Rightarrow> nat \<Rightarrow> string list \<Rightarrow> string list \<Rightarrow> box_error + location" where
  "resolve_rootfs_components host fs root allow_final_file symlink_hops resolved [] = Inr (root @ resolved)"
| "resolve_rootfs_components host fs root allow_final_file symlink_hops resolved (component # pending) =
     (if component = ''..'' then
        (if resolved = [] then Inl (BuildError ''Rootfs symlink target escapes rootfs'')
         else resolve_rootfs_components host fs root allow_final_file symlink_hops (butlast resolved) pending)
      else
        (let candidate = root @ resolved @ [component];
             not_a_directory = Inl (BuildError (''Cannot use '' @ show_path candidate @
               '' as a rootfs directory because it is not a directory''))
         in case os_lstat host fs candidate of
              Inr (Symlink target) \<Rightarrow>
                if MAX_SYMLINK_HOPS < symlink_hops + 1
                then Inl (BuildError (''Too many rootfs symlink hops while resolving '' @ show_path candidate))
                else if refused host ReadLink candidate
                then Inl (BuildError (''Failed to resolve rootfs symlink '' @ show_path candidate))
                else (case guest_path_components target of
                    Inl e \<Rightarrow> Inl e
                  | Inr (absolute, target_components) \<Rightarrow>
                      resolve_rootfs_components host fs root allow_final_file (symlink_hops + 1)
                        (if absolute then [] else resolved) (target_components @ pending))
            | Inr Directory \<Rightarrow>
                resolve_rootfs_components host fs root allow_final_file symlink_hops (resolved @ [component]) pending
            | Inr (Regular _) \<Rightarrow>
                if allow_final_file \<and> pending = []
                then resolve_rootfs_components host fs root allow_final_file symlink_hops
                       (resolved @ [component]) pending
                else not_a_directory
            | Inr Special \<Rightarrow> not_a_directory
            | Inl NotFound \<Rightarrow>
                resolve_rootfs_components host fs root allow_final_file symlink_hops (resolved @ [component]) pending
            | Inl (IoError m) \<Rightarrow>
                Inl (BuildError (''Failed to inspect rootfs path '' @ show_path candidate @ '': '' @ m))))"
  by pat_completeness auto
termination
  by (relation "measures [\<lambda>(_, _, _, _, hops, _, _). MAX_SYMLINK_HOPS - hops,
                          \<lambda>(_, _, _, _, _, _, pending). length pending]") auto

definition resolve_rootfs_path :: "host \<Rightarrow> filesys \<Rightarrow> location \<Rightarrow> string \<Rightarrow> bool \<Rightarrow> box_error + location" where
  "resolve_rootfs_path host fs root path allow_final_file =
     rbind (guest_path_components path) (\<lambda>(absolute, pending).
       if absolute then Inl (BuildError (''Rootfs path must be relative: '' @ path))
       else resolve_rootfs_components host fs root allow_final_file 0 [] pending)"

definition not_relative :: "string \<Rightarrow> bool" where
  "not_relative path \<longleftrightarrow> path_is_absolute path \<or> ParentDir \<in> set (path_components path)"

definition resolve_guest_file_path :: "host \<Rightarrow> filesys \<Rightarrow> location \<Rightarrow> string \<Rightarrow> box_error + location" where
  "resolve_guest_file_path host fs root relative =
     (if not_relative relative then Inl (BuildError (''Invalid rootfs relative path: '' @ relative))
      else if path_file_name relative = None then Inl (BuildError (''Invalid rootfs file path: '' @ relative))
      else resolve_rootfs_path host fs root relative True)"

definition resolve_guest_directory_path :: "host \<Rightarrow> filesys \<Rightarrow> location \<Rightarrow> string \<Rightarrow> box_error + location" where
  "resolve_guest_directory_path host fs root relative =
     (if not_relative relative then Inl (BuildError (''Invalid rootfs relative directory: '' @ relative))
      else resolve_rootfs_path host fs root relative False)"

definition resolve_guest_entry_path :: "host \<Rightarrow> filesys \<Rightarrow> location \<Rightarrow> string \<Rightarrow> box_error + location" where
  "resolve_guest_entry_path host fs root relative =
     (if not_relative relative then Inl (BuildError (''Invalid rootfs relative entry: '' @ relative))
      else case path_file_name relative of
          None \<Rightarrow> Inl (BuildError (''Invalid rootfs entry path: '' @ relative))
        | Some name \<Rightarrow>
            rbind (resolve_guest_directory_path host fs root
                     (case path_parent relative of None \<Rightarrow> [] | Some parent \<Rightarrow> parent))
              (\<lambda>directory. Inr (directory @ [name])))"

section \<open>Operations on guest files\<close>

definition build_failed :: "string \<Rightarrow> location \<Rightarrow> io_error \<Rightarrow> box_error" where
  "build_failed what p e = BuildError (what @ '' '' @ show_path p @ '': '' @ show_io_error e)"

definition remove_guest_entry_no_follow ::
    "host \<Rightarrow> location \<Rightarrow> string \<Rightarrow> filesys \<Rightarrow> (box_error + location) \<times> filesys" where
  "remove_guest_entry_no_follow host root relative fs =
     (case resolve_guest_entry_path host fs root relative of
        Inl e \<Rightarrow> (Inl e, fs)
      | Inr path \<Rightarrow>
          (case os_lstat host fs path of
             Inr Directory \<Rightarrow>
               (Inl (BuildError (''Refusing to replace guest directory '' @ show_path path @ '' with a file'')), fs)
           | Inr _ \<Rightarrow>
               (case os_remove_file host path fs of
                  (Inl e, fs') \<Rightarrow> (Inl (build_failed ''Failed to remove guest entry'' path e), fs')
                | (Inr _, fs') \<Rightarrow> (Inr path, fs'))
           | Inl NotFound \<Rightarrow> (Inr path, fs)
           | Inl e \<Rightarrow> (Inl (build_failed ''Failed to inspect guest entry'' path e), fs)))"

definition replace_guest_file_no_follow ::
    "host \<Rightarrow> location \<Rightarrow> string \<Rightarrow> string \<Rightarrow> filesys \<Rightarrow> (box_error + location) \<times> filesys" where
  "replace_guest_file_no_follow host root relative content fs =
     (case remove_guest_entry_no_follow host root relative fs of
        (Inl e, fs1) \<Rightarrow> (Inl e, fs1)
      | (Inr path, fs1) \<Rightarrow>
          (case os_create_dir_all host (butlast path) fs1 of
             (Inl e, fs2) \<Rightarrow> (Inl (build_failed ''Failed to create guest file parent'' (butlast path) e), fs2)
           | (Inr _, fs2) \<Rightarrow>
               (case os_create_new host path content fs2 of
                  (Inl e, fs3) \<Rightarrow> (Inl (build_failed ''Failed to create guest file'' path e), fs3)
                | (Inr _, fs3) \<Rightarrow>
                    (case os_chmod host fs3 path of
                       Inl e \<Rightarrow> (Inl (build_failed ''Failed to set guest file permissions on'' path e), fs3)
                     | Inr _ \<Rightarrow> (Inr path, fs3)))))"

definition ensure_guest_directory ::
    "host \<Rightarrow> location \<Rightarrow> string \<Rightarrow> filesys \<Rightarrow> (box_error + location) \<times> filesys" where
  "ensure_guest_directory host root relative fs =
     (case resolve_guest_directory_path host fs root relative of
        Inl e \<Rightarrow> (Inl e, fs)
      | Inr path \<Rightarrow>
          (case os_create_dir_all host path fs of
             (Inl e, fs') \<Rightarrow> (Inl (build_failed ''Failed to create guest directory'' path e), fs')
           | (Inr _, fs') \<Rightarrow> (Inr path, fs')))"

definition write_guest_file ::
    "host \<Rightarrow> location \<Rightarrow> string \<Rightarrow> string \<Rightarrow> filesys \<Rightarrow> (box_error + location) \<times> filesys" where
  "write_guest_file host root relative content fs =
     (case resolve_guest_file_path host fs root relative of
        Inl e \<Rightarrow> (Inl e, fs)
      | Inr path \<Rightarrow>
          (case os_create_dir_all host (butlast path) fs of
             (Inl e, fs1) \<Rightarrow> (Inl (build_failed ''Failed to create guest file parent'' (butlast path) e), fs1)
           | (Inr _, fs1) \<Rightarrow>
               (case os_write host path content fs1 of
                  (Inl e, fs2) \<Rightarrow> (Inl (build_failed ''Failed to write guest file'' path e), fs2)
                | (Inr _, fs2) \<Rightarrow>
                    (case os_chmod host fs2 path of
                       Inl e \<Rightarrow> (Inl (build_failed ''Failed to set guest file permissions on'' path e), fs2)
                     | Inr _ \<Rightarrow> (Inr path, fs2)))))"

text \<open>\<open>read_to_string\<close> refuses bytes that are not UTF-8.\<close>

definition utf8_tail :: "nat \<Rightarrow> nat list \<Rightarrow> bool" where
  "utf8_tail k bs \<longleftrightarrow> k \<le> length bs \<and> list_all (\<lambda>b. 128 \<le> b \<and> b \<le> 191) (take k bs)"

definition utf8_length :: "nat list \<Rightarrow> nat" where
  "utf8_length bs =
     (case bs of
        [] \<Rightarrow> 0
      | b # r \<Rightarrow>
          if b < 128 then 1
          else if 194 \<le> b \<and> b \<le> 223 \<and> utf8_tail 1 r then 2
          else if 224 \<le> b \<and> b \<le> 239 \<and> utf8_tail 2 r \<and> (b \<noteq> 224 \<or> 160 \<le> hd r) \<and> (b \<noteq> 237 \<or> hd r \<le> 159) then 3
          else if 240 \<le> b \<and> b \<le> 244 \<and> utf8_tail 3 r \<and> (b \<noteq> 240 \<or> 144 \<le> hd r) \<and> (b \<noteq> 244 \<or> hd r \<le> 143) then 4
          else 0)"

function utf8_bytes :: "nat list \<Rightarrow> bool" where
  "utf8_bytes bs =
     (if bs = [] then True else if utf8_length bs = 0 then False else utf8_bytes (drop (utf8_length bs) bs))"
  by pat_completeness auto
termination
  by (relation "measure length") auto

declare utf8_bytes.simps [simp del]

definition is_utf8 :: "string \<Rightarrow> bool" where
  "is_utf8 s \<longleftrightarrow> utf8_bytes (map of_char s)"

definition os_read_to_string :: "host \<Rightarrow> filesys \<Rightarrow> string list \<Rightarrow> io_error + string" where
  "os_read_to_string host fs p =
     rbind (os_read host fs p) (\<lambda>content.
       if is_utf8 content then Inr content else Inl (IoError ''stream did not contain valid UTF-8''))"

definition read_guest_file_to_string ::
    "host \<Rightarrow> location \<Rightarrow> string \<Rightarrow> filesys \<Rightarrow> box_error + string option" where
  "read_guest_file_to_string host root relative fs =
     rbind (resolve_guest_file_path host fs root relative) (\<lambda>path.
       case os_read_to_string host fs path of
         Inr content \<Rightarrow> Inr (Some content)
       | Inl NotFound \<Rightarrow> Inr None
       | Inl e \<Rightarrow> Inl (build_failed ''Failed to read guest file'' path e))"

section \<open>The files of a new root file system\<close>

definition has_entry :: "string \<Rightarrow> string \<Rightarrow> bool" where
  "has_entry content name \<longleftrightarrow> list_ex (\<lambda>line. hd (split_on (CHR '':'') line) = name) (str_lines content)"

definition with_entries :: "string \<Rightarrow> (string \<times> string) list \<Rightarrow> string" where
  "with_entries existing required =
     foldl (\<lambda>content (name, entry). if has_entry existing name then content else content @ entry @ [CHR 0x0A])
       (if existing \<noteq> [] \<and> last existing \<noteq> CHR 0x0A then existing @ [CHR 0x0A] else existing) required"

definition ensure_entries ::
    "host \<Rightarrow> location \<Rightarrow> string \<Rightarrow> (string \<times> string) list \<Rightarrow> filesys \<Rightarrow> (box_error + location) \<times> filesys" where
  "ensure_entries host root file required fs =
     (case resolve_guest_file_path host fs root file of
        Inl e \<Rightarrow> (Inl e, fs)
      | Inr path \<Rightarrow>
          write_guest_file host root file
            (with_entries (case os_read_to_string host fs path of Inl _ \<Rightarrow> [] | Inr s \<Rightarrow> s) required) fs)"

definition ensure_passwd_entries ::
    "host \<Rightarrow> location \<Rightarrow> (string \<times> string) list \<Rightarrow> filesys \<Rightarrow> (box_error + location) \<times> filesys" where
  "ensure_passwd_entries host root required fs = ensure_entries host root ''etc/passwd'' required fs"

definition ensure_group_entries ::
    "host \<Rightarrow> location \<Rightarrow> (string \<times> string) list \<Rightarrow> filesys \<Rightarrow> (box_error + location) \<times> filesys" where
  "ensure_group_entries host root required fs = ensure_entries host root ''etc/group'' required fs"

text \<open>Steps one after the other; the first failure stops.\<close>

primrec fs_steps :: "(filesys \<Rightarrow> (box_error + 'a) \<times> filesys) list \<Rightarrow> filesys \<Rightarrow> (box_error + unit) \<times> filesys" where
  "fs_steps [] fs = (Inr (), fs)"
| "fs_steps (f # steps) fs = (case f fs of (Inl e, fs') \<Rightarrow> (Inl e, fs') | (Inr _, fs') \<Rightarrow> fs_steps steps fs')"

record rootfs_builder =
  rb_rootfs_path :: location
  rb_guest_init_path :: "location option"
  rb_resolv_conf :: "string option"

definition rootfs_builder_new :: "location \<Rightarrow> rootfs_builder" where
  "rootfs_builder_new root = \<lparr> rb_rootfs_path = root, rb_guest_init_path = None, rb_resolv_conf = None \<rparr>"

definition with_resolv_conf :: "string \<Rightarrow> rootfs_builder \<Rightarrow> rootfs_builder" where
  "with_resolv_conf content b = (if content = [] then b else b\<lparr> rb_resolv_conf := Some content \<rparr>)"

definition create_essential_files :: "host \<Rightarrow> rootfs_builder \<Rightarrow> filesys \<Rightarrow> (box_error + unit) \<times> filesys" where
  "create_essential_files host b =
     (let root = rb_rootfs_path b; nl = [CHR 0x0A]; tab = [CHR 0x09]
      in fs_steps
        [ensure_passwd_entries host root
           [(''root'', ''root:x:0:0:root:/root:/bin/sh''), (''nobody'', ''nobody:x:65534:65534:nobody:/:/bin/false'')],
         ensure_group_entries host root [(''root'', ''root:x:0:''), (''nogroup'', ''nogroup:x:65534:'')],
         write_guest_file host root ''etc/hosts'' (''127.0.0.1'' @ tab @ ''localhost'' @ nl @ ''::1'' @ tab @ tab @ ''localhost'' @ nl),
         write_guest_file host root ''etc/resolv.conf''
           (case rb_resolv_conf b of
              None \<Rightarrow> ''nameserver 8.8.8.8'' @ nl @ ''nameserver 8.8.4.4'' @ nl
            | Some content \<Rightarrow> content),
         write_guest_file host root ''etc/nsswitch.conf''
           (''passwd: files'' @ nl @ ''group: files'' @ nl @ ''hosts: files dns'' @ nl)])"

definition base_directories :: "string list list" where
  "base_directories =
     [[''dev''], [''proc''], [''sys''], [''tmp''], [''run''], [''etc''], [''var''], [''var'', ''tmp''],
      [''var'', ''log''], [''workspace'']]"

definition create_base_structure :: "host \<Rightarrow> rootfs_builder \<Rightarrow> filesys \<Rightarrow> (box_error + unit) \<times> filesys" where
  "create_base_structure host b =
     (let root = rb_rootfs_path b
      in fs_steps
        (map (\<lambda>dir fs. case os_create_dir_all host (root @ dir) fs of
             (Inl e, fs') \<Rightarrow> (Inl (build_failed ''Failed to create directory'' (root @ dir) e), fs')
           | (Inr _, fs') \<Rightarrow> (Inr (), fs')) base_directories @
         [\<lambda>fs. case os_chmod host fs root of
             Inl e \<Rightarrow> (Inl (build_failed ''Failed to set rootfs permissions on'' root e), fs)
           | Inr _ \<Rightarrow> (Inr (), fs)]))"

definition guest_init_directory :: "host \<Rightarrow> location \<Rightarrow> filesys \<Rightarrow> box_error + location" where
  "guest_init_directory host root fs =
     (case os_lstat host fs (root @ [''sbin'']) of
        Inl NotFound \<Rightarrow>
          rbind (resolve_guest_directory_path host fs root ''usr/sbin'') (\<lambda>usr_sbin.
            if os_is_dir fs usr_sbin then Inr usr_sbin else resolve_guest_directory_path host fs root ''sbin'')
      | Inr _ \<Rightarrow> resolve_guest_directory_path host fs root ''sbin''
      | Inl e \<Rightarrow> Inl (build_failed ''Failed to inspect /sbin path'' (root @ [''sbin'']) e))"

definition os_copy :: "host \<Rightarrow> location \<Rightarrow> location \<Rightarrow> filesys \<Rightarrow> (io_error + unit) \<times> filesys" where
  "os_copy host src dest fs =
     (case os_read host fs src of Inl e \<Rightarrow> (Inl e, fs) | Inr content \<Rightarrow> os_write host dest content fs)"

definition install_guest_init :: "host \<Rightarrow> rootfs_builder \<Rightarrow> filesys \<Rightarrow> (box_error + unit) \<times> filesys" where
  "install_guest_init host b fs =
     (case rb_guest_init_path b of
        None \<Rightarrow> (Inl (BuildError ''Guest init path not set''), fs)
      | Some src \<Rightarrow>
          if \<not> os_exists fs src then (Inl (BuildError (''Guest init binary not found: '' @ show_path src)), fs)
          else (case guest_init_directory host (rb_rootfs_path b) fs of
              Inl e \<Rightarrow> (Inl e, fs)
            | Inr install_dir \<Rightarrow>
                (let dest = install_dir @ [''init'']
                 in fs_steps
                   [\<lambda>fs. case os_create_dir_all host install_dir fs of
                        (Inl e, fs') \<Rightarrow> (Inl (build_failed ''Failed to create guest init install directory'' install_dir e), fs')
                      | (Inr _, fs') \<Rightarrow> (Inr (), fs'),
                    \<lambda>fs. if os_exists fs dest \<or> \<not> isl (os_lstat host fs dest)
                      then (case os_remove_file host dest fs of
                          (Inl e, fs') \<Rightarrow> (Inl (build_failed ''Failed to remove existing'' dest e), fs')
                        | (Inr _, fs') \<Rightarrow> (Inr (), fs'))
                      else (Inr (), fs),
                    \<lambda>fs. case os_copy host src dest fs of
                        (Inl e, fs') \<Rightarrow> (Inl (build_failed ''Failed to copy guest init to'' dest e), fs')
                      | (Inr _, fs') \<Rightarrow> (Inr (), fs'),
                    \<lambda>fs. case os_chmod host fs dest of
                        Inl e \<Rightarrow> (Inl (BuildError (''Failed to set permissions: '' @ show_io_error e)), fs)
                      | Inr _ \<Rightarrow> (Inr (), fs)] fs)))"

definition with_guest_init :: "location \<Rightarrow> rootfs_builder \<Rightarrow> rootfs_builder" where
  "with_guest_init path b = b\<lparr> rb_guest_init_path := Some path \<rparr>"

definition install_guest_init_only :: "host \<Rightarrow> rootfs_builder \<Rightarrow> filesys \<Rightarrow> (box_error + unit) \<times> filesys" where
  "install_guest_init_only host b fs =
     (if rb_guest_init_path b \<noteq> None then install_guest_init host b fs else (Inr (), fs))"

end
