(* ===== verification/Guest_Confinement.thy ===== *)
theory Guest_Confinement
  imports Guest_Files
begin

text \<open>
  What the operations of \<open>Guest_Files\<close> do to the host. A resolved path is free of links and below the
  root, so each operation changes only the root file system; the resolver means the file that the
  guest itself would reach; on a host that refuses nothing the operations succeed. The locale
  \<open>confinement\<close> is the contract between these operations and the code that runs them in sequence.
\<close>

section \<open>Where a resolved path leads\<close>

text \<open>
  A resolved path is below the root and free of links: each directory on it is missing or real, and
  so is its end, which may be a file when files are allowed.
\<close>

definition resolved_ok :: "bool \<Rightarrow> filesys \<Rightarrow> location \<Rightarrow> location \<Rightarrow> bool" where
  "resolved_ok allow_file fs root p \<longleftrightarrow>
     prefix root p \<and>
     (plain fs p \<or> allow_file \<and> strict_prefix root p \<and> plain fs (butlast p) \<and>
        (case fs_get fs p of Some (Regular _) \<Rightarrow> True | _ \<Rightarrow> False))"

lemma plain_butlast: "plain fs (root @ r) \<Longrightarrow> plain fs (root @ butlast r)"
  using plain_prefix prefixeq_butlast [of r] by (metis same_prefix_prefix)

lemma resolve_components_ok:
  assumes "sound_fs root fs" "plain fs (root @ resolved)"
    and "resolve_rootfs_components host fs root allow hops resolved pending = Inr p"
  shows "resolved_ok allow fs root p"
  using assms
proof (induction host fs root allow hops resolved pending rule: resolve_rootfs_components.induct)
  case (1 host fs root allow hops resolved)
  then show ?case by (auto simp: resolved_ok_def)
next
  case (2 host fs root allow hops resolved c pending)
  have wf: "fs_wf fs" using "2.prems"(1) by (simp add: sound_fs_def)
  have root: "plain fs root" using rooted_plain [OF "2.prems"(1)] .
  note look = os_lstat_plain [OF wf "2.prems"(2), of host c, simplified]
  show ?case
  proof (cases "c = ''..''")
    case True
    then show ?thesis using "2.IH"(1) "2.prems" plain_butlast by (auto split: if_splits)
  next
    case False
    let ?look = "os_lstat host fs (root @ resolved @ [c])"
    consider (dir) "?look = Inr Directory \<or> ?look = Inl NotFound"
      | (linked) t where "?look = Inr (Symlink t)"
      | (regular) s where "?look = Inr (Regular s)"
      | (other) "?look = Inr Special \<or> (\<exists>m. ?look = Inl (IoError m))"
      by (metis inode.exhaust io_error.exhaust sum.exhaust)
    then show ?thesis
    proof cases
      case dir
      then have "plain fs (root @ resolved @ [c])"
        using look "2.prems"(2) plain_snoc [of fs "root @ resolved" c] by (auto split: if_splits simp: result_simps)
      then show ?thesis using "2.IH"(2,3) dir False "2.prems" by (auto simp: Let_def)
    next
      case linked
      then show ?thesis using "2.IH"(5) False "2.prems" root by (auto simp: Let_def split: if_splits sum.splits prod.splits)
    next
      case regular
      then have "fs_get fs (root @ resolved @ [c]) = Some (Regular s)"
        using look by (auto split: if_splits simp: result_simps)
      moreover have "p = root @ resolved @ [c]"
        using regular False "2.prems" by (auto simp: Let_def split: if_splits)
      moreover have "allow" using regular False "2.prems" by (auto simp: Let_def split: if_splits)
      ultimately show ?thesis
        using "2.prems"(2) by (auto simp: resolved_ok_def strict_prefix_def butlast_append prefix_def)
    next
      case other
      then show ?thesis using False "2.prems" by (auto simp: Let_def)
    qed
  qed
qed

lemma resolve_components_root:
  assumes "sound_fs root fs" "plain fs (root @ resolved)"
    and "resolve_rootfs_components host fs root allow hops resolved pending = Inr p"
    and "fs_get fs root = Some Directory \<or> ''..'' \<notin> set pending \<and> resolved @ pending \<noteq> []"
  shows "p = root \<Longrightarrow> fs_get fs root = Some Directory"
  using assms
proof (induction host fs root allow hops resolved pending rule: resolve_rootfs_components.induct)
  case (1 host fs root allow hops resolved)
  then show ?case by simp
next
  case (2 host fs root allow hops resolved c pending)
  have wf: "fs_wf fs" using "2.prems"(2) by (simp add: sound_fs_def)
  note look = os_lstat_plain [OF wf "2.prems"(3), of host c, simplified]
  show ?case
  proof (cases "fs_get fs root = Some Directory")
    case False
    then have "fs_get fs (root @ resolved @ [c]) = None"
      using fs_wf_below [OF wf, of root "resolved @ [c]"] by fastforce
    moreover have "fs_get fs (root @ resolved) \<noteq> Some Directory"
      using False fs_wf_below [OF wf, of root resolved] by (cases "resolved = []") auto
    ultimately have miss: "os_lstat host fs (root @ resolved @ [c]) = Inl NotFound" using look by simp
    then have "plain fs ((root @ resolved) @ [c])"
      using look "2.prems"(3) plain_snoc [of fs "root @ resolved" c] \<open>fs_get fs (root @ resolved @ [c]) = None\<close> by simp
    then show ?thesis using "2.IH"(2) [OF _ refl refl miss] miss False "2.prems" by (auto simp: Let_def)
  qed simp
qed

lemma no_parent_names:
  assumes "\<not> not_relative path" "guest_path_components path = Inr (absolute, names)"
  shows "''..'' \<notin> set names" "path_file_name path \<noteq> None \<Longrightarrow> names \<noteq> []" "\<not> absolute"
proof -
  have n: "names = filter (\<lambda>n. n \<noteq> [] \<and> n \<noteq> ''.'') (split_on (CHR ''/'') path)"
      "absolute = path_is_absolute path"
    using assms(2) by (auto simp: guest_path_components_def Let_def split: if_splits)
  show "''..'' \<notin> set names"
    using assms(1) by (auto simp: n not_relative_def path_components_def path_component_def split: if_splits)
  show "\<not> absolute" using assms(1) by (simp add: n not_relative_def)
  show "names \<noteq> []" if "path_file_name path \<noteq> None"
    using that by (auto simp: n path_file_name_def path_components_def Let_def split: if_splits)
qed

lemma resolve_path_ok:
  assumes "sound_fs root fs" "resolve_rootfs_path host fs root path allow = Inr p"
  shows "resolved_ok allow fs root p"
  using assms resolve_components_ok [OF assms(1), of "[]" host allow 0] rooted_plain [OF assms(1)]
  by (auto simp: resolve_rootfs_path_def result_simps split: if_splits)

lemma resolve_file_ok:
  assumes "sound_fs root fs" "resolve_guest_file_path host fs root path = Inr p"
  shows "resolved_ok True fs root p" "p = root \<Longrightarrow> fs_get fs root = Some Directory"
proof -
  have rel: "\<not> not_relative path" "path_file_name path \<noteq> None" "resolve_rootfs_path host fs root path True = Inr p"
    using assms(2) by (auto simp: resolve_guest_file_path_def split: if_splits)
  then show "resolved_ok True fs root p" using resolve_path_ok [OF assms(1)] by blast
  obtain absolute names where g: "guest_path_components path = Inr (absolute, names)"
      "resolve_rootfs_components host fs root True 0 [] names = Inr p"
    using rel(3) by (auto simp: resolve_rootfs_path_def result_simps split: if_splits)
  show "fs_get fs root = Some Directory" if "p = root"
    using resolve_components_root [OF assms(1) _ g(2)] no_parent_names [OF rel(1) g(1)] rel(2) that
      rooted_plain [OF assms(1)] by simp
qed

lemma resolve_directory_ok:
  "sound_fs root fs \<Longrightarrow> resolve_guest_directory_path host fs root path = Inr p \<Longrightarrow> prefix root p \<and> plain fs p"
  using resolve_path_ok by (fastforce simp: resolve_guest_directory_path_def resolved_ok_def split: if_splits)

lemma resolve_entry_ok:
  assumes "sound_fs root fs" "resolve_guest_entry_path host fs root path = Inr p"
  obtains d n where "p = d @ [n]" "prefix root d" "plain fs d"
  using assms(2) resolve_directory_ok [OF assms(1)]
  by (auto simp: resolve_guest_entry_path_def result_simps split: if_splits option.splits)

section \<open>Operations stay below the root\<close>

named_theorems confined_intros \<open>operations that keep the host\<close>

lemma keeps_host_sound: "keeps_host root fs fs' \<Longrightarrow> sound_fs root fs'"
  by (simp add: keeps_host_def)

text \<open>
  The contract of a group of operations on the file system: what holds of it before and after each
  operation, and how an operation may change it. Steps are composed once for every such contract.
\<close>

locale confinement =
  fixes sound :: "filesys \<Rightarrow> bool" and keeps :: "filesys \<Rightarrow> filesys \<Rightarrow> bool"
  assumes keeps_refl: "sound fs \<Longrightarrow> keeps fs fs"
    and keeps_trans: "keeps fs fs' \<Longrightarrow> keeps fs' fs'' \<Longrightarrow> keeps fs fs''"
    and keeps_sound: "keeps fs fs' \<Longrightarrow> sound fs'"
begin

definition confined :: "(filesys \<Rightarrow> 'r \<times> filesys) \<Rightarrow> bool" where
  "confined op \<longleftrightarrow> (\<forall>fs. sound fs \<longrightarrow> keeps fs (snd (op fs)))"

definition confined_from :: "(filesys \<Rightarrow> bool) \<Rightarrow> (filesys \<Rightarrow> ('e + 'a) \<times> filesys) \<Rightarrow> (filesys \<Rightarrow> bool) \<Rightarrow> bool" where
  "confined_from pre op post \<longleftrightarrow>
     (\<forall>fs r fs'. sound fs \<longrightarrow> pre fs \<longrightarrow> op fs = (r, fs') \<longrightarrow> keeps fs fs' \<and> (\<not> isl r \<longrightarrow> post fs'))"

lemma confinedI: "(\<And>fs r fs'. sound fs \<Longrightarrow> op fs = (r, fs') \<Longrightarrow> keeps fs fs') \<Longrightarrow> confined op"
  unfolding confined_def by (metis prod.collapse)

lemma confinedD: "confined op \<Longrightarrow> sound fs \<Longrightarrow> op fs = (r, fs') \<Longrightarrow> keeps fs fs'"
  unfolding confined_def by fastforce

lemma confined_apply: "confined op \<Longrightarrow> sound fs \<Longrightarrow> keeps fs (snd (op fs))"
  by (simp add: confined_def)

lemma confined_fromI:
  "(\<And>fs r fs'. sound fs \<Longrightarrow> pre fs \<Longrightarrow> op fs = (r, fs') \<Longrightarrow> keeps fs fs' \<and> (\<not> isl r \<longrightarrow> post fs')) \<Longrightarrow>
     confined_from pre op post"
  by (simp add: confined_from_def)

lemma confined_fromD:
  "confined_from pre op post \<Longrightarrow> sound fs \<Longrightarrow> pre fs \<Longrightarrow> op fs = (r, fs') \<Longrightarrow> keeps fs fs'"
  by (simp add: confined_from_def)

lemma confined_from_steps_Nil: "confined_from pre (fs_steps []) pre"
  by (auto simp: confined_from_def keeps_refl)

lemma confined_from_steps_Cons:
  assumes "confined_from pre f mid" "confined_from mid (fs_steps steps) post"
  shows "confined_from pre (fs_steps (f # steps)) post"
proof (rule confined_fromI)
  fix fs r fs' assume s: "sound fs" "pre fs" "fs_steps (f # steps) fs = (r, fs')"
  obtain r1 fs1 where one: "f fs = (r1, fs1)" by fastforce
  then have k: "keeps fs fs1" "\<not> isl r1 \<Longrightarrow> mid fs1" using assms(1) s unfolding confined_from_def by blast+
  show "keeps fs fs' \<and> (\<not> isl r \<longrightarrow> post fs')"
  proof (cases r1)
    case (Inl e)
    then show ?thesis using s one k by auto
  next
    case (Inr x)
    then have "fs_steps steps fs1 = (r, fs')" "mid fs1" using s one k by auto
    then show ?thesis using assms(2) keeps_sound [OF k(1)] keeps_trans [OF k(1)] unfolding confined_from_def by blast
  qed
qed

lemma confined_from_steps:
  assumes "\<And>f. f \<in> set steps \<Longrightarrow> confined_from pre f pre"
  shows "confined_from pre (fs_steps steps) pre"
  using assms
proof (induction steps)
  case (Cons f steps)
  then show ?case by (intro confined_from_steps_Cons) auto
qed (rule confined_from_steps_Nil)

lemma confined_steps:
  assumes "list_all confined steps"
  shows "confined (fs_steps steps)"
proof -
  have "confined_from (\<lambda>_. True) (fs_steps steps) (\<lambda>_. True)"
    using assms by (intro confined_from_steps confined_fromI) (auto simp: list_all_iff dest: confinedD)
  then show ?thesis by (intro confinedI) (simp add: confined_from_def)
qed

end

interpretation host_kept: confinement "sound_fs root" "keeps_host root" for root
  by unfold_locales (auto intro: keeps_host_refl keeps_host_trans keeps_host_sound)

abbreviation confined :: "location \<Rightarrow> (filesys \<Rightarrow> 'r \<times> filesys) \<Rightarrow> bool" where
  "confined root \<equiv> confinement.confined (sound_fs root) (keeps_host root)"

abbreviation confined_from ::
    "location \<Rightarrow> (filesys \<Rightarrow> bool) \<Rightarrow> (filesys \<Rightarrow> ('e + 'a) \<times> filesys) \<Rightarrow> (filesys \<Rightarrow> bool) \<Rightarrow> bool" where
  "confined_from root \<equiv> confinement.confined_from (sound_fs root) (keeps_host root)"

lemma confined_remove [confined_intros]: "confined root (remove_guest_entry_no_follow host root path)"
proof (rule host_kept.confinedI)
  fix fs r fs' assume s: "sound_fs root fs" and op: "remove_guest_entry_no_follow host root path fs = (r, fs')"
  show "keeps_host root fs fs'"
  proof (cases "resolve_guest_entry_path host fs root path")
    case (Inl e)
    then show ?thesis using op keeps_host_refl [OF s] by (simp add: remove_guest_entry_no_follow_def)
  next
    case (Inr p)
    then obtain d n where p: "p = d @ [n]" "prefix root d" "plain fs d" using resolve_entry_ok [OF s] by blast
    have "keeps_host root fs fs2" if "os_remove_file host p fs = (r2, fs2)" for r2 fs2
      using os_remove_file_below [OF s p(3,2)] that p(1) by blast
    then show ?thesis
      using op Inr keeps_host_refl [OF s] unfolding remove_guest_entry_no_follow_def
      by (auto split: sum.splits inode.splits io_error.splits prod.splits)
  qed
qed

lemma remove_guest_entry_result:
  assumes "sound_fs root fs" "remove_guest_entry_no_follow host root path fs = (Inr p, fs')"
  obtains d n where "p = d @ [n]" "prefix root d" "plain fs' d" "fs_get fs' p = None"
proof -
  have r: "resolve_guest_entry_path host fs root path = Inr p"
    using assms(2) unfolding remove_guest_entry_no_follow_def
    by (auto split: sum.splits inode.splits io_error.splits prod.splits)
  then obtain d n where p: "p = d @ [n]" "prefix root d" "plain fs d" using resolve_entry_ok [OF assms(1)] by blast
  have wf: "fs_wf fs" using assms(1) by (simp add: sound_fs_def)
  consider "fs' = fs" "os_lstat host fs p = Inl NotFound" | "os_remove_file host p fs = (Inr (), fs')"
    using assms(2) r unfolding remove_guest_entry_no_follow_def
    by (auto split: sum.splits inode.splits io_error.splits prod.splits)
  then have "plain fs' d \<and> fs_get fs' p = None"
  proof cases
    case 1
    then show ?thesis using p os_lstat_plain [OF wf p(3), of host n] by (auto split: if_splits simp: result_simps)
  next
    case 2
    then have "plain fs' d" using p(3) os_remove_file_only [OF 2] unfolding plain_alt by metis
    moreover have "fs_get fs' p = None"
      using 2 p os_entry_plain [OF wf p(3), of n]
      by (auto simp: os_remove_file_def split: if_splits option.splits inode.splits)
    ultimately show ?thesis by blast
  qed
  then show thesis using that p by blast
qed

lemma confined_replace [confined_intros]: "confined root (replace_guest_file_no_follow host root path content)"
proof (rule host_kept.confinedI)
  fix fs r fs' assume s: "sound_fs root fs" and op: "replace_guest_file_no_follow host root path content fs = (r, fs')"
  obtain r1 fs1 where one: "remove_guest_entry_no_follow host root path fs = (r1, fs1)" by fastforce
  then have k1: "keeps_host root fs fs1" using host_kept.confinedD [OF confined_remove s] by blast
  note s1 = keeps_host_sound [OF k1]
  show "keeps_host root fs fs'"
  proof (cases r1)
    case (Inl e)
    then show ?thesis using op one k1 by (simp add: replace_guest_file_no_follow_def)
  next
    case (Inr p)
    then obtain d n where p: "p = d @ [n]" "prefix root d" "plain fs1 d"
      using one remove_guest_entry_result [OF s] by metis
    obtain r2 fs2 where two: "os_create_dir_all host d fs1 = (r2, fs2)" by fastforce
    note k2 = create_dir_all_below [OF s1 p(3,2) two]
    note k12 = keeps_host_trans [OF k1 k2(1)]
    have k3: "keeps_host root fs fs3" if "os_create_new host p content fs2 = (r3, fs3)" for r3 fs3
      using keeps_host_trans [OF k12 os_create_new_below [OF keeps_host_sound [OF k2(1)] only_adds_dirs_plain [OF k2(2) p(3)] p(2)]]
        that p(1) by blast
    show ?thesis
      using op one two Inr k12 k3 p(1) by (auto simp: replace_guest_file_no_follow_def split: sum.splits prod.splits)
  qed
qed

lemma confined_ensure [confined_intros]: "confined root (ensure_guest_directory host root path)"
proof (rule host_kept.confinedI)
  fix fs r fs' assume s: "sound_fs root fs" and op: "ensure_guest_directory host root path fs = (r, fs')"
  show "keeps_host root fs fs'"
  proof (cases "resolve_guest_directory_path host fs root path")
    case (Inl e)
    then show ?thesis using op keeps_host_refl [OF s] by (simp add: ensure_guest_directory_def)
  next
    case (Inr p)
    note k = create_dir_all_below(1) [OF s, of p]
    show ?thesis
      using op Inr k resolve_directory_ok [OF s Inr] by (simp add: ensure_guest_directory_def split: sum.splits prod.splits)
  qed
qed

lemma resolved_ok_parent:
  assumes "sound_fs root fs" "resolved_ok True fs root p" "p \<noteq> root"
  shows "prefix root (butlast p)" "plain fs (butlast p)" "direct fs p" "strict_prefix root p"
proof -
  have "prefix root p" using assms(2) by (simp add: resolved_ok_def)
  then show s: "strict_prefix root p" using assms(3) by simp
  then have ne: "p \<noteq> []" by auto
  show "prefix root (butlast p)" using s ne by (metis append_butlast_last_id prefix_snoc strict_prefix_def)
  show pl: "plain fs (butlast p)"
    using assms(2) plain_prefix prefixeq_butlast by (auto simp: resolved_ok_def)
  show "direct fs p"
    using assms(2) pl ne plain_direct [of fs p] by (auto simp: resolved_ok_def direct_def split: option.splits inode.splits)
qed

lemma write_at_root:
  assumes "sound_fs root fs" "fs_get fs root = Some Directory" "os_create_dir_all host (butlast root) fs = (r1, fs1)"
  shows "keeps_host root fs fs1 \<and> (\<forall>r2 fs2. os_write host root content fs1 = (r2, fs2) \<longrightarrow> keeps_host root fs fs2)"
proof -
  have all: "os_mkdirs host ps fs = (Inr (), fs)" if "\<And>q. q \<in> set ps \<Longrightarrow> prefix q root" for ps
    using that
  proof (induction ps)
    case (Cons q ps)
    have d: "fs_get fs q = Some Directory"
      using Cons.prems [of q] assms(1,2) above_root_dir [of root fs q] by (cases "q = root") auto
    then have "os_mkdir host q fs = (Inr (), fs)" using os_mkdir_existing assms(1) by (simp add: sound_fs_def)
    then show ?case using Cons by simp
  qed simp
  have "os_mkdirs host (prefixes (butlast root)) fs = (Inr (), fs)"
    by (rule all) (use prefix_order.trans [OF _ prefixeq_butlast [of root]] in auto)
  then have fs1: "fs1 = fs" using assms(3) by (simp add: os_create_dir_all_def)
  have "walk fs True MAXSYMLINKS [] (map Normal root) = Inr root"
    using assms(1,2) walk_path [of fs root True] plain_direct [OF rooted_plain [OF assms(1)]]
    by (cases "root = []") (auto simp: sound_fs_def)
  then show ?thesis using assms(2) keeps_host_refl [OF assms(1)] by (auto simp: fs1 os_write_def)
qed

lemma confined_write [confined_intros]: "confined root (write_guest_file host root path content)"
proof (rule host_kept.confinedI)
  fix fs r fs' assume s: "sound_fs root fs" and op: "write_guest_file host root path content fs = (r, fs')"
  show "keeps_host root fs fs'"
  proof (cases "resolve_guest_file_path host fs root path")
    case (Inl e)
    then show ?thesis using op keeps_host_refl [OF s] by (simp add: write_guest_file_def)
  next
    case (Inr p)
    note ok = resolve_file_ok [OF s Inr]
    obtain r1 fs1 where one: "os_create_dir_all host (butlast p) fs = (r1, fs1)" by fastforce
    have "keeps_host root fs fs1 \<and> (\<forall>r2 fs2. os_write host p content fs1 = (r2, fs2) \<longrightarrow> keeps_host root fs fs2)"
    proof (cases "p = root")
      case True
      then show ?thesis using write_at_root ok one s by blast
    next
      case False
      note q = resolved_ok_parent [OF s ok(1) False]
      note k = create_dir_all_below [OF s q(2,1) one]
      then show ?thesis
        using os_write_below [OF keeps_host_sound [OF k(1)] only_adds_dirs_direct [OF k(2) q(3)] q(4)]
          keeps_host_trans by blast
    qed
    then show ?thesis using op Inr one by (auto simp: write_guest_file_def split: sum.splits prod.splits)
  qed
qed

lemma confined_entries [confined_intros]: "confined root (ensure_entries host root path required)"
  by (rule host_kept.confinedI) (auto simp: ensure_entries_def keeps_host_refl split: sum.splits dest: host_kept.confinedD [OF confined_write])

lemma confined_essential [confined_intros]: "confined (rb_rootfs_path b) (create_essential_files host b)"
  unfolding create_essential_files_def Let_def ensure_passwd_entries_def ensure_group_entries_def
  by (rule host_kept.confined_steps) (auto intro!: confined_intros)

lemma guest_init_directory_ok:
  "sound_fs root fs \<Longrightarrow> guest_init_directory host root fs = Inr d \<Longrightarrow> prefix root d \<and> plain fs d"
  using resolve_directory_ok unfolding guest_init_directory_def
  by (auto simp: result_simps split: sum.splits io_error.splits if_splits)

lemma confined_from_mkdir:
  assumes "prefix root d"
  shows "confined_from root (\<lambda>fs. plain fs d)
    (\<lambda>fs. case os_create_dir_all host d fs of (Inl e, fs') \<Rightarrow> (Inl (g e), fs') | (Inr _, fs') \<Rightarrow> (Inr x, fs')) (\<lambda>fs. plain fs d)"
proof (rule host_kept.confined_fromI)
  fix fs r fs' assume s: "sound_fs root fs" "plain fs d"
    and op: "(case os_create_dir_all host d fs of (Inl e, fs') \<Rightarrow> (Inl (g e), fs') | (Inr _, fs') \<Rightarrow> (Inr x, fs')) = (r, fs')"
  obtain r1 where "os_create_dir_all host d fs = (r1, fs')" using op by (auto split: prod.splits sum.splits)
  note k = create_dir_all_below [OF s assms this]
  then show "keeps_host root fs fs' \<and> (\<not> isl r \<longrightarrow> plain fs' d)" using only_adds_dirs_plain [OF k(2) s(2)] by simp
qed

definition replaceable :: "host \<Rightarrow> filesys \<Rightarrow> location \<Rightarrow> bool" where
  "replaceable host fs p \<longleftrightarrow> plain fs (butlast p) \<and> (os_hidden host fs p \<or> fs_get fs p = None)"

lemma confined_from_clear:
  assumes "prefix root d"
  shows "confined_from root (\<lambda>fs. plain fs d)
    (\<lambda>fs. if os_exists fs (d @ [n]) \<or> \<not> isl (os_lstat host fs (d @ [n]))
       then (case os_remove_file host (d @ [n]) fs of (Inl e, fs') \<Rightarrow> (Inl (g e), fs') | (Inr _, fs') \<Rightarrow> (Inr x, fs'))
       else (Inr x, fs)) (\<lambda>fs. replaceable host fs (d @ [n]))"
proof (rule host_kept.confined_fromI)
  fix fs r fs'
  assume s: "sound_fs root fs" "plain fs d"
    and op: "(if os_exists fs (d @ [n]) \<or> \<not> isl (os_lstat host fs (d @ [n]))
       then (case os_remove_file host (d @ [n]) fs of (Inl e, fs') \<Rightarrow> (Inl (g e), fs') | (Inr _, fs') \<Rightarrow> (Inr x, fs'))
       else (Inr x, fs)) = (r, fs')"
  have wf: "fs_wf fs" using s by (simp add: sound_fs_def)
  note look = os_lstat_plain [OF wf s(2), of host n] os_entry_plain [OF wf s(2), of n]
  show "keeps_host root fs fs' \<and> (\<not> isl r \<longrightarrow> replaceable host fs' (d @ [n]))"
  proof (cases "os_exists fs (d @ [n]) \<or> \<not> isl (os_lstat host fs (d @ [n]))")
    case False
    then have "fs_get fs d = Some Directory \<and> refused host Lstat (d @ [n]) \<or> fs_get fs (d @ [n]) = None"
      using look by (cases "fs_get fs (d @ [n])") (auto split: if_splits)
    then have "replaceable host fs (d @ [n])" using s(2) look by (auto simp: replaceable_def os_hidden_def)
    then show ?thesis using op False keeps_host_refl [OF s(1)] by auto
  next
    case True
    obtain r1 where rm: "os_remove_file host (d @ [n]) fs = (r1, fs')" "isl r = isl r1"
      using op True by (auto split: prod.splits sum.splits)
    have "plain fs' d" using s(2) os_remove_file_only [OF rm(1)] unfolding plain_alt by metis
    moreover have "fs_get fs' (d @ [n]) = None" if "\<not> isl r1"
      using that rm(1) look by (auto simp: os_remove_file_def split: if_splits option.splits inode.splits)
    ultimately show ?thesis
      using os_remove_file_below [OF s assms rm(1)] rm(2) by (auto simp: replaceable_def)
  qed
qed

lemma confined_from_copy:
  assumes "prefix root d"
  shows "confined_from root (\<lambda>fs. replaceable host fs (d @ [n]))
    (\<lambda>fs. case os_copy host src (d @ [n]) fs of (Inl e, fs') \<Rightarrow> (Inl (g e), fs') | (Inr _, fs') \<Rightarrow> (Inr x, fs')) (\<lambda>_. True)"
proof (rule host_kept.confined_fromI)
  fix fs r fs'
  assume s: "sound_fs root fs" "replaceable host fs (d @ [n])"
    and op: "(case os_copy host src (d @ [n]) fs of (Inl e, fs') \<Rightarrow> (Inl (g e), fs') | (Inr _, fs') \<Rightarrow> (Inr x, fs')) = (r, fs')"
  obtain r1 where cp: "os_copy host src (d @ [n]) fs = (r1, fs')" using op by (auto split: prod.splits sum.splits)
  consider "fs' = fs" | content where "os_write host (d @ [n]) content fs = (r1, fs')"
    using cp by (auto simp: os_copy_def split: sum.splits)
  then show "keeps_host root fs fs' \<and> (\<not> isl r \<longrightarrow> True)"
  proof cases
    case 1
    then show ?thesis using keeps_host_refl [OF s(1)] by simp
  next
    case 2
    show ?thesis
    proof (cases "os_hidden host fs (d @ [n])")
      case True
      then show ?thesis using 2 keeps_host_refl [OF s(1)] by (auto simp: os_write_def)
    next
      case False
      then have "direct fs (d @ [n])" using s(2) by (simp add: replaceable_def direct_def)
      then show ?thesis using os_write_below [OF s(1) _ _ 2] assms by (auto simp: strict_prefix_def prefix_def)
    qed
  qed
qed

lemma confined_install [confined_intros]: "confined (rb_rootfs_path b) (install_guest_init host b)"
proof (rule host_kept.confinedI)
  let ?root = "rb_rootfs_path b"
  fix fs r fs' assume s: "sound_fs ?root fs" and op: "install_guest_init host b fs = (r, fs')"
  show "keeps_host ?root fs fs'"
  proof (cases "guest_init_directory host ?root fs")
    case (Inl e)
    then show ?thesis using op keeps_host_refl [OF s] by (auto simp: install_guest_init_def split: option.splits if_splits)
  next
    case (Inr d)
    note d = guest_init_directory_ok [OF s Inr]
    have last_step: "confined_from ?root (\<lambda>_. True)
      (\<lambda>fs. case os_chmod host fs p of Inl e \<Rightarrow> (Inl (g e), fs) | Inr _ \<Rightarrow> (Inr (), fs)) (\<lambda>_. True)" for p g
      by (rule host_kept.confined_fromI) (auto simp: keeps_host_refl split: sum.splits)
    note steps = host_kept.confined_from_steps_Cons [OF confined_from_mkdir [OF conjunct1 [OF d]]
      host_kept.confined_from_steps_Cons [OF confined_from_clear [OF conjunct1 [OF d]]
        host_kept.confined_from_steps_Cons [OF confined_from_copy [OF conjunct1 [OF d]]
          host_kept.confined_from_steps_Cons [OF last_step host_kept.confined_from_steps_Nil]]]]
    show ?thesis
      using op Inr d s keeps_host_refl [OF s] steps unfolding install_guest_init_def Let_def host_kept.confined_from_def
      by (simp split: option.splits if_splits)
  qed
qed

section \<open>The guest's own resolution\<close>

text \<open>The root file system as the guest sees it, and the names that a kernel path asks for.\<close>

definition fs_view :: "location \<Rightarrow> filesys \<Rightarrow> filesys" where
  "fs_view root fs = map (map_prod (drop (length root)) id) (filter (\<lambda>e. prefix root (fst e)) fs)"

definition asked_names :: "component list \<Rightarrow> string list" where
  "asked_names cs = map component_text (filter (\<lambda>c. c \<noteq> CurDir) cs)"

lemma fs_get_view [simp]: "fs_get (fs_view root fs) p = fs_get fs (root @ p)"
proof (induction fs)
  case (Cons e fs)
  then show ?case by (cases e; cases "prefix root (fst e)") (auto simp: fs_view_def elim!: prefixE)
qed (simp add: fs_view_def)

lemma os_components_asked:
  assumes "guest_path_components target = Inr (absolute, names)"
  obtains cs where "os_components target = (if absolute then RootDir # cs else cs)"
    "asked_names cs = names" "RootDir \<notin> set cs" "Normal ''..'' \<notin> set cs"
proof
  let ?cs = "map os_component (filter (\<lambda>n. n \<noteq> []) (split_on (CHR ''/'') target)) @
    (if target \<noteq> [] \<and> last target = CHR ''/'' then [CurDir] else [])"
  have n: "names = filter (\<lambda>n. n \<noteq> [] \<and> n \<noteq> ''.'') (split_on (CHR ''/'') target)"
      "absolute = path_is_absolute target"
    using assms by (auto simp: guest_path_components_def Let_def split: if_splits)
  show "os_components target = (if absolute then RootDir # ?cs else ?cs)" by (simp add: n os_components_def)
  have "map component_text (filter (\<lambda>c. c \<noteq> CurDir) (map os_component (filter (\<lambda>n. n \<noteq> []) ns))) =
      filter (\<lambda>n. n \<noteq> [] \<and> n \<noteq> ''.'') ns" for ns
    by (induction ns) (auto simp: os_component_def)
  then show "asked_names ?cs = names" by (simp add: n asked_names_def)
  show "RootDir \<notin> set ?cs" "Normal ''..'' \<notin> set ?cs" by (auto simp: os_component_def split: if_splits)
qed

lemma no_root_start:
  "RootDir \<notin> set cs \<Longrightarrow> (cur, cs) = (if cs \<noteq> [] \<and> hd cs = RootDir then ([], tl cs) else (cur, cs))"
  by (cases cs) auto

lemma link_start:
  assumes "os_components target = (if absolute then RootDir # ds else ds)" "RootDir \<notin> set (ds @ cs)"
  shows "(if absolute then [] else cur, ds @ cs) =
    (if os_components target @ cs \<noteq> [] \<and> hd (os_components target @ cs) = RootDir
     then ([], tl (os_components target @ cs)) else (cur, os_components target @ cs))"
  using assms no_root_start [of "ds @ cs" cur] by auto

lemma resolver_link_step:
  assumes "resolve_rootfs_components host fs root allow hops cur (name # asked_names cs) = Inr p" "name \<noteq> ''..''"
    and "os_lstat host fs (root @ cur @ [name]) = Inr (Symlink target)"
  obtains absolute ds where "os_components target = (if absolute then RootDir # ds else ds)"
    "RootDir \<notin> set ds" "Normal ''..'' \<notin> set ds"
    "resolve_rootfs_components host fs root allow (hops + 1) (if absolute then [] else cur) (asked_names (ds @ cs)) = Inr p"
proof -
  obtain absolute names where target: "guest_path_components target = Inr (absolute, names)"
    and rest: "resolve_rootfs_components host fs root allow (hops + 1) (if absolute then [] else cur)
      (names @ asked_names cs) = Inr p"
    using assms by (auto simp: Let_def split: if_splits sum.splits)
  obtain ds where ds: "os_components target = (if absolute then RootDir # ds else ds)"
      "asked_names ds = names" "RootDir \<notin> set ds" "Normal ''..'' \<notin> set ds"
    using os_components_asked [OF target] by blast
  then show thesis using that rest by (simp add: asked_names_def)
qed

lemma walk_resolver:
  assumes "walk view create n cur cs = Inr q" "view = fs_view root fs" "sound_fs root fs" "n + hops = MAX_SYMLINK_HOPS"
    and "(pos, todo) = (if cs \<noteq> [] \<and> hd cs = RootDir then ([], tl cs) else (cur, cs))"
    and "RootDir \<notin> set todo" "Normal ''..'' \<notin> set todo"
    and "resolve_rootfs_components host fs root allow hops pos (asked_names todo) = Inr p"
  shows "p = root @ q"
  using assms
proof (induction view create n cur cs arbitrary: hops pos todo rule: walk.induct)
  case (1 view create n cur)
  then show ?case by (simp add: asked_names_def)
next
  case (2 view create n cur c cs)
  have view: "fs_get view r = fs_get fs (root @ r)" for r by (simp add: "2.prems"(2))
  have dir: "fs_get view cur = Some Directory" using "2.prems"(1) by (auto split: if_splits)
  have wf: "fs_wf fs" using "2.prems"(3) by (simp add: sound_fs_def)
  note look = os_lstat_plain [OF wf plain_dir [OF wf dir [unfolded view]], simplified]
  have next_start: "(pos', cs) = (if cs \<noteq> [] \<and> hd cs = RootDir then ([], tl cs) else (pos', cs))" for pos' :: location
    by (rule no_root_start) (use "2.prems"(5,6) in \<open>auto split: if_splits\<close>)
  show ?case
  proof (cases c)
    case RootDir
    then show ?thesis using "2.IH"(1) [OF _ _ _ "2.prems"(2,3,4) next_start] dir "2.prems" by (auto split: if_splits)
  next
    case CurDir
    then show ?thesis
      using "2.IH"(2) [OF _ _ _ "2.prems"(2,3,4) next_start] dir "2.prems" by (auto simp: asked_names_def)
  next
    case ParentDir
    then show ?thesis
      using "2.IH"(3) [OF _ _ _ "2.prems"(2,3,4) next_start] dir "2.prems" by (auto simp: asked_names_def split: if_splits)
  next
    case (Normal name)
    then have todo: "pos = cur" "todo = Normal name # cs" "name \<noteq> ''..''" using "2.prems"(5,7) by auto
    have res: "resolve_rootfs_components host fs root allow hops cur (name # asked_names cs) = Inr p"
      using "2.prems"(8) by (simp add: todo asked_names_def)
    have seen: "os_lstat host fs (root @ cur @ [name]) = ok_or NotFound (fs_get view (cur @ [name]))"
      using res look [of host name] todo(3) by (auto simp: Let_def view split: if_splits)
    show ?thesis
    proof (cases "fs_get view (cur @ [name])")
      case None
      then show ?thesis
        using res seen dir "2.prems"(1) todo(3) by (auto simp: Normal Let_def asked_names_def split: if_splits)
    next
      case (Some i)
      show ?thesis
      proof (cases i)
        case Directory
        then show ?thesis
          using "2.IH"(4) [OF _ Normal Some _ _ "2.prems"(2,3,4) next_start] dir res seen Some "2.prems"(1,6,7) todo
          by (auto simp: Normal Let_def split: if_splits)
      next
        case (Regular content)
        then show ?thesis
          using "2.IH"(5) [OF _ Normal Some _ _ "2.prems"(2,3,4) next_start] dir res seen Some "2.prems"(1,6,7) todo
          by (auto simp: Normal Let_def split: if_splits)
      next
        case (Symlink target)
        then obtain absolute ds where ds: "os_components target = (if absolute then RootDir # ds else ds)"
            "RootDir \<notin> set ds" "Normal ''..'' \<notin> set ds"
          and rest: "resolve_rootfs_components host fs root allow (hops + 1) (if absolute then [] else cur)
            (asked_names (ds @ cs)) = Inr p"
          using resolver_link_step [OF res todo(3)] seen Some by auto
        have walked: "walk view create (n - 1) cur (os_components target @ cs) = Inr q" "n \<noteq> 0"
          using "2.prems"(1) dir Some Symlink by (auto simp: Normal split: if_splits)
        have "RootDir \<notin> set (ds @ cs)" using ds(2) "2.prems"(6) todo by auto
        note start = link_start [OF ds(1) this, of cur]
        have hops': "n - 1 + (hops + 1) = MAX_SYMLINK_HOPS" using "2.prems"(4) walked(2) by simp
        show ?thesis
          using "2.IH"(6) [OF _ Normal Some Symlink walked(2,1) "2.prems"(2,3) hops' start] dir rest ds(2,3)
            "2.prems"(6,7) todo by auto
      next
        case Special
        then show ?thesis using res seen Some todo(3) by (auto simp: Let_def)
      qed
    qed
  qed
qed

section \<open>Results on a calm host\<close>

definition calm :: host where
  "calm call l = None"

lemma not_refused_calm [simp]: "\<not> refused calm call l" "\<not> os_hidden calm fs p"
  by (auto simp: refused_def calm_def os_hidden_def split: sum.split)

lemma os_mkdirs_append:
  "os_mkdirs host (ps @ qs) fs =
     (case os_mkdirs host ps fs of (Inl e, fs') \<Rightarrow> (Inl e, fs') | (Inr _, fs') \<Rightarrow> os_mkdirs host qs fs')"
  by (induction ps arbitrary: fs) (auto split: prod.splits sum.splits)

lemma create_dir_all_calm:
  assumes "sound_fs root fs" "plain fs p" "prefix root p"
  shows "\<exists>fs'. os_create_dir_all calm p fs = (Inr (), fs')"
proof -
  have "\<exists>fs'. os_mkdirs calm (prefixes q) fs = (Inr (), fs')" if "prefix q p" for q
    using that
  proof (induction q rule: rev_induct)
    case Nil
    then show ?case using os_mkdir_existing [of fs "[]" calm] assms(1) by (simp add: sound_fs_def)
  next
    case (snoc n q)
    have q: "prefix q p" using snoc.prems by (metis append_prefixD)
    then obtain fs1 where one: "os_mkdirs calm (prefixes q) fs = (Inr (), fs1)" using snoc.IH by blast
    have k: "keeps_host root fs fs1" "only_adds_dirs fs fs1" "fs_get fs1 q = Some Directory"
      using os_mkdirs_below [OF assms(1,2) _ assms(3) one] q prefix_order.trans by (auto simp: list_all_iff)
    have wf: "fs_wf fs1" using k(1) by (simp add: keeps_host_def sound_fs_def)
    have "plain fs1 (q @ [n])" using only_adds_dirs_plain [OF k(2) plain_prefix [OF assms(2) snoc.prems]] .
    then consider "fs_get fs1 (q @ [n]) = None" | "fs_get fs1 (q @ [n]) = Some Directory" by auto
    then have "\<exists>fs'. os_mkdir calm (q @ [n]) fs1 = (Inr (), fs')"
      using os_mkdir_existing [OF wf, of "q @ [n]" calm] os_entry_plain [OF wf plain_dir [OF wf k(3)], of n] k(3)
      by cases (auto simp: os_mkdir_def)
    then show ?case using one by (auto simp: os_mkdirs_append)
  qed
  then show ?thesis by (simp add: os_create_dir_all_def)
qed

lemma os_write_calm:
  assumes "fs_wf fs" "direct fs p" "fs_get fs (butlast p) = Some Directory"
    and "case fs_get fs p of None \<Rightarrow> True | Some (Regular _) \<Rightarrow> True | _ \<Rightarrow> False"
  shows "os_write calm p content fs = (Inr (), fs_put p (Regular content) fs)"
  using assms walk_path [OF assms(1,2), of True MAXSYMLINKS]
  by (auto simp: os_write_def os_fill_def calm_def split: option.splits inode.splits)

lemma write_guest_file_calm:
  assumes "sound_fs root fs" "resolve_guest_file_path calm fs root path = Inr p" "p \<noteq> root"
    and "fs_get fs p \<noteq> Some Directory"
  shows "\<exists>fs'. write_guest_file calm root path content fs = (Inr p, fs') \<and> fs_get fs' p = Some (Regular content) \<and>
    (\<forall>q. q \<noteq> p \<longrightarrow> fs_get fs' q = fs_get fs q \<or> fs_get fs q = None \<and> fs_get fs' q = Some Directory)"
proof -
  note ok = resolve_file_ok(1) [OF assms(1,2)]
  note q = resolved_ok_parent [OF assms(1) ok assms(3)]
  obtain fs1 where one: "os_create_dir_all calm (butlast p) fs = (Inr (), fs1)"
    using create_dir_all_calm [OF assms(1) q(2,1)] by blast
  note k = create_dir_all_below [OF assms(1) q(2,1) one]
  have wf: "fs_wf fs1" using k(1) by (simp add: keeps_host_def sound_fs_def)
  have "fs_get fs1 p = fs_get fs p" using k(4) [of p] q(3) not_prefix_butlast [of p] by (simp add: direct_def)
  moreover have "case fs_get fs p of None \<Rightarrow> True | Some (Regular _) \<Rightarrow> True | _ \<Rightarrow> False"
    using ok assms(4) by (auto simp: resolved_ok_def plain_alt split: option.splits inode.splits)
  ultimately have written: "os_write calm p content fs1 = (Inr (), fs_put p (Regular content) fs1)"
    using os_write_calm [OF wf only_adds_dirs_direct [OF k(2) q(3)] k(3)] by simp
  have "direct (fs_put p (Regular content) fs1) p"
    using only_adds_dirs_direct [OF k(2) q(3)] not_prefix_butlast [of p] by (auto simp: direct_def plain_alt)
  moreover have "fs_wf (fs_put p (Regular content) fs1)"
    using wf k(3) q(3) \<open>fs_get fs1 p = fs_get fs p\<close> assms(4) by (intro fs_wf_put) (auto simp: direct_def)
  ultimately have "os_chmod calm (fs_put p (Regular content) fs1) p = Inr ()"
    using walk_path by (simp add: os_chmod_def os_canonicalize_def)
  then have "write_guest_file calm root path content fs = (Inr p, fs_put p (Regular content) fs1)"
    using assms(2) one written by (simp add: write_guest_file_def)
  then show ?thesis using k(2) by (auto simp: only_adds_dirs_def)
qed

section \<open>Accounts\<close>

lemma split_on_append: "split_on d (a @ d # b) = split_on d a @ split_on d b"
  by (induction a) (auto split: list.splits)

lemma str_lines_append: "str_lines ((a @ [CHR 0x0A]) @ b) = map strip_cr (split_on (CHR 0x0A) a) @ str_lines b"
  using split_on_append [of "CHR 0x0A" a b] by (simp add: str_lines_def Let_def butlast_append)

lemma str_lines_last: "nl = CHR 0x0A \<Longrightarrow> nl \<notin> set s \<Longrightarrow> str_lines (s @ [nl]) = [strip_cr s]"
  using str_lines_append [of s "[]"] split_on_no_sep [of nl s] by (simp add: str_lines_def Let_def)

definition ended :: "string \<Rightarrow> string" where
  "ended s = (if s \<noteq> [] \<and> last s \<noteq> CHR 0x0A then s @ [CHR 0x0A] else s)"

lemma with_entries_alt:
  "with_entries existing required =
     ended existing @ concat (map (\<lambda>(n, e). if has_entry existing n then [] else e @ [CHR 0x0A]) required)"
proof -
  have "foldl (\<lambda>content (name, entry). if has_entry existing name then content else content @ entry @ [CHR 0x0A]) acc req =
      acc @ concat (map (\<lambda>(n, e). if has_entry existing n then [] else e @ [CHR 0x0A]) req)" for acc req
    by (induction req arbitrary: acc) auto
  then show ?thesis by (simp add: with_entries_def ended_def)
qed

lemma str_lines_ended: "str_lines (ended s @ b) = str_lines (ended s) @ str_lines b"
proof (cases "s = []")
  case False
  then obtain a where "ended s = a @ [CHR 0x0A]" by (auto simp: ended_def) (metis append_butlast_last_id)
  then show ?thesis using str_lines_append [of a b] str_lines_append [of a "[]"] by (simp add: str_lines_def Let_def)
qed (simp add: ended_def str_lines_def)

lemma first_field_strip_cr:
  assumes "CHR 0x0D \<notin> set (hd (split_on (CHR '':'') s))"
  shows "hd (split_on (CHR '':'') (strip_cr s)) = hd (split_on (CHR '':'') s)"
proof (cases "split_once (CHR '':'') s")
  case None
  then have "split_on (CHR '':'') s = [s]" by (simp add: split_on_no_sep split_once_None_iff)
  then show ?thesis using assms by (auto simp: strip_cr_def dest: last_in_set)
next
  case (Some ab)
  then obtain a b where s: "s = a @ CHR '':'' # b" "CHR '':'' \<notin> set a" using split_once_SomeD by (cases ab) blast
  have "\<exists>b'. strip_cr s = a @ CHR '':'' # b'" using s(1) by (auto simp: strip_cr_def butlast_append)
  then show ?thesis using s by (auto simp: split_on_append_sep)
qed

lemma has_entry_ended:
  assumes "has_entry s n" "CHR 0x0D \<notin> set n"
  shows "has_entry (ended s) n"
proof (cases "s \<noteq> [] \<and> last s \<noteq> CHR 0x0A")
  case True
  let ?ps = "split_on (CHR 0x0A) s"
  have lines: "str_lines (ended s) = map strip_cr ?ps"
    using str_lines_append [of s "[]"] True by (simp add: ended_def str_lines_def Let_def)
  obtain l where l: "l \<in> set (str_lines s)" "hd (split_on (CHR '':'') l) = n"
    using assms(1) by (auto simp: has_entry_def list_ex_iff)
  have "l \<in> strip_cr ` set ?ps \<or> l \<in> set ?ps"
    using l(1) by (auto simp: str_lines_def Let_def split: if_splits dest: in_set_butlastD)
  then have "\<exists>l' \<in> set (map strip_cr ?ps). hd (split_on (CHR '':'') l') = n"
    using l(2) first_field_strip_cr [of l] assms(2) by auto
  then show ?thesis by (simp add: has_entry_def list_ex_iff lines)
qed (use assms(1) in \<open>auto simp: ended_def\<close>)

definition account_entry :: "string \<times> string \<Rightarrow> bool" where
  "account_entry ne \<longleftrightarrow>
     hd (split_on (CHR '':'') (snd ne)) = fst ne \<and> CHR 0x0A \<notin> set (snd ne) \<and> CHR 0x0D \<notin> set (snd ne) \<and> CHR 0x0D \<notin> set (fst ne)"

lemma str_lines_entries:
  assumes "list_all account_entry required" "(n, e) \<in> set required" "\<not> has_entry s n"
  shows "e \<in> set (str_lines (concat (map (\<lambda>(n, e). if has_entry s n then [] else e @ [CHR 0x0A]) required)))"
  using assms
proof (induction required)
  case (Cons x required)
  obtain m f where x: "x = (m, f)" by (cases x)
  let ?rest = "concat (map (\<lambda>(n, e). if has_entry s n then [] else e @ [CHR 0x0A]) required)"
  have f: "strip_cr f = f" "CHR 0x0A \<notin> set f"
    using Cons.prems(1) x by (auto simp: account_entry_def strip_cr_def dest: last_in_set)
  then have "str_lines ((f @ [CHR 0x0A]) @ ?rest) = f # str_lines ?rest"
    using str_lines_append [of f ?rest] split_on_no_sep [of "CHR 0x0A" f] by simp
  then show ?case using Cons x by auto
qed simp

lemma with_entries_complete:
  assumes "list_all account_entry required"
  shows "prefix s (with_entries s required) \<and> list_all (\<lambda>(n, _). has_entry (with_entries s required) n) required"
proof
  show "prefix s (with_entries s required)" by (auto simp: with_entries_alt ended_def prefix_def)
  have "has_entry (with_entries s required) n" if ne: "(n, e) \<in> set required" for n e
  proof (cases "has_entry s n")
    case True
    have "CHR 0x0D \<notin> set n" using assms ne by (auto simp: list_all_iff account_entry_def)
    then have "has_entry (ended s) n" using has_entry_ended True by blast
    then show ?thesis by (simp add: with_entries_alt has_entry_def str_lines_ended)
  next
    case False
    have "hd (split_on (CHR '':'') e) = n" using assms ne by (auto simp: list_all_iff account_entry_def)
    then show ?thesis
      using str_lines_entries [OF assms ne False] by (auto simp: with_entries_alt has_entry_def str_lines_ended list_ex_iff)
  qed
  then show "list_all (\<lambda>(n, _). has_entry (with_entries s required) n) required" by (auto simp: list_all_iff)
qed

lemma read_resolved:
  assumes "sound_fs root fs" "resolve_guest_file_path calm fs root path = Inr p" "fs_get fs p = Some (Regular content)"
  shows "os_read calm fs p = Inr content" "p \<noteq> root"
proof -
  show ne: "p \<noteq> root" using assms(1,3) by (auto simp: sound_fs_def rooted_def)
  note q = resolved_ok_parent [OF assms(1) resolve_file_ok(1) [OF assms(1,2)] ne]
  show "os_read calm fs p = Inr content"
    using walk_path [OF _ q(3), of False MAXSYMLINKS] assms(1,3)
    by (simp add: os_read_def os_canonicalize_def sound_fs_def)
qed

section \<open>Theorems\<close>

text \<open>
  C16: Whatever links an image has put into its root file system, the host's operations on guest
  files change nothing outside it, on every outcome: writing a file, replacing and removing an
  entry, creating a directory, installing the guest's init and writing the essential files.\<close>

theorem guest_files_confined:
  assumes "sound_fs (rb_rootfs_path b) fs"
  shows "keeps_host (rb_rootfs_path b) fs (snd (write_guest_file host (rb_rootfs_path b) path content fs)) \<and>
    keeps_host (rb_rootfs_path b) fs (snd (replace_guest_file_no_follow host (rb_rootfs_path b) path content fs)) \<and>
    keeps_host (rb_rootfs_path b) fs (snd (remove_guest_entry_no_follow host (rb_rootfs_path b) path fs)) \<and>
    keeps_host (rb_rootfs_path b) fs (snd (ensure_guest_directory host (rb_rootfs_path b) path fs)) \<and>
    keeps_host (rb_rootfs_path b) fs (snd (install_guest_init host b fs)) \<and>
    keeps_host (rb_rootfs_path b) fs (snd (create_essential_files host b fs))"
  by (intro conjI host_kept.confined_apply [OF _ assms] confined_intros)



text \<open>An image whose \<open>/etc\<close> is a link to an absolute path, and whose \<open>/sbin\<close> leads out of the root file system.\<close>

definition linked_image :: filesys where
  "linked_image =
     [([], Directory), ([''r''], Directory), ([''r'', ''etc''], Symlink ''/usr/etc''), ([''r'', ''usr''], Directory),
      ([''r'', ''usr'', ''etc''], Directory), ([''r'', ''usr'', ''etc'', ''passwd''], Regular [CHR 0xE9]),
      ([''r'', ''sbin''], Symlink ''../tmp''), ([''tmp''], Directory)]"

theorem guest_files_confined_witness:
  "sound_fs [''r''] linked_image \<and>
   keeps_host [''r''] linked_image
     (snd (write_guest_file calm [''r''] ''etc/hosts'' ''127.0.0.1'' linked_image))"
  using guest_files_confined [of "rootfs_builder_new [''r'']" linked_image calm "''etc/hosts''" "''127.0.0.1''"]
  by (simp add: rootfs_builder_new_def linked_image_def sound_fs_def fs_wf_def rooted_def)



end
