(* ===== verification/Oci_Layers.thy ===== *)
theory Oci_Layers
  imports Guest_Confinement "HOL-Library.List_Lexorder" "HOL-Library.Char_ord"
begin

text \<open>
  Extraction of image layers: \<open>runtime/src/oci/layers.rs\<close>, and the builder of
  \<open>runtime/src/oci/rootfs.rs\<close> that runs it. A layer is a tar archive of an untrusted image. Entries
  whose names start with \<open>.wh.\<close> delete what lower layers have put there; other entries are unpacked by
  the \<open>tar\<close> crate, which is the parameter \<open>unpack\<close>. Ownership from the headers is kept in a
  manifest file in the root file system.

  Opening and decompressing a layer answers an error or the list of what the archive iterator yields.
  Base64 and JSON (the record \<open>codec\<close>) are parameters, as are mode, time and size that \<open>lstat\<close>
  reports (\<open>attributes\<close>).
\<close>

section \<open>Metadata manifests\<close>

definition ROOTFS_METADATA_PATH :: string where
  "ROOTFS_METADATA_PATH = ''/.a3s_rootfs_metadata_v1.json''"

definition ROOTFS_METADATA_TEMP_PATH :: string where
  "ROOTFS_METADATA_TEMP_PATH = ''/.a3s_rootfs_metadata_v1.json.tmp''"

definition PREVIOUS_ROOTFS_METADATA_PATH :: string where
  "PREVIOUS_ROOTFS_METADATA_PATH = ''/.a3s_rootfs_metadata_v1.previous.json''"

definition IMAGE_ROOTFS_METADATA_PATH :: string where
  "IMAGE_ROOTFS_METADATA_PATH = ''/.a3s_image_metadata_v1.json''"

definition IMAGE_ROOTFS_METADATA_TEMP_PATH :: string where
  "IMAGE_ROOTFS_METADATA_TEMP_PATH = ''/.a3s_image_metadata_v1.json.tmp''"

definition ROOTFS_METADATA_SCHEMA :: string where
  "ROOTFS_METADATA_SCHEMA = ''a3s.box.rootfs-metadata.v1''"

definition RUNTIME_EXEC_CONFIG_PATH :: string where
  "RUNTIME_EXEC_CONFIG_PATH = ''/.a3s-box-exec.json''"

definition trim_start_slash :: "string \<Rightarrow> string" where
  "trim_start_slash s = dropWhile (\<lambda>c. c = CHR ''/'') s"

text \<open>Files of the runtime in a root file system, and the modes of those it rewrites for a launch.\<close>

definition internal_names :: "string list" where
  "internal_names =
     [''.a3s_rootfs_metadata_v1.json'', ''.a3s_rootfs_metadata_v1.json.tmp'', ''.a3s_rootfs_metadata_v1.previous.json'',
      ''.a3s_image_metadata_v1.json'', ''.a3s_image_metadata_v1.json.tmp'', ''.a3s_exit_code'',
      ''.a3s_host_live_logs_drained'', ''.a3s_host_result_collected'', ''init-rust.log'', ''init.krun.log'',
      ''init.trace.log'', ''guest-init.stdout.log'', ''guest-init.stderr.log'']"

definition is_runtime_internal_rootfs_path :: "string \<Rightarrow> bool" where
  "is_runtime_internal_rootfs_path path =
     (case filter (\<lambda>c. c \<noteq> CurDir) (path_components path) of
        [Normal name] \<Rightarrow> is_utf8 name \<and> (name = trim_start_slash RUNTIME_EXEC_CONFIG_PATH \<or> name \<in> set internal_names)
      | _ \<Rightarrow> False)"

definition runtime_managed_rootfs_mode :: "string \<Rightarrow> u32 option" where
  "runtime_managed_rootfs_mode path =
     (if path \<in> {''etc/hostname'', ''etc/hosts'', ''etc/resolv.conf''} then Some 420
      else if path \<in> {''sbin/init'', ''usr/sbin/init''} then Some 493
      else if path = ''.a3s-box-env'' \<or> path = trim_start_slash RUNTIME_EXEC_CONFIG_PATH then Some 384
      else None)"

datatype rootfs_entry_kind = KDirectory | KRegular | KSymlink

record rootfs_metadata_entry =
  rme_path_base64 :: string
  rme_kind :: rootfs_entry_kind
  rme_mode :: u32
  rme_uid :: u64
  rme_gid :: u64
  rme_mtime :: u64
  rme_size :: u64
  rme_link_target_base64 :: "string option"

record rootfs_metadata_manifest =
  rmm_schema :: string
  rmm_entries :: "rootfs_metadata_entry list"

definition manifest_new :: "rootfs_metadata_entry list \<Rightarrow> rootfs_metadata_manifest" where
  "manifest_new entries = \<lparr> rmm_schema = ROOTFS_METADATA_SCHEMA, rmm_entries = entries \<rparr>"

definition manifest_validate :: "rootfs_metadata_manifest \<Rightarrow> string + unit" where
  "manifest_validate m =
     (if rmm_schema m \<noteq> ROOTFS_METADATA_SCHEMA
      then Inl (''unsupported rootfs metadata schema: '' @ rmm_schema m) else Inr ())"

record codec =
  b64_encode :: "string \<Rightarrow> string"
  b64_decode :: "string \<Rightarrow> string + string"
  json_encode :: "rootfs_metadata_manifest \<Rightarrow> string"
  json_decode :: "string \<Rightarrow> string + rootfs_metadata_manifest"

text \<open>A relative path without dots is the list of its names; the maps below are keyed by it.\<close>

type_synonym metadata = "(string list \<times> rootfs_metadata_entry) list"

fun normalize_components :: "component list \<Rightarrow> string list option" where
  "normalize_components [] = Some []"
| "normalize_components (CurDir # cs) = normalize_components cs"
| "normalize_components (Normal n # cs) = map_option (Cons n) (normalize_components cs)"
| "normalize_components (_ # cs) = None"

definition normalize_layer_path :: "string \<Rightarrow> string list option" where
  "normalize_layer_path path = normalize_components (path_components path)"

definition reserved_metadata_path :: "string list \<Rightarrow> string option" where
  "reserved_metadata_path path =
     find (\<lambda>r. prefix [trim_start_slash r] path)
       [IMAGE_ROOTFS_METADATA_PATH, ROOTFS_METADATA_PATH, PREVIOUS_ROOTFS_METADATA_PATH,
        IMAGE_ROOTFS_METADATA_TEMP_PATH, ROOTFS_METADATA_TEMP_PATH]"

text \<open>What a layer may not touch is never part of a commit or a snapshot.\<close>

lemma reserved_is_internal:
  assumes "reserved_metadata_path [name] = Some reserved"
  shows "is_runtime_internal_rootfs_path name"
proof -
  let ?reserved = "map trim_start_slash [IMAGE_ROOTFS_METADATA_PATH, ROOTFS_METADATA_PATH,
    PREVIOUS_ROOTFS_METADATA_PATH, IMAGE_ROOTFS_METADATA_TEMP_PATH, ROOTFS_METADATA_TEMP_PATH]"
  have "list_all is_runtime_internal_rootfs_path ?reserved" by code_simp
  moreover have "name \<in> set ?reserved"
    using assms unfolding reserved_metadata_path_def by (auto simp: find_Some_iff nth_Cons' split: if_splits)
  ultimately show ?thesis by (metis list_all_iff)
qed

definition archive_metadata_path_bytes :: "string list \<Rightarrow> string" where
  "archive_metadata_path_bytes path = ''.'' @ concat (map (\<lambda>n. ''/'' @ n) path)"

definition remove_metadata_descendants :: "string list \<Rightarrow> bool \<Rightarrow> metadata \<Rightarrow> metadata" where
  "remove_metadata_descendants path include_path metadata =
     filter (\<lambda>(candidate, _). \<not> (prefix path candidate \<and> (include_path \<or> candidate \<noteq> path))) metadata"

definition metadata_insert :: "string list \<Rightarrow> rootfs_metadata_entry \<Rightarrow> metadata \<Rightarrow> metadata" where
  "metadata_insert path entry metadata = (path, entry) # filter (\<lambda>(k, _). k \<noteq> path) metadata"

primrec load_entries :: "codec \<Rightarrow> rootfs_metadata_entry list \<Rightarrow> metadata \<Rightarrow> box_error + metadata" where
  "load_entries c [] result = Inr result"
| "load_entries c (entry # entries) result =
     (case b64_decode c (rme_path_base64 entry) of
        Inl e \<Rightarrow> Inl (OciImageError (''Invalid metadata path: '' @ e))
      | Inr raw \<Rightarrow>
          (case normalize_layer_path raw of
             None \<Rightarrow> Inl (OciImageError ''Unsafe path in image metadata'')
           | Some relative \<Rightarrow>
               if reserved_metadata_path relative \<noteq> None \<or> map_of result relative \<noteq> None
               then Inl (OciImageError ''Duplicate or reserved path in image metadata'')
               else load_entries c entries (metadata_insert relative entry result)))"

definition load_image_metadata :: "host \<Rightarrow> codec \<Rightarrow> location \<Rightarrow> filesys \<Rightarrow> box_error + metadata" where
  "load_image_metadata host c target_dir fs =
     rbind (resolve_guest_file_path host fs target_dir (trim_start_slash IMAGE_ROOTFS_METADATA_PATH)) (\<lambda>path.
       case os_read host fs path of
         Inl NotFound \<Rightarrow> Inr []
       | Inl (IoError e) \<Rightarrow> Inl (OciImageError (''Failed to read image metadata '' @ show_path path @ '': '' @ e))
       | Inr bytes \<Rightarrow>
           (case json_decode c bytes of
              Inl e \<Rightarrow> Inl (OciImageError (''Invalid image metadata '' @ show_path path @ '': '' @ e))
            | Inr manifest \<Rightarrow>
                (case manifest_validate manifest of
                   Inl e \<Rightarrow> Inl (OciImageError e)
                 | Inr _ \<Rightarrow> load_entries c (rmm_entries manifest) [])))"

definition decode_metadata_key :: "codec \<Rightarrow> rootfs_metadata_entry \<Rightarrow> string list option" where
  "decode_metadata_key c entry =
     (case b64_decode c (rme_path_base64 entry) of Inl _ \<Rightarrow> None | Inr raw \<Rightarrow> normalize_layer_path raw)"

text \<open>
  The walk over the extracted tree. \<open>attributes\<close> is what \<open>lstat\<close> reports: mode, time, size. Each level
  of directories takes one unit of \<open>depth\<close>, so the length of the longest location is enough.
\<close>

type_synonym attributes = "location \<Rightarrow> u32 \<times> int \<times> u64"

definition os_read_dir :: "host \<Rightarrow> filesys \<Rightarrow> string list \<Rightarrow> io_error + string list" where
  "os_read_dir host fs p =
     rbind (os_canonicalize fs (map Normal p)) (\<lambda>l.
       if fs_get fs l \<noteq> Some Directory then Inl (IoError ''Not a directory'')
       else if refused host ReadDir l then Inl (IoError ''Permission denied'')
       else Inr (remdups (map last (filter (\<lambda>q. q \<noteq> [] \<and> butlast q = l) (map fst fs)))))"

definition final_entry ::
    "codec \<Rightarrow> attributes \<Rightarrow> location \<Rightarrow> string list \<Rightarrow> rootfs_metadata_entry option \<Rightarrow> rootfs_entry_kind \<Rightarrow>
     string option \<Rightarrow> rootfs_metadata_entry" where
  "final_entry c attr source relative previous kind link_target =
     (case attr source of (mode, mtime, size') \<Rightarrow>
        \<lparr> rme_path_base64 = b64_encode c (archive_metadata_path_bytes relative), rme_kind = kind,
          rme_mode = mode,
          rme_uid = (case previous of None \<Rightarrow> 0 | Some entry \<Rightarrow> rme_uid entry),
          rme_gid = (case previous of None \<Rightarrow> 0 | Some entry \<Rightarrow> rme_gid entry),
          rme_mtime = word_of_int (max 0 mtime), rme_size = size',
          rme_link_target_base64 = link_target \<rparr>)"

definition final_link_target :: "codec \<Rightarrow> rootfs_metadata_entry option \<Rightarrow> string \<Rightarrow> string" where
  "final_link_target c previous target =
     (case previous of
        Some entry \<Rightarrow>
          (case rme_link_target_base64 entry of
             Some t \<Rightarrow> if rme_kind entry = KSymlink then t else b64_encode c target
           | None \<Rightarrow> b64_encode c target)
      | None \<Rightarrow> b64_encode c target)"

primrec result_fold :: "('b \<Rightarrow> 'a \<Rightarrow> 'e + 'a) \<Rightarrow> 'b list \<Rightarrow> 'a \<Rightarrow> 'e + 'a" where
  "result_fold f [] acc = Inr acc"
| "result_fold f (x # xs) acc = rbind (f x acc) (result_fold f xs)"

primrec collect_final_metadata ::
    "nat \<Rightarrow> host \<Rightarrow> codec \<Rightarrow> attributes \<Rightarrow> filesys \<Rightarrow> metadata \<Rightarrow> location \<Rightarrow> string list \<Rightarrow> metadata \<Rightarrow>
     box_error + metadata" where
  "collect_final_metadata 0 host c attr fs desired source relative output =
     Inl (OciImageError (''Failed to inspect '' @ show_path source))"
| "collect_final_metadata (Suc depth) host c attr fs desired source relative output =
     (if reserved_metadata_path relative \<noteq> None then Inr output
      else case os_lstat host fs source of
          Inl e \<Rightarrow> Inl (OciImageError (''Failed to inspect '' @ show_path source @ '': '' @ show_io_error e))
        | Inr inode \<Rightarrow>
            let previous = map_of desired relative;
                add = (\<lambda>kind link. output @ [(relative, final_entry c attr source relative previous kind link)])
            in (case inode of
                  Special \<Rightarrow> Inr output
                | Regular _ \<Rightarrow> Inr (add KRegular None)
                | Symlink target \<Rightarrow>
                    if refused host ReadLink source
                    then Inl (OciImageError (''Failed to read '' @ show_path source))
                    else Inr (add KSymlink (Some (final_link_target c previous target)))
                | Directory \<Rightarrow>
                    (case os_read_dir host fs source of
                       Inl e \<Rightarrow> Inl (OciImageError (''Failed to read '' @ show_path source @ '': '' @ show_io_error e))
                     | Inr children \<Rightarrow>
                         result_fold (\<lambda>child. collect_final_metadata depth host c attr fs desired
                             (source @ [child]) (relative @ [child]))
                           (sort children) (add KDirectory None))))"

definition fs_depth :: "filesys \<Rightarrow> nat" where
  "fs_depth fs = fold max (map (length \<circ> fst) fs) 0"

definition finalize_image_metadata ::
    "host \<Rightarrow> codec \<Rightarrow> attributes \<Rightarrow> location \<Rightarrow> metadata \<Rightarrow> filesys \<Rightarrow> (box_error + metadata) \<times> filesys" where
  "finalize_image_metadata host c attr target_dir metadata fs =
     (case collect_final_metadata (fs_depth fs + 1) host c attr fs metadata target_dir [] [] of
        Inl e \<Rightarrow> (Inl e, fs)
      | Inr final_entries \<Rightarrow>
          let manifest = manifest_new (map snd final_entries)
          in (case replace_guest_file_no_follow host target_dir ''.a3s_image_metadata_v1.json.tmp'' (json_encode c manifest) fs of
                (Inl e, fs1) \<Rightarrow> (Inl e, fs1)
              | (Inr temporary, fs1) \<Rightarrow>
                  (case remove_guest_entry_no_follow host target_dir (trim_start_slash IMAGE_ROOTFS_METADATA_PATH) fs1 of
                     (Inl e, fs2) \<Rightarrow> (Inl e, fs2)
                   | (Inr destination, fs2) \<Rightarrow>
                       (case os_rename_file host temporary destination fs2 of
                          (Inl e, fs3) \<Rightarrow>
                            (Inl (OciImageError (''Failed to activate image metadata '' @ show_path destination)), fs3)
                        | (Inr _, fs3) \<Rightarrow>
                            (Inr (List.map_filter (\<lambda>entry. map_option (\<lambda>key. (key, entry)) (decode_metadata_key c entry))
                               (rmm_entries manifest)), fs3)))))"

section \<open>Replay by a guest and staging for the next boot\<close>

text \<open>
  A host user who is not root makes inodes writable that the guest has to change. Only modes change,
  so the result is all there is.
\<close>

definition replay_one :: "host \<Rightarrow> location \<Rightarrow> filesys \<Rightarrow> string list \<times> rootfs_metadata_entry \<Rightarrow> unit \<Rightarrow> box_error + unit" where
  "replay_one host target_dir fs = (\<lambda>(relative, entry) _.
     if rme_kind entry = KSymlink \<or> bit (rme_mode entry) 7 then Inr ()
     else if \<not> is_utf8 (join_with ''/'' relative)
     then Inl (OciImageError (''Metadata replay path is not UTF-8: '' @ join_with ''/'' relative))
     else
       rbind (if rme_kind entry = KDirectory then resolve_guest_directory_path host fs target_dir (join_with ''/'' relative)
              else resolve_guest_file_path host fs target_dir (join_with ''/'' relative)) (\<lambda>target.
         map_err (\<lambda>e. OciImageError (''Failed to prepare metadata replay for '' @ show_path target @ '': '' @ show_io_error e))
           (rbind (os_lstat host fs target) (\<lambda>_. os_chmod host fs target))))"

definition prepare_rootless_metadata_replay ::
    "host \<Rightarrow> bool \<Rightarrow> location \<Rightarrow> metadata \<Rightarrow> filesys \<Rightarrow> box_error + unit" where
  "prepare_rootless_metadata_replay host is_root target_dir metadata fs =
     (if is_root then Inr () else result_fold (replay_one host target_dir fs) metadata ())"

definition finalize_rootfs_metadata ::
    "host \<Rightarrow> codec \<Rightarrow> attributes \<Rightarrow> bool \<Rightarrow> location \<Rightarrow> filesys \<Rightarrow> (box_error + unit) \<times> filesys" where
  "finalize_rootfs_metadata host c attr is_root target_dir fs =
     (case load_image_metadata host c target_dir fs of
        Inl e \<Rightarrow> (Inl e, fs)
      | Inr metadata \<Rightarrow>
          (case finalize_image_metadata host c attr target_dir metadata fs of
             (Inl e, fs') \<Rightarrow> (Inl e, fs')
           | (Inr metadata', fs') \<Rightarrow> (prepare_rootless_metadata_replay host is_root target_dir metadata' fs', fs')))"

text \<open>
  Before a boot the manifest that the last guest left moves to the place where the new guest
  replays it: \<open>core/src/rootfs_metadata.rs\<close>. The rename is followed by a flush of the directory.
\<close>

definition validate_plain_root :: "host \<Rightarrow> filesys \<Rightarrow> location \<Rightarrow> io_error + unit" where
  "validate_plain_root host fs root =
     rbind (os_lstat host fs root) (\<lambda>inode.
       if inode \<noteq> Directory then Inl (IoError (''rootfs is not a plain directory: '' @ show_path root)) else Inr ())"

definition remove_path_no_follow :: "host \<Rightarrow> location \<Rightarrow> filesys \<Rightarrow> (io_error + unit) \<times> filesys" where
  "remove_path_no_follow host path fs =
     (case os_remove_file host path fs of (Inl NotFound, fs') \<Rightarrow> (Inr (), fs') | r \<Rightarrow> r)"

definition staging_directory_fence :: "host \<Rightarrow> location \<Rightarrow> io_error + unit" where
  "staging_directory_fence host root = (if refused host SyncDir root then Inl (IoError ''Input/output error'') else Inr ())"

definition durable_stage_rename ::
    "host \<Rightarrow> location \<Rightarrow> location \<Rightarrow> location \<Rightarrow> filesys \<Rightarrow> (io_error + unit) \<times> filesys" where
  "durable_stage_rename host root terminal previous fs =
     (case os_rename_file host terminal previous fs of
        (Inl e, fs') \<Rightarrow> (Inl e, fs')
      | (Inr _, fs') \<Rightarrow> (staging_directory_fence host root, fs'))"

definition stage_previous ::
    "host \<Rightarrow> location \<Rightarrow> location \<Rightarrow> location \<Rightarrow> filesys \<Rightarrow> (io_error + bool) \<times> filesys" where
  "stage_previous host root terminal previous fs =
     (let cleared =
        (case os_lstat host fs previous of
           Inr Directory \<Rightarrow> (Inl (IoError (''previous rootfs metadata path is a directory: '' @ show_path previous)), fs)
         | Inr _ \<Rightarrow> remove_path_no_follow host previous fs
         | Inl NotFound \<Rightarrow> (Inr (), fs)
         | Inl e \<Rightarrow> (Inl e, fs))
      in case cleared of
          (Inl e, fs') \<Rightarrow> (Inl e, fs')
        | (Inr _, fs') \<Rightarrow>
            (case durable_stage_rename host root terminal previous fs' of
               (Inl e, fs'') \<Rightarrow> (Inl e, fs'')
             | (Inr _, fs'') \<Rightarrow> (Inr True, fs'')))"

definition stage_terminal_rootfs_metadata_for_boot ::
    "host \<Rightarrow> location \<Rightarrow> filesys \<Rightarrow> (io_error + bool) \<times> filesys" where
  "stage_terminal_rootfs_metadata_for_boot host root fs =
     (case validate_plain_root host fs root of
        Inl e \<Rightarrow> (Inl e, fs)
      | Inr _ \<Rightarrow>
          (case remove_path_no_follow host (root @ [trim_start_slash ROOTFS_METADATA_TEMP_PATH]) fs of
             (Inl e, fs1) \<Rightarrow> (Inl e, fs1)
           | (Inr _, fs1) \<Rightarrow>
               let terminal = root @ [trim_start_slash ROOTFS_METADATA_PATH]
               in (case os_lstat host fs1 terminal of
                     Inl NotFound \<Rightarrow> (rbind (staging_directory_fence host root) (\<lambda>_. Inr False), fs1)
                   | Inl e \<Rightarrow> (Inl e, fs1)
                   | Inr (Regular _) \<Rightarrow>
                       stage_previous host root terminal (root @ [trim_start_slash PREVIOUS_ROOTFS_METADATA_PATH]) fs1
                   | Inr _ \<Rightarrow> (Inl (IoError (''terminal rootfs metadata is not a plain file: '' @ show_path terminal)), fs1))))"

section \<open>Whiteouts\<close>

definition resolve_within_or_base :: "filesys \<Rightarrow> location \<Rightarrow> string \<Rightarrow> location option" where
  "resolve_within_or_base fs target_dir rel =
     (case os_canonicalize fs (map Normal target_dir) of
        Inl _ \<Rightarrow> None
      | Inr base \<Rightarrow>
          if rel = [] then Some base
          else (case os_canonicalize fs
                   ((if path_is_absolute rel then [] else map Normal base) @ os_components rel) of
              Inl _ \<Rightarrow> None
            | Inr resolved \<Rightarrow> if prefix base resolved then Some resolved else None))"

definition resolve_within :: "filesys \<Rightarrow> location \<Rightarrow> string \<Rightarrow> location option" where
  "resolve_within fs target_dir rel =
     (if rel = [] then (case os_canonicalize fs (map Normal target_dir) of Inl _ \<Rightarrow> None | Inr base \<Rightarrow> Some base)
      else resolve_within_or_base fs target_dir rel)"

definition remove_path :: "host \<Rightarrow> location \<Rightarrow> filesys \<Rightarrow> filesys" where
  "remove_path host path fs =
     (case os_lstat host fs path of
        Inl _ \<Rightarrow> fs
      | Inr Directory \<Rightarrow> snd (os_remove_dir_all host path fs)
      | Inr _ \<Rightarrow> snd (os_remove_file host path fs))"

text \<open>
  \<open>remove_path(dir.join(name))\<close>. Joined with the empty name the path is the directory itself, and with
  a dot \<open>remove_dir_all\<close> empties the directory and then fails to remove it.
\<close>

definition remove_joined :: "host \<Rightarrow> location \<Rightarrow> string \<Rightarrow> filesys \<Rightarrow> filesys" where
  "remove_joined host dir name fs =
     (if name = [] then remove_path host dir fs
      else if name = ''.'' then
        (if isl (os_lstat host fs dir) then fs
         else fs_drop (\<lambda>q. strict_prefix dir q \<and> \<not> os_stays host fs q) fs)
      else remove_path host (dir @ [name]) fs)"

definition remove_children :: "host \<Rightarrow> location \<Rightarrow> filesys \<Rightarrow> filesys" where
  "remove_children host dir fs =
     (case os_read_dir host fs dir of
        Inl _ \<Rightarrow> fs
      | Inr children \<Rightarrow> fold (\<lambda>child. remove_path host (dir @ [child])) children fs)"

section \<open>Entries\<close>

datatype tar_entry_type = TarRegular | TarLink | TarSymlink | TarDirectory | TarOther

record tar_entry =
  te_path :: "string + string"
  te_type :: tar_entry_type
  te_link_name :: "string + string option"
  te_pax_extensions :: "string + (string + string) list option"
  te_mode :: "string + u32"
  te_uid :: "string + u64"
  te_gid :: "string + u64"
  te_mtime :: "string + u64"
  te_size :: "string + u64"
  te_content :: string

type_synonym unpacker = "tar_entry \<Rightarrow> location \<Rightarrow> filesys \<Rightarrow> (string + bool) \<times> filesys"

primrec check_pax :: "string \<Rightarrow> (string + string) list \<Rightarrow> box_error + unit" where
  "check_pax path [] = Inr ()"
| "check_pax path (extension # extensions) =
     (case extension of
        Inl e \<Rightarrow> Inl (OciImageError (''Invalid PAX extended attribute for '' @ path @ '': '' @ e))
      | Inr key \<Rightarrow>
          (case strip_prefix ''SCHILY.xattr.'' key of
             None \<Rightarrow> check_pax path extensions
           | Some name \<Rightarrow>
               if strip_prefix ''trusted.overlay.'' name \<noteq> None \<or> strip_prefix ''user.overlay.'' name \<noteq> None
               then Inl (OciImageError (''OCI layer entry '' @ path @ '' contains reserved overlayfs metadata''))
               else check_pax path extensions))"

definition reject_overlay_private_xattrs :: "tar_entry \<Rightarrow> string \<Rightarrow> box_error + unit" where
  "reject_overlay_private_xattrs entry path =
     (case te_pax_extensions entry of
        Inl e \<Rightarrow> Inl (OciImageError (''Failed to inspect extended attributes for '' @ path @ '': '' @ e))
      | Inr None \<Rightarrow> Inr ()
      | Inr (Some extensions) \<Rightarrow> check_pax path extensions)"

definition header_field :: "string \<Rightarrow> string list \<Rightarrow> string + 'a \<Rightarrow> box_error + 'a" where
  "header_field what path = map_err (\<lambda>e. OciImageError (''Invalid '' @ what @ '' at '' @ join_with ''/'' path @ '': '' @ e))"

definition metadata_kind :: "codec \<Rightarrow> tar_entry \<Rightarrow> string list \<Rightarrow> box_error + (rootfs_entry_kind \<times> string option)" where
  "metadata_kind c entry path =
     (case te_type entry of
        TarDirectory \<Rightarrow> Inr (KDirectory, None)
      | TarSymlink \<Rightarrow>
          (case te_link_name entry of
             Inl e \<Rightarrow> Inl (OciImageError (''Invalid symlink target: '' @ e))
           | Inr None \<Rightarrow> Inl (OciImageError ''Missing symlink target'')
           | Inr (Some target) \<Rightarrow> Inr (KSymlink, Some (b64_encode c target)))
      | TarOther \<Rightarrow> Inl (OciImageError (''Unsupported OCI layer entry type at '' @ join_with ''/'' path))
      | _ \<Rightarrow> Inr (KRegular, None))"

definition metadata_from_header :: "codec \<Rightarrow> tar_entry \<Rightarrow> string list \<Rightarrow> box_error + rootfs_metadata_entry" where
  "metadata_from_header c entry path =
     rbind (metadata_kind c entry path) (\<lambda>(kind, link).
     rbind (header_field ''mode'' path (te_mode entry)) (\<lambda>mode.
     rbind (header_field ''uid'' path (te_uid entry)) (\<lambda>uid.
     rbind (header_field ''gid'' path (te_gid entry)) (\<lambda>gid.
     rbind (header_field ''mtime'' path (te_mtime entry)) (\<lambda>mtime.
     rbind (header_field ''size'' path (te_size entry)) (\<lambda>size'.
       Inr \<lparr> rme_path_base64 = b64_encode c (archive_metadata_path_bytes path), rme_kind = kind, rme_mode = mode,
              rme_uid = uid, rme_gid = gid, rme_mtime = mtime, rme_size = size',
              rme_link_target_base64 = link \<rparr>))))))"

definition prepare_symlink_destination ::
    "host \<Rightarrow> location \<Rightarrow> string \<Rightarrow> filesys \<Rightarrow> (box_error + unit) \<times> filesys" where
  "prepare_symlink_destination host target_dir path fs =
     (case path_file_name path of
        None \<Rightarrow> (Inr (), fs)
      | Some name \<Rightarrow>
          (case resolve_within_or_base fs target_dir (case path_parent path of None \<Rightarrow> [] | Some p \<Rightarrow> p) of
             None \<Rightarrow> (Inr (), fs)
           | Some parent \<Rightarrow>
               (case os_lstat host fs (parent @ [name]) of
                  Inr Directory \<Rightarrow>
                    (case os_remove_dir_all host (parent @ [name]) fs of
                       (Inl e, fs') \<Rightarrow> (Inl (OciImageError (''Failed to replace directory '' @ show_path (parent @ [name]) @
                          '' with symlink from layer: '' @ show_io_error e)), fs')
                     | (Inr _, fs') \<Rightarrow> (Inr (), fs'))
                | _ \<Rightarrow> (Inr (), fs))))"

definition prepare_hardlink_destination ::
    "host \<Rightarrow> location \<Rightarrow> string \<Rightarrow> filesys \<Rightarrow> (box_error + unit) \<times> filesys" where
  "prepare_hardlink_destination host target_dir path fs =
     (case path_file_name path of
        None \<Rightarrow> (Inr (), fs)
      | Some name \<Rightarrow>
          (case resolve_within_or_base fs target_dir (case path_parent path of None \<Rightarrow> [] | Some p \<Rightarrow> p) of
             None \<Rightarrow> (Inr (), fs)
           | Some parent \<Rightarrow>
               (case os_lstat host fs (parent @ [name]) of
                  Inl _ \<Rightarrow> (Inr (), fs)
                | Inr inode \<Rightarrow>
                    (case (if inode = Directory then os_remove_dir_all host (parent @ [name]) fs
                           else os_remove_file host (parent @ [name]) fs) of
                       (Inl e, fs') \<Rightarrow> (Inl (OciImageError (''Failed to replace '' @ show_path (parent @ [name]) @
                          '' with hardlink from layer: '' @ show_io_error e)), fs')
                     | (Inr _, fs') \<Rightarrow> (Inr (), fs')))))"

section \<open>Extraction\<close>

definition parent_text :: "string \<Rightarrow> string" where
  "parent_text path = (case path_parent path of None \<Rightarrow> [] | Some p \<Rightarrow> p)"

text \<open>The file name of an entry, empty when there is none or when it is not UTF-8.\<close>

definition entry_name :: "string \<Rightarrow> string" where
  "entry_name path =
     (case path_file_name path of None \<Rightarrow> [] | Some name \<Rightarrow> if is_utf8 name then name else [])"

definition opaque_whiteout ::
    "host \<Rightarrow> bool \<Rightarrow> location \<Rightarrow> string \<Rightarrow> metadata \<Rightarrow> filesys \<Rightarrow> (box_error + metadata) \<times> filesys" where
  "opaque_whiteout host track target_dir path metadata fs =
     (let fs' =
        (case path_parent path of
           None \<Rightarrow> fs
         | Some parent \<Rightarrow>
             (case resolve_within fs target_dir parent of None \<Rightarrow> fs | Some dir \<Rightarrow> remove_children host dir fs))
      in if track
         then (case normalize_layer_path (parent_text path) of
             None \<Rightarrow> (Inl (OciImageError ''Invalid opaque whiteout path''), fs')
           | Some parent \<Rightarrow> (Inr (remove_metadata_descendants parent False metadata), fs'))
         else (Inr metadata, fs'))"

definition whiteout ::
    "host \<Rightarrow> bool \<Rightarrow> location \<Rightarrow> string \<Rightarrow> string \<Rightarrow> metadata \<Rightarrow> filesys \<Rightarrow> (box_error + metadata) \<times> filesys" where
  "whiteout host track target_dir path victim_name metadata fs =
     (case normalize_layer_path (path_join (parent_text path) victim_name) of
        None \<Rightarrow> (Inl (OciImageError ''Invalid whiteout path''), fs)
      | Some victim \<Rightarrow>
          (case reserved_metadata_path victim of
             Some reserved \<Rightarrow>
               (Inl (OciImageError (''OCI layer whiteouts reserved internal path '' @ reserved)), fs)
           | None \<Rightarrow>
               (Inr (if track then remove_metadata_descendants victim True metadata else metadata),
                (case path_parent path of
                   None \<Rightarrow> fs
                 | Some parent \<Rightarrow>
                     (case resolve_within fs target_dir parent of
                        None \<Rightarrow> fs
                      | Some dir \<Rightarrow> remove_joined host dir victim_name fs)))))"

definition prepare_destination ::
    "host \<Rightarrow> location \<Rightarrow> tar_entry \<Rightarrow> string \<Rightarrow> filesys \<Rightarrow> (box_error + unit) \<times> filesys" where
  "prepare_destination host target_dir entry path fs =
     (if te_type entry = TarSymlink then prepare_symlink_destination host target_dir path fs
      else if te_type entry = TarLink then prepare_hardlink_destination host target_dir path fs
      else (Inr (), fs))"

definition unpack_entry ::
    "host \<Rightarrow> codec \<Rightarrow> unpacker \<Rightarrow> bool \<Rightarrow> location \<Rightarrow> tar_entry \<Rightarrow> string \<Rightarrow> string list \<Rightarrow> metadata \<Rightarrow> filesys \<Rightarrow>
     (box_error + metadata) \<times> filesys" where
  "unpack_entry host c unpack track target_dir entry path normalized metadata fs =
     (case prepare_destination host target_dir entry path fs of
        (Inl e, fs1) \<Rightarrow> (Inl e, fs1)
      | (Inr _, fs1) \<Rightarrow>
          (case rbind (reject_overlay_private_xattrs entry path) (\<lambda>_.
                  if track then rbind (metadata_from_header c entry normalized) (\<lambda>d. Inr (Some d))
                  else Inr None) of
             Inl e \<Rightarrow> (Inl e, fs1)
           | Inr desired \<Rightarrow>
               (case unpack entry target_dir fs1 of
                  (Inl e, fs2) \<Rightarrow>
                    (Inl (OciImageError (''Failed to extract layer to '' @ show_path target_dir @ '': '' @ e)), fs2)
                | (Inr unpacked, fs2) \<Rightarrow>
                    (case desired of
                       Some d \<Rightarrow>
                         if unpacked
                         then (Inr (metadata_insert normalized d
                                 (if rme_kind d \<noteq> KDirectory then remove_metadata_descendants normalized False metadata
                                  else metadata)), fs2)
                         else (Inr metadata, fs2)
                     | None \<Rightarrow> (Inr metadata, fs2)))))"

definition extract_entry ::
    "host \<Rightarrow> codec \<Rightarrow> unpacker \<Rightarrow> bool \<Rightarrow> location \<Rightarrow> tar_entry \<Rightarrow> metadata \<Rightarrow> filesys \<Rightarrow>
     (box_error + metadata) \<times> filesys" where
  "extract_entry host c unpack track target_dir entry metadata fs =
     (case te_path entry of
        Inl e \<Rightarrow> (Inl (OciImageError (''Invalid layer entry path: '' @ e)), fs)
      | Inr path \<Rightarrow>
          if ParentDir \<in> set (path_components path) then (Inr metadata, fs)
          else (case normalize_layer_path path of
              None \<Rightarrow> (Inl (OciImageError (''Invalid layer entry path: '' @ path)), fs)
            | Some normalized \<Rightarrow>
                (case reserved_metadata_path normalized of
                   Some reserved \<Rightarrow> (Inl (OciImageError (''OCI layer contains reserved internal path '' @ reserved)), fs)
                 | None \<Rightarrow>
                     if entry_name path = ''.wh..wh..opq'' then opaque_whiteout host track target_dir path metadata fs
                     else (case strip_prefix ''.wh.'' (entry_name path) of
                         Some victim_name \<Rightarrow> whiteout host track target_dir path victim_name metadata fs
                       | None \<Rightarrow> unpack_entry host c unpack track target_dir entry path normalized metadata fs))))"

primrec extract_entries ::
    "host \<Rightarrow> codec \<Rightarrow> unpacker \<Rightarrow> bool \<Rightarrow> location \<Rightarrow> (string + tar_entry) list \<Rightarrow> metadata \<Rightarrow> filesys \<Rightarrow>
     (box_error + metadata) \<times> filesys" where
  "extract_entries host c unpack track target_dir [] metadata fs = (Inr metadata, fs)"
| "extract_entries host c unpack track target_dir (entry # entries) metadata fs =
     (case entry of
        Inl e \<Rightarrow> (Inl (OciImageError (''Failed to read layer entry: '' @ e)), fs)
      | Inr entry \<Rightarrow>
          (case extract_entry host c unpack track target_dir entry metadata fs of
             (Inl e, fs') \<Rightarrow> (Inl e, fs')
           | (Inr metadata', fs') \<Rightarrow> extract_entries host c unpack track target_dir entries metadata' fs'))"

text \<open>A layer: \<open>None\<close> when its file does not exist.\<close>

type_synonym layer = "(string + (string + tar_entry) list) option"

definition extract_layer_with_cap ::
    "host \<Rightarrow> codec \<Rightarrow> attributes \<Rightarrow> unpacker \<Rightarrow> bool \<Rightarrow> layer \<Rightarrow> location \<Rightarrow> filesys \<Rightarrow> (box_error + unit) \<times> filesys" where
  "extract_layer_with_cap host c attr unpack track layer target_dir fs =
     (case layer of
        None \<Rightarrow> (Inl (OciImageError ''Layer file not found''), fs)
      | Some opened \<Rightarrow>
          (case os_create_dir_all host target_dir fs of
             (Inl e, fs1) \<Rightarrow> (Inl (OciImageError (''Failed to create target directory '' @ show_path target_dir @
                '': '' @ show_io_error e)), fs1)
           | (Inr _, fs1) \<Rightarrow>
               (case opened of
                  Inl e \<Rightarrow> (Inl (OciImageError e), fs1)
                | Inr entries \<Rightarrow>
                    (case (if track then load_image_metadata host c target_dir fs1 else Inr []) of
                       Inl e \<Rightarrow> (Inl e, fs1)
                     | Inr metadata \<Rightarrow>
                         (case extract_entries host c unpack track target_dir entries metadata fs1 of
                            (Inl e, fs2) \<Rightarrow> (Inl e, fs2)
                          | (Inr metadata', fs2) \<Rightarrow>
                              if track
                              then (case finalize_image_metadata host c attr target_dir metadata' fs2 of
                                  (Inl e, fs3) \<Rightarrow> (Inl e, fs3)
                                | (Inr _, fs3) \<Rightarrow> (Inr (), fs3))
                              else (Inr (), fs2))))))"

definition extract_layer ::
    "host \<Rightarrow> codec \<Rightarrow> attributes \<Rightarrow> unpacker \<Rightarrow> layer \<Rightarrow> location \<Rightarrow> filesys \<Rightarrow> (box_error + unit) \<times> filesys" where
  "extract_layer host c attr unpack layer target_dir fs =
     extract_layer_with_cap host c attr unpack False layer target_dir fs"

definition extract_layer_with_metadata ::
    "host \<Rightarrow> codec \<Rightarrow> attributes \<Rightarrow> unpacker \<Rightarrow> layer \<Rightarrow> location \<Rightarrow> filesys \<Rightarrow> (box_error + unit) \<times> filesys" where
  "extract_layer_with_metadata host c attr unpack layer target_dir fs =
     extract_layer_with_cap host c attr unpack True layer target_dir fs"

text \<open>
  The builder. \<open>oci_image\<close> is what opening the image answers: its layers, bottom first.
\<close>

definition build ::
    "host \<Rightarrow> codec \<Rightarrow> attributes \<Rightarrow> unpacker \<Rightarrow> bool \<Rightarrow> box_error + layer list \<Rightarrow> rootfs_builder \<Rightarrow> filesys \<Rightarrow>
     (box_error + unit) \<times> filesys" where
  "build host c attr unpack is_root oci_image b =
     fs_steps
       ([create_base_structure host b] @
        (case oci_image of
           Inl e \<Rightarrow> [\<lambda>fs. (Inl e, fs)]
         | Inr layers \<Rightarrow>
             map (\<lambda>layer. extract_layer_with_metadata host c attr unpack layer (rb_rootfs_path b)) layers) @
        (if rb_guest_init_path b \<noteq> None then [install_guest_init host b] else []) @
        [create_essential_files host b,
         finalize_rootfs_metadata host c attr is_root (rb_rootfs_path b)])"

end
