(* ===== verification/Layer_Confinement.thy ===== *)
theory Layer_Confinement
  imports Oci_Layers
begin

text \<open>
  The operations of \<open>Oci_Layers\<close> keep the host: what they remove or write lies below the target
  directory. What a canonical path means is a real location, so removals act where the code has
  looked. The steps compose by the locale \<open>confinement\<close>.
\<close>

section \<open>Real locations\<close>

definition real_at :: "filesys \<Rightarrow> location \<Rightarrow> bool" where
  "real_at fs p \<longleftrightarrow> (case fs_get fs p of None \<Rightarrow> False | Some (Symlink _) \<Rightarrow> False | Some _ \<Rightarrow> True)"

definition located :: "filesys \<Rightarrow> location \<Rightarrow> bool" where
  "located fs p \<longleftrightarrow> (\<forall>l. os_entry fs p = Inr l \<longrightarrow> l = p)"

lemma fs_wf_butlast: "fs_wf fs \<Longrightarrow> fs_get fs p \<noteq> None \<Longrightarrow> fs_get fs (butlast p) = Some Directory \<or> p = []"
  by (auto simp: fs_wf_alt)

lemma real_at_exists: "real_at fs p \<Longrightarrow> fs_get fs p \<noteq> None"
  by (cases "fs_get fs p") (auto simp: real_at_def)

lemma walk_real:
  assumes "walk fs create n cur cs = Inr l" "\<not> create" "fs_wf fs" "real_at fs cur"
  shows "real_at fs l"
  using assms
proof (induction fs create n cur cs rule: walk.induct)
  case (2 fs create n cur c cs)
  have dir: "fs_get fs cur = Some Directory" using "2.prems"(1) by (auto split: if_splits)
  have parent: "real_at fs (butlast cur)"
    using fs_wf_butlast [OF "2.prems"(3), of cur] dir "2.prems"(3) by (auto simp: real_at_def)
  show ?case
  proof (cases c)
    case (Normal name)
    then obtain i where i: "fs_get fs (cur @ [name]) = Some i"
      using "2.prems" dir by (cases "fs_get fs (cur @ [name])") auto
    have here: "real_at fs (cur @ [name])" if "\<And>t. i \<noteq> Symlink t" using that i by (cases i) (auto simp: real_at_def)
    show ?thesis
    proof (cases i)
      case (Symlink t)
      then show ?thesis using "2.IH"(6) [OF _ Normal i] "2.prems" dir i Normal by (auto split: if_splits)
    qed (use "2.IH"(4,5,7) [OF _ Normal i] "2.prems" dir i Normal here in auto)
  qed (use 2 dir parent in \<open>auto simp: real_at_def\<close>)
qed simp

lemma real_direct:
  assumes "fs_wf fs" "real_at fs p" "p \<noteq> []"
  shows "direct fs p"
proof -
  have "fs_get fs (butlast p) = Some Directory"
    using fs_wf_butlast [OF assms(1) real_at_exists [OF assms(2)]] assms(3) by simp
  then show ?thesis
    using plain_dir [OF assms(1)] assms(2,3) by (auto simp: direct_def real_at_def split: option.splits inode.splits)
qed

lemma canonicalize_real: "fs_wf fs \<Longrightarrow> real_at fs p \<Longrightarrow> os_canonicalize fs (map Normal p) = Inr p"
  using real_direct [of fs p] walk_path [of fs p False MAXSYMLINKS]
  by (cases "p = []") (auto simp: os_canonicalize_def real_at_def split: option.splits)

lemma located_child: "fs_wf fs \<Longrightarrow> real_at fs d \<Longrightarrow> located fs (d @ [n])"
  by (simp add: located_def os_entry_def canonicalize_real)

lemma located_real:
  assumes "fs_wf fs" "real_at fs p"
  shows "located fs p"
proof (cases p rule: rev_cases)
  case (snoc d n)
  then have "fs_get fs d = Some Directory" using fs_wf_butlast [OF assms(1) real_at_exists [OF assms(2)]] by simp
  then show ?thesis using located_child [OF assms(1), of d n] snoc by (simp add: real_at_def)
qed (simp add: located_def os_entry_def)

lemma resolve_within_or_base_real:
  assumes "sound_fs root fs" "resolve_within_or_base fs root rel = Some d"
  shows "prefix root d" "real_at fs d"
proof -
  have wf: "fs_wf fs" using assms(1) by (simp add: sound_fs_def)
  note base = canonicalize_plain [OF wf rooted_plain [OF assms(1)]]
  have top: "real_at fs []" using wf by (simp add: real_at_def)
  show "prefix root d" using assms(2) base by (auto simp: resolve_within_or_base_def split: sum.splits if_splits)
  show "real_at fs d"
    using assms(2) base walk_real [OF _ _ wf top] unfolding resolve_within_or_base_def os_canonicalize_def
    by (auto split: sum.splits if_splits simp: real_at_def)
qed

lemma resolve_within_real:
  assumes "sound_fs root fs" "resolve_within fs root rel = Some d"
  shows "prefix root d" "real_at fs d"
proof -
  have "resolve_within_or_base fs root rel = Some d"
    using assms(2) by (auto simp: resolve_within_def resolve_within_or_base_def split: if_splits sum.splits)
  then show "prefix root d" "real_at fs d" using resolve_within_or_base_real [OF assms(1)] by blast+
qed

section \<open>Removals stay below the root\<close>

lemma os_stays_up: "os_stays host fs (p @ q) \<Longrightarrow> os_stays host fs p"
  unfolding os_stays_def by (meson append_prefixD)

lemma remove_dir_all_below:
  assumes "sound_fs root fs" "prefix root p" "located fs p"
  shows "keeps_host root fs (snd (os_remove_dir_all host p fs))"
proof -
  have "keeps_host root fs (fs_drop (\<lambda>q. prefix p q \<and> q \<noteq> [] \<and> \<not> os_stays host fs q) fs)"
    using assms(1,2) os_stays_up by (intro keeps_host_drop) (auto intro: prefix_order.trans)
  then show ?thesis
    using assms(3) keeps_host_refl [OF assms(1)]
    by (auto simp: os_remove_dir_all_def located_def split: sum.splits option.splits inode.splits)
qed

lemma remove_file_below:
  assumes "sound_fs root fs" "prefix root p" "located fs p"
  shows "keeps_host root fs (snd (os_remove_file host p fs))"
proof -
  have wf: "fs_wf fs" using assms(1) by (simp add: sound_fs_def)
  have "keeps_host root fs (fs_drop (\<lambda>q. q = p) fs)" if "fs_get fs p \<noteq> Some Directory"
  proof (rule keeps_host_drop [OF assms(1)])
    fix q m assume "q = p" "fs_get fs (q @ [m]) \<noteq> None"
    then show "q @ [m] = p" using that fs_wf_parent [OF wf, of q m] by auto
  qed (use assms(2) that wf in auto)
  then show ?thesis
    using assms(3) keeps_host_refl [OF assms(1)]
    by (auto simp: os_remove_file_def located_def split: sum.splits option.splits inode.splits if_splits)
qed

lemma remove_path_below:
  assumes "sound_fs root fs" "prefix root p" "located fs p"
  shows "keeps_host root fs (remove_path host p fs)"
  using remove_dir_all_below [OF assms] remove_file_below [OF assms] keeps_host_refl [OF assms(1)]
  by (auto simp: remove_path_def split: sum.splits inode.splits)

lemma remove_path_other:
  assumes "located fs p" "\<not> prefix p q"
  shows "fs_get (remove_path host p fs) q = fs_get fs q"
proof -
  have "q \<noteq> p" "p \<noteq> []" using assms(2) by auto
  then have "fs_get (snd (os_remove_file host p fs)) q = fs_get fs q"
    using assms(1) by (cases "os_entry fs p") (simp_all add: os_remove_file_def located_def split: option.split inode.split)
  moreover have "fs_get (snd (os_remove_dir_all host p fs)) q = fs_get fs q"
    using assms \<open>p \<noteq> []\<close> by (cases "os_entry fs p") (auto simp: os_remove_dir_all_def located_def split: option.split inode.split)
  ultimately show ?thesis by (simp add: remove_path_def split: sum.split inode.split)
qed

lemma remove_joined_below:
  assumes "sound_fs root fs" "prefix root d" "real_at fs d"
  shows "keeps_host root fs (remove_joined host d n fs)"
proof -
  have wf: "fs_wf fs" using assms(1) by (simp add: sound_fs_def)
  have "keeps_host root fs (fs_drop (\<lambda>q. strict_prefix d q \<and> \<not> os_stays host fs q) fs)"
  proof (rule keeps_host_drop [OF assms(1)])
    fix p m assume "strict_prefix d p \<and> \<not> os_stays host fs p" "fs_get fs (p @ [m]) \<noteq> None"
    then show "strict_prefix d (p @ [m]) \<and> \<not> os_stays host fs (p @ [m])"
      using os_stays_up by (auto simp: strict_prefix_def prefix_def)
  qed (use assms(2) in \<open>auto simp: strict_prefix_def prefix_def\<close>)
  then show ?thesis
    using remove_path_below [OF assms(1,2) located_real [OF wf assms(3)]] keeps_host_refl [OF assms(1)]
      remove_path_below [OF assms(1) _ located_child [OF wf assms(3)], of n host] assms(2)
    by (auto simp: remove_joined_def)
qed

lemma remove_children_below:
  assumes "sound_fs root fs" "prefix root d" "real_at fs d"
  shows "keeps_host root fs (remove_children host d fs)"
proof -
  have "keeps_host root fs (fold (\<lambda>child. remove_path host (d @ [child])) ns fs)" for ns
    using assms(1,3)
  proof (induction ns arbitrary: fs)
    case (Cons n ns)
    have wf: "fs_wf fs" using Cons.prems by (simp add: sound_fs_def)
    have loc: "located fs (d @ [n])" using located_child [OF wf Cons.prems(2)] .
    have one: "keeps_host root fs (remove_path host (d @ [n]) fs)"
      using remove_path_below [OF Cons.prems(1) _ loc] assms(2) by simp
    have "fs_get (remove_path host (d @ [n]) fs) d = fs_get fs d"
      by (rule remove_path_other [OF loc]) (simp add: prefix_def)
    then have "real_at (remove_path host (d @ [n]) fs) d" using Cons.prems(2) by (simp add: real_at_def)
    then show ?case using Cons.IH [OF keeps_host_sound [OF one]] keeps_host_trans [OF one] by simp
  qed (simp add: keeps_host_refl)
  then show ?thesis using keeps_host_refl [OF assms(1)] by (auto simp: remove_children_def split: sum.splits)
qed

section \<open>Extraction stays below the target\<close>

text \<open>
  What the documentation of \<open>Entry::unpack_in\<close> promises: nothing is written outside the destination,
  and the destination stays a directory.
\<close>

definition unpack_confined :: "unpacker \<Rightarrow> location \<Rightarrow> bool" where
  "unpack_confined unpack root \<longleftrightarrow>
     (\<forall>entry fs. sound_fs root fs \<longrightarrow> keeps_host root fs (snd (unpack entry root fs)))"

lemma confined_opaque [confined_intros]: "confined root (opaque_whiteout host track root path metadata)"
proof (rule host_kept.confinedI)
  fix fs r fs' assume s: "sound_fs root fs" and op: "opaque_whiteout host track root path metadata fs = (r, fs')"
  have "keeps_host root fs (remove_children host d fs)" if "resolve_within fs root p = Some d" for p d
    using remove_children_below [OF s] resolve_within_real [OF s that] by blast
  then show "keeps_host root fs fs'"
    using op keeps_host_refl [OF s] by (auto simp: opaque_whiteout_def Let_def split: option.splits if_splits)
qed

lemma confined_whiteout [confined_intros]: "confined root (whiteout host track root path n metadata)"
proof (rule host_kept.confinedI)
  fix fs r fs' assume s: "sound_fs root fs" and op: "whiteout host track root path n metadata fs = (r, fs')"
  have "keeps_host root fs (remove_joined host d n fs)" if "resolve_within fs root p = Some d" for p d
    using remove_joined_below [OF s] resolve_within_real [OF s that] by blast
  then show "keeps_host root fs fs'"
    using op keeps_host_refl [OF s] by (auto simp: whiteout_def split: option.splits)
qed

lemma confined_symlink_destination: "confined root (prepare_symlink_destination host root path)"
proof (rule host_kept.confinedI)
  fix fs r fs' assume s: "sound_fs root fs" and op: "prepare_symlink_destination host root path fs = (r, fs')"
  have wf: "fs_wf fs" using s by (simp add: sound_fs_def)
  have "keeps_host root fs (snd (os_remove_dir_all host (d @ [n]) fs))"
    if "resolve_within_or_base fs root p = Some d" for p d n
    using remove_dir_all_below [OF s _ located_child [OF wf]] resolve_within_or_base_real [OF s that] by simp
  then show "keeps_host root fs fs'"
    using op keeps_host_refl [OF s] unfolding prepare_symlink_destination_def
    by (simp split: option.splits sum.splits inode.splits prod.splits) (metis snd_conv)+
qed

lemma confined_hardlink_destination: "confined root (prepare_hardlink_destination host root path)"
proof (rule host_kept.confinedI)
  fix fs r fs' assume s: "sound_fs root fs" and op: "prepare_hardlink_destination host root path fs = (r, fs')"
  have wf: "fs_wf fs" using s by (simp add: sound_fs_def)
  have del: "keeps_host root fs fs2"
    if "resolve_within_or_base fs root p = Some d"
      "(if b then os_remove_dir_all host (d @ [n]) fs else os_remove_file host (d @ [n]) fs) = (r2, fs2)" for p d n b r2 fs2
  proof -
    note d = resolve_within_or_base_real [OF s that(1)]
    note loc = located_child [OF wf d(2), of n]
    have "prefix root (d @ [n])" using d(1) by simp
    then show ?thesis
      using that(2) remove_dir_all_below [OF s _ loc, of host] remove_file_below [OF s _ loc, of host] by (cases b) simp_all
  qed
  show "keeps_host root fs fs'"
  proof (cases "fs' = fs")
    case False
    then obtain p d n i r2 where "resolve_within_or_base fs root p = Some d"
        "(if i = Directory then os_remove_dir_all host (d @ [n]) fs else os_remove_file host (d @ [n]) fs) = (r2, fs')"
      using op by (auto simp: prepare_hardlink_destination_def split: option.splits sum.splits prod.splits)
    then show ?thesis by (rule del)
  qed (simp add: keeps_host_refl [OF s])
qed

lemma confined_destination [confined_intros]: "confined root (prepare_destination host root entry path)"
proof (rule host_kept.confinedI)
  fix fs r fs' assume s: "sound_fs root fs" and op: "prepare_destination host root entry path fs = (r, fs')"
  then show "keeps_host root fs fs'"
    using keeps_host_refl [OF s] host_kept.confinedD [OF confined_symlink_destination s]
      host_kept.confinedD [OF confined_hardlink_destination s]
    by (auto simp: prepare_destination_def split: if_splits)
qed

lemma confined_unpack_entry:
  assumes "unpack_confined unpack root"
  shows "confined root (unpack_entry host c unpack track root entry path normalized metadata)"
proof (rule host_kept.confinedI)
  fix fs r fs' assume s: "sound_fs root fs" and op: "unpack_entry host c unpack track root entry path normalized metadata fs = (r, fs')"
  obtain r1 fs1 where one: "prepare_destination host root entry path fs = (r1, fs1)" by fastforce
  note k1 = host_kept.confinedD [OF confined_destination s one]
  obtain r2 fs2 where two: "unpack entry root fs1 = (r2, fs2)" by fastforce
  have "keeps_host root fs1 fs2" using assms keeps_host_sound [OF k1] two unfolding unpack_confined_def by (metis snd_conv)
  then have k2: "keeps_host root fs fs2" using keeps_host_trans [OF k1] by blast
  have "fs' = fs1 \<or> fs' = fs2"
    using op one two by (auto simp: unpack_entry_def split: sum.splits option.splits if_splits)
  then show "keeps_host root fs fs'" using k1 k2 by blast
qed

lemma confined_extract_entry:
  assumes "unpack_confined unpack root"
  shows "confined root (extract_entry host c unpack track root entry metadata)"
proof (rule host_kept.confinedI)
  fix fs r fs' assume s: "sound_fs root fs" and op: "extract_entry host c unpack track root entry metadata fs = (r, fs')"
  show "keeps_host root fs fs'"
    using op keeps_host_refl [OF s] host_kept.confinedD [OF confined_opaque s]
      host_kept.confinedD [OF confined_whiteout s] host_kept.confinedD [OF confined_unpack_entry [OF assms] s]
    unfolding extract_entry_def by (simp split: sum.splits option.splits if_splits)
qed

lemma confined_extract_entries:
  assumes "unpack_confined unpack root"
  shows "confined root (extract_entries host c unpack track root entries metadata)"
proof (induction entries arbitrary: metadata)
  case Nil
  then show ?case by (intro host_kept.confinedI) (auto simp: keeps_host_refl)
next
  case (Cons item entries)
  show ?case
  proof (rule host_kept.confinedI)
    fix fs r fs' assume s: "sound_fs root fs" and op: "extract_entries host c unpack track root (item # entries) metadata fs = (r, fs')"
    show "keeps_host root fs fs'"
    proof (cases item)
      case (Inl e)
      then show ?thesis using op keeps_host_refl [OF s] by simp
    next
      case (Inr entry)
      obtain r1 fs1 where one: "extract_entry host c unpack track root entry metadata fs = (r1, fs1)" by fastforce
      note k1 = host_kept.confinedD [OF confined_extract_entry [OF assms] s one]
      show ?thesis
        using op Inr one k1 host_kept.confinedD [OF Cons.IH keeps_host_sound [OF k1]] keeps_host_trans [OF k1]
        by (cases r1) auto
    qed
  qed
qed

text \<open>The manifest lies directly in the root file system.\<close>

lemma manifest_entry_paths:
  "resolve_guest_entry_path host fs root ''.a3s_image_metadata_v1.json.tmp'' = Inr (root @ [''.a3s_image_metadata_v1.json.tmp''])"
  "resolve_guest_entry_path host fs root (trim_start_slash IMAGE_ROOTFS_METADATA_PATH) = Inr (root @ [''.a3s_image_metadata_v1.json''])"
proof -
  have "\<not> not_relative ''.a3s_image_metadata_v1.json.tmp''"
    "path_file_name ''.a3s_image_metadata_v1.json.tmp'' = Some ''.a3s_image_metadata_v1.json.tmp''"
    "path_parent ''.a3s_image_metadata_v1.json.tmp'' = Some []"
    "trim_start_slash IMAGE_ROOTFS_METADATA_PATH = ''.a3s_image_metadata_v1.json''"
    "\<not> not_relative ''.a3s_image_metadata_v1.json''"
    "path_file_name ''.a3s_image_metadata_v1.json'' = Some ''.a3s_image_metadata_v1.json''"
    "path_parent ''.a3s_image_metadata_v1.json'' = Some []" by code_simp+
  moreover have "resolve_guest_directory_path host fs root [] = Inr root"
    by (simp add: resolve_guest_directory_path_def not_relative_def path_is_absolute_def path_components_def
        resolve_rootfs_path_def guest_path_components_def)
  ultimately show
    "resolve_guest_entry_path host fs root ''.a3s_image_metadata_v1.json.tmp'' = Inr (root @ [''.a3s_image_metadata_v1.json.tmp''])"
    "resolve_guest_entry_path host fs root (trim_start_slash IMAGE_ROOTFS_METADATA_PATH) = Inr (root @ [''.a3s_image_metadata_v1.json''])"
    by (simp_all only: resolve_guest_entry_path_def if_False option.simps rbind_Inr)
qed

lemma remove_entry_path:
  "remove_guest_entry_no_follow host root path fs = (Inr p, fs') \<Longrightarrow> resolve_guest_entry_path host fs root path = Inr p"
  by (auto simp: remove_guest_entry_no_follow_def split: sum.splits inode.splits io_error.splits prod.splits)

lemma replace_entry_path:
  "replace_guest_file_no_follow host root path content fs = (Inr p, fs') \<Longrightarrow> resolve_guest_entry_path host fs root path = Inr p"
  by (auto simp: replace_guest_file_no_follow_def split: sum.splits prod.splits dest!: remove_entry_path)

lemma rename_below:
  assumes "sound_fs root fs"
  shows "keeps_host root fs (snd (os_rename_file host (root @ [a]) (root @ [b]) fs))"
proof -
  have wf: "fs_wf fs" using assms by (simp add: sound_fs_def)
  let ?drop = "fs_drop (\<lambda>r. r = root @ [a]) fs"
  have put: "keeps_host root fs (fs_put (root @ [b]) i ?drop)"
    if i: "fs_get fs (root @ [a]) = Some i" "i \<noteq> Directory" "fs_get fs (root @ [b]) \<noteq> Some Directory"
      "root @ [a] \<noteq> root @ [b]"
  for i
  proof -
    have k: "keeps_host root fs ?drop"
    proof (rule keeps_host_drop [OF assms])
      fix p n assume "p = root @ [a]" "fs_get fs (p @ [n]) \<noteq> None"
      then show "p @ [n] = root @ [a]" using fs_wf_parent [OF wf, of p n] i by auto
    qed auto
    have "fs_get fs root = Some Directory" using fs_wf_parent [OF wf i(1)] .
    then have "keeps_host root ?drop (fs_put (root @ [b]) i ?drop)"
      using i keeps_host_sound [OF k] by (intro keeps_host_put) auto
    then show ?thesis using keeps_host_trans [OF k] by blast
  qed
  show ?thesis
    using put keeps_host_refl [OF assms] os_entry_plain [OF wf rooted_plain [OF assms]]
    by (auto simp: os_rename_file_def split: option.split)
qed

lemma confined_finalize [confined_intros]: "confined root (finalize_image_metadata host c attr root metadata)"
proof (rule host_kept.confinedI)
  fix fs r fs' assume s: "sound_fs root fs" and op: "finalize_image_metadata host c attr root metadata fs = (r, fs')"
  show "keeps_host root fs fs'"
  proof (cases "collect_final_metadata (fs_depth fs + 1) host c attr fs metadata root [] []")
    case (Inl e)
    then show ?thesis using op keeps_host_refl [OF s] by (simp add: finalize_image_metadata_def)
  next
    case (Inr final)
    let ?content = "json_encode c (manifest_new (map snd final))"
    obtain r1 fs1 where one: "replace_guest_file_no_follow host root ''.a3s_image_metadata_v1.json.tmp'' ?content fs = (r1, fs1)"
      by fastforce
    note k1 = host_kept.confinedD [OF confined_replace s one]
    obtain r2 fs2 where two: "remove_guest_entry_no_follow host root (trim_start_slash IMAGE_ROOTFS_METADATA_PATH) fs1 = (r2, fs2)"
      by fastforce
    note k2 = keeps_host_trans [OF k1 host_kept.confinedD [OF confined_remove keeps_host_sound [OF k1] two]]
    have k3: "keeps_host root fs fs3" if "r1 = Inr p" "r2 = Inr q" "os_rename_file host p q fs2 = (r3, fs3)" for p q r3 fs3
    proof -
      have p: "p = root @ [''.a3s_image_metadata_v1.json.tmp'']"
        using replace_entry_path [OF one [unfolded that(1)]] by (simp only: manifest_entry_paths sum.inject)
      have "q = root @ [''.a3s_image_metadata_v1.json'']"
        using remove_entry_path [OF two [unfolded that(2)]] by (simp only: manifest_entry_paths sum.inject)
      then show ?thesis
        using p keeps_host_trans [OF k2 rename_below [OF keeps_host_sound [OF k2]]] that(3) by (metis snd_conv)
    qed
    show ?thesis
      using op Inr one two k1 k2 k3 by (auto simp: finalize_image_metadata_def Let_def split: sum.splits prod.splits)
  qed
qed

lemma confined_extract_layer:
  assumes "unpack_confined unpack root"
  shows "confined root (extract_layer_with_cap host c attr unpack track layer root)"
proof (rule host_kept.confinedI)
  fix fs r fs' assume s: "sound_fs root fs" and op: "extract_layer_with_cap host c attr unpack track layer root fs = (r, fs')"
  obtain r1 fs1 where one: "os_create_dir_all host root fs = (r1, fs1)" by fastforce
  note k1 = create_dir_all_below(1) [OF s rooted_plain [OF s] _ one, simplified]
  have k2: "keeps_host root fs fs2" if "extract_entries host c unpack track root entries metadata fs1 = (r2, fs2)"
    for entries metadata r2 fs2
    using keeps_host_trans [OF k1 host_kept.confinedD [OF confined_extract_entries [OF assms] keeps_host_sound [OF k1] that]] .
  have k3: "keeps_host root fs fs3" if "extract_entries host c unpack track root entries metadata fs1 = (r2, fs2)"
      "finalize_image_metadata host c attr root metadata' fs2 = (r3, fs3)"
    for entries metadata r2 fs2 metadata' r3 fs3
    using keeps_host_trans [OF k2 [OF that(1)] host_kept.confinedD [OF confined_finalize keeps_host_sound [OF k2 [OF that(1)]] that(2)]] .
  show "keeps_host root fs fs'"
    using op one k1 k2 k3 keeps_host_refl [OF s]
    by (auto simp: extract_layer_with_cap_def split: option.splits sum.splits prod.splits if_splits)
qed

lemma confined_finalize_rootfs [confined_intros]: "confined root (finalize_rootfs_metadata host c attr is_root root)"
  by (rule host_kept.confinedI)
    (auto simp: finalize_rootfs_metadata_def keeps_host_refl split: sum.splits prod.splits
      dest: host_kept.confinedD [OF confined_finalize])

lemma confined_fail [confined_intros]: "confined root (\<lambda>fs. (Inl e, fs))"
  by (rule host_kept.confinedI) (auto simp: keeps_host_refl)

text \<open>The base directories of a root file system that holds nothing yet.\<close>

definition empty_below :: "filesys \<Rightarrow> location \<Rightarrow> bool" where
  "empty_below fs root \<longleftrightarrow> list_all (\<lambda>e. \<not> strict_prefix root (fst e)) fs"

definition base_plain :: "location \<Rightarrow> filesys \<Rightarrow> bool" where
  "base_plain root fs \<longleftrightarrow> list_all (\<lambda>d. plain fs (root @ d)) base_directories"

lemma empty_below_base_plain:
  assumes "sound_fs root fs" "empty_below fs root"
  shows "base_plain root fs"
proof -
  have "fs_get fs p = None" if "strict_prefix root p" for p
    using assms(2) that by (auto simp: empty_below_def list_all_iff map_of_eq_None_iff)
  moreover have "prefix q root \<or> strict_prefix root q" if "prefix q (root @ d)" for q d
    using that by (metis prefix_append prefix_order.not_eq_order_implies_strict prefix_def)
  ultimately have "plain fs (root @ d)" for d
    using rooted_plain [OF assms(1)] unfolding plain_alt by metis
  then show ?thesis by (simp add: base_plain_def list_all_iff)
qed

lemma confined_from_base: "confined_from (rb_rootfs_path b) (base_plain (rb_rootfs_path b)) (create_base_structure host b) (\<lambda>_. True)"
proof -
  let ?root = "rb_rootfs_path b"
  have "confined_from ?root (base_plain ?root)
     (\<lambda>fs. case os_create_dir_all host (?root @ d) fs of
        (Inl e, fs') \<Rightarrow> (Inl (g e), fs') | (Inr _, fs') \<Rightarrow> (Inr (), fs')) (base_plain ?root)"
    if d: "d \<in> set base_directories" for d and g :: "io_error \<Rightarrow> box_error"
  proof (rule host_kept.confined_fromI)
    fix fs r fs' assume s: "sound_fs ?root fs" "base_plain ?root fs"
      and op: "(case os_create_dir_all host (?root @ d) fs of
        (Inl e, fs') \<Rightarrow> (Inl (g e), fs') | (Inr _, fs') \<Rightarrow> (Inr (), fs')) = (r, fs')"
    obtain r1 where one: "os_create_dir_all host (?root @ d) fs = (r1, fs')" using op by (auto split: prod.splits sum.splits)
    have "plain fs (?root @ d)" using s(2) d by (auto simp: base_plain_def list_all_iff)
    note k = create_dir_all_below [OF s(1) this _ one, simplified]
    show "keeps_host ?root fs fs' \<and> (\<not> isl r \<longrightarrow> base_plain ?root fs')"
      using k(1) s(2) only_adds_dirs_plain [OF k(2)] by (auto simp: base_plain_def list_all_iff)
  qed
  moreover have "confined_from ?root (base_plain ?root)
      (\<lambda>fs. case os_chmod host fs ?root of Inl e \<Rightarrow> (Inl (g e), fs) | Inr _ \<Rightarrow> (Inr (), fs)) (base_plain ?root)"
    for g :: "io_error \<Rightarrow> box_error"
    by (rule host_kept.confined_fromI) (auto simp: keeps_host_refl split: sum.splits)
  ultimately have "confined_from ?root (base_plain ?root) (create_base_structure host b) (base_plain ?root)"
    unfolding create_base_structure_def Let_def by (intro host_kept.confined_from_steps) auto
  then show ?thesis by (simp add: host_kept.confined_from_def)
qed

end
