(* ===== verification/Oci_Extraction.thy ===== *)
theory Oci_Extraction
  imports Layer_Confinement
begin

text \<open>
  Theorems about the extraction of layers and the builder: whatever an archive holds, nothing outside
  the target directory changes; a whiteout removes exactly what it names; the manifest lists the
  extracted tree; staging before a boot moves the last manifest.
\<close>

section \<open>What a whiteout removes\<close>

text \<open>
  The locations that a whiteout of the given name in directory \<open>dir\<close> removes on a host that refuses
  nothing.
\<close>

definition whiteout_removes :: "location \<Rightarrow> string \<Rightarrow> location \<Rightarrow> bool" where
  "whiteout_removes dir file_name q =
     (if file_name = ''.wh..wh..opq'' then strict_prefix dir q
      else case strip_prefix ''.wh.'' file_name of
          None \<Rightarrow> False
        | Some name \<Rightarrow>
            if name = [] then prefix dir q
            else if name = ''.'' then strict_prefix dir q else prefix (dir @ [name]) q)"

lemma os_stays_calm [simp]: "\<not> os_stays calm fs q"
  by (simp add: os_stays_def)

lemma missing_below: "fs_wf fs \<Longrightarrow> fs_get fs p \<noteq> Some Directory \<Longrightarrow> strict_prefix p q \<Longrightarrow> fs_get fs q = None"
  using fs_wf_below [of fs p] by (fastforce elim: strict_prefixE')

lemma remove_path_calm:
  assumes "fs_wf fs" "located fs p" "p \<noteq> []"
    and "os_entry fs p = Inr p \<or> fs_get fs p = None"
  shows "fs_get (remove_path calm p fs) q = (if prefix p q then None else fs_get fs q)"
proof (cases "fs_get fs p = None")
  case True
  have "isl (os_lstat calm fs p)" using True assms(2) by (cases "os_entry fs p") (auto simp: os_lstat_def located_def)
  then have "remove_path calm p fs = fs" by (auto simp: remove_path_def split: sum.splits)
  moreover have "fs_get fs q = None" if "prefix p q"
    using that True missing_below [OF assms(1), of p q] by (cases "p = q") auto
  ultimately show ?thesis by simp
next
  case False
  then obtain i where i: "fs_get fs p = Some i" by auto
  have e: "os_entry fs p = Inr p" using assms(4) False by simp
  then have look: "os_lstat calm fs p = Inr i" using i by (simp add: os_lstat_def)
  show ?thesis
  proof (cases "i = Directory")
    case True
    then show ?thesis using look e i assms(3) by (auto simp: remove_path_def os_remove_dir_all_def)
  next
    case other: False
    then have "fs_get fs q = None" if "strict_prefix p q" using missing_below [OF assms(1) _ that] i by simp
    moreover have "remove_path calm p fs = fs_drop (\<lambda>q. q = p) fs"
      using look e i other by (cases i) (auto simp: remove_path_def os_remove_file_def)
    ultimately show ?thesis by auto
  qed
qed

lemma remove_child_calm:
  assumes "fs_wf fs" "fs_get fs d = Some Directory"
  shows "fs_get (remove_path calm (d @ [n]) fs) q = (if prefix (d @ [n]) q then None else fs_get fs q)"
  using remove_path_calm [OF assms(1), of "d @ [n]" q] located_child [OF assms(1), of d n]
    os_entry_plain [OF assms(1) plain_dir [OF assms], of n] assms(2) by (simp add: real_at_def)

lemma remove_children_calm:
  assumes "fs_wf fs" "fs_get fs d = Some Directory"
  shows "fs_get (remove_children calm d fs) q = (if strict_prefix d q then None else fs_get fs q)"
proof -
  let ?names = "remdups (map last (filter (\<lambda>q. q \<noteq> [] \<and> butlast q = d) (map fst fs)))"
  have fold_remove: "fs_get (fold (\<lambda>n. remove_path calm (d @ [n])) ns fs) q =
      (if \<exists>n \<in> set ns. prefix (d @ [n]) q then None else fs_get fs q)" for ns q
    using assms
  proof (induction ns arbitrary: fs)
    case (Cons n ns)
    let ?fs1 = "remove_path calm (d @ [n]) fs"
    note get1 = remove_child_calm [OF Cons.prems, of n]
    have "fs_wf ?fs1"
      using remove_path_below [of "[]" fs "d @ [n]" calm] located_child [OF Cons.prems(1), of d n] Cons.prems
      by (simp add: sound_fs_def rooted_def keeps_host_def real_at_def)
    moreover have "fs_get ?fs1 d = Some Directory" using get1 [of d] Cons.prems(2) by (simp add: prefix_def)
    ultimately show ?case using Cons.IH [of ?fs1] get1 [of q] by auto
  qed simp
  have "os_read_dir calm fs d = Inr ?names"
    using canonicalize_real [OF assms(1), of d] assms(2) by (simp add: os_read_dir_def real_at_def)
  then have "fs_get (remove_children calm d fs) q =
      (if \<exists>n \<in> set ?names. prefix (d @ [n]) q then None else fs_get fs q)"
    using fold_remove [of ?names q] by (simp only: remove_children_def sum.simps)
  moreover have "\<exists>n \<in> set ?names. prefix (d @ [n]) q" if below: "strict_prefix d q" "fs_get fs q \<noteq> None"
  proof -
    obtain n r where q: "q = (d @ [n]) @ r" using below(1) by (auto elim: strict_prefixE')
    have "fs_get fs (d @ [n]) \<noteq> None" using below(2) q fs_wf_below [OF assms(1), of "d @ [n]" r] by (cases "r = []") auto
    then have "d @ [n] \<in> fst ` set fs" by (simp add: map_of_eq_None_iff)
    then have "n \<in> set ?names" by (force simp: image_iff)
    then show ?thesis using q by auto
  qed
  moreover have "strict_prefix d q" if "prefix (d @ [n]) q" for n using that by (auto simp: strict_prefix_def prefix_def)
  ultimately show ?thesis by (cases "fs_get fs q = None") (auto split: if_splits)
qed

lemma remove_joined_calm:
  assumes "fs_wf fs" "fs_get fs d = Some Directory" "d \<noteq> []" "file_name = ''.wh.'' @ n" "file_name \<noteq> ''.wh..wh..opq''"
  shows "fs_get (remove_joined calm d n fs) q = (if whiteout_removes d file_name q then None else fs_get fs q)"
proof -
  have real: "real_at fs d" using assms(2) by (simp add: real_at_def)
  have strip: "strip_prefix ''.wh.'' file_name = Some n" using assms(4) strip_prefix_Some by blast
  have entry: "os_entry fs d = Inr d" using os_entry_existing [OF assms(1)] assms(2) by simp
  then have look: "\<not> isl (os_lstat calm fs d)" using assms(2) by (simp add: os_lstat_def)
  show ?thesis
    using strip assms(3,5) look entry remove_path_calm [OF assms(1) located_real [OF assms(1) real] assms(3), of q]
      remove_child_calm [OF assms(1,2), of n q]
    by (simp add: remove_joined_def whiteout_removes_def)
qed

section \<open>The manifest lists the tree\<close>

lemma fs_depth_bound: "fs_get fs p \<noteq> None \<Longrightarrow> length p \<le> fs_depth fs"
proof -
  have "x \<le> fold max xs acc" if "x \<in> set xs \<or> x \<le> acc" for x acc :: nat and xs
    using that by (induction xs arbitrary: acc) (auto simp: le_max_iff_disj)
  moreover assume "fs_get fs p \<noteq> None"
  then have "length p \<in> set (map (length \<circ> fst) fs)" by (auto simp: map_of_eq_None_iff)
  ultimately show ?thesis unfolding fs_depth_def by blast
qed

lemma reserved_up: "reserved_metadata_path (p @ q) = None \<Longrightarrow> reserved_metadata_path p = None"
  unfolding reserved_metadata_path_def find_None_iff by (meson prefix_order.trans prefixI)

lemma os_read_dir_calm:
  assumes "fs_wf fs" "fs_get fs d = Some Directory"
  obtains ns where "os_read_dir calm fs d = Inr ns" "\<And>n. n \<in> set ns \<longleftrightarrow> fs_get fs (d @ [n]) \<noteq> None"
proof -
  let ?ns = "remdups (map last (filter (\<lambda>q. q \<noteq> [] \<and> butlast q = d) (map fst fs)))"
  have "os_read_dir calm fs d = Inr ?ns"
    using canonicalize_real [OF assms(1), of d] assms(2) by (simp add: os_read_dir_def real_at_def)
  moreover have "n \<in> set ?ns \<longleftrightarrow> fs_get fs (d @ [n]) \<noteq> None" for n
  proof -
    have "n \<in> set ?ns \<longleftrightarrow> (\<exists>q \<in> fst ` set fs. q \<noteq> [] \<and> butlast q = d \<and> last q = n)" by force
    also have "\<dots> \<longleftrightarrow> d @ [n] \<in> fst ` set fs" by (metis append_butlast_last_id butlast_snoc last_snoc snoc_eq_iff_butlast)
    finally show ?thesis by (simp add: map_of_eq_None_iff)
  qed
  ultimately show thesis using that by blast
qed

definition listed :: "filesys \<Rightarrow> location \<Rightarrow> string list \<Rightarrow> string list \<Rightarrow> bool" where
  "listed fs source relative r \<longleftrightarrow>
     reserved_metadata_path (relative @ r) = None \<and>
     (case fs_get fs (source @ r) of None \<Rightarrow> False | Some Special \<Rightarrow> False | Some _ \<Rightarrow> True)"

lemma listed_exists: "listed fs source relative r \<Longrightarrow> fs_get fs (source @ r) \<noteq> None"
  by (cases "fs_get fs (source @ r)") (auto simp: listed_def)

lemma collect_children:
  assumes "\<And>n out. n \<in> set ns \<Longrightarrow>
      \<exists>new. f n out = Inr (out @ new) \<and> fst ` set new = {rel @ n # r | r. P n r}"
  shows "\<exists>new. result_fold f ns out = Inr (out @ new) \<and> fst ` set new = {rel @ n # r | n r. n \<in> set ns \<and> P n r}"
  using assms
proof (induction ns arbitrary: out)
  case (Cons n ns)
  obtain new where new: "f n out = Inr (out @ new)" "fst ` set new = {rel @ n # r | r. P n r}"
    using Cons.prems [of n out] by auto
  obtain more where more: "result_fold f ns (out @ new) = Inr ((out @ new) @ more)"
      "fst ` set more = {rel @ m # r | m r. m \<in> set ns \<and> P m r}"
    using Cons.IH [of "out @ new"] Cons.prems by auto
  have "fst ` set (new @ more) = {rel @ m # r | m r. m \<in> set (n # ns) \<and> P m r}"
    unfolding set_append image_Un new(2) more(2) by auto
  then show ?case using new(1) more(1) by (intro exI [of _ "new @ more"]) simp
qed simp

lemma collect_directory:
  assumes "fs_wf fs" "fs_get fs source = Some Directory" "reserved_metadata_path relative = None"
    and IH: "\<And>source relative out. fs_get fs source \<noteq> None \<Longrightarrow> fs_depth fs < depth + length source \<Longrightarrow>
      \<exists>new. collect_final_metadata depth calm c attr fs desired source relative out = Inr (out @ new) \<and>
        fst ` set new = {relative @ r | r. listed fs source relative r}"
    and depth: "fs_depth fs < Suc depth + length source"
  shows "\<exists>new. collect_final_metadata (Suc depth) calm c attr fs desired source relative out = Inr (out @ new) \<and>
    fst ` set new = {relative @ r | r. listed fs source relative r}"
proof -
  obtain ns where ns: "os_read_dir calm fs source = Inr ns" "\<And>n. n \<in> set ns \<longleftrightarrow> fs_get fs (source @ [n]) \<noteq> None"
    using os_read_dir_calm [OF assms(1,2)] by blast
  let ?f = "\<lambda>child. collect_final_metadata depth calm c attr fs desired (source @ [child]) (relative @ [child])"
  define first where "first = (relative, final_entry c attr source relative (map_of desired relative) KDirectory None)"
  have "\<exists>new. ?f n out = Inr (out @ new) \<and> fst ` set new = {relative @ n # r | r. listed fs source relative (n # r)}"
    if "n \<in> set (sort ns)" for n out
    using IH [of "source @ [n]" "relative @ [n]" out] ns(2) that depth by (simp add: listed_def)
  from collect_children [of "sort ns" ?f relative "\<lambda>n r. listed fs source relative (n # r)" "out @ [first]", OF this]
  obtain new where new: "result_fold ?f (sort ns) (out @ [first]) = Inr ((out @ [first]) @ new)"
      "fst ` set new = {relative @ n # r | n r. n \<in> set (sort ns) \<and> listed fs source relative (n # r)}" by auto
  have "n \<in> set ns" if "listed fs source relative (n # r)" for n r
    using listed_exists [OF that] ns(2) fs_wf_below [OF assms(1), of "source @ [n]" r] by (cases "r = []") auto
  moreover have "listed fs source relative []" using assms(2,3) by (simp add: listed_def)
  ultimately have "fst ` set (first # new) = {relative @ r | r. listed fs source relative r}"
    using new(2) by (auto simp: first_def) (metis neq_Nil_conv)+
  moreover have "os_lstat calm fs source = Inr Directory"
    using os_entry_existing [OF assms(1), of source] assms(2) by (simp add: os_lstat_def)
  ultimately show ?thesis
    using assms(3) ns(1) new(1) by (intro exI [of _ "first # new"]) (simp add: Let_def first_def)
qed

lemma collect_calm:
  assumes "fs_wf fs" "fs_get fs source \<noteq> None" "fs_depth fs < depth + length source"
  shows "\<exists>new. collect_final_metadata depth calm c attr fs desired source relative out = Inr (out @ new) \<and>
    fst ` set new = {relative @ r | r. listed fs source relative r}"
  using assms(2,3)
proof (induction depth arbitrary: source relative out)
  case 0
  then show ?case using fs_depth_bound [of fs source] by simp
next
  case (Suc depth)
  obtain i where i: "fs_get fs source = Some i" using Suc.prems(1) by auto
  have "os_entry fs source = Inr source" using os_entry_existing [OF assms(1)] i by simp
  then have look: "os_lstat calm fs source = Inr i" using i by (simp add: os_lstat_def)
  have leaf: "r = []" if "listed fs source relative r" "i \<noteq> Directory" for r
    using that i missing_below [OF assms(1), of source "source @ r"]
    by (cases r) (auto simp: listed_def strict_prefix_def)
  show ?case
  proof (cases "reserved_metadata_path relative = None")
    case False
    then have "\<not> listed fs source relative r" for r using reserved_up by (auto simp: listed_def)
    then show ?thesis using False by (intro exI [of _ "[]"]) simp
  next
    case True
    show ?thesis
    proof (cases "i = Directory")
      case False
      have "listed fs source relative [] \<longleftrightarrow> i \<noteq> Special" using i True by (cases i) (auto simp: listed_def)
      then have "{relative @ r | r. listed fs source relative r} = (if i = Special then {} else {relative})"
        using leaf [OF _ False] by auto
      then show ?thesis using True look False by (cases i) (auto simp: Let_def)
    next
      case True
      then show ?thesis
        using collect_directory [OF assms(1) _ \<open>reserved_metadata_path relative = None\<close> Suc.IH] i Suc.prems(2) by simp
    qed
  qed
qed

section \<open>Staging for the next boot\<close>

lemma staging_names:
  "trim_start_slash ROOTFS_METADATA_TEMP_PATH \<noteq> trim_start_slash ROOTFS_METADATA_PATH"
  "trim_start_slash PREVIOUS_ROOTFS_METADATA_PATH \<noteq> trim_start_slash ROOTFS_METADATA_PATH"
  "trim_start_slash PREVIOUS_ROOTFS_METADATA_PATH \<noteq> trim_start_slash ROOTFS_METADATA_TEMP_PATH"
  by code_simp+

lemma remove_no_follow_calm:
  assumes "fs_wf fs" "fs_get fs d = Some Directory" "fs_get fs (d @ [n]) \<noteq> Some Directory"
  shows "\<exists>fs'. remove_path_no_follow calm (d @ [n]) fs = (Inr (), fs') \<and> fs_wf fs' \<and>
    (\<forall>q. fs_get fs' q = (if q = d @ [n] then None else fs_get fs q))"
proof (cases "fs_get fs (d @ [n])")
  case None
  then show ?thesis
    using assms os_entry_plain [OF assms(1) plain_dir [OF assms(1,2)], of n]
    by (auto simp: remove_path_no_follow_def os_remove_file_def)
next
  case (Some i)
  have "fs_wf (fs_drop (\<lambda>q. q = d @ [n]) fs)"
  proof (rule fs_wf_drop [OF assms(1)])
    fix p m assume "p = d @ [n]" "fs_get fs (p @ [m]) \<noteq> None"
    then show "p @ [m] = d @ [n]" using fs_wf_parent [OF assms(1), of p m] assms(3) by auto
  qed simp
  moreover have "os_remove_file calm (d @ [n]) fs = (Inr (), fs_drop (\<lambda>q. q = d @ [n]) fs)"
    using Some assms(2,3) os_entry_plain [OF assms(1) plain_dir [OF assms(1,2)], of n]
    by (cases i) (auto simp: os_remove_file_def)
  ultimately show ?thesis by (auto simp: remove_path_no_follow_def)
qed

lemma stage_previous_calm:
  assumes "fs_wf fs" "fs_get fs root = Some Directory" "final \<noteq> prev"
    and "fs_get fs (root @ [final]) = Some (Regular manifest)" "fs_get fs (root @ [prev]) \<noteq> Some Directory"
  shows "\<exists>fs'. stage_previous calm root (root @ [final]) (root @ [prev]) fs = (Inr True, fs') \<and>
    (\<forall>q. fs_get fs' q = (if q = root @ [prev] then Some (Regular manifest)
       else if q = root @ [final] then None else fs_get fs q))"
proof -
  obtain fs2 where two: "remove_path_no_follow calm (root @ [prev]) fs = (Inr (), fs2)" "fs_wf fs2"
      "\<And>q. fs_get fs2 q = (if q = root @ [prev] then None else fs_get fs q)"
    using remove_no_follow_calm [OF assms(1,2,5)] by blast
  define fs3 where "fs3 = (if fs_get fs (root @ [prev]) = None then fs else fs2)"
  have three: "fs_wf fs3" "\<And>q. fs_get fs3 q = (if q = root @ [prev] then None else fs_get fs q)"
    using two assms(1) by (auto simp: fs3_def)
  have root3: "fs_get fs3 root = Some Directory" using three(2) assms(2) by simp
  have "os_rename_file calm (root @ [final]) (root @ [prev]) fs3 =
      (Inr (), fs_put (root @ [prev]) (Regular manifest) (fs_drop (\<lambda>r. r = root @ [final]) fs3))"
    using os_entry_plain [OF three(1) plain_dir [OF three(1) root3]] root3 three(2) assms(3,4)
    by (simp add: os_rename_file_def)
  moreover have "(case os_lstat calm fs (root @ [prev]) of
        Inr Directory \<Rightarrow> (Inl (IoError m), fs) | Inr _ \<Rightarrow> remove_path_no_follow calm (root @ [prev]) fs
      | Inl NotFound \<Rightarrow> (Inr (), fs) | Inl e \<Rightarrow> (Inl e, fs)) = (Inr (), fs3)" for m
    using assms(2,5) two(1) os_entry_plain [OF assms(1) plain_dir [OF assms(1,2)]]
    by (auto simp: fs3_def os_lstat_def split: option.splits inode.splits)
  ultimately have "stage_previous calm root (root @ [final]) (root @ [prev]) fs =
      (Inr True, fs_put (root @ [prev]) (Regular manifest) (fs_drop (\<lambda>r. r = root @ [final]) fs3))"
    by (simp add: stage_previous_def Let_def durable_stage_rename_def staging_directory_fence_def)
  then show ?thesis using three(2) by auto
qed

text \<open>
  Staging before a boot moves the terminal manifest to the replay path, replaces an older one
  there, removes a leftover temporary manifest, and changes nothing else.\<close>

lemma boot_staging_exact:
  assumes "fs_wf fs" "fs_get fs root = Some Directory"
    and "fs_get fs (root @ [trim_start_slash ROOTFS_METADATA_PATH]) = Some (Regular manifest)"
    and "fs_get fs (root @ [trim_start_slash PREVIOUS_ROOTFS_METADATA_PATH]) \<noteq> Some Directory"
    and "fs_get fs (root @ [trim_start_slash ROOTFS_METADATA_TEMP_PATH]) \<noteq> Some Directory"
  shows "\<exists>fs'. stage_terminal_rootfs_metadata_for_boot calm root fs = (Inr True, fs') \<and>
    (\<forall>q. fs_get fs' q =
      (if q = root @ [trim_start_slash PREVIOUS_ROOTFS_METADATA_PATH] then Some (Regular manifest)
       else if q = root @ [trim_start_slash ROOTFS_METADATA_PATH] \<or>
               q = root @ [trim_start_slash ROOTFS_METADATA_TEMP_PATH] then None
       else fs_get fs q))"
proof -
  let ?temp = "trim_start_slash ROOTFS_METADATA_TEMP_PATH" and ?last = "trim_start_slash ROOTFS_METADATA_PATH"
    and ?prev = "trim_start_slash PREVIOUS_ROOTFS_METADATA_PATH"
  obtain fs1 where one: "remove_path_no_follow calm (root @ [?temp]) fs = (Inr (), fs1)" "fs_wf fs1"
      "\<And>q. fs_get fs1 q = (if q = root @ [?temp] then None else fs_get fs q)"
    using remove_no_follow_calm [OF assms(1,2,5)] by blast
  have root1: "fs_get fs1 root = Some Directory" using one(3) assms(2) by simp
  have last1: "fs_get fs1 (root @ [?last]) = Some (Regular manifest)" using one(3) assms(3) staging_names(1) by simp
  have prev1: "fs_get fs1 (root @ [?prev]) \<noteq> Some Directory" using one(3) assms(4) by simp
  obtain fs' where rest: "stage_previous calm root (root @ [?last]) (root @ [?prev]) fs1 = (Inr True, fs')"
      "\<And>q. fs_get fs' q = (if q = root @ [?prev] then Some (Regular manifest)
         else if q = root @ [?last] then None else fs_get fs1 q)"
    using stage_previous_calm [OF one(2) root1 staging_names(2) [symmetric] last1 prev1] by blast
  have "validate_plain_root calm fs root = Inr ()"
    using os_entry_existing [OF assms(1), of root] assms(2) by (simp add: validate_plain_root_def os_lstat_def)
  then have "stage_terminal_rootfs_metadata_for_boot calm root fs = (Inr True, fs')"
    using one(1) last1 root1 rest(1) os_entry_plain [OF one(2) plain_dir [OF one(2) root1]]
    by (simp add: stage_terminal_rootfs_metadata_for_boot_def Let_def os_lstat_def)
  then show ?thesis using rest(2) one(3) staging_names by auto
qed

section \<open>Theorems\<close>

text \<open>
  C17: Extracting a layer of any content changes nothing outside the target directory, on every
  outcome: whiteouts and opaque markers whose parents are links, entries that replace directories by
  links, and the manifest at the end. So does building a whole root file system, guest init and system
  files included, in a directory that holds nothing yet.\<close>

theorem extraction_confined:
  assumes "unpack_confined unpack (rb_rootfs_path b)" "sound_fs (rb_rootfs_path b) fs"
  shows "keeps_host (rb_rootfs_path b) fs
      (snd (extract_layer_with_cap host c attr unpack track layer (rb_rootfs_path b) fs)) \<and>
    (empty_below fs (rb_rootfs_path b) \<longrightarrow>
      keeps_host (rb_rootfs_path b) fs (snd (build host c attr unpack is_root oci_image b fs)))"
proof
  let ?root = "rb_rootfs_path b"
  show "keeps_host ?root fs (snd (extract_layer_with_cap host c attr unpack track layer ?root fs))"
    using host_kept.confined_apply [OF confined_extract_layer [OF assms(1)] assms(2)] .
  define rest where "rest = (case oci_image of Inl e \<Rightarrow> [\<lambda>fs. (Inl e, fs)]
      | Inr layers \<Rightarrow> map (\<lambda>layer. extract_layer_with_metadata host c attr unpack layer ?root) layers) @
    (if rb_guest_init_path b \<noteq> None then [install_guest_init host b] else []) @
    [create_essential_files host b, finalize_rootfs_metadata host c attr is_root ?root]"
  have "confined ?root (extract_layer_with_metadata host c attr unpack layer ?root)" for layer
    using confined_extract_layer [OF assms(1)] unfolding extract_layer_with_metadata_def .
  then have all: "list_all (confined ?root) rest"
    by (auto simp: rest_def list_all_iff intro!: confined_intros split: sum.splits)
  have "confined_from ?root (\<lambda>_. True) (fs_steps rest) (\<lambda>_. True)"
    using host_kept.confinedD [OF host_kept.confined_steps [OF all]] by (simp add: host_kept.confined_from_def)
  then have "confined_from ?root (base_plain ?root) (build host c attr unpack is_root oci_image b) (\<lambda>_. True)"
    using host_kept.confined_from_steps_Cons [OF confined_from_base] by (simp add: build_def rest_def)
  then show "empty_below fs ?root \<longrightarrow> keeps_host ?root fs (snd (build host c attr unpack is_root oci_image b fs))"
    using host_kept.confined_fromD assms(2) empty_below_base_plain by (metis prod.collapse)
qed


text \<open>A whiteout with an empty name at the top of a layer removes the whole root file system.\<close>

lemma empty_whiteout_removes_root:
  assumes "sound_fs root fs" "root \<noteq> []" "fs_get fs root = Some Directory" "te_path entry = Inr ''.wh.''"
  shows "\<exists>metadata' fs'. extract_entry calm c unpack track root entry metadata fs = (Inr metadata', fs') \<and>
    (\<forall>q. fs_get fs' q = (if prefix root q then None else fs_get fs q))"
proof -
  have wf: "fs_wf fs" using assms(1) by (simp add: sound_fs_def)
  have "ParentDir \<notin> set (path_components ''.wh.'')" "normalize_layer_path ''.wh.'' = Some [''.wh.'']"
    "reserved_metadata_path [''.wh.''] = None" "entry_name ''.wh.'' = ''.wh.''" "''.wh.'' \<noteq> ''.wh..wh..opq''"
    "strip_prefix ''.wh.'' ''.wh.'' = Some []" "path_parent ''.wh.'' = Some []"
    "normalize_layer_path (path_join [] []) = Some []" "reserved_metadata_path [] = None" by code_simp+
  moreover have "resolve_within fs root [] = Some root"
    using canonicalize_plain [OF wf rooted_plain [OF assms(1)]] assms(3) by (simp add: resolve_within_def)
  ultimately have "extract_entry calm c unpack track root entry metadata fs =
      (Inr (if track then remove_metadata_descendants [] True metadata else metadata), remove_joined calm root [] fs)"
    using assms(4) by (simp only: extract_entry_def whiteout_def parent_text_def sum.simps option.simps if_False)
  then show ?thesis
    using remove_joined_calm [OF wf assms(3,2), of "''.wh.''" "[]"] by (simp add: whiteout_removes_def)
qed

text \<open>
  C38: On a host that refuses nothing the walk over the extracted tree succeeds, however deep it is, and
  the manifest has an entry for every directory, file and link below the target except the runtime's
  own files.\<close>

theorem manifest_lists_tree:
  assumes "sound_fs root fs" "fs_get fs root = Some Directory"
  shows "\<exists>entries. collect_final_metadata (fs_depth fs + 1) calm c attr fs desired root [] [] = Inr entries \<and>
    fst ` set entries = {r. listed fs root [] r}"
  using collect_calm [of fs root "fs_depth fs + 1" c attr desired "[]" "[]"] assms by (auto simp: sound_fs_def)

text \<open>A simple unpacker for the examples: files and links directly in the target.\<close>

definition unpack_flat :: unpacker where
  "unpack_flat entry root fs =
     (case te_path entry of
        Inl e \<Rightarrow> (Inl e, fs)
      | Inr path \<Rightarrow>
          (case normalize_layer_path path of
             Some [n] \<Rightarrow>
               if fs_get fs root = Some Directory \<and> fs_get fs (root @ [n]) \<noteq> Some Directory
               then (Inr True, fs_put (root @ [n])
                      (case te_link_name entry of Inr (Some t) \<Rightarrow> Symlink t | _ \<Rightarrow> Regular (te_content entry)) fs)
               else (Inr False, fs)
           | _ \<Rightarrow> (Inr False, fs)))"

lemma unpack_flat_confined: "unpack_confined unpack_flat root"
  unfolding unpack_confined_def
proof (intro allI impI)
  fix entry fs assume s: "sound_fs root fs"
  have "keeps_host root fs (fs_put (root @ [n]) i fs)"
    if "fs_get fs root = Some Directory" "fs_get fs (root @ [n]) \<noteq> Some Directory" for n i
    using s that by (intro keeps_host_put) auto
  then show "keeps_host root fs (snd (unpack_flat entry root fs))"
    using keeps_host_refl [OF s] by (auto simp: unpack_flat_def split: sum.splits option.splits list.splits)
qed

definition plain_entry :: "string \<Rightarrow> tar_entry" where
  "plain_entry path =
     \<lparr> te_path = Inr path, te_type = TarRegular, te_link_name = Inr None, te_pax_extensions = Inr None, te_mode = Inr 420,
       te_uid = Inr 0, te_gid = Inr 0, te_mtime = Inr 0, te_size = Inr 0, te_content = ''text'' \<rparr>"

definition plain_codec :: codec where
  "plain_codec = \<lparr> b64_encode = id, b64_decode = Inr, json_encode = (\<lambda>_. []), json_decode = (\<lambda>_. Inl []) \<rparr>"

theorem extraction_confined_witness:
  "unpack_confined unpack_flat [''r''] \<and>
   keeps_host [''r''] linked_image
     (snd (extract_layer_with_cap calm plain_codec (\<lambda>_. (0, 0, 0)) unpack_flat False
        (Some (Inr [Inr (plain_entry ''sbin/.wh.init''), Inr (plain_entry ''motd'')])) [''r''] linked_image))"
  using extraction_confined [of unpack_flat "rootfs_builder_new [''r'']" linked_image calm plain_codec "\<lambda>_. (0, 0, 0)" False
      "Some (Inr [Inr (plain_entry ''sbin/.wh.init''), Inr (plain_entry ''motd'')])"] unpack_flat_confined
  by (simp add: rootfs_builder_new_def linked_image_def sound_fs_def fs_wf_def rooted_def)



theorem manifest_lists_tree_witness:
  "\<exists>entries. collect_final_metadata (fs_depth linked_image + 1) calm plain_codec (\<lambda>_. (0, 0, 0)) linked_image [] [''r''] [] [] =
     Inr entries \<and> fst ` set entries = {r. listed linked_image [''r''] [] r}"
  by (rule manifest_lists_tree) code_simp+

end
