(* ===== verification/Spec2Isabelle.thy ===== *)
theory Spec2Isabelle
  imports Manager_Correctness Compose Oci_Reference Ports_Env State_File Cri_Correctness Pool_Correctness
    Oci_Extraction
begin

text \<open>
  \<^bold>\<open>Verification of A3S Box\<close>

  A3S Box runs OCI images in micro virtual machines or in a shared-kernel sandbox. Callers ask an
  execution manager (\<open>runtime/src/local_execution/\<close>) for a lifecycle operation on a box: create,
  start, pause, resume, kill, restart, snapshot, remove, inspect, reconcile. The manager keeps its
  records in a repository (\<open>runtime/src/managed_execution_store.rs\<close>) over one durable file
  (\<open>runtime/src/box_state.rs\<close>, \<open>core/src/fs_atomic.rs\<close>), acquires volumes and network addresses from
  two further stores (\<open>runtime/src/volume/store.rs\<close>, \<open>runtime/src/network/store.rs\<close>) and drives a
  backend. The command line (\<open>cli/src/state/\<close>) reads and sweeps the same file. The kubelet reaches
  pods and containers through the CRI service (\<open>cri/src/\<close>), whose handlers run concurrently over two
  stores of their own and a third durable file. A warm pool (\<open>runtime/src/pool/\<close>) keeps virtual
  machines booted ahead of their use. The paths below are relative to \<open>src/src/\<close>.

  \<^bold>\<open>Theories and sources\<close>

  \<^item> \<open>Box_Prelude\<close>, \<open>Text_Num\<close>, \<open>Net_Addr\<close>: results as sums, checked machine arithmetic, Rust's
    strings, paths, number and address texts; the collections \<open>result_simps\<close> and \<open>lookup_simps\<close>.
  \<^item> \<open>Box_Config\<close>, \<open>Execution_Plan\<close>: \<open>core/src/config.rs\<close>, \<open>log.rs\<close>, \<open>error.rs\<close>, \<open>execution.rs\<close>;
    which backend a configuration gets, and every reason for refusing one.
  \<^item> \<open>Execution_Types\<close>: \<open>core/src/traits/execution.rs\<close>; identifiers, generations, requests, outcomes.
  \<^item> \<open>Box_Record\<close>: \<open>runtime/src/box_record.rs\<close>; the persisted record, the managed states, pending
    operations and their validation.
  \<^item> \<open>Durable_File\<close>, \<open>Box_State\<close>, \<open>Json_Store\<close>: the files. A disk has the file, its temporary
    sibling and the quarantined copies, each flushed or not. A write is a list of fallible steps, and
    a crash keeps what was flushed. The locale \<open>locked_store\<close> is the contract of a store under a
    lock (a failed update changes nothing readable, a successful one is the closure's result); it is
    interpreted on strict and recovering transactions of the box store and on the map files.
  \<^item> \<open>Managed_Store\<close>: \<open>runtime/src/managed_execution_store.rs\<close>; reservation, transitions fenced by
    generation and state, removal, with the repository as the step relation \<open>managed_step\<close>.
  \<^item> \<open>Network\<close>, \<open>Network_Store\<close>: \<open>core/src/network.rs\<close> (IPv4), the store and its clients, among them
    the pod attachment of \<open>cri/src/runtime_service/network.rs\<close>; the step relation \<open>network_step\<close>.
  \<^item> \<open>Volume_Store\<close>: \<open>core/src/volume.rs\<close>, \<open>runtime/src/volume/store.rs\<close>; \<open>volume_step\<close>.
  \<^item> \<open>Local_Record\<close>, \<open>Resources\<close>, \<open>Local_Manager\<close>, \<open>Local_Operations\<close>, \<open>Local_Api\<close>: the modules of
    \<open>runtime/src/local_execution/\<close>. A manager action takes a world (state file, resource stores,
    backend state, call counter) to a result and a world.
  \<^item> \<open>Manager_Relation\<close>, \<open>Manager_Facts\<close>, \<open>Lifecycle\<close>, \<open>Manager_Correctness\<close>: the locale
    \<open>manager_relation\<close> lifts any relation that every primitive action respects to all operations; it
    is interpreted on the repository's steps. In a calm environment (no faults, no other writer) the
    results of the operations are computed.
  \<^item> \<open>Compose\<close>: \<open>core/src/compose.rs\<close>; project data, its accessors, the start order of services.
  \<^item> \<open>Oci_Reference\<close>: \<open>runtime/src/oci/reference.rs\<close>. \<open>Ports_Env\<close>: \<open>core/src/port.rs\<close>, \<open>core/src/env.rs\<close>.
  \<^item> \<open>State_File\<close>: \<open>cli/src/state/policy.rs\<close>, \<open>cli/src/state/file.rs\<close>; restart policies and the sweep
    over boxes whose process is gone.
  \<^item> \<open>Async_Task\<close>: concurrent asynchronous functions. A task is a resumption: what it does next is a
    function from the shared state to the new state and the rest of the task, so a task can be
    interleaved at every await point. Dropping a future is modelled only where a guard of the code
    acts on it (\<open>cancel_run_pod_sandbox\<close>). The locale \<open>rely_guarantee\<close> is the contract
    of a pool of such tasks: an invariant, and for each task a rely that the guarantees of the others
    imply; its lemmas carry the invariant over every interleaving.
  \<^item> \<open>Cri_Store\<close>: \<open>cri/src/container.rs\<close>, \<open>sandbox.rs\<close>, \<open>state.rs\<close>; the two stores, each method one
    critical section. \<open>Cri_Service\<close>: \<open>cri/src/persistent_store.rs\<close> and the handlers of
    \<open>cri/src/runtime_service/\<close> that start, stop and remove pods and containers, the exit supervisor and
    the reload after a restart of the service. \<open>Cri_Safety\<close>: the invariant of the stores, the
    relies and guarantees of the handlers and the interpretation of \<open>rely_guarantee\<close> on them.
    \<open>Cri_Correctness\<close>: the theorems about every interleaving of handlers.
  \<^item> \<open>Pool_Scaler\<close>: \<open>runtime/src/pool/scaler.rs\<close>; the miss rate window, gateway pressure, and the
    decision that \<open>evaluate\<close> takes. \<open>Warm_Pool\<close>: \<open>runtime/src/pool/warm_pool.rs\<close>; the idle list, the
    snapshot template, and \<open>acquire\<close>, \<open>release\<close>, \<open>drain\<close>, the spawned boots and the maintenance loop
    as tasks of \<open>Async_Task\<close>. \<open>Pool_Safety\<close>: the invariant of the pool and the interpretation of
    \<open>rely_guarantee\<close> and of its extension \<open>lock_order\<close> on these tasks; the latter is the contract of
    tasks that take locks along one order, and its lemma is that some task can always go on.
    \<open>Pool_Correctness\<close>: the theorems about every interleaving.

  \<^item> \<open>Host_Files\<close>: the file system of the host with symbolic links, the kernel's resolution of paths, the
    system calls and Rust's lexical paths. \<open>Guest_Files\<close>: \<open>runtime/src/oci/rootfs.rs\<close>; the resolver for
    paths in a guest's root file system, the operations on guest files, the builder's own files.
    \<open>Guest_Confinement\<close>: the locale \<open>confinement\<close> (a group of operations that keep what the host
    expects, closed under sequences of steps), its interpretation \<open>host_kept\<close>, and the theorems.
  \<^item> \<open>Oci_Layers\<close>: \<open>runtime/src/oci/layers.rs\<close>, \<open>core/src/rootfs_metadata.rs\<close>; extraction of layers,
    whiteouts, the manifest of owners, the builder as a whole. \<open>Layer_Confinement\<close>, \<open>Oci_Extraction\<close>:
    its theorems.

  \<^bold>\<open>What the theorems show\<close>

  \<^item> Files: whatever step fails and whenever the machine stops, the box file holds the old or the new
    records; a file that cannot be parsed is kept; every state that the repository can reach loads.
  \<^item> Repository: a transition happens only from the generation and state that the caller saw, one
    caller wins a claim, records only evolve along the lifecycle, a repeated reservation answers the
    first record.
  \<^item> Manager: every run of requests is a run of repository steps and keeps its invariant; stale
    callers are refused; a restart takes effect once per operation identifier; pause and resume are
    inverse; kill stops and releases; acquisition of resources is all or nothing.
  \<^item> Networks and volumes: addresses are unique and within the subnet, the allocator answers the first
    free address and finds one whenever there is one, volumes in use are not removed.
  \<^item> Plans: the sandbox accepts exactly the configurations it can enforce and never falls back.
  \<^item> Texts and orders: image references and port mappings round-trip; the service order is total on
    every project, lists each service once after its dependencies, and fails only for a cycle or an
    undefined service; the sweep is its reference definition.
  \<^item> CRI: under every interleaving of the handlers a container's workload is started at most once,
    what an answered call reported is in the file, a crash at any moment leaves a file from which the
    service restarts, and the reload reconciles what no longer runs. Schedules are exhibited in which
    a stop is overtaken by a start, a stop of a pod hides an exit code, and a dropped call tears down
    a pod that the store lists.
  \<^item> Warm pool: under every interleaving each machine is with one holder only, the idle list stays
    within its bound, no schedule deadlocks, and a drained pool stays empty. The scaler stays between
    its limits and acts at most once per cooldown. A machine that boots but does not become ready is
    forgotten while it runs.
  \<^item> Guest files and layers: whatever links and entries an image has, extraction, building and every
    operation on guest files change nothing outside the root file system; the host's resolver means the
    file that the guest would reach; whiteouts remove exactly what they name; the manifest lists the
    extracted tree.
  \<^item> Defects: the theorems whose texts say so state where a recovery path, a store or a document
    differs from what the code beside it promises.

  \<^bold>\<open>Choices\<close>

  The content of a file is what its parser answers (a value, or the parser's message). A \<open>HashMap\<close>
  that is only looked up is a map; one that is iterated or persisted is an association list in some
  order. Every I/O failure, the clock, fresh identifiers and writes of other processes are inputs.
  The backend trait, file trees of snapshots, directory sizes, process liveness and the
  teardown of a stopped box are parameters. Machine integers have their width. The address search, the
  dependency visit and both path resolutions (40 links at most) terminate by measures; the walk over
  an extracted tree has the depth of the file system as fuel, which is enough (\<open>manifest_lists_tree\<close>);
  all other recursion is structural.
  Lock acquisition may fail; a held lock serialises, so an operation under it is one step. Paths are
  texts, compared as Rust compares them; only the theories on guest files and layers resolve them in a
  file system, where permissions, times and the sharing of content by hard links are left out, and the
  \<open>tar\<close> crate's \<open>unpack_in\<close> is a parameter that writes below its destination only. In the CRI model each
  method of a store is one step, as is a save of the file under the save lock; every await between
  them is a point of interleaving. In the model of the pool the locks that are held across an await
  have owners, a spawned boot is a worker task, and ticks of the maintenance loop are inputs; floating
  point numbers of the scaler are rational numbers with the rounding of each operation written out.
  What the virtual machines answer is an input of the step. Fields
  that no code reads (the count of workload starts, the answers given) record history for the
  statements.

  \<^bold>\<open>Not modelled\<close>

  Windows branches, panics and join errors, serde's formats, the virtual machine and guest
  (\<open>runtime/src/vm\<close>, \<open>guest/\<close>), registry transfers, the image store and image builds, the CRI's streaming, image
  service and container creation, the HTTP service (\<open>compat/\<close>), attestation, packet I/O, and argument parsing:
  they are I/O around the parts above or third-party code. Left for extension: the runtime plan of a
  compose project (\<open>runtime/src/compose.rs\<close>), the IPv6 allocator, DNS configuration
  (\<open>core/src/dns.rs\<close>), and the caches of OCI layers.
\<close>

end
